(* ===== verification/Prelude.thy ===== *)
theory Prelude
  imports Main "HOL-Library.Word" "HOL-Library.List_Lexorder"
begin

text \<open>
  Shared vocabulary of the development: bytes, Python strings, results of code that may
  raise, and the generic list lemmas the components use.

  \<^item> A Python \<^verbatim>\<open>str\<close> is a sequence of code points, so \<open>pystr\<close> is a list of naturals (a lone
    surrogate is a legal element, as it is in Python); \<open>lit\<close> embeds an ASCII literal.
  \<^item> A Python \<^verbatim>\<open>bytes\<close> is a list of 8-bit words.
  \<^item> Code that may raise returns a sum: \<open>Inl\<close> the exception, \<open>Inr\<close> the value. \<open>bindE\<close> is
    sequencing, \<open>mapE\<close> is a loop that stops at the first exception.
\<close>

section \<open>Types\<close>

type_synonym byte = "8 word"
type_synonym bytes = "byte list"
type_synonym pystr = "nat list"

named_theorems res_simps \<open>rewriting of results of code that may raise\<close>
named_theorems str_simps \<open>evaluation of string predicates on literals\<close>

section \<open>Literals\<close>

definition lit :: "string \<Rightarrow> pystr" where
  "lit s = map of_char s"

lemma lit_Nil [simp]: "lit [] = []"
  by (simp add: lit_def)

lemma lit_eq_iff [simp]: "lit s = lit t \<longleftrightarrow> s = t"
proof
  assume "lit s = lit t"
  then show "s = t"
    unfolding lit_def by (rule map_injective) (simp add: inj_def)
qed simp

lemma lit_eq_Nil [simp]: "lit s = [] \<longleftrightarrow> s = []" "[] = lit s \<longleftrightarrow> s = []"
  by (auto simp: lit_def)

lemma length_lit [simp]: "length (lit s) = length s"
  by (simp add: lit_def)

lemma of_char_less_256: "(of_char c :: nat) < 256"
  by (metis char_of_nat of_char_of nat_of_char_less_256)

lemma set_lit_less: "c \<in> set (lit s) \<Longrightarrow> c < 256"
  by (auto simp: lit_def of_char_less_256)

section \<open>Results\<close>

definition bindE :: "'e + 'a \<Rightarrow> ('a \<Rightarrow> 'e + 'b) \<Rightarrow> 'e + 'b" where
  "bindE m f = (case m of Inl e \<Rightarrow> Inl e | Inr a \<Rightarrow> f a)"

definition guardE :: "bool \<Rightarrow> 'e \<Rightarrow> 'e + unit" where
  "guardE b e = (if b then Inr () else Inl e)"

fun mapE :: "('a \<Rightarrow> 'e + 'b) \<Rightarrow> 'a list \<Rightarrow> 'e + 'b list" where
  "mapE f [] = Inr []"
| "mapE f (x # xs) = bindE (f x) (\<lambda>y. bindE (mapE f xs) (\<lambda>ys. Inr (y # ys)))"

definition is_ok :: "'e + 'a \<Rightarrow> bool" where
  "is_ok r = (case r of Inl _ \<Rightarrow> False | Inr _ \<Rightarrow> True)"

lemma bindE_simps [simp]: "bindE (Inl e) f = Inl e" "bindE (Inr a) f = f a"
  by (simp_all add: bindE_def)

lemma bindE_Inr_iff [res_simps]:
  "bindE m f = Inr b \<longleftrightarrow> (\<exists>a. m = Inr a \<and> f a = Inr b)"
  by (cases m) auto

lemma bindE_Inl_iff [res_simps]:
  "bindE m f = Inl e \<longleftrightarrow> m = Inl e \<or> (\<exists>a. m = Inr a \<and> f a = Inl e)"
  by (cases m) auto

lemma guardE_Inr_iff [simp]: "guardE b e = Inr x \<longleftrightarrow> b"
  by (cases x) (simp add: guardE_def)

lemma guardE_Inl_iff [simp]: "guardE b e = Inl e' \<longleftrightarrow> \<not> b \<and> e = e'"
  by (simp add: guardE_def)

lemma guardE_True [simp]: "guardE True e = Inr ()" "guardE False e = Inl e"
  by (simp_all add: guardE_def)

lemma if_Inl_Inr_iff [res_simps]:
  "(if c then Inl e else m) = Inr x \<longleftrightarrow> \<not> c \<and> m = Inr x"
  "(if c then m else Inl e) = Inr x \<longleftrightarrow> c \<and> m = Inr x"
  "((if c then m else m') = Inr x) \<longleftrightarrow> (if c then m = Inr x else m' = Inr x)"
  by auto

lemma is_ok_simps [simp]: "is_ok (Inl e) = False" "is_ok (Inr a) = True"
  by (simp_all add: is_ok_def)

lemma is_ok_iff: "is_ok r \<longleftrightarrow> (\<exists>a. r = Inr a)"
  by (cases r) auto

lemma is_ok_bindE: "is_ok (bindE m f) \<longleftrightarrow> (\<exists>a. m = Inr a \<and> is_ok (f a))"
  by (cases m) auto

lemma is_ok_mapE: "is_ok (mapE f xs) \<longleftrightarrow> (\<forall>x \<in> set xs. is_ok (f x))"
  by (induction xs) (simp_all add: is_ok_bindE, auto simp: is_ok_iff)

lemma bindE_cong [fundef_cong]:
  "m = m' \<Longrightarrow> (\<And>a. m' = Inr a \<Longrightarrow> f a = f' a) \<Longrightarrow> bindE m f = bindE m' f'"
  by (cases m') auto

lemma mapE_cong [fundef_cong]:
  "xs = ys \<Longrightarrow> (\<And>x. x \<in> set ys \<Longrightarrow> f x = g x) \<Longrightarrow> mapE f xs = mapE g ys"
proof (induction ys arbitrary: xs)
  case (Cons y ys)
  then show ?case by (auto intro!: bindE_cong)
qed simp

lemma mapE_Inr_length: "mapE f xs = Inr ys \<Longrightarrow> length ys = length xs"
  by (induction xs arbitrary: ys) (auto simp: bindE_Inr_iff)

lemma mapE_Inr_nth:
  "mapE f xs = Inr ys \<Longrightarrow> i < length xs \<Longrightarrow> f (xs ! i) = Inr (ys ! i)"
proof (induction xs arbitrary: ys i)
  case (Cons x xs)
  then show ?case by (cases i) (auto simp: bindE_Inr_iff)
qed simp

lemma mapE_Inr_iff: "mapE f xs = Inr ys \<longleftrightarrow> list_all2 (\<lambda>x y. f x = Inr y) xs ys"
proof (induction xs arbitrary: ys)
  case (Cons x xs)
  show ?case
    by (cases ys) (auto simp: bindE_Inr_iff Cons.IH)
qed auto

lemma mapE_Inr_map: "(\<And>x. x \<in> set xs \<Longrightarrow> f x = Inr (g x)) \<Longrightarrow> mapE f xs = Inr (map g xs)"
  by (induction xs) auto

lemma mapE_Inr_iff_guarded:
  "(\<And>x y. x \<in> set xs \<Longrightarrow> f x = Inr y \<longleftrightarrow> P x \<and> y = g x) \<Longrightarrow>
     mapE f xs = Inr ys \<longleftrightarrow> (\<forall>x \<in> set xs. P x) \<and> ys = map g xs"
proof (induction xs arbitrary: ys)
  case (Cons x xs)
  then have "f x = Inr y \<longleftrightarrow> P x \<and> y = g x" for y by simp
  then show ?case using Cons by (auto simp: bindE_Inr_iff)
qed auto

lemma mapE_Inr_mem: "mapE f xs = Inr ys \<Longrightarrow> y \<in> set ys \<Longrightarrow> \<exists>x \<in> set xs. f x = Inr y"
  by (induction xs arbitrary: ys) (auto simp: bindE_Inr_iff)

lemma is_ok_if_Inl: "is_ok (if c then Inl e else m) \<longleftrightarrow> \<not> c \<and> is_ok m"
  by simp

lemma find_SomeD: "find P xs = Some x \<Longrightarrow> P x \<and> x \<in> set xs"
  by (induction xs) (auto split: if_splits)

lemma card_set_eq_length: "card (set xs) \<noteq> length xs \<longleftrightarrow> \<not> distinct xs"
  using card_distinct distinct_card by blast

text \<open>A loop that threads an accumulator and stops at the first exception.\<close>

fun foldE :: "('a \<Rightarrow> 's \<Rightarrow> 'e + 's) \<Rightarrow> 'a list \<Rightarrow> 's \<Rightarrow> 'e + 's" where
  "foldE f [] s = Inr s"
| "foldE f (x # xs) s = bindE (f x s) (foldE f xs)"

lemma foldE_append: "foldE f (xs @ ys) s = bindE (foldE f xs s) (foldE f ys)"
proof (induction xs arbitrary: s)
  case (Cons x xs)
  then show ?case by (cases "f x s") auto
qed simp

lemma foldE_invariant:
  assumes "foldE f xs s = Inr t" "P s"
    and "\<And>x s s'. x \<in> set xs \<Longrightarrow> P s \<Longrightarrow> f x s = Inr s' \<Longrightarrow> P s'"
  shows "P t"
  using assms
proof (induction xs arbitrary: s)
  case (Cons x xs)
  then obtain s' where "f x s = Inr s'" "foldE f xs s' = Inr t" by (auto simp: bindE_Inr_iff)
  with Cons show ?case by (metis list.set_intros)
qed simp

text \<open>Short-circuit conjunction and disjunction over a list of tests that may raise.\<close>

fun allE :: "('a \<Rightarrow> 'e + bool) \<Rightarrow> 'a list \<Rightarrow> 'e + bool" where
  "allE f [] = Inr True"
| "allE f (x # xs) = bindE (f x) (\<lambda>b. if b then allE f xs else Inr False)"

fun anyE :: "('a \<Rightarrow> 'e + bool) \<Rightarrow> 'a list \<Rightarrow> 'e + bool" where
  "anyE f [] = Inr False"
| "anyE f (x # xs) = bindE (f x) (\<lambda>b. if b then Inr True else anyE f xs)"

lemma allE_cong [fundef_cong]:
  "xs = ys \<Longrightarrow> (\<And>x. x \<in> set ys \<Longrightarrow> f x = g x) \<Longrightarrow> allE f xs = allE g ys"
proof (induction ys arbitrary: xs)
  case (Cons y ys)
  then show ?case by (auto intro!: bindE_cong)
qed simp

lemma anyE_cong [fundef_cong]:
  "xs = ys \<Longrightarrow> (\<And>x. x \<in> set ys \<Longrightarrow> f x = g x) \<Longrightarrow> anyE f xs = anyE g ys"
proof (induction ys arbitrary: xs)
  case (Cons y ys)
  then show ?case by (auto intro!: bindE_cong)
qed simp

lemma first_such_Cons:
  "(\<exists>ys x zs. a # as = ys @ x # zs \<and> (\<forall>y \<in> set ys. P y) \<and> Q x) \<longleftrightarrow>
   Q a \<or> P a \<and> (\<exists>ys x zs. as = ys @ x # zs \<and> (\<forall>y \<in> set ys. P y) \<and> Q x)" (is "?L \<longleftrightarrow> ?R")
proof
  assume ?L
  then obtain ys x zs where ys: "a # as = ys @ x # zs" "\<forall>y \<in> set ys. P y" "Q x" by blast
  then show ?R by (cases ys) auto
next
  assume ?R
  then consider "Q a" | ys x zs where "P a" "as = ys @ x # zs" "\<forall>y \<in> set ys. P y" "Q x" by blast
  then show ?L
  proof cases
    case 1
    then show ?thesis by (intro exI[of _ "[]"]) auto
  next
    case 2
    then show ?thesis by (intro exI[of _ "a # ys"]) auto
  qed
qed

lemma allE_Inr_iff:
  "allE f xs = Inr b \<longleftrightarrow>
     (if b then \<forall>x \<in> set xs. f x = Inr True
      else \<exists>ys x zs. xs = ys @ x # zs \<and> (\<forall>y \<in> set ys. f y = Inr True) \<and> f x = Inr False)"
proof (induction xs)
  case (Cons a as)
  then show ?case unfolding first_such_Cons
    by (cases "f a"; cases b; cases "projr (f a)") simp_all
qed auto

lemma anyE_Inr_iff:
  "anyE f xs = Inr b \<longleftrightarrow>
     (if b then \<exists>ys x zs. xs = ys @ x # zs \<and> (\<forall>y \<in> set ys. f y = Inr False) \<and> f x = Inr True
      else \<forall>x \<in> set xs. f x = Inr False)"
proof (induction xs)
  case (Cons a as)
  then show ?case unfolding first_such_Cons
    by (cases "f a"; cases b; cases "projr (f a)") simp_all
qed auto

section \<open>Association lists\<close>

lemma map_of_insertion_order:
  "distinct (map fst kvs) \<Longrightarrow> (k, v) \<in> set kvs \<Longrightarrow> map_of kvs k = Some v"
  by (simp add: map_of_is_SomeI)

lemma set_eq_of_map_of_eq:
  assumes "distinct (map fst xs)" "distinct (map fst ys)" "map_of xs = map_of ys"
  shows "set xs = set ys"
  using assms by (metis map_of_eqI map_of_inject_set set_map)

section \<open>Sequences\<close>

lemma adjacent_zip_iff:
  "(\<forall>(l, r) \<in> set (zip xs (tl xs)). P l r) \<longleftrightarrow> (\<forall>i. Suc i < length xs \<longrightarrow> P (xs ! i) (xs ! Suc i))"
proof (cases xs)
  case (Cons a ys)
  then show ?thesis
    by (auto simp: set_zip nth_Cons' split: if_splits) (metis Suc_pred' nth_Cons_Suc less_Suc_eq_0_disj nth_Cons_0)+
qed simp

end
