(* ===== verification/Utf8.thy ===== *)
theory Utf8
  imports Prelude
begin

text \<open>
  The strict UTF-8 codec of the Python standard library, as \<^verbatim>\<open>str.encode("utf-8")\<close> and
  \<^verbatim>\<open>bytes.decode("utf-8", errors="strict")\<close> behave: encoding refuses lone surrogates, decoding
  refuses truncated, overlong, surrogate and out-of-range sequences. The two lemmas
  \<open>utf8_decode_encode\<close> and \<open>utf8_encode_decode\<close> make it a bijection between surrogate-free strings
  and well-formed byte strings; the framing and canonicalisation theories rest on them.
\<close>

definition is_surrogate :: "nat \<Rightarrow> bool" where
  "is_surrogate c \<longleftrightarrow> 0xD800 \<le> c \<and> c \<le> 0xDFFF"

definition is_scalar :: "nat \<Rightarrow> bool" where
  "is_scalar c \<longleftrightarrow> c < 0x110000 \<and> \<not> is_surrogate c"

definition byte_of :: "nat \<Rightarrow> byte" where
  "byte_of n = of_nat n"

definition utf8_char :: "nat \<Rightarrow> bytes option" where
  "utf8_char c =
     (if c < 0x80 then Some [byte_of c]
      else if c < 0x800 then Some [byte_of (0xC0 + c div 64), byte_of (0x80 + c mod 64)]
      else if is_surrogate c then None
      else if c < 0x10000 then
        Some [byte_of (0xE0 + c div 4096), byte_of (0x80 + c div 64 mod 64), byte_of (0x80 + c mod 64)]
      else if c < 0x110000 then
        Some [byte_of (0xF0 + c div 262144), byte_of (0x80 + c div 4096 mod 64),
              byte_of (0x80 + c div 64 mod 64), byte_of (0x80 + c mod 64)]
      else None)"

fun utf8_encode :: "pystr \<Rightarrow> bytes option" where
  "utf8_encode [] = Some []"
| "utf8_encode (c # cs) =
     (case utf8_char c of None \<Rightarrow> None
      | Some bs \<Rightarrow> (case utf8_encode cs of None \<Rightarrow> None | Some r \<Rightarrow> Some (bs @ r)))"

definition is_cont :: "byte \<Rightarrow> bool" where
  "is_cont b \<longleftrightarrow> 0x80 \<le> unat b \<and> unat b < 0xC0"

definition cont_bits :: "byte \<Rightarrow> nat" where
  "cont_bits b = unat b - 0x80"

fun utf8_decode :: "bytes \<Rightarrow> pystr option" where
  "utf8_decode [] = Some []"
| "utf8_decode (b0 # bs) =
     (let n = unat b0 in
      if n < 0x80 then map_option (Cons n) (utf8_decode bs)
      else if n < 0xC0 then None
      else if n < 0xE0 then
        (case bs of
           b1 # r \<Rightarrow>
             (let c = (n - 0xC0) * 64 + cont_bits b1 in
              if is_cont b1 \<and> 0x80 \<le> c then map_option (Cons c) (utf8_decode r) else None)
         | _ \<Rightarrow> None)
      else if n < 0xF0 then
        (case bs of
           b1 # b2 # r \<Rightarrow>
             (let c = (n - 0xE0) * 4096 + cont_bits b1 * 64 + cont_bits b2 in
              if is_cont b1 \<and> is_cont b2 \<and> 0x800 \<le> c \<and> \<not> is_surrogate c
              then map_option (Cons c) (utf8_decode r) else None)
         | _ \<Rightarrow> None)
      else
        (case bs of
           b1 # b2 # b3 # r \<Rightarrow>
             (let c = (n - 0xF0) * 262144 + cont_bits b1 * 4096 + cont_bits b2 * 64 + cont_bits b3 in
              if is_cont b1 \<and> is_cont b2 \<and> is_cont b3 \<and> 0x10000 \<le> c \<and> c < 0x110000
              then map_option (Cons c) (utf8_decode r) else None)
         | _ \<Rightarrow> None))"

declare utf8_decode.simps(2) [simp del]

section \<open>Encoding\<close>

lemma unat_byte_of: "n < 256 \<Longrightarrow> unat (byte_of n) = n"
  by (simp add: byte_of_def unat_of_nat)

lemma byte_of_unat [simp]: "byte_of (unat b) = b"
  by (simp add: byte_of_def)

lemma utf8_char_Some_iff: "(\<exists>bs. utf8_char c = Some bs) \<longleftrightarrow> is_scalar c"
  by (auto simp: utf8_char_def is_scalar_def is_surrogate_def)

lemma utf8_encode_Some_iff: "(\<exists>bs. utf8_encode s = Some bs) \<longleftrightarrow> (\<forall>c \<in> set s. is_scalar c)"
proof (induction s)
  case (Cons c s)
  then show ?case
    using utf8_char_Some_iff[of c] by (auto split: option.splits)
qed simp

lemma utf8_encode_append:
  "utf8_encode (s @ t) =
     (case utf8_encode s of None \<Rightarrow> None
      | Some a \<Rightarrow> (case utf8_encode t of None \<Rightarrow> None | Some b \<Rightarrow> Some (a @ b)))"
  by (induction s) (auto split: option.splits)

lemma is_scalar_ascii: "c < 0xD800 \<Longrightarrow> is_scalar c"
  by (simp add: is_scalar_def is_surrogate_def)

lemma utf8_encode_lit: "\<exists>bs. utf8_encode (lit s) = Some bs"
  unfolding utf8_encode_Some_iff
  by (auto dest!: set_lit_less intro!: is_scalar_ascii)

section \<open>Round trips\<close>

lemma cont_byte_of:
  assumes "x < 64"
  shows "is_cont (byte_of (0x80 + x))" "cont_bits (byte_of (0x80 + x)) = x"
proof -
  have "unat (byte_of (0x80 + x)) = 0x80 + x"
    using assms by (intro unat_byte_of) simp
  then show "is_cont (byte_of (0x80 + x))" "cont_bits (byte_of (0x80 + x)) = x"
    using assms unfolding is_cont_def cont_bits_def by linarith+
qed

lemma div_recompose3: "(c::nat) div 4096 * 4096 + c div 64 mod 64 * 64 + c mod 64 = c"
proof -
  have "c div 4096 = c div 64 div 64" by (simp add: div_mult2_eq[symmetric])
  moreover have "c div 64 div 64 * 64 + c div 64 mod 64 = c div 64" by simp
  moreover have "c div 64 * 64 + c mod 64 = c" by simp
  ultimately show ?thesis by linarith
qed

lemma div_recompose4:
  "(c::nat) div 262144 * 262144 + c div 4096 mod 64 * 4096 + c div 64 mod 64 * 64 + c mod 64 = c"
proof -
  have "c div 262144 = c div 4096 div 64" by (simp add: div_mult2_eq[symmetric])
  moreover have "c div 4096 div 64 * 64 + c div 4096 mod 64 = c div 4096" by simp
  ultimately have "c div 262144 * 262144 + c div 4096 mod 64 * 4096 = c div 4096 * 4096"
    by linarith
  then show ?thesis using div_recompose3[of c] by simp
qed

lemma utf8_decode_char:
  assumes "utf8_char c = Some bs"
  shows "utf8_decode (bs @ r) = map_option (Cons c) (utf8_decode r)"
proof -
  have sc: "is_scalar c" using assms utf8_char_Some_iff by blast
  consider "c < 0x80" | "0x80 \<le> c" "c < 0x800" | "0x800 \<le> c" "c < 0x10000"
    | "0x10000 \<le> c" "c < 0x110000"
    using sc by (auto simp: is_scalar_def) linarith
  then show ?thesis
  proof cases
    case 1
    then have "bs = [byte_of c]" using assms by (simp add: utf8_char_def)
    then show ?thesis using 1 by (simp add: utf8_decode.simps(2) unat_byte_of Let_def)
  next
    case 2
    then have bs: "bs = [byte_of (0xC0 + c div 64), byte_of (0x80 + c mod 64)]"
      using assms by (simp add: utf8_char_def)
    have b0: "unat (byte_of (0xC0 + c div 64)) = 0xC0 + c div 64"
      using 2 by (intro unat_byte_of) linarith
    have "c div 64 < 32" using 2 by linarith
    then show ?thesis using 2
      unfolding bs append_Cons append_Nil utf8_decode.simps(2) b0 Let_def list.case
      by (simp add: cont_byte_of)
  next
    case 3
    then have bs: "bs = [byte_of (0xE0 + c div 4096), byte_of (0x80 + c div 64 mod 64),
        byte_of (0x80 + c mod 64)]"
      using assms by (auto simp: utf8_char_def split: if_splits)
    have b0: "unat (byte_of (0xE0 + c div 4096)) = 0xE0 + c div 4096"
      using 3 by (intro unat_byte_of) linarith
    have "c div 4096 < 16" using 3 by linarith
    moreover have "\<not> is_surrogate c" using sc by (simp add: is_scalar_def)
    ultimately show ?thesis using 3
      unfolding bs append_Cons append_Nil utf8_decode.simps(2) b0 Let_def list.case
      by (simp add: cont_byte_of div_recompose3)
  next
    case 4
    then have bs: "bs = [byte_of (0xF0 + c div 262144), byte_of (0x80 + c div 4096 mod 64),
        byte_of (0x80 + c div 64 mod 64), byte_of (0x80 + c mod 64)]"
      using assms by (auto simp: utf8_char_def split: if_splits)
    have b0: "unat (byte_of (0xF0 + c div 262144)) = 0xF0 + c div 262144"
      using 4 by (intro unat_byte_of) linarith
    show ?thesis using 4
      unfolding bs append_Cons append_Nil utf8_decode.simps(2) b0 Let_def list.case
      by (simp add: cont_byte_of div_recompose4)
  qed
qed

lemma utf8_decode_encode: "utf8_encode s = Some bs \<Longrightarrow> utf8_decode bs = Some s"
proof (induction s arbitrary: bs)
  case (Cons c s)
  then obtain x r where "utf8_char c = Some x" "utf8_encode s = Some r" "bs = x @ r"
    by (auto split: option.splits)
  then show ?case using Cons.IH by (simp add: utf8_decode_char)
qed simp

lemma radix64: "(y::nat) < 64 \<Longrightarrow> (a * 64 + y) mod 64 = y" "y < 64 \<Longrightarrow> (a * 64 + y) div 64 = a"
  by simp_all

lemma cont_bits_less: "is_cont b \<Longrightarrow> cont_bits b < 64"
  unfolding is_cont_def cont_bits_def by linarith

lemma byte_of_cont: "is_cont b \<Longrightarrow> byte_of (0x80 + cont_bits b) = b"
  by (simp add: is_cont_def cont_bits_def)

lemma utf8_char_two:
  assumes "0xC0 \<le> unat b0" "unat b0 < 0xE0" "is_cont b1"
    and "c = (unat b0 - 0xC0) * 64 + cont_bits b1" "0x80 \<le> c"
  shows "utf8_char c = Some [b0, b1]"
proof -
  have x: "cont_bits b1 < 64" using assms(3) by (rule cont_bits_less)
  have d: "c div 64 = unat b0 - 0xC0" "c mod 64 = cont_bits b1"
    using x assms(4) by auto
  have "c < 0x800" using assms(2,4) x by linarith
  then have "utf8_char c = Some [byte_of (0xC0 + c div 64), byte_of (0x80 + c mod 64)]"
    using assms(5) by (simp add: utf8_char_def)
  then show ?thesis using assms(1,3) by (simp add: d byte_of_cont)
qed

lemma utf8_char_three:
  assumes "0xE0 \<le> unat b0" "unat b0 < 0xF0" "is_cont b1" "is_cont b2"
    and c: "c = (unat b0 - 0xE0) * 4096 + cont_bits b1 * 64 + cont_bits b2"
    and "0x800 \<le> c" "\<not> is_surrogate c"
  shows "utf8_char c = Some [b0, b1, b2]"
proof -
  have x: "cont_bits b1 < 64" "cont_bits b2 < 64" using assms(3,4) by (simp_all add: cont_bits_less)
  have q: "c = ((unat b0 - 0xE0) * 64 + cont_bits b1) * 64 + cont_bits b2" using c by simp
  have d: "c mod 64 = cont_bits b2" "c div 64 = (unat b0 - 0xE0) * 64 + cont_bits b1"
    unfolding q using x by (simp_all only: radix64)
  have e: "c div 64 mod 64 = cont_bits b1" "c div 64 div 64 = unat b0 - 0xE0"
    unfolding d(2) using x by (simp_all only: radix64)
  have f: "c div 4096 = unat b0 - 0xE0" using e(2) by (simp add: div_mult2_eq[symmetric])
  have "c < 0x10000" using assms(2) c x by linarith
  then have "utf8_char c =
      Some [byte_of (0xE0 + c div 4096), byte_of (0x80 + c div 64 mod 64), byte_of (0x80 + c mod 64)]"
    using assms(6,7) by (simp add: utf8_char_def)
  then show ?thesis using assms(1,3,4) by (simp add: d(1) e(1) f byte_of_cont)
qed

lemma utf8_char_four:
  assumes "0xF0 \<le> unat b0" "is_cont b1" "is_cont b2" "is_cont b3"
    and c: "c = (unat b0 - 0xF0) * 262144 + cont_bits b1 * 4096 + cont_bits b2 * 64 + cont_bits b3"
    and "0x10000 \<le> c" "c < 0x110000"
  shows "utf8_char c = Some [b0, b1, b2, b3]"
proof -
  have x: "cont_bits b1 < 64" "cont_bits b2 < 64" "cont_bits b3 < 64"
    using assms(2-4) by (simp_all add: cont_bits_less)
  have q: "c = (((unat b0 - 0xF0) * 64 + cont_bits b1) * 64 + cont_bits b2) * 64 + cont_bits b3"
    using c by simp
  have d: "c mod 64 = cont_bits b3"
      "c div 64 = ((unat b0 - 0xF0) * 64 + cont_bits b1) * 64 + cont_bits b2"
    unfolding q using x by (simp_all only: radix64)
  have e: "c div 64 mod 64 = cont_bits b2" "c div 64 div 64 = (unat b0 - 0xF0) * 64 + cont_bits b1"
    unfolding d(2) using x by (simp_all only: radix64)
  have f: "c div 64 div 64 mod 64 = cont_bits b1" "c div 64 div 64 div 64 = unat b0 - 0xF0"
    unfolding e(2) using x by (simp_all only: radix64)
  have g: "c div 4096 mod 64 = cont_bits b1" "c div 262144 = unat b0 - 0xF0"
    using f by (simp_all add: div_mult2_eq[symmetric])
  have "\<not> is_surrogate c" using assms(6) by (simp add: is_surrogate_def)
  then have "utf8_char c =
      Some [byte_of (0xF0 + c div 262144), byte_of (0x80 + c div 4096 mod 64),
            byte_of (0x80 + c div 64 mod 64), byte_of (0x80 + c mod 64)]"
    using assms(6,7) by (simp add: utf8_char_def)
  then show ?thesis using assms(1-4) by (simp add: d(1) e(1) g byte_of_cont)
qed

lemma utf8_encode_decode: "utf8_decode bs = Some s \<Longrightarrow> utf8_encode s = Some bs"
proof (induction bs arbitrary: s rule: utf8_decode.induct)
  case (2 b0 bs)
  have one: "unat b0 < 0x80 \<Longrightarrow> utf8_char (unat b0) = Some [b0]"
    by (simp add: utf8_char_def)
  from "2.prems" show ?case
    unfolding utf8_decode.simps(2)
    using one "2.IH" utf8_char_two utf8_char_three utf8_char_four
    by (auto simp: Let_def not_less split: if_splits list.splits)
qed simp

lemma utf8_encode_inj: "utf8_encode s = Some bs \<Longrightarrow> utf8_encode t = Some bs \<Longrightarrow> s = t"
  by (metis option.inject utf8_decode_encode)

end
