(* ===== verification/Framing.thy ===== *)
theory Framing
  imports Utf8
begin

text \<open>
  Model of \<^verbatim>\<open>src/shared/stdio_framing.py\<close>: bounded LF framing over binary descriptors.

  The reader object is the record \<open>reader\<close>; its \<^verbatim>\<open>read\<close> callback is a function from the requested
  size and the world to a reply and the next world, so that any chunking, short read, foreign
  exception and protocol violation of the callback is covered. \<open>read_frame\<close> is the loop of the
  method, one equation per branch, and returns the reader it leaves behind also when it raises.
  The operating system is an interface: the locale \<open>byte_stream\<close> states what \<^verbatim>\<open>os.read\<close> promises on
  a finite stream, \<open>byte_sink\<close> what \<^verbatim>\<open>os.write\<close> promises; both are interpreted on a pipe that
  cuts its transfers by an arbitrary schedule.
\<close>

section \<open>Definitions\<close>

definition MAX_BINARY_FRAME_BYTES :: nat where
  "MAX_BINARY_FRAME_BYTES = 2 * 1024 * 1024"

definition MAX_BINARY_READ_BYTES :: nat where
  "MAX_BINARY_READ_BYTES = 64 * 1024"

datatype frame_error = FRAME_TOO_LARGE | INCOMPLETE_FRAME | INVALID_UTF8 | READ_FAILED | WRITE_FAILED

text \<open>What the Python code may raise here: the closed frame error, or a \<^verbatim>\<open>ValueError\<close>.\<close>

datatype frame_exc = FrameError frame_error | FrameValueError | FrameUnicodeEncodeError

text \<open>A reply of the \<^verbatim>\<open>read\<close> callback; \<open>NotBytes\<close> is a result that is not a \<^verbatim>\<open>bytes\<close> object.\<close>

datatype read_reply = Chunk bytes | NotBytes | RaisesFrameError frame_error | RaisesOther

record reader =
  maximum_bytes :: nat
  buffer :: bytes
  eof :: bool

definition new_reader :: "int \<Rightarrow> frame_exc + reader" where
  "new_reader maximum =
     (if 0 < maximum \<and> maximum \<le> int MAX_BINARY_FRAME_BYTES
      then Inr \<lparr>maximum_bytes = nat maximum, buffer = [], eof = False\<rparr>
      else Inl FrameValueError)"

fun find_lf :: "bytes \<Rightarrow> nat option" where
  "find_lf [] = None"
| "find_lf (b # bs) = (if b = 10 then Some 0 else map_option Suc (find_lf bs))"

definition decode_frame :: "bytes \<Rightarrow> frame_error + pystr option" where
  "decode_frame content =
     (case utf8_decode content of Some s \<Rightarrow> Inr (Some s) | None \<Rightarrow> Inl INVALID_UTF8)"

function read_frame ::
  "(nat \<Rightarrow> 'e \<Rightarrow> read_reply \<times> 'e) \<Rightarrow> reader \<Rightarrow> 'e \<Rightarrow> (frame_error + pystr option) \<times> reader \<times> 'e"
where
  "read_frame rd r e =
     (case find_lf (buffer r) of
        Some newline \<Rightarrow>
          (let frame_bytes = newline + 1 in
           if frame_bytes > maximum_bytes r then (Inl FRAME_TOO_LARGE, r, e)
           else (decode_frame (take newline (buffer r)),
                 r\<lparr>buffer := drop frame_bytes (buffer r)\<rparr>, e))
      | None \<Rightarrow>
          if length (buffer r) \<ge> maximum_bytes r then (Inl FRAME_TOO_LARGE, r, e)
          else if eof r then
            (if buffer r \<noteq> [] then Inl INCOMPLETE_FRAME else Inr None, r, e)
          else
            (let requested = min MAX_BINARY_READ_BYTES (maximum_bytes r - length (buffer r)) in
             case rd requested e of
               (RaisesFrameError x, e') \<Rightarrow> (Inl x, r, e')
             | (RaisesOther, e') \<Rightarrow> (Inl READ_FAILED, r, e')
             | (NotBytes, e') \<Rightarrow> (Inl READ_FAILED, r, e')
             | (Chunk chunk, e') \<Rightarrow>
                 if length chunk > requested then (Inl READ_FAILED, r, e')
                 else if chunk = [] then read_frame rd (r\<lparr>eof := True\<rparr>) e'
                 else read_frame rd (r\<lparr>buffer := buffer r @ chunk\<rparr>) e'))"
  by pat_completeness auto
termination
proof (relation "measure (\<lambda>(rd, r, e). if eof r then 0 else Suc (maximum_bytes r - length (buffer r)))",
    goal_cases)
  case 2
  then show ?case by auto
next
  case 3
  then show ?case by (auto simp: neq_Nil_conv)
qed auto

declare read_frame.simps [simp del]

text \<open>The platform facts \<^verbatim>\<open>configure_binary_descriptors\<close> consults.\<close>

record binary_platform =
  o_binary :: int
  has_msvcrt :: bool
  setmode_ok :: "int \<Rightarrow> bool"

definition configure_binary_descriptors :: "binary_platform \<Rightarrow> int list \<Rightarrow> frame_error + unit" where
  "configure_binary_descriptors pf ds =
     (if o_binary pf = 0 then Inr ()
      else if has_msvcrt pf \<and> list_all (\<lambda>d. 0 \<le> d \<and> setmode_ok pf d) ds then Inr ()
      else Inl READ_FAILED)"

text \<open>\<^verbatim>\<open>os.read\<close> on one descriptor: \<open>None\<close> is \<^verbatim>\<open>OSError\<close>.\<close>

definition descriptor_read ::
  "(nat \<Rightarrow> 'e \<Rightarrow> bytes option \<times> 'e) \<Rightarrow> nat \<Rightarrow> 'e \<Rightarrow> read_reply \<times> 'e" where
  "descriptor_read os_read maximum e =
     (case os_read maximum e of
        (Some b, e') \<Rightarrow> (Chunk b, e')
      | (None, e') \<Rightarrow> (RaisesFrameError READ_FAILED, e'))"

definition from_descriptor :: "binary_platform \<Rightarrow> int \<Rightarrow> int \<Rightarrow> frame_exc + reader" where
  "from_descriptor pf descriptor maximum =
     (if descriptor < 0 then Inl FrameValueError
      else case configure_binary_descriptors pf [descriptor] of
             Inl x \<Rightarrow> Inl (FrameError x)
           | Inr _ \<Rightarrow> new_reader maximum)"

text \<open>
  \<^verbatim>\<open>read_binary_to_eof\<close> reads a stream that may never end: \<open>None\<close> is "does not return".
\<close>

partial_function (option) read_chunks ::
  "(nat \<Rightarrow> 'e \<Rightarrow> bytes option \<times> 'e) \<Rightarrow> bytes list \<Rightarrow> 'e \<Rightarrow> ((frame_error + bytes) \<times> 'e) option"
where
  "read_chunks os_read chunks e =
     (case os_read MAX_BINARY_READ_BYTES e of
        (None, e') \<Rightarrow> Some (Inl READ_FAILED, e')
      | (Some chunk, e') \<Rightarrow>
          if chunk = [] then Some (Inr (concat chunks), e')
          else read_chunks os_read (chunks @ [chunk]) e')"

definition read_binary_to_eof ::
  "binary_platform \<Rightarrow> (nat \<Rightarrow> 'e \<Rightarrow> bytes option \<times> 'e) \<Rightarrow> int \<Rightarrow> 'e \<Rightarrow> ((frame_error + bytes) \<times> 'e) option"
where
  "read_binary_to_eof pf os_read descriptor e =
     (case configure_binary_descriptors pf [descriptor] of
        Inl x \<Rightarrow> Some (Inl x, e)
      | Inr _ \<Rightarrow> read_chunks os_read [] e)"

text \<open>\<^verbatim>\<open>os.write\<close>: the count it reports, or \<open>None\<close> for \<^verbatim>\<open>OSError\<close>.\<close>

function write_loop :: "(bytes \<Rightarrow> 'w \<Rightarrow> int option \<times> 'w) \<Rightarrow> bytes \<Rightarrow> 'w \<Rightarrow> (frame_error + unit) \<times> 'w" where
  "write_loop os_write view w =
     (if view = [] then (Inr (), w)
      else case os_write view w of
             (None, w') \<Rightarrow> (Inl WRITE_FAILED, w')
           | (Some written, w') \<Rightarrow>
               if written \<le> 0 then (Inl WRITE_FAILED, w')
               else write_loop os_write (drop (nat written) view) w')"
  by pat_completeness auto
termination
  by (relation "measure (\<lambda>(f, view, w). length view)") auto

declare write_loop.simps [simp del]

definition write_binary_bytes ::
  "binary_platform \<Rightarrow> (bytes \<Rightarrow> 'w \<Rightarrow> int option \<times> 'w) \<Rightarrow> int \<Rightarrow> bytes \<Rightarrow> 'w \<Rightarrow> (frame_error + unit) \<times> 'w" where
  "write_binary_bytes pf os_write descriptor content w =
     (case configure_binary_descriptors pf [descriptor] of
        Inl x \<Rightarrow> (Inl x, w)
      | Inr _ \<Rightarrow> write_loop os_write content w)"

definition utf8_lf_frame :: "pystr \<Rightarrow> frame_exc + bytes" where
  "utf8_lf_frame text =
     (if 13 \<in> set text \<or> 10 \<in> set text then Inl FrameValueError
      else case utf8_encode text of
             None \<Rightarrow> Inl FrameUnicodeEncodeError
           | Some b \<Rightarrow> Inr (b @ [10]))"

definition write_utf8_lf_frame ::
  "binary_platform \<Rightarrow> (bytes \<Rightarrow> 'w \<Rightarrow> int option \<times> 'w) \<Rightarrow> int \<Rightarrow> pystr \<Rightarrow> 'w \<Rightarrow> (frame_exc + unit) \<times> 'w" where
  "write_utf8_lf_frame pf os_write descriptor text w =
     (case utf8_lf_frame text of
        Inl x \<Rightarrow> (Inl x, w)
      | Inr b \<Rightarrow> (case write_binary_bytes pf os_write descriptor b w of
                   (Inl x, w') \<Rightarrow> (Inl (FrameError x), w')
                 | (Inr _, w') \<Rightarrow> (Inr (), w')))"

text \<open>A client that reads frame after frame; it stops at the first error and at the clean end.\<close>

fun read_frames ::
  "nat \<Rightarrow> (nat \<Rightarrow> 'e \<Rightarrow> read_reply \<times> 'e) \<Rightarrow> reader \<Rightarrow> 'e \<Rightarrow> (frame_error + pystr option) list"
where
  "read_frames 0 rd r e = []"
| "read_frames (Suc n) rd r e =
     (case read_frame rd r e of
        (Inr (Some s), r', e') \<Rightarrow> Inr (Some s) # read_frames n rd r' e'
      | (x, r', e') \<Rightarrow> [x])"

section \<open>Abstract specification: frames of a byte string\<close>

definition next_frame :: "nat \<Rightarrow> bytes \<Rightarrow> (frame_error + pystr option) \<times> bytes" where
  "next_frame m bs =
     (case find_lf bs of
        Some i \<Rightarrow>
          if i + 1 > m then (Inl FRAME_TOO_LARGE, bs)
          else (decode_frame (take i bs), drop (i + 1) bs)
      | None \<Rightarrow>
          if length bs \<ge> m then (Inl FRAME_TOO_LARGE, bs)
          else if bs \<noteq> [] then (Inl INCOMPLETE_FRAME, bs) else (Inr None, bs))"

fun split_frames :: "nat \<Rightarrow> nat \<Rightarrow> bytes \<Rightarrow> (frame_error + pystr option) list" where
  "split_frames 0 m bs = []"
| "split_frames (Suc n) m bs =
     (case next_frame m bs of
        (Inr (Some s), bs') \<Rightarrow> Inr (Some s) # split_frames n m bs'
      | (x, bs') \<Rightarrow> [x])"

lemma find_lf_append:
  "find_lf (xs @ ys) =
     (case find_lf xs of Some i \<Rightarrow> Some i | None \<Rightarrow> map_option (\<lambda>j. length xs + j) (find_lf ys))"
proof (induction xs)
  case Nil
  show ?case by (cases "find_lf ys") auto
next
  case (Cons x xs)
  then show ?case by (cases "find_lf ys") (auto split: option.splits)
qed

lemma find_lf_less: "find_lf bs = Some i \<Longrightarrow> i < length bs"
  by (induction bs arbitrary: i) (auto split: if_splits)

lemma find_lf_None_iff: "find_lf bs = None \<longleftrightarrow> 10 \<notin> set bs"
  by (induction bs) auto

section \<open>The stream interface\<close>

locale byte_stream =
  fixes os_read :: "nat \<Rightarrow> 'e \<Rightarrow> bytes option \<times> 'e"
    and content :: "'e \<Rightarrow> bytes"
  assumes read_takes_prefix:
      "0 < n \<Longrightarrow> \<exists>c e'. os_read n e = (Some c, e') \<and> length c \<le> n \<and> content e = c @ content e'"
    and read_empty_is_eof: "0 < n \<Longrightarrow> os_read n e = (Some [], e') \<Longrightarrow> content e = [] \<and> content e' = []"
begin

lemma read_frame_next_frame:
  assumes "length (buffer r) \<le> maximum_bytes r" "eof r \<longrightarrow> content e = []"
  shows "\<exists>r' e'. read_frame (descriptor_read os_read) r e =
            (fst (next_frame (maximum_bytes r) (buffer r @ content e)), r', e') \<and>
          length (buffer r') \<le> maximum_bytes r \<and> maximum_bytes r' = maximum_bytes r \<and>
          (eof r' \<longrightarrow> content e' = []) \<and>
          buffer r' @ content e' = snd (next_frame (maximum_bytes r) (buffer r @ content e))"
  using assms
proof (induction "descriptor_read os_read" r e rule: read_frame.induct)
  case (1 r e)
  let ?m = "maximum_bytes r" and ?b = "buffer r"
  show ?case
  proof (cases "find_lf ?b")
    case (Some i)
    with "1.prems" show ?thesis
      by (subst read_frame.simps) (auto simp: Let_def next_frame_def find_lf_append dest!: find_lf_less)
  next
    case None
    consider (full) "?m \<le> length ?b" | (ended) "length ?b < ?m" "eof r" | (more) "length ?b < ?m" "\<not> eof r"
      by linarith
    then show ?thesis
    proof cases
      case full
      with None show ?thesis
        by (subst read_frame.simps)
          (use "1.prems" in \<open>auto simp: next_frame_def find_lf_append split: option.splits\<close>)
    next
      case ended
      with None show ?thesis
        by (subst read_frame.simps) (use "1.prems" in \<open>auto simp: next_frame_def\<close>)
    next
      case more
      define req where "req = min MAX_BINARY_READ_BYTES (?m - length ?b)"
      have req: "0 < req" "req \<le> ?m - length ?b"
        using more by (auto simp: req_def MAX_BINARY_READ_BYTES_def)
      obtain c e' where rd: "os_read req e = (Some c, e')" "length c \<le> req" "content e = c @ content e'"
        using read_takes_prefix[OF req(1)] by blast
      have dr: "descriptor_read os_read req e = (Chunk c, e')"
        using rd(1) by (simp add: descriptor_read_def)
      note dr' = this[unfolded req_def]
      show ?thesis
      proof (cases "c = []")
        case True
        with rd(1) have "content e = []" "content e' = []"
          using read_empty_is_eof[OF req(1)] by blast+
        then show ?thesis
          using "1.hyps"(1)[OF None _ more(2) refl dr'[symmetric] refl] None more rd(2) True dr' "1.prems"
          by (subst read_frame.simps) (auto simp: Let_def req_def)
      next
        case False
        then show ?thesis
          using "1.hyps"(2)[OF None _ more(2) refl dr'[symmetric] refl] None more rd(2,3) dr' req(2)
          by (subst read_frame.simps) (auto simp: Let_def req_def)
      qed
    qed
  qed
qed

lemma read_frames_split_frames:
  assumes "length (buffer r) \<le> maximum_bytes r" "eof r \<longrightarrow> content e = []"
  shows "read_frames n (descriptor_read os_read) r e =
           split_frames n (maximum_bytes r) (buffer r @ content e)"
  using assms
proof (induction n arbitrary: r e)
  case (Suc n)
  let ?nf = "next_frame (maximum_bytes r) (buffer r @ content e)"
  obtain r' e' where step: "read_frame (descriptor_read os_read) r e = (fst ?nf, r', e')"
      "length (buffer r') \<le> maximum_bytes r" "maximum_bytes r' = maximum_bytes r"
      "eof r' \<longrightarrow> content e' = []" "buffer r' @ content e' = snd ?nf"
    using read_frame_next_frame[OF Suc.prems] by blast
  then have "read_frames n (descriptor_read os_read) r' e' =
      split_frames n (maximum_bytes r) (snd ?nf)"
    using Suc.IH[of r' e'] by simp
  with step(1) show ?case
    by (cases ?nf) (auto split: sum.splits option.splits)
qed simp

lemma read_chunks_to_eof: "\<exists>e'. read_chunks os_read acc e = Some (Inr (concat acc @ content e), e')"
proof (induction "length (content e)" arbitrary: acc e rule: less_induct)
  case less
  have pos: "0 < MAX_BINARY_READ_BYTES" by (simp add: MAX_BINARY_READ_BYTES_def)
  obtain c e' where rd: "os_read MAX_BINARY_READ_BYTES e = (Some c, e')" "content e = c @ content e'"
    using read_takes_prefix[OF pos] by blast
  show ?case
  proof (cases "c = []")
    case True
    then show ?thesis
      using rd read_empty_is_eof[OF pos, of e e'] by (subst read_chunks.simps) simp
  next
    case False
    then obtain e'' where "read_chunks os_read (acc @ [c]) e' = Some (Inr (concat (acc @ [c]) @ content e'), e'')"
      using less[of e' "acc @ [c]"] rd(2) by auto
    then show ?thesis using False rd by (subst read_chunks.simps) simp
  qed
qed

end

section \<open>The sink interface\<close>

locale byte_sink =
  fixes os_write :: "bytes \<Rightarrow> 'w \<Rightarrow> int option \<times> 'w"
    and sent :: "'w \<Rightarrow> bytes"
  assumes write_sends_prefix:
      "os_write v w = (Some k, w') \<Longrightarrow> 0 < k \<Longrightarrow> sent w' = sent w @ take (nat k) v"
    and write_failure_sends_nothing:
      "os_write v w = (reply, w') \<Longrightarrow> reply = None \<or> the reply \<le> 0 \<Longrightarrow> sent w' = sent w"
begin

lemma write_loop_sends:
  "write_loop os_write v w = (x, w') \<Longrightarrow>
     (\<exists>n. sent w' = sent w @ take n v) \<and> (x = Inr () \<longrightarrow> sent w' = sent w @ v)"
proof (induction "length v" arbitrary: v w rule: less_induct)
  case less
  show ?case
  proof (cases "v = []")
    case True
    then show ?thesis using less.prems by (simp add: write_loop.simps)
  next
    case False
    obtain reply w1 where wr: "os_write v w = (reply, w1)" by force
    show ?thesis
    proof (cases "reply = None \<or> the reply \<le> 0")
      case True
      then have "x = Inl WRITE_FAILED" "w' = w1"
        using less.prems wr False by (auto simp: write_loop.simps[of os_write v] split: option.splits if_splits)
      moreover have "sent w1 = sent w" using write_failure_sends_nothing[OF wr True] .
      ultimately show ?thesis by (auto intro: exI[of _ 0])
    next
      case fine: False
      then obtain k where k: "reply = Some k" "0 < k" by auto
      have step: "write_loop os_write (drop (nat k) v) w1 = (x, w')"
        using less.prems wr False k by (simp add: write_loop.simps[of os_write v])
      have "length (drop (nat k) v) < length v" using False k(2) by simp
      from less.hyps[OF this step] obtain n where
        n: "sent w' = sent w1 @ take n (drop (nat k) v)" and
        all: "x = Inr () \<longrightarrow> sent w' = sent w1 @ drop (nat k) v" by blast
      have pre: "sent w1 = sent w @ take (nat k) v"
        using write_sends_prefix[OF wr[unfolded k(1)] k(2)] .
      have "sent w' = sent w @ take (nat k + n) v" using n pre by (simp add: take_add)
      then show ?thesis using all pre by auto
    qed
  qed
qed

end

section \<open>A pipe that cuts its transfers arbitrarily\<close>

text \<open>
  The reading end holds the schedule of the sizes the kernel hands over and the bytes in flight; the
  writing end holds the schedule of accepted counts (zero or negative: the call fails) and the bytes
  accepted so far. Quantifying over the schedule quantifies over every chunking.
\<close>

fun pipe_read :: "nat \<Rightarrow> nat list \<times> bytes \<Rightarrow> bytes option \<times> (nat list \<times> bytes)" where
  "pipe_read n ([], bs) = (Some (take n bs), ([], drop n bs))"
| "pipe_read n (k # ks, bs) =
     (let m = min n (Suc k) in (Some (take m bs), (ks, drop m bs)))"

fun pipe_write :: "bytes \<Rightarrow> int list \<times> bytes \<Rightarrow> int option \<times> (int list \<times> bytes)" where
  "pipe_write v ([], out) = (Some (int (length v)), ([], out @ v))"
| "pipe_write v (k # ks, out) =
     (if k < 0 then (None, (ks, out))
      else let m = min (nat k) (length v) in (Some (int m), (ks, out @ take m v)))"

interpretation pipe_in: byte_stream pipe_read snd
proof
  fix n :: nat and e :: "nat list \<times> bytes"
  assume "0 < n"
  then show "\<exists>c e'. pipe_read n e = (Some c, e') \<and> length c \<le> n \<and> snd e = c @ snd e'"
    by (cases "(n, e)" rule: pipe_read.cases) (auto simp: Let_def)
next
  fix n :: nat and e e' :: "nat list \<times> bytes"
  assume "0 < n" "pipe_read n e = (Some [], e')"
  then show "snd e = [] \<and> snd e' = []"
    by (cases "(n, e)" rule: pipe_read.cases) (auto simp: Let_def)
qed

interpretation pipe_out: byte_sink pipe_write snd
proof
  fix v :: bytes and w w' :: "int list \<times> bytes" and k
  assume "pipe_write v w = (Some k, w')" "0 < k"
  then show "snd w' = snd w @ take (nat k) v"
    by (cases "(v, w)" rule: pipe_write.cases) (auto simp: Let_def split: if_splits)
next
  fix v :: bytes and w w' :: "int list \<times> bytes" and reply
  assume "pipe_write v w = (reply, w')" "reply = None \<or> the reply \<le> 0"
  then show "snd w' = snd w"
    by (cases "(v, w)" rule: pipe_write.cases) (auto simp: Let_def split: if_splits)
qed

section \<open>Round trip of one encoded frame\<close>

lemma utf8_char_no_lf: "utf8_char c = Some bs \<Longrightarrow> c \<noteq> 10 \<Longrightarrow> 10 \<notin> set bs"
proof -
  assume a: "utf8_char c = Some bs" "c \<noteq> 10"
  have "b \<noteq> 10" if "b \<in> set bs" for b
  proof
    assume "b = 10"
    then have "unat b = 10" by simp
    with that a show False
      by (auto simp: utf8_char_def is_surrogate_def unat_byte_of split: if_splits)
  qed
  then show ?thesis by blast
qed

lemma utf8_encode_no_lf: "utf8_encode s = Some bs \<Longrightarrow> 10 \<notin> set s \<Longrightarrow> 10 \<notin> set bs"
  by (induction s arbitrary: bs) (auto split: option.splits dest: utf8_char_no_lf)

lemma next_frame_of_lf_frame:
  assumes "utf8_lf_frame text = Inr f" "length f \<le> m"
  shows "next_frame m (f @ rest) = (Inr (Some text), rest)"
proof -
  obtain b where b: "utf8_encode text = Some b" "f = b @ [10]" "10 \<notin> set text"
    using assms(1) by (auto simp: utf8_lf_frame_def split: if_splits option.splits)
  have "find_lf (f @ rest) = Some (length b)"
    using b utf8_encode_no_lf[OF b(1)] by (simp add: find_lf_append find_lf_None_iff[THEN iffD2])
  then show ?thesis
    using b assms(2) utf8_decode_encode[OF b(1)] by (simp add: next_frame_def decode_frame_def)
qed

lemma split_frames_of_lf_frames:
  assumes "mapE utf8_lf_frame texts = Inr frames" "\<forall>f \<in> set frames. length f \<le> m" "0 < m"
  shows "split_frames (Suc (length texts)) m (concat frames) = map (Inr \<circ> Some) texts @ [Inr None]"
  using assms
proof (induction texts arbitrary: frames)
  case Nil
  then show ?case by (simp add: next_frame_def)
next
  case (Cons t ts)
  then obtain f fs where f: "utf8_lf_frame t = Inr f" "mapE utf8_lf_frame ts = Inr fs" "frames = f # fs"
    by (auto simp: bindE_Inr_iff)
  with Cons show ?case by (simp add: next_frame_of_lf_frame)
qed

lemma new_reader_Inr:
  "new_reader m = Inr r \<Longrightarrow> 0 < maximum_bytes r \<and> maximum_bytes r = nat m \<and> buffer r = [] \<and> \<not> eof r"
  by (auto simp: new_reader_def split: if_splits)

section \<open>Properties\<close>

text \<open>
  C7 (frames_independent_of_chunking). However the operating system cuts the incoming bytes into
  chunks, a reader opened with a legal limit returns exactly the frames of the byte string: the
  sequence of results of \<^verbatim>\<open>read_frame\<close> is the sequence that splitting the whole byte string at LF
  under the limit gives, errors included.
\<close>

theorem frames_independent_of_chunking:
  assumes "new_reader m = Inr r"
  shows "read_frames n (descriptor_read pipe_read) r (schedule, bs) = split_frames n (nat m) bs"
  using pipe_in.read_frames_split_frames[of r "(schedule, bs)" n] new_reader_Inr[OF assms]
  by simp

theorem frames_independent_of_chunking_witness:
  "read_frames 3 (descriptor_read pipe_read) \<lparr>maximum_bytes = 8, buffer = [], eof = False\<rparr>
     ([0, 1, 0], [104, 105, 10, 111, 107, 10]) =
   split_frames 3 8 [104, 105, 10, 111, 107, 10]"
  using frames_independent_of_chunking[of 8 "\<lparr>maximum_bytes = 8, buffer = [], eof = False\<rparr>"]
  by (simp add: new_reader_def MAX_BINARY_FRAME_BYTES_def)

text \<open>
  C13 (frame_round_trip). Frames written by \<^verbatim>\<open>utf8_lf_frame\<close> that fit the reader's limit are read
  back as the same texts, in order, followed by the clean end of the stream, for every chunking.
\<close>

theorem frame_round_trip:
  assumes "new_reader m = Inr r"
    and "mapE utf8_lf_frame texts = Inr frames"
    and "\<forall>f \<in> set frames. length f \<le> nat m"
  shows "read_frames (Suc (length texts)) (descriptor_read pipe_read) r (schedule, concat frames) =
           map (Inr \<circ> Some) texts @ [Inr None]"
  using pipe_in.read_frames_split_frames[of r "(schedule, concat frames)" "Suc (length texts)"]
    new_reader_Inr[OF assms(1)] split_frames_of_lf_frames[OF assms(2,3)]
  by (auto simp del: read_frames.simps split_frames.simps)

theorem frame_round_trip_witness:
  "read_frames 3 (descriptor_read pipe_read) \<lparr>maximum_bytes = 8, buffer = [], eof = False\<rparr>
     ([0, 2], concat [[104, 105, 10], [0xC3, 0xA9, 10]]) = [Inr (Some [104, 105]), Inr (Some [233]), Inr None]"
proof -
  have "new_reader 8 = Inr \<lparr>maximum_bytes = 8, buffer = [], eof = False\<rparr>"
    by (simp add: new_reader_def MAX_BINARY_FRAME_BYTES_def)
  moreover have "mapE utf8_lf_frame [[104, 105], [233]] = Inr [[104, 105, 10], [0xC3, 0xA9, 10]]"
    by (simp add: utf8_lf_frame_def utf8_char_def byte_of_def)
  ultimately show ?thesis
    using frame_round_trip[of 8 _ "[[104, 105], [233]]" "[[104, 105, 10], [0xC3, 0xA9, 10]]" "[0, 2]"]
    by (simp add: numeral_3_eq_3)
qed

text \<open>
  Whatever the \<^verbatim>\<open>read\<close> callback answers, also when it violates its
  contract, the reader never buffers more than its limit and never changes the limit.
\<close>

theorem reader_buffer_bounded:
  assumes "length (buffer r) \<le> maximum_bytes r" "read_frame rd r e = (x, r', e')"
  shows "length (buffer r') \<le> maximum_bytes r \<and> maximum_bytes r' = maximum_bytes r"
  using assms
proof (induction rd r e rule: read_frame.induct)
  case (1 rd r e)
  let ?req = "min MAX_BINARY_READ_BYTES (maximum_bytes r - length (buffer r))"
  obtain reply e1 where rep: "rd ?req e = (reply, e1)" by force
  show ?case
  proof (cases "find_lf (buffer r) \<noteq> None \<or> maximum_bytes r \<le> length (buffer r) \<or> eof r")
    case True
    then show ?thesis using "1.prems"
      by (subst (asm) read_frame.simps) (auto simp: Let_def split: option.splits if_splits)
  next
    case False
    then have f: "find_lf (buffer r) = None" "\<not> maximum_bytes r \<le> length (buffer r)" "\<not> eof r" by auto
    note ih = "1.IH"[OF f(1) f(2) f(3) refl rep[symmetric]]
    from "1.prems"(2) show ?thesis
      by (subst (asm) read_frame.simps)
        (use f rep ih "1.prems"(1) in \<open>auto simp: Let_def split: read_reply.splits if_splits\<close>)
  qed
qed

theorem reader_buffer_bounded_witness:
  "\<exists>x r' e'. read_frame (\<lambda>n e. (RaisesOther, e)) \<lparr>maximum_bytes = 4, buffer = [1], eof = False\<rparr> () = (x, r', e') \<and>
     length (buffer r') \<le> 4 \<and> maximum_bytes r' = 4"
proof -
  obtain x r' e' where
    "read_frame (\<lambda>n e. (RaisesOther, e)) \<lparr>maximum_bytes = 4, buffer = [1], eof = False\<rparr> () = (x, r', e')"
    by (metis prod_cases3)
  then show ?thesis using reader_buffer_bounded[of "\<lparr>maximum_bytes = 4, buffer = [1], eof = False\<rparr>"] by fastforce
qed

text \<open>
  \<^verbatim>\<open>write_binary_bytes\<close> hands the descriptor a prefix of the content
  whatever the partial writes are, and the whole content, exactly once and in order, whenever it
  returns normally.
\<close>

theorem write_delivers_every_byte:
  assumes "write_binary_bytes pf pipe_write d content (schedule, out) = (x, w')"
  shows "(\<exists>n. snd w' = out @ take n content) \<and> (x = Inr () \<longrightarrow> snd w' = out @ content)"
  using assms pipe_out.write_loop_sends[of content "(schedule, out)" x w']
  by (auto simp: write_binary_bytes_def split: sum.splits intro: exI[of _ 0])

theorem write_delivers_every_byte_witness:
  "snd (snd (write_binary_bytes \<lparr>o_binary = 0, has_msvcrt = False, setmode_ok = (\<lambda>_. False)\<rparr>
     pipe_write 1 [1, 2, 3] ([2], [9]))) = [9, 1, 2, 3]"
proof -
  let ?run = "write_binary_bytes \<lparr>o_binary = 0, has_msvcrt = False, setmode_ok = (\<lambda>_. False)\<rparr>
     pipe_write 1 [1, 2, 3] ([2], [9])"
  have ok: "fst ?run = Inr ()"
    by (simp add: write_binary_bytes_def configure_binary_descriptors_def write_loop.simps)
  have "?run = (fst ?run, snd ?run)" by simp
  from write_delivers_every_byte[OF this] ok show ?thesis by simp
qed

text \<open>
  On a finite stream \<^verbatim>\<open>read_binary_to_eof\<close> returns, for every chunking,
  and returns exactly the bytes of the stream; byte 0x1a has no special meaning.
\<close>

theorem read_to_eof_total:
  assumes "configure_binary_descriptors pf [d] = Inr ()"
  shows "\<exists>e'. read_binary_to_eof pf pipe_read d (schedule, bs) = Some (Inr bs, e')"
  using assms pipe_in.read_chunks_to_eof[of "[]" "(schedule, bs)"]
  by (simp add: read_binary_to_eof_def)

theorem read_to_eof_total_witness:
  "\<exists>e'. read_binary_to_eof \<lparr>o_binary = 0, has_msvcrt = False, setmode_ok = (\<lambda>_. False)\<rparr>
     pipe_read 0 ([0, 0], [0x1a, 7]) = Some (Inr [0x1a, 7], e')"
  by (rule read_to_eof_total) (simp add: configure_binary_descriptors_def)

end
