(* ===== verification/Py_Text.thy ===== *)
theory Py_Text
  imports Utf8
begin

text \<open>
  The string operations of the Python standard library that the sources use: character classes,
  \<^verbatim>\<open>str.split\<close>, \<^verbatim>\<open>str.join\<close>, ASCII case folding and prefixes, on code-point lists.
\<close>

definition is_lower :: "nat \<Rightarrow> bool" where
  "is_lower c \<longleftrightarrow> 97 \<le> c \<and> c \<le> 122"

definition is_upper :: "nat \<Rightarrow> bool" where
  "is_upper c \<longleftrightarrow> 65 \<le> c \<and> c \<le> 90"

definition is_digit :: "nat \<Rightarrow> bool" where
  "is_digit c \<longleftrightarrow> 48 \<le> c \<and> c \<le> 57"

text \<open>The code points \<^verbatim>\<open>str.split()\<close> splits at.\<close>

definition is_space :: "nat \<Rightarrow> bool" where
  "is_space c \<longleftrightarrow>
     9 \<le> c \<and> c \<le> 13 \<or> 28 \<le> c \<and> c \<le> 32 \<or> c = 0x85 \<or> c = 0xA0 \<or> c = 0x1680 \<or>
     0x2000 \<le> c \<and> c \<le> 0x200A \<or> c = 0x2028 \<or> c = 0x2029 \<or> c = 0x202F \<or> c = 0x205F \<or> c = 0x3000"

fun str_join :: "pystr \<Rightarrow> pystr list \<Rightarrow> pystr" where
  "str_join sep [] = []"
| "str_join sep [x] = x"
| "str_join sep (x # y # xs) = x @ sep @ str_join sep (y # xs)"

text \<open>\<^verbatim>\<open>s.split(sep)\<close> for a one-character separator: always at least one part.\<close>

fun split_on :: "nat \<Rightarrow> pystr \<Rightarrow> pystr list" where
  "split_on sep [] = [[]]"
| "split_on sep (c # cs) =
     (if c = sep then [] # split_on sep cs
      else case split_on sep cs of [] \<Rightarrow> [[c]] | p # ps \<Rightarrow> (c # p) # ps)"

text \<open>\<^verbatim>\<open>s.split()\<close>: maximal runs of non-space characters.\<close>

function split_words :: "pystr \<Rightarrow> pystr list" where
  "split_words [] = []"
| "split_words (c # cs) =
     (if is_space c then split_words cs
      else takeWhile (\<lambda>x. \<not> is_space x) (c # cs) # split_words (dropWhile (\<lambda>x. \<not> is_space x) cs))"
  by pat_completeness auto
termination
  by (relation "measure length") (auto simp: le_imp_less_Suc length_dropWhile_le)

definition casefold_char :: "nat \<Rightarrow> nat" where
  "casefold_char c = (if is_upper c then c + 32 else c)"

definition casefold :: "pystr \<Rightarrow> pystr" where
  "casefold s = map casefold_char s"

definition starts_with :: "pystr \<Rightarrow> pystr \<Rightarrow> bool" where
  "starts_with p s \<longleftrightarrow> take (length p) s = p"

section \<open>Laws\<close>

lemma str_join_Cons: "str_join sep (x # xs) = x @ concat (map (\<lambda>y. sep @ y) xs)"
  by (induction xs arbitrary: x) auto

lemma split_on_ne [simp]: "split_on sep s \<noteq> []"
  by (induction s) (auto split: list.splits)

lemma join_split_on: "str_join [sep] (split_on sep s) = s"
proof (induction s)
  case (Cons c cs)
  obtain p ps where sp: "split_on sep cs = p # ps" using split_on_ne by (meson neq_Nil_conv)
  then show ?case using Cons by (auto simp: str_join_Cons)
qed simp

lemma split_on_no_sep: "p \<in> set (split_on sep s) \<Longrightarrow> sep \<notin> set p"
proof (induction s arbitrary: p)
  case (Cons c cs)
  then show ?case by (auto split: list.splits if_splits)
qed simp

lemma split_on_append_sep:
  "sep \<notin> set x \<Longrightarrow> split_on sep (x @ sep # s) = x # split_on sep s"
  by (induction x) auto

lemma split_on_single: "sep \<notin> set x \<Longrightarrow> split_on sep x = [x]"
  by (induction x) auto

lemma split_on_join:
  "xs \<noteq> [] \<Longrightarrow> \<forall>x \<in> set xs. sep \<notin> set x \<Longrightarrow> split_on sep (str_join [sep] xs) = xs"
  by (induction "[sep]" xs rule: str_join.induct) (auto simp: split_on_append_sep split_on_single)

lemma set_split_on: "p \<in> set (split_on sep s) \<Longrightarrow> set p \<subseteq> set s"
proof (induction s arbitrary: p)
  case (Cons c cs)
  show ?case
  proof (cases "split_on sep cs")
    case (Cons q qs)
    then show ?thesis using Cons.prems Cons.IH
      by (auto split: if_splits) blast+
  qed simp
qed simp

lemma casefold_idem [simp]: "casefold (casefold s) = casefold s"
  by (auto simp: casefold_def casefold_char_def is_upper_def)

lemma casefold_simps [simp]:
  "casefold [] = []" "casefold (c # s) = casefold_char c # casefold s"
  "casefold (s @ t) = casefold s @ casefold t" "length (casefold s) = length s"
  by (simp_all add: casefold_def)

lemma split_words_no_space: "w \<in> set (split_words s) \<Longrightarrow> w \<noteq> [] \<and> (\<forall>c \<in> set w. \<not> is_space c)"
proof (induction s rule: split_words.induct)
  case (2 c cs)
  show ?case
  proof (cases "is_space c")
    case True
    then show ?thesis using "2.IH"(1) "2.prems" by simp
  next
    case False
    then consider "w = c # takeWhile (\<lambda>x. \<not> is_space x) cs"
      | "w \<in> set (split_words (dropWhile (\<lambda>x. \<not> is_space x) cs))"
      using "2.prems" by auto
    then show ?thesis
    proof cases
      case 1
      then show ?thesis using False set_takeWhileD by fastforce
    qed (use "2.IH"(2) False in blast)
  qed
qed simp

end
