(* ===== verification/Regex.thy ===== *)
theory Regex
  imports Py_Text
begin

text \<open>
  Regular expressions, so that the patterns of the sources are transcribed symbol by symbol. The code
  only ever asks whether a whole string matches (\<^verbatim>\<open>fullmatch\<close>, or a pattern anchored at both ends),
  which \<open>fullmatch\<close> decides by derivatives; \<open>lang\<close> is the usual meaning and \<open>fullmatch_iff\<close>
  relates the two.
\<close>

datatype rx =
    Never
  | Empty
  | Cls "nat \<Rightarrow> bool"
  | Alt rx rx
  | Cat rx rx
  | Star rx

section \<open>Notation of the sources\<close>

definition Chr :: "nat \<Rightarrow> rx" where
  "Chr c = Cls (\<lambda>d. d = c)"

definition Str :: "string \<Rightarrow> rx" where
  "Str s = foldr (\<lambda>c. Cat (Chr c)) (lit s) Empty"

definition Opt :: "rx \<Rightarrow> rx" where
  "Opt r = Alt Empty r"

definition Plus :: "rx \<Rightarrow> rx" where
  "Plus r = Cat r (Star r)"

text \<open>\<^verbatim>\<open>r{k}\<close>, \<^verbatim>\<open>r{0,k}\<close> and \<^verbatim>\<open>r{m,n}\<close>.\<close>

fun Times :: "nat \<Rightarrow> rx \<Rightarrow> rx" where
  "Times 0 r = Empty"
| "Times (Suc k) r = Cat r (Times k r)"

fun AtMost :: "nat \<Rightarrow> rx \<Rightarrow> rx" where
  "AtMost 0 r = Empty"
| "AtMost (Suc k) r = Alt Empty (Cat r (AtMost k r))"

definition Between :: "nat \<Rightarrow> nat \<Rightarrow> rx \<Rightarrow> rx" where
  "Between m n r = Cat (Times m r) (AtMost (n - m) r)"

text \<open>Sequences of several parts.\<close>

fun Cats :: "rx list \<Rightarrow> rx" where
  "Cats [] = Empty"
| "Cats [r] = r"
| "Cats (r # s # rs) = Cat r (Cats (s # rs))"

section \<open>Matching by derivatives\<close>

fun nullable :: "rx \<Rightarrow> bool" where
  "nullable Never = False"
| "nullable Empty = True"
| "nullable (Cls p) = False"
| "nullable (Alt r s) = (nullable r \<or> nullable s)"
| "nullable (Cat r s) = (nullable r \<and> nullable s)"
| "nullable (Star r) = True"

fun alt :: "rx \<Rightarrow> rx \<Rightarrow> rx" where
  "alt Never s = s"
| "alt r Never = r"
| "alt r s = Alt r s"

fun cat :: "rx \<Rightarrow> rx \<Rightarrow> rx" where
  "cat Never s = Never"
| "cat Empty s = s"
| "cat r s = Cat r s"

fun deriv :: "nat \<Rightarrow> rx \<Rightarrow> rx" where
  "deriv c Never = Never"
| "deriv c Empty = Never"
| "deriv c (Cls p) = (if p c then Empty else Never)"
| "deriv c (Alt r s) = alt (deriv c r) (deriv c s)"
| "deriv c (Cat r s) =
     (if nullable r then alt (cat (deriv c r) s) (deriv c s) else cat (deriv c r) s)"
| "deriv c (Star r) = cat (deriv c r) (Star r)"

fun fullmatch :: "rx \<Rightarrow> pystr \<Rightarrow> bool" where
  "fullmatch r [] = nullable r"
| "fullmatch r (c # cs) = fullmatch (deriv c r) cs"

section \<open>Meaning\<close>

inductive_set star :: "pystr set \<Rightarrow> pystr set" for L where
  star_Nil: "[] \<in> star L"
| star_append: "u \<in> L \<Longrightarrow> v \<in> star L \<Longrightarrow> u @ v \<in> star L"

fun lang :: "rx \<Rightarrow> pystr set" where
  "lang Never = {}"
| "lang Empty = {[]}"
| "lang (Cls p) = {s. \<exists>c. s = [c] \<and> p c}"
| "lang (Alt r s) = lang r \<union> lang s"
| "lang (Cat r s) = {u @ v |u v. u \<in> lang r \<and> v \<in> lang s}"
| "lang (Star r) = star (lang r)"

lemma nullable_iff: "nullable r \<longleftrightarrow> [] \<in> lang r"
  by (induction r) (auto intro: star_Nil)

lemma lang_alt [simp]: "lang (alt r s) = lang r \<union> lang s"
  by (cases "(r, s)" rule: alt.cases) auto

lemma lang_cat [simp]: "lang (cat r s) = lang (Cat r s)"
  by (cases "(r, s)" rule: cat.cases) auto

lemma star_Cons_iff: "c # s \<in> star L \<longleftrightarrow> (\<exists>u v. s = u @ v \<and> c # u \<in> L \<and> v \<in> star L)"
proof
  assume "c # s \<in> star L"
  then show "\<exists>u v. s = u @ v \<and> c # u \<in> L \<and> v \<in> star L"
  proof (induction "c # s" rule: star.induct)
    case (star_append u v)
    then show ?case by (cases u) auto
  qed
next
  assume "\<exists>u v. s = u @ v \<and> c # u \<in> L \<and> v \<in> star L"
  then obtain u v where "s = u @ v" "c # u \<in> L" "v \<in> star L" by blast
  then show "c # s \<in> star L" using star_append[of "c # u" L v] by simp
qed

lemma Cat_Cons_iff:
  "c # s \<in> lang (Cat q r) \<longleftrightarrow>
     (\<exists>u v. s = u @ v \<and> c # u \<in> lang q \<and> v \<in> lang r) \<or> [] \<in> lang q \<and> c # s \<in> lang r"
  (is "?L \<longleftrightarrow> ?R")
proof
  assume ?L
  then obtain u v where uv: "c # s = u @ v" "u \<in> lang q" "v \<in> lang r" by auto
  then show ?R by (cases u) auto
next
  assume ?R
  then consider u v where "s = u @ v" "c # u \<in> lang q" "v \<in> lang r" | "[] \<in> lang q" "c # s \<in> lang r"
    by blast
  then show ?L
  proof cases
    case 1
    then show ?thesis unfolding lang.simps by (metis (mono_tags, lifting) append_Cons mem_Collect_eq)
  next
    case 2
    then show ?thesis unfolding lang.simps by (metis (mono_tags, lifting) append_Nil mem_Collect_eq)
  qed
qed

lemma lang_deriv: "s \<in> lang (deriv c r) \<longleftrightarrow> c # s \<in> lang r"
proof (induction r arbitrary: s)
  case (Cat q r)
  have "s \<in> lang (deriv c (Cat q r)) \<longleftrightarrow>
      (\<exists>u v. s = u @ v \<and> u \<in> lang (deriv c q) \<and> v \<in> lang r) \<or> [] \<in> lang q \<and> s \<in> lang (deriv c r)"
    by (auto simp: nullable_iff)
  then show ?case unfolding Cat_Cons_iff Cat.IH .
next
  case (Star r)
  then show ?case by (simp add: star_Cons_iff)
qed auto

theorem fullmatch_iff: "fullmatch r s \<longleftrightarrow> s \<in> lang r"
  by (induction s arbitrary: r) (simp_all add: nullable_iff lang_deriv)

section \<open>Meaning of the notation\<close>

lemma lang_Chr [simp]: "lang (Chr c) = {[c]}"
  by (auto simp: Chr_def)

lemma lang_Str [simp]: "lang (Str s) = {lit s}"
proof -
  have "lang (foldr (\<lambda>c. Cat (Chr c)) cs Empty) = {cs}" for cs by (induction cs) auto
  then show ?thesis by (simp add: Str_def)
qed

lemma lang_Opt [simp]: "lang (Opt r) = insert [] (lang r)"
  by (simp add: Opt_def)

lemma Cat_Cls_iff: "s \<in> lang (Cat (Cls p) r) \<longleftrightarrow> (\<exists>c t. s = c # t \<and> p c \<and> t \<in> lang r)"
  by (cases s) (simp_all add: Cat_Cons_iff del: lang.simps(5), simp_all)

lemma star_Cls: "s \<in> star {t. \<exists>c. t = [c] \<and> p c} \<longleftrightarrow> (\<forall>c \<in> set s. p c)"
proof (induction s)
  case (Cons c s)
  then show ?case by (auto simp: star_Cons_iff)
qed (simp add: star_Nil)

lemma lang_Star_Cls [simp]: "lang (Star (Cls p)) = {s. \<forall>c \<in> set s. p c}"
  by (auto simp: star_Cls)

lemma lang_Plus_Cls [simp]: "lang (Plus (Cls p)) = {s. s \<noteq> [] \<and> (\<forall>c \<in> set s. p c)}"
proof -
  have "s \<in> lang (Plus (Cls p)) \<longleftrightarrow> s \<noteq> [] \<and> (\<forall>c \<in> set s. p c)" for s
    unfolding Plus_def Cat_Cls_iff lang_Star_Cls by (cases s) auto
  then show ?thesis by blast
qed

lemma lang_Times_Cls [simp]: "lang (Times k (Cls p)) = {s. length s = k \<and> (\<forall>c \<in> set s. p c)}"
proof (induction k)
  case (Suc k)
  have "s \<in> lang (Times (Suc k) (Cls p)) \<longleftrightarrow> length s = Suc k \<and> (\<forall>c \<in> set s. p c)" for s
    unfolding Times.simps Cat_Cls_iff Suc.IH by (auto simp: length_Suc_conv)
  then show ?case by blast
qed auto

lemma lang_AtMost_Cls [simp]: "lang (AtMost k (Cls p)) = {s. length s \<le> k \<and> (\<forall>c \<in> set s. p c)}"
proof (induction k)
  case (Suc k)
  have "s \<in> lang (AtMost (Suc k) (Cls p)) \<longleftrightarrow> length s \<le> Suc k \<and> (\<forall>c \<in> set s. p c)" for s
    unfolding AtMost.simps lang.simps(4) Un_iff Cat_Cls_iff Suc.IH by (cases s) auto
  then show ?case by blast
qed auto

lemma lang_Cat_Chr [simp]: "c # s \<in> lang (Cat (Chr d) r) \<longleftrightarrow> c = d \<and> s \<in> lang r"
  by auto

text \<open>
  \<^verbatim>\<open>r(?:sep r)*\<close>, for a part that never holds the separator, matches exactly the strings all of
  whose parts, as \<^verbatim>\<open>split(sep)\<close> returns them, match \<open>r\<close>.
\<close>

definition SepBy :: "nat \<Rightarrow> rx \<Rightarrow> rx" where
  "SepBy sep r = Cat r (Star (Cat (Chr sep) r))"

lemma star_sep_iff:
  assumes "\<And>p. p \<in> lang r \<Longrightarrow> sep \<notin> set p"
  shows "s \<in> star (lang (Cat (Chr sep) r)) \<longleftrightarrow>
    (\<exists>ps. s = concat (map (\<lambda>p. sep # p) ps) \<and> set ps \<subseteq> lang r)" (is "_ \<longleftrightarrow> (\<exists>ps. ?P ps s)")
proof
  assume "s \<in> star (lang (Cat (Chr sep) r))"
  then show "\<exists>ps. ?P ps s"
  proof (induction rule: star.induct)
    case star_Nil
    then show ?case by (intro exI[of _ "[]"]) simp
  next
    case (star_append u v)
    then obtain p ps where "u = sep # p" "p \<in> lang r" "?P ps v" by auto
    then show ?case by (intro exI[of _ "p # ps"]) simp
  qed
next
  assume "\<exists>ps. ?P ps s"
  then obtain ps where "?P ps s" by blast
  then show "s \<in> star (lang (Cat (Chr sep) r))"
  proof (induction ps arbitrary: s)
    case (Cons p ps)
    then have "sep # p \<in> lang (Cat (Chr sep) r)" by simp
    moreover have "concat (map (\<lambda>p. sep # p) ps) \<in> star (lang (Cat (Chr sep) r))" using Cons by simp
    ultimately have "(sep # p) @ concat (map (\<lambda>p. sep # p) ps) \<in> star (lang (Cat (Chr sep) r))"
      by (rule star_append)
    then show ?case using Cons.prems by simp
  qed (simp add: star_Nil)
qed

lemma lang_SepBy:
  assumes "\<And>p. p \<in> lang r \<Longrightarrow> sep \<notin> set p"
  shows "s \<in> lang (SepBy sep r) \<longleftrightarrow> set (split_on sep s) \<subseteq> lang r"
proof
  assume "s \<in> lang (SepBy sep r)"
  then obtain p t where "s = p @ t" "p \<in> lang r" "t \<in> star (lang (Cat (Chr sep) r))"
    unfolding SepBy_def by auto
  moreover then obtain ps where "t = concat (map (\<lambda>p. sep # p) ps)" "set ps \<subseteq> lang r"
    using star_sep_iff[of r sep] assms by blast
  ultimately have s: "s = str_join [sep] (p # ps)" "set (p # ps) \<subseteq> lang r"
    by (simp_all add: str_join_Cons)
  then have "split_on sep s = p # ps" using assms by (metis list.discI split_on_join subsetD)
  then show "set (split_on sep s) \<subseteq> lang r" using s(2) by simp
next
  assume parts: "set (split_on sep s) \<subseteq> lang r"
  obtain p ps where sp: "split_on sep s = p # ps" using split_on_ne by (meson neq_Nil_conv)
  have "concat (map (\<lambda>p. sep # p) ps) \<in> star (lang (Cat (Chr sep) r))"
    using star_sep_iff[of r sep] assms parts sp by auto
  moreover have "s = p @ concat (map (\<lambda>p. sep # p) ps)"
    using join_split_on[of sep s] sp by (simp add: str_join_Cons)
  ultimately show "s \<in> lang (SepBy sep r)" using parts sp unfolding SepBy_def by auto
qed

end
