(* ===== verification/Py_Values.thy ===== *)
theory Py_Values
  imports Utf8
begin

text \<open>
  The dynamically typed values the catalog code handles (\<^verbatim>\<open>JsonValue\<close> and \<^verbatim>\<open>Any\<close> in the
  sources), with Python's unbounded integers and IEEE-754 binary64 floats. A float is its bit
  pattern; \<open>f64_units\<close> reads a finite float exactly, as an integer number of units of
  \<open>2 ^ -1075\<close>, so that comparisons between floats and integers are exact, as they are in Python.
\<close>

section \<open>Binary64\<close>

type_synonym float64 = "64 word"

definition f64_exponent :: "float64 \<Rightarrow> nat" where
  "f64_exponent x = unat x div 2 ^ 52 mod 2 ^ 11"

definition f64_fraction :: "float64 \<Rightarrow> nat" where
  "f64_fraction x = unat x mod 2 ^ 52"

definition f64_negative :: "float64 \<Rightarrow> bool" where
  "f64_negative x \<longleftrightarrow> 2 ^ 63 \<le> unat x"

definition f64_finite :: "float64 \<Rightarrow> bool" where
  "f64_finite x \<longleftrightarrow> f64_exponent x \<noteq> 2047"

definition f64_nan :: "float64 \<Rightarrow> bool" where
  "f64_nan x \<longleftrightarrow> f64_exponent x = 2047 \<and> f64_fraction x \<noteq> 0"

definition f64_significand :: "float64 \<Rightarrow> nat" where
  "f64_significand x = (if f64_exponent x = 0 then f64_fraction x else 2 ^ 52 + f64_fraction x)"

definition f64_units :: "float64 \<Rightarrow> int" where
  "f64_units x =
     (let m = int (f64_significand x) * 2 ^ (max 1 (f64_exponent x))
      in if f64_negative x then - m else m)"

definition f64_one :: int where
  "f64_one = 2 ^ 1075"

definition f64_is_integer :: "float64 \<Rightarrow> bool" where
  "f64_is_integer x \<longleftrightarrow> f64_one dvd f64_units x"

fun bit_length :: "nat \<Rightarrow> nat" where
  "bit_length n = (if n = 0 then 0 else Suc (bit_length (n div 2)))"

declare bit_length.simps [simp del]

text \<open>\<^verbatim>\<open>float(n)\<close> for an integer of at most 53 bits: exact.\<close>

definition f64_of_nat :: "nat \<Rightarrow> float64" where
  "f64_of_nat n =
     (if n = 0 then 0
      else let e = bit_length n - 1
           in of_nat ((1023 + e) * 2 ^ 52 + (n * 2 ^ (52 - e) - 2 ^ 52)))"

definition f64_of_int :: "int \<Rightarrow> float64" where
  "f64_of_int n =
     (if n < 0 then of_nat (2 ^ 63 + unat (f64_of_nat (nat (- n)))) else f64_of_nat (nat n))"

lemma bit_length_bounds: "0 < n \<Longrightarrow> 2 ^ (bit_length n - 1) \<le> n \<and> n < 2 ^ bit_length n \<and> 0 < bit_length n"
proof (induction n rule: bit_length.induct)
  case (1 n)
  show ?case
  proof (cases "n div 2 = 0")
    case True
    with "1.prems" have "n = 1" by linarith
    then show ?thesis by (simp add: bit_length.simps)
  next
    case False
    then have ih: "2 ^ (bit_length (n div 2) - 1) \<le> n div 2" "n div 2 < 2 ^ bit_length (n div 2)"
        "0 < bit_length (n div 2)"
      using "1.IH" "1.prems" by auto
    have bl: "bit_length n = Suc (bit_length (n div 2))"
      using "1.prems" by (simp add: bit_length.simps[of n])
    obtain k where k: "bit_length (n div 2) = Suc k" using ih(3) gr0_implies_Suc by blast
    show ?thesis using ih unfolding bl k by (auto simp: power_Suc)
  qed
qed

lemma unat_of_nat64: "n < 2 ^ 64 \<Longrightarrow> unat (of_nat n :: float64) = n"
  by (simp add: unat_of_nat)

text \<open>The fields of a positive integer's float.\<close>

lemma f64_of_nat_fields:
  assumes "0 < n" "n < 2 ^ 53"
  defines "e \<equiv> bit_length n - 1"
  shows "unat (f64_of_nat n) = (1023 + e) * 2 ^ 52 + (n * 2 ^ (52 - e) - 2 ^ 52)"
    and "2 ^ 52 \<le> n * 2 ^ (52 - e)" and "n * 2 ^ (52 - e) < 2 ^ 53" and "e \<le> 52"
proof -
  have b: "2 ^ e \<le> n" "n < 2 ^ Suc e"
    using bit_length_bounds[OF assms(1)] by (auto simp: e_def)
  have "(2::nat) ^ e < 2 ^ 53" using b(1) assms(2) by linarith
  then show e: "e \<le> 52" by (metis Suc_leI eval_nat_numeral(3) less_Suc_eq_le power_less_imp_less_exp
        one_less_numeral_iff semiring_norm(76))
  have "2 ^ e * 2 ^ (52 - e) \<le> n * 2 ^ (52 - e)" using b(1) by simp
  then show lo: "2 ^ 52 \<le> n * 2 ^ (52 - e)" using e by (simp flip: power_add)
  have "Suc e + (52 - e) = 53" using e by simp
  then have "2 ^ Suc e * 2 ^ (52 - e) = (2::nat) ^ 53" by (metis power_add)
  moreover have "n * 2 ^ (52 - e) < 2 ^ Suc e * 2 ^ (52 - e)" using b(2) by simp
  ultimately show hi: "n * 2 ^ (52 - e) < 2 ^ 53" by linarith
  have "(1023 + e) * 2 ^ 52 + (n * 2 ^ (52 - e) - 2 ^ 52) < 2 ^ 64"
    using e hi by simp
  then show "unat (f64_of_nat n) = (1023 + e) * 2 ^ 52 + (n * 2 ^ (52 - e) - 2 ^ 52)"
    using assms(1) unat_of_nat64 by (simp add: f64_of_nat_def e_def Let_def del: of_nat_add of_nat_mult)
qed

lemma f64_fields_of_unat:
  assumes "unat x = s * 2 ^ 63 + (E * 2 ^ 52 + F)" "F < 2 ^ 52" "E < 2 ^ 11" "s \<le> 1"
  shows "f64_exponent x = E" "f64_fraction x = F" "f64_negative x \<longleftrightarrow> s = 1"
proof -
  have x: "unat x = (s * 2 ^ 11 + E) * 2 ^ 52 + F" using assms(1) by simp
  have "unat x div 2 ^ 52 = s * 2 ^ 11 + E" using x assms(2) by simp
  then show "f64_exponent x = E" using assms(3) by (simp add: f64_exponent_def)
  show "f64_fraction x = F"
    unfolding f64_fraction_def x using assms(2) by (simp only: mod_mult_self3 mod_less)
  have "E * 2 ^ 52 + F < 2 ^ 63" using assms(2,3) by simp
  then show "f64_negative x \<longleftrightarrow> s = 1"
    using assms(1,4) by (cases "s = 1") (auto simp: f64_negative_def)
qed

lemma f64_units_of_int:
  assumes "\<bar>n\<bar> < 2 ^ 53"
  shows "f64_units (f64_of_int n) = n * f64_one" "f64_finite (f64_of_int n)"
proof -
  define k where "k = nat \<bar>n\<bar>"
  define e where "e = bit_length k - 1"
  define F where "F = k * 2 ^ (52 - e) - 2 ^ 52"
  have "f64_units (f64_of_int n) = n * f64_one \<and> f64_finite (f64_of_int n)"
  proof (cases "n = 0")
    case True
    then show ?thesis
      by (simp add: f64_of_int_def f64_of_nat_def f64_units_def f64_significand_def f64_finite_def
          f64_exponent_def f64_fraction_def Let_def)
  next
    case False
    then have k: "0 < k" "k < 2 ^ 53" using assms by (auto simp: k_def)
    note fields = f64_of_nat_fields[OF k, folded e_def, folded F_def]
    have F: "F < 2 ^ 52" "2 ^ 52 + F = k * 2 ^ (52 - e)" using fields(2,3) by (auto simp: F_def)
    have e: "1023 + e < 2 ^ 11" using fields(4) by simp
    have u: "unat (f64_of_int n) = (if n < 0 then 1 else 0) * 2 ^ 63 + ((1023 + e) * 2 ^ 52 + F)"
    proof (cases "n < 0")
      case True
      have "2 ^ 63 + unat (f64_of_nat k) < 2 ^ 64" using fields(1) F(1) e by simp
      then have "unat (of_nat (2 ^ 63 + unat (f64_of_nat k)) :: float64) = 2 ^ 63 + unat (f64_of_nat k)"
        by (rule unat_of_nat64)
      then show ?thesis using True fields(1)
        by (simp add: f64_of_int_def k_def del: of_nat_add of_nat_power)
    next
      case False
      then show ?thesis using fields(1) by (simp add: f64_of_int_def k_def)
    qed
    note fu = f64_fields_of_unat[OF u F(1) e]
    have "int k * 2 ^ (52 - e) * 2 ^ (1023 + e) = int k * 2 ^ 1075"
    proof -
      have "(52 - e) + (1023 + e) = 1075" using fields(4) by simp
      then show ?thesis by (metis (no_types, lifting) mult.assoc power_add)
    qed
    moreover have "int (2 ^ 52 + F) = int k * 2 ^ (52 - e)" unfolding F(2) by simp
    ultimately have mag: "int (2 ^ 52 + F) * 2 ^ (1023 + e) = int k * 2 ^ 1075" by simp
    have neg: "f64_negative (f64_of_int n) \<longleftrightarrow> n < 0" using fu(3) by simp
    have sig: "f64_significand (f64_of_int n) = 2 ^ 52 + F"
      using fu(1,2) by (simp add: f64_significand_def)
    have "f64_exponent (f64_of_int n) = 1023 + e" "max 1 (1023 + e) = 1023 + e" using fu(1) by simp_all
    then have "f64_units (f64_of_int n) = (if n < 0 then - (int k * 2 ^ 1075) else int k * 2 ^ 1075)"
      unfolding f64_units_def Let_def neg sig using mag by simp
    then have "f64_units (f64_of_int n) = n * f64_one"
      unfolding f64_one_def by (simp add: k_def)
    moreover have "f64_finite (f64_of_int n)" using fu(1) fields(4) by (simp add: f64_finite_def)
    ultimately show ?thesis by blast
  qed
  then show "f64_units (f64_of_int n) = n * f64_one" "f64_finite (f64_of_int n)" by blast+
qed

section \<open>Values\<close>

text \<open>
  A dictionary is its association list in insertion order. A key that is not a string is kept apart,
  because the code asks \<^verbatim>\<open>isinstance(key, str)\<close>. \<open>PEnum\<close> is an enum member that is not itself a
  string, with its value; \<open>PModel\<close> is a Pydantic model, with its JSON dump; \<open>PProj\<close> is a date, a
  datetime, a path or a dataclass, with its type's name and the text or dictionary it projects to
  (\<^verbatim>\<open>isoformat()\<close>, \<^verbatim>\<open>as_posix()\<close>, \<^verbatim>\<open>asdict()\<close>); \<open>POther\<close> is any other object, with its type's name.
\<close>

datatype pykey = KStr pystr | KOther pystr

datatype pyval =
    PNone
  | PBool bool
  | PInt int
  | PFloat float64
  | PStr pystr
  | PList "pyval list"
  | PTuple "pyval list"
  | PSet "pyval list"
  | PDict "(pykey \<times> pyval) list"
  | PEnum pyval
  | PModel pyval
  | PProj pystr pyval
  | POther pystr

fun key_str :: "pykey \<Rightarrow> pystr option" where
  "key_str (KStr s) = Some s"
| "key_str (KOther _) = None"

definition dict_get :: "(pykey \<times> pyval) list \<Rightarrow> string \<Rightarrow> pyval option" where
  "dict_get d k = map_of d (KStr (lit k))"

text \<open>Dictionaries never repeat a key.\<close>

fun wf_py :: "pyval \<Rightarrow> bool" where
  "wf_py (PList xs) = list_all wf_py xs"
| "wf_py (PTuple xs) = list_all wf_py xs"
| "wf_py (PSet xs) = list_all wf_py xs"
| "wf_py (PDict kvs) = (distinct (map fst kvs) \<and> list_all (\<lambda>kv. wf_py (snd kv)) kvs)"
| "wf_py (PEnum v) = wf_py v"
| "wf_py (PModel v) = wf_py v"
| "wf_py _ = True"

section \<open>Hexadecimal digits\<close>

definition hex_digit :: "nat \<Rightarrow> nat" where
  "hex_digit n = (if n < 10 then 48 + n else 87 + n)"

fun hexn :: "nat \<Rightarrow> nat \<Rightarrow> pystr" where
  "hexn 0 n = []"
| "hexn (Suc k) n = hexn k (n div 16) @ [hex_digit (n mod 16)]"

lemma hex_digit_inj: "m < 16 \<Longrightarrow> n < 16 \<Longrightarrow> hex_digit m = hex_digit n \<Longrightarrow> m = n"
  by (auto simp: hex_digit_def split: if_splits)

lemma length_hexn [simp]: "length (hexn k n) = k"
  by (induction k arbitrary: n) auto

lemma hexn_inj: "m < 16 ^ k \<Longrightarrow> n < 16 ^ k \<Longrightarrow> hexn k m = hexn k n \<Longrightarrow> m = n"
proof (induction k arbitrary: m n)
  case (Suc k)
  then have "m div 16 = n div 16" by (auto simp: less_mult_imp_div_less mult.commute)
  moreover have "m mod 16 = n mod 16" using Suc.prems(3) by (auto intro: hex_digit_inj)
  ultimately show ?case by (metis div_mult_mod_eq)
qed simp

definition is_hex :: "nat \<Rightarrow> bool" where
  "is_hex c \<longleftrightarrow> 48 \<le> c \<and> c \<le> 57 \<or> 97 \<le> c \<and> c \<le> 102"

lemma hexn_is_hex: "c \<in> set (hexn k n) \<Longrightarrow> is_hex c"
proof (induction k arbitrary: n)
  case (Suc k)
  have "is_hex (hex_digit (n mod 16))" using mod_less_divisor[of 16 n] by (auto simp: is_hex_def hex_digit_def)
  then show ?case using Suc by auto
qed simp

lemma hexn_scalar: "c \<in> set (hexn k n) \<Longrightarrow> 48 \<le> c \<and> c < 103"
  by (induction k arbitrary: n) (auto simp: hex_digit_def)

end
