(* ===== verification/Sha256.thy ===== *)
theory Sha256
  imports Py_Values
begin

text \<open>
  SHA-256, as \<^verbatim>\<open>hashlib.sha256(b).hexdigest()\<close> of the Python standard library computes it
  (FIPS 180-4): executable, so that every digest of the development is the real one. The theorems
  never assume that the function is injective; where a digest is the only evidence they conclude
  "the contents agree, or here are two distinct payloads with one digest" (\<open>sha256_collision\<close>).
\<close>

unbundle bit_operations_syntax

definition sha256_k :: "32 word list" where
  "sha256_k =
   [1116352408, 1899447441, 3049323471, 3921009573, 961987163, 1508970993, 2453635748, 2870763221,
    3624381080, 310598401, 607225278, 1426881987, 1925078388, 2162078206, 2614888103, 3248222580,
    3835390401, 4022224774, 264347078, 604807628, 770255983, 1249150122, 1555081692, 1996064986,
    2554220882, 2821834349, 2952996808, 3210313671, 3336571891, 3584528711, 113926993, 338241895,
    666307205, 773529912, 1294757372, 1396182291, 1695183700, 1986661051, 2177026350, 2456956037,
    2730485921, 2820302411, 3259730800, 3345764771, 3516065817, 3600352804, 4094571909, 275423344,
    430227734, 506948616, 659060556, 883997877, 958139571, 1322822218, 1537002063, 1747873779,
    1955562222, 2024104815, 2227730452, 2361852424, 2428436474, 2756734187, 3204031479, 3329325298]"

definition sha256_h0 :: "32 word list" where
  "sha256_h0 =
   [1779033703, 3144134277, 1013904242, 2773480762, 1359893119, 2600822924, 528734635, 1541459225]"

definition rotr32 :: "nat \<Rightarrow> 32 word \<Rightarrow> 32 word" where
  "rotr32 n x = drop_bit n x OR push_bit (32 - n) x"

definition be32 :: "bytes \<Rightarrow> 32 word" where
  "be32 bs = foldl (\<lambda>acc b. push_bit 8 acc OR ucast b) 0 bs"

fun chunks :: "nat \<Rightarrow> 'a list \<Rightarrow> 'a list list" where
  "chunks n xs = (if xs = [] \<or> n = 0 then [] else take n xs # chunks n (drop n xs))"

declare chunks.simps [simp del]

definition be64_bytes :: "nat \<Rightarrow> bytes" where
  "be64_bytes n = map (\<lambda>i. byte_of (n div 256 ^ i mod 256)) [7, 6, 5, 4, 3, 2, 1, 0]"

definition sha256_pad :: "bytes \<Rightarrow> bytes" where
  "sha256_pad m =
     m @ [0x80] @ replicate ((119 - length m mod 64) mod 64) 0 @ be64_bytes (8 * length m mod 2 ^ 64)"

definition sha256_extend :: "32 word list \<Rightarrow> 32 word list" where
  "sha256_extend w =
     (let i = length w; a = w ! (i - 15); b = w ! (i - 2);
          s0 = rotr32 7 a XOR rotr32 18 a XOR drop_bit 3 a;
          s1 = rotr32 17 b XOR rotr32 19 b XOR drop_bit 10 b
      in w @ [w ! (i - 16) + s0 + w ! (i - 7) + s1])"

definition sha256_schedule :: "bytes \<Rightarrow> 32 word list" where
  "sha256_schedule block = (sha256_extend ^^ 48) (map be32 (chunks 4 block))"

fun sha256_round :: "32 word list \<Rightarrow> 32 word \<times> 32 word \<Rightarrow> 32 word list" where
  "sha256_round [a, b, c, d, e, f, g, h] (k, w) =
     (let s1 = rotr32 6 e XOR rotr32 11 e XOR rotr32 25 e;
          ch = (e AND f) XOR (NOT e AND g);
          t1 = h + s1 + ch + k + w;
          s0 = rotr32 2 a XOR rotr32 13 a XOR rotr32 22 a;
          maj = (a AND b) XOR (a AND c) XOR (b AND c)
      in [t1 + s0 + maj, a, b, c, d + t1, e, f, g])"
| "sha256_round st _ = st"

definition sha256_block :: "32 word list \<Rightarrow> bytes \<Rightarrow> 32 word list" where
  "sha256_block h block =
     map (\<lambda>(x, y). x + y) (zip h (foldl sha256_round h (zip sha256_k (sha256_schedule block))))"

definition sha256_hexdigest :: "bytes \<Rightarrow> pystr" where
  "sha256_hexdigest m =
     concat (map (\<lambda>w. hexn 8 (unat w)) (foldl sha256_block sha256_h0 (chunks 64 (sha256_pad m))))"

text \<open>Two distinct payloads with one digest.\<close>

definition sha256_collision :: "bytes \<Rightarrow> bytes \<Rightarrow> bool" where
  "sha256_collision p q \<longleftrightarrow> p \<noteq> q \<and> sha256_hexdigest p = sha256_hexdigest q"

text \<open>Every digest has 64 lower-case hexadecimal digits.\<close>

lemma length_sha256_round [simp]: "length (sha256_round st kw) = length st"
  by (cases "(st, kw)" rule: sha256_round.cases) (simp_all add: Let_def)

lemma length_foldl_keep:
  "(\<And>s x. length (f s x) = length s) \<Longrightarrow> length (foldl f s xs) = length s"
  by (induction xs arbitrary: s) auto

lemma length_sha256_block: "length (sha256_block h block) = length h"
  by (simp add: sha256_block_def length_foldl_keep)

lemma length_sha256_hexdigest: "length (sha256_hexdigest m) = 64"
proof -
  have "length (foldl sha256_block sha256_h0 xs) = 8" for xs
    by (simp add: length_foldl_keep length_sha256_block sha256_h0_def)
  then have "sum_list (map (length \<circ> (\<lambda>w. hexn 8 (unat w))) (foldl sha256_block sha256_h0 xs)) = 64" for xs
    by (simp add: comp_def sum_list_triv)
  then show ?thesis by (simp add: sha256_hexdigest_def length_concat)
qed

lemma set_sha256_hexdigest: "c \<in> set (sha256_hexdigest m) \<Longrightarrow> is_hex c"
  by (auto simp: sha256_hexdigest_def dest: hexn_is_hex)

end
