(* ===== verification/Canonical.thy ===== *)
theory Canonical
  imports Sha256 Py_Text "HOL-Library.Finite_Map"
begin

text \<open>
  Model of \<^verbatim>\<open>src/protocol/canonical.py\<close>: the tagged canonical JSON encoding
  \<^verbatim>\<open>dq-tagged-json-v1\<close> and the domain-separated SHA-256 binding every record of the protocol uses.

  The abstract meaning of a value is \<open>cval\<close>: numbers are binary64 bit patterns (an integer and
  the float it equals are one number, both zeros are one number), objects are finite maps, tuples
  are arrays. \<open>denote\<close> reads a Python value, \<open>canonical_ok\<close> says which values are canonical. The
  main lemmas: encoding succeeds exactly on canonical values, two values have the same canonical
  bytes exactly if they mean the same, and equal digests mean equal domains and equal meanings
  unless SHA-256 itself collides.
\<close>

section \<open>Definitions\<close>

datatype py_exc = ValueError pystr | TypeError pystr

definition CANONICALIZATION_ID :: pystr where
  "CANONICALIZATION_ID = lit ''dq-tagged-json-v1''"

definition HASH_PREFIX :: pystr where
  "HASH_PREFIX = lit ''defined-quant''"

definition MAX_SAFE_INTEGER :: int where
  "MAX_SAFE_INTEGER = 2 ^ 53 - 1"

definition valid_utf8 :: "pystr \<Rightarrow> py_exc + bytes" where
  "valid_utf8 s =
     (case utf8_encode s of
        Some b \<Rightarrow> Inr b
      | None \<Rightarrow> Inl (ValueError (lit ''canonical strings cannot contain lone Unicode surrogates'')))"

text \<open>The argument of \<^verbatim>\<open>_number_hex\<close> is an \<^verbatim>\<open>int\<close> (left) or a \<^verbatim>\<open>float\<close> (right).\<close>

definition normalize_number :: "int + float64 \<Rightarrow> py_exc + float64" where
  "normalize_number n =
     (case n of
        Inl i \<Rightarrow>
          if \<bar>i\<bar> > MAX_SAFE_INTEGER
          then Inl (ValueError (lit ''canonical integers must be within the IEEE-754 safe-integer range''))
          else Inr (f64_of_int i)
      | Inr x \<Rightarrow>
          if \<not> f64_finite x then Inl (ValueError (lit ''canonical numbers must be finite''))
          else if f64_is_integer x \<and> \<bar>f64_units x\<bar> > MAX_SAFE_INTEGER * f64_one
          then Inl (ValueError (lit ''integer-valued floats must be within the safe-integer range''))
          else Inr x)"

definition number_hex :: "int + float64 \<Rightarrow> py_exc + pystr" where
  "number_hex n =
     bindE (normalize_number n) (\<lambda>x.
       let y = (if f64_units x = 0 then 0 else x) in Inr (hexn 16 (unat y)))"

text \<open>
  The internal tagged tree: the nested Python lists, strings and booleans that
  \<^verbatim>\<open>_encode_tagged_json\<close> prints.
\<close>

datatype ttree = TNone | TBool bool | TStr pystr | TList "ttree list"

definition tag :: "string \<Rightarrow> ttree \<Rightarrow> ttree" where
  "tag s t = TList [TStr (lit s), t]"

fun keyed_item :: "pykey \<times> (py_exc + ttree) \<Rightarrow> py_exc + (bytes \<times> pystr \<times> (py_exc + ttree))" where
  "keyed_item (KStr k, r) = bindE (valid_utf8 k) (\<lambda>b. Inr (b, k, r))"
| "keyed_item (KOther _, r) = Inl (TypeError (lit ''canonical JSON object keys must be strings''))"

definition tagged_entry :: "bytes \<times> pystr \<times> (py_exc + ttree) \<Rightarrow> py_exc + ttree" where
  "tagged_entry = (\<lambda>(b, k, r). bindE r (\<lambda>t. Inr (TList [TStr k, t])))"

definition not_canonical :: "pystr \<Rightarrow> py_exc" where
  "not_canonical name = TypeError (name @ lit '' is not a canonical JSON value'')"

fun tagged_tree :: "pyval \<Rightarrow> py_exc + ttree" where
  "tagged_tree PNone = Inr (TList [TStr (lit ''null'')])"
| "tagged_tree (PBool b) = Inr (tag ''boolean'' (TBool b))"
| "tagged_tree (PStr s) = bindE (valid_utf8 s) (\<lambda>_. Inr (tag ''string'' (TStr s)))"
| "tagged_tree (PInt i) = bindE (number_hex (Inl i)) (\<lambda>h. Inr (tag ''number'' (TStr h)))"
| "tagged_tree (PFloat x) = bindE (number_hex (Inr x)) (\<lambda>h. Inr (tag ''number'' (TStr h)))"
| "tagged_tree (PEnum v) = tagged_tree v"
| "tagged_tree (PModel v) = tagged_tree v"
| "tagged_tree (PDict kvs) =
     bindE (mapE keyed_item (map (\<lambda>(k, v). (k, tagged_tree v)) kvs)) (\<lambda>keyed_items.
     bindE (mapE tagged_entry (sort_key fst keyed_items)) (\<lambda>entries.
     Inr (tag ''object'' (TList entries))))"
| "tagged_tree (PList vs) = bindE (mapE tagged_tree vs) (\<lambda>ts. Inr (tag ''array'' (TList ts)))"
| "tagged_tree (PTuple vs) = bindE (mapE tagged_tree vs) (\<lambda>ts. Inr (tag ''array'' (TList ts)))"
| "tagged_tree (PSet vs) = Inl (not_canonical (lit ''set''))"
| "tagged_tree (PProj name v) = Inl (not_canonical name)"
| "tagged_tree (POther name) = Inl (not_canonical name)"

definition SHORT_ESCAPES :: "(nat \<times> pystr) list" where
  "SHORT_ESCAPES =
     [(8, [92, 98]), (9, [92, 116]), (10, [92, 110]), (12, [92, 102]), (13, [92, 114]),
      (34, [92, 34]), (92, [92, 92])]"

definition short_escape :: "nat \<Rightarrow> pystr option" where
  "short_escape c = map_of SHORT_ESCAPES c"

definition encode_char :: "nat \<Rightarrow> pystr" where
  "encode_char c =
     (case short_escape c of
        Some e \<Rightarrow> e
      | None \<Rightarrow> if c < 0x20 then [92, 117] @ hexn 4 c else [c])"

definition encode_string :: "pystr \<Rightarrow> py_exc + pystr" where
  "encode_string s =
     bindE (valid_utf8 s) (\<lambda>_. Inr ([34] @ concat (map encode_char s) @ [34]))"

fun encode_tagged_json :: "ttree \<Rightarrow> py_exc + pystr" where
  "encode_tagged_json TNone = Inr (lit ''null'')"
| "encode_tagged_json (TBool b) = Inr (if b then lit ''true'' else lit ''false'')"
| "encode_tagged_json (TStr s) = encode_string s"
| "encode_tagged_json (TList ts) =
     bindE (mapE encode_tagged_json ts) (\<lambda>xs. Inr (lit ''['' @ str_join (lit '','') xs @ lit '']''))"

definition canonical_json_bytes :: "pyval \<Rightarrow> py_exc + bytes" where
  "canonical_json_bytes v =
     bindE (tagged_tree v) (\<lambda>t. bindE (encode_tagged_json t) valid_utf8)"

text \<open>\<^verbatim>\<open>^[a-z][a-z0-9_.-]{0,127}$\<close>, matched in full.\<close>

definition domain_ok :: "pystr \<Rightarrow> bool" where
  "domain_ok d =
     (case d of
        [] \<Rightarrow> False
      | c # cs \<Rightarrow> is_lower c \<and> length cs \<le> 127 \<and>
          list_all (\<lambda>x. is_lower x \<or> is_digit x \<or> x = 95 \<or> x = 46 \<or> x = 45) cs)"

text \<open>\<^verbatim>\<open>str.encode("ascii")\<close> on strings known to be ASCII.\<close>

definition ascii_bytes :: "pystr \<Rightarrow> bytes" where
  "ascii_bytes s = map byte_of s"

definition hash_payload :: "pystr \<Rightarrow> bytes \<Rightarrow> bytes" where
  "hash_payload domain body =
     ascii_bytes HASH_PREFIX @ [0] @ ascii_bytes CANONICALIZATION_ID @ [0] @
     ascii_bytes domain @ [0] @ body"

definition canonical_hash :: "pyval \<Rightarrow> pystr \<Rightarrow> py_exc + pystr" where
  "canonical_hash v domain =
     (if \<not> domain_ok domain
      then Inl (ValueError (lit ''hash domain must match ^[a-z][a-z0-9_.-]{0,127}$''))
      else bindE (canonical_json_bytes v) (\<lambda>b. Inr (sha256_hexdigest (hash_payload domain b))))"

definition canonical_hash_framing :: pyval where
  "canonical_hash_framing =
     PDict [(KStr (lit ''prefix_utf8''), PStr HASH_PREFIX),
            (KStr (lit ''separator_hex''), PStr (lit ''00'')),
            (KStr (lit ''ordered_parts''),
             PList [PStr (lit ''prefix_utf8''), PStr (lit ''canonicalization_id''),
                    PStr (lit ''domain_ascii''), PStr (lit ''canonical_bytes'')])]"

section \<open>Abstract meaning\<close>

datatype cval =
    CNull
  | CBool bool
  | CNum float64
  | CStr pystr
  | CArr "cval list"
  | CObj "(pystr, cval) fmap"

definition norm_zero :: "float64 \<Rightarrow> float64" where
  "norm_zero x = (if f64_units x = 0 then 0 else x)"

fun denote :: "pyval \<Rightarrow> cval" where
  "denote PNone = CNull"
| "denote (PBool b) = CBool b"
| "denote (PInt i) = CNum (norm_zero (f64_of_int i))"
| "denote (PFloat x) = CNum (norm_zero x)"
| "denote (PStr s) = CStr s"
| "denote (PList vs) = CArr (map denote vs)"
| "denote (PTuple vs) = CArr (map denote vs)"
| "denote (PDict kvs) = CObj (fmap_of_list (map (\<lambda>(k, v). (the (key_str k), denote v)) kvs))"
| "denote (PEnum v) = denote v"
| "denote (PModel v) = denote v"
| "denote (PSet vs) = CNull"
| "denote (PProj n v) = CNull"
| "denote (POther n) = CNull"

definition scalar_str :: "pystr \<Rightarrow> bool" where
  "scalar_str s \<longleftrightarrow> list_all is_scalar s"

fun canonical_ok :: "pyval \<Rightarrow> bool" where
  "canonical_ok PNone = True"
| "canonical_ok (PBool b) = True"
| "canonical_ok (PInt i) = (\<bar>i\<bar> \<le> MAX_SAFE_INTEGER)"
| "canonical_ok (PFloat x) =
     (f64_finite x \<and> (f64_is_integer x \<longrightarrow> \<bar>f64_units x\<bar> \<le> MAX_SAFE_INTEGER * f64_one))"
| "canonical_ok (PStr s) = scalar_str s"
| "canonical_ok (PList vs) = list_all canonical_ok vs"
| "canonical_ok (PTuple vs) = list_all canonical_ok vs"
| "canonical_ok (PDict kvs) =
     list_all (\<lambda>(k, v). (case k of KStr s \<Rightarrow> scalar_str s | KOther _ \<Rightarrow> False) \<and> canonical_ok v) kvs"
| "canonical_ok (PEnum v) = canonical_ok v"
| "canonical_ok (PModel v) = canonical_ok v"
| "canonical_ok (PSet vs) = False"
| "canonical_ok (PProj n v) = False"
| "canonical_ok (POther n) = False"

section \<open>Which values are canonical\<close>

lemma valid_utf8_Inr_iff: "valid_utf8 s = Inr b \<longleftrightarrow> utf8_encode s = Some b"
  by (simp add: valid_utf8_def split: option.splits)

lemma scalar_str_iff: "scalar_str s \<longleftrightarrow> (\<exists>b. utf8_encode s = Some b)"
  by (simp add: scalar_str_def utf8_encode_Some_iff list_all_iff)

lemma is_ok_valid_utf8 [simp]: "is_ok (valid_utf8 s) \<longleftrightarrow> scalar_str s"
  by (simp add: is_ok_iff valid_utf8_Inr_iff scalar_str_iff)

lemma scalar_str_simps [simp]:
  "scalar_str []" "scalar_str (c # s) \<longleftrightarrow> is_scalar c \<and> scalar_str s"
  "scalar_str (s @ t) \<longleftrightarrow> scalar_str s \<and> scalar_str t"
  by (auto simp: scalar_str_def)

lemma scalar_str_lit [simp]: "scalar_str (lit s)"
  by (auto simp: scalar_str_def list_all_iff dest!: set_lit_less intro: is_scalar_ascii)

lemma scalar_str_hexn [simp]: "scalar_str (hexn k n)"
  by (auto simp: scalar_str_def list_all_iff dest!: hexn_scalar intro: is_scalar_ascii)

lemma is_ok_number_hex:
  "is_ok (number_hex (Inl i)) \<longleftrightarrow> \<bar>i\<bar> \<le> MAX_SAFE_INTEGER"
  "is_ok (number_hex (Inr x)) \<longleftrightarrow>
     f64_finite x \<and> (f64_is_integer x \<longrightarrow> \<bar>f64_units x\<bar> \<le> MAX_SAFE_INTEGER * f64_one)"
  by (auto simp: number_hex_def normalize_number_def is_ok_bindE Let_def split: if_splits)

lemma keyed_item_Inr:
  "keyed_item (k, r) = Inr x \<longleftrightarrow> (\<exists>s b. k = KStr s \<and> utf8_encode s = Some b \<and> x = (b, s, r))"
  by (cases k) (auto simp: bindE_Inr_iff valid_utf8_Inr_iff)

lemma is_ok_keyed_item:
  "is_ok (keyed_item (k, r)) \<longleftrightarrow> (case k of KStr s \<Rightarrow> scalar_str s | KOther _ \<Rightarrow> False)"
  by (cases k) (auto simp: is_ok_bindE scalar_str_iff valid_utf8_Inr_iff)

lemma is_ok_tagged_entry: "is_ok (tagged_entry x) \<longleftrightarrow> is_ok (snd (snd x))"
  by (cases x) (simp add: tagged_entry_def is_ok_bindE, simp add: is_ok_iff)

lemma mapE_keyed_item_snd:
  "mapE keyed_item xs = Inr ys \<Longrightarrow> map (snd \<circ> snd) ys = map snd xs"
proof (induction xs arbitrary: ys)
  case (Cons x xs)
  then show ?case by (cases x) (auto simp: bindE_Inr_iff keyed_item_Inr)
qed simp

lemma is_ok_tagged_tree: "is_ok (tagged_tree v) \<longleftrightarrow> canonical_ok v"
proof (induction v)
  case (PList vs)
  then show ?case by (simp add: is_ok_bindE is_ok_mapE[symmetric] is_ok_iff[symmetric] list_all_iff)
      (auto simp: is_ok_mapE)
next
  case (PTuple vs)
  then show ?case by (simp add: is_ok_bindE is_ok_mapE[symmetric] is_ok_iff[symmetric] list_all_iff)
      (auto simp: is_ok_mapE)
next
  case (PDict kvs)
  let ?m = "mapE keyed_item (map (\<lambda>(k, v). (k, tagged_tree v)) kvs)"
  have keys: "is_ok ?m \<longleftrightarrow> (\<forall>(k, v) \<in> set kvs. case k of KStr s \<Rightarrow> scalar_str s | KOther _ \<Rightarrow> False)"
    by (auto simp: is_ok_mapE is_ok_keyed_item)
  have ents: "is_ok (mapE tagged_entry (sort_key fst ks)) \<longleftrightarrow> (\<forall>(k, v) \<in> set kvs. is_ok (tagged_tree v))"
    if "?m = Inr ks" for ks
  proof -
    have eq: "set (map (snd \<circ> snd) ks) = (\<lambda>(k, v). tagged_tree v) ` set kvs"
      unfolding mapE_keyed_item_snd[OF that] by force
    have "(\<forall>x \<in> set ks. is_ok (snd (snd x))) \<longleftrightarrow> (\<forall>r \<in> set (map (snd \<circ> snd) ks). is_ok r)" by simp
    also have "\<dots> \<longleftrightarrow> (\<forall>(k, v) \<in> set kvs. is_ok (tagged_tree v))" unfolding eq by auto
    finally show ?thesis by (simp add: is_ok_mapE is_ok_tagged_entry)
  qed
  have ih: "(\<forall>(k, v) \<in> set kvs. is_ok (tagged_tree v)) \<longleftrightarrow> (\<forall>(k, v) \<in> set kvs. canonical_ok v)"
    using PDict by (fastforce simp: snds.simps)
  show ?case
    using keys ents ih by (auto simp: is_ok_bindE list_all_iff is_ok_iff[of ?m]) (simp add: is_ok_iff)
qed (auto simp: is_ok_bindE is_ok_iff[symmetric] is_ok_number_hex, (auto simp: is_ok_iff)?)

section \<open>The printed tree\<close>

text \<open>\<open>enc_tree\<close> is what \<^verbatim>\<open>_encode_tagged_json\<close> prints when no string is refused.\<close>

fun tree_ok :: "ttree \<Rightarrow> bool" where
  "tree_ok (TStr s) = scalar_str s"
| "tree_ok (TList ts) = list_all tree_ok ts"
| "tree_ok _ = True"

fun enc_tree :: "ttree \<Rightarrow> pystr" where
  "enc_tree TNone = lit ''null''"
| "enc_tree (TBool b) = (if b then lit ''true'' else lit ''false'')"
| "enc_tree (TStr s) = [34] @ concat (map encode_char s) @ [34]"
| "enc_tree (TList ts) = lit ''['' @ str_join (lit '','') (map enc_tree ts) @ lit '']''"

lemma encode_string_ok: "scalar_str s \<Longrightarrow> encode_string s = Inr ([34] @ concat (map encode_char s) @ [34])"
  by (auto simp: encode_string_def scalar_str_iff valid_utf8_Inr_iff[symmetric])

lemma encode_tagged_json_ok: "tree_ok t \<Longrightarrow> encode_tagged_json t = Inr (enc_tree t)"
proof (induction t)
  case (TList ts)
  then have "mapE encode_tagged_json ts = Inr (map enc_tree ts)"
    by (intro mapE_Inr_map) (auto simp: list_all_iff)
  then show ?case by simp
qed (auto simp: encode_string_ok)

lemma scalar_str_join: "scalar_str sep \<Longrightarrow> \<forall>x \<in> set xs. scalar_str x \<Longrightarrow> scalar_str (str_join sep xs)"
  by (induction sep xs rule: str_join.induct) auto

lemma short_escape_Some: "short_escape c = Some e \<Longrightarrow> (c, e) \<in> set SHORT_ESCAPES"
  by (simp add: short_escape_def map_of_SomeD)

lemma short_escape_None: "short_escape c = None \<Longrightarrow> c \<noteq> 34 \<and> c \<noteq> 92"
  by (auto simp: short_escape_def SHORT_ESCAPES_def split: if_splits)

lemma scalar_encode_char: "is_scalar c \<Longrightarrow> scalar_str (encode_char c)"
proof (cases "short_escape c")
  case (Some e)
  then have "\<forall>x \<in> set e. x < 0xD800" using short_escape_Some[OF Some] by (auto simp: SHORT_ESCAPES_def)
  then show ?thesis
    using Some by (auto simp: encode_char_def scalar_str_def list_all_iff intro!: is_scalar_ascii)
qed (simp add: encode_char_def is_scalar_ascii)

lemma scalar_encode_chars: "scalar_str s \<Longrightarrow> scalar_str (concat (map encode_char s))"
  by (induction s) (auto simp: scalar_encode_char)

lemma scalar_enc_tree: "tree_ok t \<Longrightarrow> scalar_str (enc_tree t)"
proof (induction t)
  case (TList ts)
  then show ?case by (auto simp: list_all_iff intro!: scalar_str_join)
qed (auto simp: scalar_encode_chars is_scalar_ascii)

lemma tree_ok_tagged_tree: "tagged_tree v = Inr t \<Longrightarrow> tree_ok t"
proof (induction v arbitrary: t)
  case (PDict kvs)
  from PDict.prems obtain ks es where
    ks: "mapE keyed_item (map (\<lambda>(k, v). (k, tagged_tree v)) kvs) = Inr ks" and
    es: "mapE tagged_entry (sort_key fst ks) = Inr es" and t: "t = tag ''object'' (TList es)"
    by (auto simp: bindE_Inr_iff)
  have ok: "scalar_str k \<and> (r = Inr u \<longrightarrow> tree_ok u)" if mem: "(b, k, r) \<in> set ks" for b k r u
  proof -
    obtain i where "i < length ks" "ks ! i = (b, k, r)"
      using mem unfolding in_set_conv_nth by blast
    then have "keyed_item ((\<lambda>(k, v). (k, tagged_tree v)) (kvs ! i)) = Inr (b, k, r)" "i < length kvs"
      using mapE_Inr_nth[OF ks] mapE_Inr_length[OF ks] by auto
    moreover have "kvs ! i \<in> set kvs" using calculation(2) by simp
    ultimately show ?thesis using PDict.IH[of "kvs ! i" "snd (kvs ! i)"]
      by (cases "kvs ! i") (auto simp: keyed_item_Inr scalar_str_iff)
  qed
  have "tree_ok e" if mem: "e \<in> set es" for e
  proof -
    obtain i where "i < length es" "es ! i = e"
      using mem unfolding in_set_conv_nth by blast
    then have "tagged_entry (sort_key fst ks ! i) = Inr e" "sort_key fst ks ! i \<in> set ks"
      using mapE_Inr_nth[OF es] mapE_Inr_length[OF es] nth_mem[of i "sort_key fst ks"] by auto
    then show ?thesis using ok
      by (cases "sort_key fst ks ! i") (auto simp: tagged_entry_def bindE_Inr_iff)
  qed
  then show ?case by (simp add: t tag_def list_all_iff)
next
  case (PList vs)
  then show ?case
    by (force simp: bindE_Inr_iff mapE_Inr_iff tag_def list_all_iff list_all2_conv_all_nth in_set_conv_nth)
next
  case (PTuple vs)
  then show ?case
    by (force simp: bindE_Inr_iff mapE_Inr_iff tag_def list_all_iff list_all2_conv_all_nth in_set_conv_nth)
qed (auto simp: bindE_Inr_iff tag_def valid_utf8_Inr_iff scalar_str_iff[symmetric] number_hex_def Let_def)

lemma canonical_json_bytes_Inr:
  "canonical_json_bytes v = Inr b \<longleftrightarrow> (\<exists>t. tagged_tree v = Inr t \<and> utf8_encode (enc_tree t) = Some b)"
  by (auto simp: canonical_json_bytes_def bindE_Inr_iff encode_tagged_json_ok tree_ok_tagged_tree
      valid_utf8_Inr_iff)

lemma is_ok_canonical_json_bytes: "is_ok (canonical_json_bytes v) \<longleftrightarrow> canonical_ok v"
proof -
  have "is_ok (canonical_json_bytes v) \<longleftrightarrow> is_ok (tagged_tree v)"
    unfolding is_ok_iff canonical_json_bytes_Inr
    using tree_ok_tagged_tree[THEN scalar_enc_tree] by (auto simp: scalar_str_iff)
  then show ?thesis by (simp add: is_ok_tagged_tree)
qed

section \<open>Printing is prefix-free\<close>

lemma lit_chars: "lit (c # s) = of_char c # lit s"
  by (simp add: lit_def)

lemma encode_char_cases:
  obtains (short) x where "encode_char c = [92, x]" "x \<noteq> 117" "short_escape c = Some [92, x]"
  | (control) "encode_char c = [92, 117] @ hexn 4 c" "c < 32"
  | (plain) "encode_char c = [c]" "c \<noteq> 92" "c \<noteq> 34"
proof (cases "short_escape c")
  case None
  then have "c \<noteq> 92" "c \<noteq> 34" using short_escape_None by blast+
  then show ?thesis using None that(2,3) by (cases "c < 32") (simp_all add: encode_char_def lit_chars)
next
  case (Some e)
  have "\<forall>(c, e) \<in> set SHORT_ESCAPES. \<exists>x. e = [92, x] \<and> x \<noteq> 117" by (simp add: SHORT_ESCAPES_def)
  then have "\<exists>x. e = [92, x] \<and> x \<noteq> 117" using short_escape_Some[OF Some] by blast
  then show ?thesis using Some that(1) by (auto simp: encode_char_def)
qed

lemma short_escape_inj:
  assumes "short_escape c = Some e" "short_escape d = Some e"
  shows "c = d"
proof -
  have "distinct (map snd SHORT_ESCAPES)" by (simp add: SHORT_ESCAPES_def)
  then show ?thesis
    using short_escape_Some[OF assms(1)] short_escape_Some[OF assms(2)]
    by (metis distinct_map inj_onD prod.inject snd_conv)
qed

lemma encode_char_prefix_free:
  assumes "encode_char c @ r = encode_char d @ r'"
  shows "c = d \<and> r = r'"
proof (cases c rule: encode_char_cases)
  case c: (short x)
  then show ?thesis using assms short_escape_inj[of c _ d] by (cases d rule: encode_char_cases) auto
next
  case c: control
  then show ?thesis using assms hexn_inj[of c 4 d] by (cases d rule: encode_char_cases) auto
next
  case c: plain
  then show ?thesis using assms by (cases d rule: encode_char_cases) auto
qed

lemma encode_chars_prefix_free:
  "concat (map encode_char s) @ 34 # r = concat (map encode_char t) @ 34 # r' \<Longrightarrow> s = t \<and> r = r'"
proof (induction s arbitrary: t)
  case Nil
  show ?case
  proof (cases t)
    case (Cons d t')
    then show ?thesis using Nil by (cases d rule: encode_char_cases) auto
  qed (use Nil in simp)
next
  case (Cons c s)
  show ?case
  proof (cases t)
    case Nil
    then show ?thesis using Cons.prems by (cases c rule: encode_char_cases) auto
  next
    case t: (Cons d t')
    then have "encode_char c @ (concat (map encode_char s) @ 34 # r) =
        encode_char d @ (concat (map encode_char t') @ 34 # r')"
      using Cons.prems by simp
    then have "c = d" "concat (map encode_char s) @ 34 # r = concat (map encode_char t') @ 34 # r'"
      using encode_char_prefix_free by blast+
    then show ?thesis using Cons.IH t by simp
  qed
qed

text \<open>The text after the first element of a printed list.\<close>

definition enc_rest :: "ttree list \<Rightarrow> pystr" where
  "enc_rest ts = concat (map (\<lambda>t. 44 # enc_tree t) ts) @ [93]"

lemma enc_tree_TList:
  "enc_tree (TList []) = [91, 93]" "enc_tree (TList (t # ts)) = 91 # enc_tree t @ enc_rest ts"
  by (simp_all add: enc_rest_def str_join_Cons lit_chars comp_def)

lemma enc_tree_head: "\<exists>x xs. enc_tree t = x # xs \<and> x \<in> {110, 116, 102, 34, 91}"
  by (cases t) (auto simp: lit_chars)

lemma enc_rest_head: "\<exists>x xs. enc_rest ts = x # xs \<and> x \<in> {44, 93}"
  by (cases ts) (auto simp: enc_rest_def)

lemma enc_rest_prefix_free:
  assumes "\<And>t t' r r'. t \<in> set ts \<Longrightarrow> enc_tree t @ r = enc_tree t' @ r' \<Longrightarrow> t = t' \<and> r = r'"
    and "enc_rest ts @ r = enc_rest ts' @ r'"
  shows "ts = ts' \<and> r = r'"
  using assms
proof (induction ts arbitrary: ts')
  case Nil
  then show ?case by (cases ts') (auto simp: enc_rest_def)
next
  case (Cons t ts)
  then obtain u us where ts': "ts' = u # us" by (cases ts') (auto simp: enc_rest_def)
  then have "enc_tree t @ (enc_rest ts @ r) = enc_tree u @ (enc_rest us @ r')"
    using Cons.prems(2) by (simp add: enc_rest_def)
  then have "t = u" "enc_rest ts @ r = enc_rest us @ r'" using Cons.prems(1) by auto
  then show ?case using Cons.IH[of us] Cons.prems(1) ts' by auto
qed

lemma enc_tree_prefix_free: "enc_tree t @ r = enc_tree t' @ r' \<Longrightarrow> t = t' \<and> r = r'"
proof (induction t arbitrary: t' r r')
  case TNone
  then show ?case by (cases t') (auto simp: lit_chars split: if_splits)
next
  case (TBool b)
  then show ?case by (cases t') (auto simp: lit_chars split: if_splits)
next
  case (TStr s)
  then show ?case by (cases t') (auto simp: lit_chars split: if_splits dest: encode_chars_prefix_free)
next
  case (TList ts)
  then obtain ts' where t': "t' = TList ts'" by (cases t') (auto simp: lit_chars split: if_splits)
  have not_close: "enc_tree u @ x \<noteq> 93 # y" for u x y
    using enc_tree_head[of u] by auto
  show ?case
  proof (cases ts)
    case Nil
    then show ?thesis using TList.prems t' not_close not_close[symmetric]
      by (cases ts') (auto simp: enc_tree_TList simp del: enc_tree.simps)
  next
    case (Cons u us)
    then obtain w ws where ts': "ts' = w # ws" using TList.prems t' not_close
      by (cases ts') (auto simp: enc_tree_TList simp del: enc_tree.simps)
    have "enc_tree u @ (enc_rest us @ r) = enc_tree w @ (enc_rest ws @ r')"
      using TList.prems t' Cons ts' by (simp add: enc_tree_TList del: enc_tree.simps)
    then have "u = w" "enc_rest us @ r = enc_rest ws @ r'" using TList.IH[of u] Cons by auto
    moreover have "us = ws \<and> r = r'"
      using enc_rest_prefix_free[OF _ calculation(2)] TList.IH Cons by auto
    ultimately show ?thesis using Cons t' ts' by simp
  qed
qed

lemma enc_tree_inj: "enc_tree t = enc_tree t' \<Longrightarrow> t = t'"
  using enc_tree_prefix_free[of t "[]" t' "[]"] by simp

section \<open>The encoding is a function of the meaning\<close>

definition key_bytes :: "pystr \<Rightarrow> bytes" where
  "key_bytes k = the (utf8_encode k)"

definition print_entry :: "(pystr, ttree) fmap \<Rightarrow> bytes \<Rightarrow> ttree" where
  "print_entry m b = (let k = the (utf8_decode b) in TList [TStr k, the (fmlookup m k)])"

definition print_entries :: "(pystr, ttree) fmap \<Rightarrow> ttree list" where
  "print_entries m = map (print_entry m) (sorted_list_of_set (key_bytes ` fset (fmdom m)))"

primrec print_tree :: "cval \<Rightarrow> ttree" where
  "print_tree CNull = TList [TStr (lit ''null'')]"
| "print_tree (CBool b) = tag ''boolean'' (TBool b)"
| "print_tree (CNum x) = tag ''number'' (TStr (hexn 16 (unat x)))"
| "print_tree (CStr s) = tag ''string'' (TStr s)"
| "print_tree (CArr vs) = tag ''array'' (TList (map print_tree vs))"
| "print_tree (CObj m) = tag ''object'' (TList (print_entries (fmmap print_tree m)))"

lemma map_of_key_str:
  "\<forall>(k, v) \<in> set kvs. \<exists>s. k = KStr s \<Longrightarrow>
     map_of (map (\<lambda>(k, v). (the (key_str k), f v)) kvs) s = map_option f (map_of kvs (KStr s))"
  by (induction kvs) auto

lemma number_hex_Inr:
  "number_hex (Inl i) = Inr h \<Longrightarrow> h = hexn 16 (unat (norm_zero (f64_of_int i)))"
  "number_hex (Inr x) = Inr h \<Longrightarrow> h = hexn 16 (unat (norm_zero x))"
  by (auto simp: number_hex_def normalize_number_def norm_zero_def bindE_Inr_iff Let_def split: if_splits)

lemma keyed_items_Inr:
  assumes "mapE keyed_item (map (\<lambda>(k, v). (k, tagged_tree v)) kvs) = Inr ks"
  shows "ks = map (\<lambda>(k, v). (key_bytes (the (key_str k)), the (key_str k), tagged_tree v)) kvs"
    and "\<forall>(k, v) \<in> set kvs. \<exists>s b. k = KStr s \<and> utf8_encode s = Some b"
  using assms
proof (induction kvs arbitrary: ks)
  case (Cons kv kvs)
  {
    case 1
    then show ?case using Cons(1) by (cases kv) (auto simp: bindE_Inr_iff keyed_item_Inr key_bytes_def)
  next
    case 2
    then show ?case using Cons(2) by (cases kv) (auto simp: bindE_Inr_iff keyed_item_Inr)
  }
qed auto

lemma mapE_tagged_entry_Inr:
  "mapE tagged_entry xs = Inr es \<Longrightarrow>
     es = map (\<lambda>(b, k, r). TList [TStr k, projr r]) xs \<and> (\<forall>(b, k, r) \<in> set xs. r = Inr (projr r))"
proof (induction xs arbitrary: es)
  case (Cons x xs)
  then show ?case by (cases x) (auto simp: bindE_Inr_iff tagged_entry_def)
qed simp

lemma key_bytes_inj: "scalar_str s \<Longrightarrow> scalar_str t \<Longrightarrow> key_bytes s = key_bytes t \<Longrightarrow> s = t"
  by (auto simp: key_bytes_def scalar_str_iff dest: utf8_encode_inj)

lemma utf8_decode_key_bytes: "scalar_str s \<Longrightarrow> utf8_decode (key_bytes s) = Some s"
  by (auto simp: key_bytes_def scalar_str_iff dest: utf8_decode_encode)

lemma tagged_tree_object:
  assumes keys: "mapE keyed_item (map (\<lambda>(k, v). (k, tagged_tree v)) kvs) = Inr ks"
    and ents: "mapE tagged_entry (sort_key fst ks) = Inr es"
    and dist: "distinct (map fst kvs)"
    and ih: "\<And>k v t. (k, v) \<in> set kvs \<Longrightarrow> tagged_tree v = Inr t \<Longrightarrow> t = print_tree (denote v)"
  shows "es = print_entries (fmmap print_tree (fmap_of_list (map (\<lambda>(k, v). (the (key_str k), denote v)) kvs)))"
proof -
  let ?M = "fmmap print_tree (fmap_of_list (map (\<lambda>(k, v). (the (key_str k), denote v)) kvs))"
  note ks = keyed_items_Inr(1)[OF keys]
  have str: "\<forall>(k, v) \<in> set kvs. \<exists>s. k = KStr s \<and> scalar_str s"
    using keyed_items_Inr(2)[OF keys] by (fastforce simp: scalar_str_iff)
  have kstr: "\<forall>(k, v) \<in> set kvs. \<exists>s. k = KStr s" using str by blast
  have look: "fmlookup (fmap_of_list (map (\<lambda>(k, v). (the (key_str k), denote v)) kvs)) s =
      map_option denote (map_of kvs (KStr s))" for s
    using map_of_key_str[OF kstr, of denote s] by (simp add: fmlookup_of_list)
  have dom: "fset (fmdom ?M) = (\<lambda>(k, v). the (key_str k)) ` set kvs"
    by (simp add: fmdom_of_list image_image case_prod_beta) (simp add: fset_of_list.rep_eq image_image case_prod_beta)
  have fsts: "fst ` set ks = key_bytes ` fset (fmdom ?M)"
    unfolding dom ks by (simp add: image_image case_prod_beta)
  have dks: "distinct (map fst ks)"
  proof -
    have "inj_on (\<lambda>(k, v). key_bytes (the (key_str k))) (set kvs)"
    proof (rule inj_onI, clarify)
      fix k v k' v' assume a: "(k, v) \<in> set kvs" "(k', v') \<in> set kvs"
        "key_bytes (the (key_str k)) = key_bytes (the (key_str k'))"
      obtain s s' where "k = KStr s" "scalar_str s" "k' = KStr s'" "scalar_str s'"
        using a(1,2) str by blast
      then have "k = k'" using a(3) key_bytes_inj[of s s'] by simp
      then show "k = k' \<and> v = v'" using a dist by (auto dest: eq_key_imp_eq_value)
    qed
    then show ?thesis unfolding ks using dist by (simp add: comp_def case_prod_unfold distinct_map)
  qed
  have sorted: "map fst (sort_key fst ks) = sorted_list_of_set (key_bytes ` fset (fmdom ?M))"
  proof (rule sorted_distinct_set_unique)
    show "distinct (map fst (sort_key fst ks))"
      using dks by (simp add: distinct_map)
    show "set (map fst (sort_key fst ks)) = set (sorted_list_of_set (key_bytes ` fset (fmdom ?M)))"
      using fsts by simp
  qed simp_all
  have ent: "TList [TStr k, projr r] = print_entry ?M b" if x: "(b, k, r) \<in> set ks" for b k r
  proof -
    obtain v where v: "(KStr k, v) \<in> set kvs" "b = key_bytes k" "scalar_str k" "r = tagged_tree v"
      using x str unfolding ks by fastforce
    moreover have "r = Inr (projr r)" using mapE_tagged_entry_Inr[OF ents] x by auto
    ultimately have "projr r = print_tree (denote v)" using ih by metis
    then show ?thesis
      using v dist by (simp add: print_entry_def utf8_decode_key_bytes look map_of_is_SomeI)
  qed
  have "es = map (\<lambda>x. print_entry ?M (fst x)) (sort_key fst ks)"
    using mapE_tagged_entry_Inr[OF ents] ent by auto
  also have "\<dots> = map (print_entry ?M) (map fst (sort_key fst ks))" by simp
  finally show ?thesis unfolding sorted print_entries_def .
qed

lemma mapE_tagged_tree_print:
  assumes "mapE tagged_tree vs = Inr ts" "\<And>v t. v \<in> set vs \<Longrightarrow> tagged_tree v = Inr t \<Longrightarrow> t = print_tree (denote v)"
  shows "ts = map (print_tree \<circ> denote) vs"
  using assms
proof (induction vs arbitrary: ts)
  case (Cons v vs)
  then show ?case by (auto simp: bindE_Inr_iff)
qed simp

lemma tagged_tree_print: "tagged_tree v = Inr t \<Longrightarrow> wf_py v \<Longrightarrow> t = print_tree (denote v)"
proof (induction v arbitrary: t)
  case (PDict kvs)
  from PDict.prems obtain ks es where k: "mapE keyed_item (map (\<lambda>(k, v). (k, tagged_tree v)) kvs) = Inr ks"
    "mapE tagged_entry (sort_key fst ks) = Inr es" "t = tag ''object'' (TList es)"
    by (auto simp: bindE_Inr_iff)
  have "es = print_entries (fmmap print_tree (fmap_of_list (map (\<lambda>(k, v). (the (key_str k), denote v)) kvs)))"
  proof (rule tagged_tree_object[OF k(1,2)])
    show "distinct (map fst kvs)" using PDict.prems by simp
    show "t = print_tree (denote v)" if "(k, v) \<in> set kvs" "tagged_tree v = Inr t" for k v t
      using PDict.IH[OF that(1), of v t] that PDict.prems(2) by (auto simp: list_all_iff)
  qed
  then show ?case using k(3) by simp
next
  case (PList vs)
  then show ?case using mapE_tagged_tree_print[of vs] by (auto simp: bindE_Inr_iff list_all_iff)
next
  case (PTuple vs)
  then show ?case using mapE_tagged_tree_print[of vs] by (auto simp: bindE_Inr_iff list_all_iff)
qed (auto simp: bindE_Inr_iff dest!: number_hex_Inr)

primrec cval_keys_ok :: "cval \<Rightarrow> bool" where
  "cval_keys_ok CNull = True"
| "cval_keys_ok (CBool b) = True"
| "cval_keys_ok (CNum x) = True"
| "cval_keys_ok (CStr s) = True"
| "cval_keys_ok (CArr vs) = list_all (\<lambda>b. b) (map cval_keys_ok vs)"
| "cval_keys_ok (CObj m) =
     ((\<forall>k \<in> fset (fmdom m). scalar_str k) \<and> (\<forall>b \<in> fset (fmran (fmmap cval_keys_ok m)). b))"

lemma fmran_fmmap_ball: "(\<forall>b \<in> fset (fmran (fmmap f m)). b) \<longleftrightarrow> (\<forall>x \<in> fset (fmran m). f x)"
  by auto

lemma cval_keys_ok_denote: "canonical_ok v \<Longrightarrow> cval_keys_ok (denote v)"
proof (induction v)
  case (PDict kvs)
  let ?l = "map (\<lambda>(k, v). (the (key_str k), denote v)) kvs"
  have "scalar_str k" if "k \<in> fset (fmdom (fmap_of_list ?l))" for k
    using that PDict.prems
    by (force simp: fmdom_of_list fset_of_list.rep_eq list_all_iff split: pykey.splits)
  moreover have "cval_keys_ok x" if "x \<in> fset (fmran (fmap_of_list ?l))" for x
  proof -
    from that obtain k where "fmlookup (fmap_of_list ?l) k = Some x" by (auto elim: fmranE)
    then have "(k, x) \<in> set ?l" unfolding fmlookup_of_list by (rule map_of_SomeD)
    then obtain k' v where "(k', v) \<in> set kvs" "x = denote v" by auto
    then show ?thesis using PDict.IH[of "(k', v)" v] PDict.prems by (auto simp: list_all_iff)
  qed
  ultimately show ?case by (simp add: fmran_fmmap_ball)
qed (auto simp: list_all_iff)

lemma print_entry_inj:
  assumes "scalar_str k" "scalar_str k'" "print_entry m (key_bytes k) = print_entry m' (key_bytes k')"
  shows "k = k' \<and> the (fmlookup m k) = the (fmlookup m' k')"
  using assms by (auto simp: print_entry_def utf8_decode_key_bytes)

lemma print_entries_inj:
  assumes "\<forall>k \<in> fset (fmdom m). scalar_str k" "\<forall>k \<in> fset (fmdom m'). scalar_str k"
    and "print_entries (fmmap f m) = print_entries (fmmap f m')"
    and inj: "\<And>x y. x \<in> fset (fmran m) \<Longrightarrow> y \<in> fset (fmran m') \<Longrightarrow> f x = f y \<Longrightarrow> x = y"
  shows "m = m'"
proof -
  let ?K = "sorted_list_of_set (key_bytes ` fset (fmdom m))"
    and ?K' = "sorted_list_of_set (key_bytes ` fset (fmdom m'))"
  have eq: "map (print_entry (fmmap f m)) ?K = map (print_entry (fmmap f m')) ?K'"
    using assms(3) by (simp add: print_entries_def)
  have at: "\<exists>k. ?K ! i = key_bytes k \<and> ?K' ! i = key_bytes k \<and> k \<in> fset (fmdom m) \<and> k \<in> fset (fmdom m') \<and>
      fmlookup m k = fmlookup m' k" if i: "i < length ?K" for i
  proof -
    have i': "i < length ?K'" using i map_eq_imp_length_eq[OF eq] by simp
    obtain k where k: "?K ! i = key_bytes k" "k \<in> fset (fmdom m)" using nth_mem[OF i] by auto
    obtain k' where k': "?K' ! i = key_bytes k'" "k' \<in> fset (fmdom m')" using nth_mem[OF i'] by auto
    have "print_entry (fmmap f m) (key_bytes k) = print_entry (fmmap f m') (key_bytes k')"
      using eq i i' k(1) k'(1) by (metis nth_map)
    then have same: "k = k'" "the (fmlookup (fmmap f m) k) = the (fmlookup (fmmap f m') k')"
      using print_entry_inj assms(1,2) k(2) k'(2) by blast+
    obtain x y where "fmlookup m k = Some x" "fmlookup m' k = Some y"
      using k(2) k'(2) same(1) by (auto simp: fmlookup_dom_iff)
    then have "fmlookup m k = fmlookup m' k" using same inj[of x y] by (auto intro: fmranI)
    then show ?thesis using k k' same(1) by auto
  qed
  have len: "length ?K' = length ?K" using map_eq_imp_length_eq[OF eq] by simp
  have sub: "k \<in> fset (fmdom m) \<Longrightarrow> fmlookup m k = fmlookup m' k" for k
  proof -
    assume k: "k \<in> fset (fmdom m)"
    then have "key_bytes k \<in> set ?K" by simp
    then obtain i where i: "i < length ?K" "?K ! i = key_bytes k" unfolding in_set_conv_nth by blast
    then show ?thesis using at[OF i(1)] key_bytes_inj assms(1) k by metis
  qed
  have sub': "k \<in> fset (fmdom m') \<Longrightarrow> k \<in> fset (fmdom m)" for k
  proof -
    assume k: "k \<in> fset (fmdom m')"
    then have "key_bytes k \<in> set ?K'" by simp
    then obtain i where i: "i < length ?K'" "?K' ! i = key_bytes k" unfolding in_set_conv_nth by blast
    then show ?thesis using at[of i] len key_bytes_inj assms(1,2) k by metis
  qed
  show ?thesis
  proof (rule fmap_ext)
    fix k
    show "fmlookup m k = fmlookup m' k"
      using sub[of k] sub'[of k] by (metis fmdom_notD)
  qed
qed

lemma map_eq_pointwise:
  "map f xs = map f ys \<Longrightarrow> (\<And>x y. x \<in> set xs \<Longrightarrow> y \<in> set ys \<Longrightarrow> f x = f y \<Longrightarrow> x = y) \<Longrightarrow> xs = ys"
proof (induction xs arbitrary: ys)
  case (Cons x xs)
  then obtain y ys' where ys: "ys = y # ys'" "f x = f y" "map f xs = map f ys'" by auto
  then have "x = y" "xs = ys'" using Cons.prems(2) Cons.IH[of ys'] by auto
  then show ?case using ys by simp
qed simp

lemma print_tree_inj: "print_tree a = print_tree b \<Longrightarrow> cval_keys_ok a \<Longrightarrow> cval_keys_ok b \<Longrightarrow> a = b"
proof (induction a arbitrary: b)
  case (CNum x)
  have "unat x < 16 ^ 16" for x :: float64 using unsigned_less[of x] by simp
  with CNum show ?case by (cases b) (auto simp: tag_def dest!: hexn_inj[rotated 2] intro: word_unat_eq_iff[THEN iffD2])
next
  case (CArr vs)
  then obtain ws where b: "b = CArr ws" by (cases b) (auto simp: tag_def)
  then have "map print_tree vs = map print_tree ws" using CArr.prems(1) by (simp add: tag_def)
  then have "vs = ws"
  proof (rule map_eq_pointwise)
    show "x = y" if "x \<in> set vs" "y \<in> set ws" "print_tree x = print_tree y" for x y
      using CArr.IH[OF that(1,3)] CArr.prems(2,3) that b by (simp add: list_all_iff)
  qed
  then show ?case using b by simp
next
  case (CObj m)
  then obtain m' where b: "b = CObj m'" by (cases b) (auto simp: tag_def)
  have keys: "\<forall>k \<in> fset (fmdom m). scalar_str k" "\<forall>k \<in> fset (fmdom m'). scalar_str k"
    using CObj.prems b by auto
  have subs: "\<forall>x \<in> fset (fmran m). cval_keys_ok x" "\<forall>x \<in> fset (fmran m'). cval_keys_ok x"
    using CObj.prems(2,3) unfolding b cval_keys_ok.simps fmran_fmmap_ball by blast+
  have ents: "print_entries (fmmap print_tree m) = print_entries (fmmap print_tree m')"
    using CObj.prems(1) b by (simp add: tag_def)
  have "m = m'"
  proof (rule print_entries_inj[OF keys ents])
    show "x = y" if "x \<in> fset (fmran m)" "y \<in> fset (fmran m')" "print_tree x = print_tree y" for x y
      using CObj.IH[of x y] that subs by (simp add: fmran'_alt_def)
  qed
  then show ?case using b by simp
qed (case_tac b, auto simp: tag_def)+

lemma canonical_bytes_eq_iff:
  assumes "canonical_json_bytes v = Inr b" "canonical_json_bytes w = Inr c" "wf_py v" "wf_py w"
  shows "b = c \<longleftrightarrow> denote v = denote w"
proof -
  obtain t u where t: "tagged_tree v = Inr t" "utf8_encode (enc_tree t) = Some b"
    and u: "tagged_tree w = Inr u" "utf8_encode (enc_tree u) = Some c"
    using assms(1,2) by (auto simp: canonical_json_bytes_Inr)
  have ok: "canonical_ok v" "canonical_ok w"
    using t(1) u(1) is_ok_tagged_tree[of v] is_ok_tagged_tree[of w] by (auto simp: is_ok_iff)
  have pt: "t = print_tree (denote v)" "u = print_tree (denote w)"
    using tagged_tree_print[OF t(1) assms(3)] tagged_tree_print[OF u(1) assms(4)] by auto
  have "b = c \<longleftrightarrow> t = u" using t(2) u(2) utf8_encode_inj enc_tree_inj by fastforce
  also have "\<dots> \<longleftrightarrow> denote v = denote w"
    using pt print_tree_inj cval_keys_ok_denote[OF ok(1)] cval_keys_ok_denote[OF ok(2)] by auto
  finally show ?thesis .
qed

section \<open>Hash payloads\<close>

lemma domain_ok_range: "domain_ok d \<Longrightarrow> c \<in> set d \<Longrightarrow> 0 < c \<and> c < 128"
  by (auto simp: domain_ok_def is_lower_def is_digit_def list_all_iff split: list.splits)

lemma byte_of_eq_iff: "m < 256 \<Longrightarrow> n < 256 \<Longrightarrow> byte_of m = byte_of n \<longleftrightarrow> m = n"
  by (metis unat_byte_of)

lemma ascii_bytes_inj:
  "\<forall>c \<in> set s. c < 256 \<Longrightarrow> \<forall>c \<in> set t. c < 256 \<Longrightarrow> ascii_bytes s = ascii_bytes t \<Longrightarrow> s = t"
  using map_eq_pointwise[of byte_of s t] by (simp add: ascii_bytes_def byte_of_eq_iff)

lemma split_at_zero:
  "xs @ [0::byte] @ a = ys @ [0] @ b \<Longrightarrow> 0 \<notin> set xs \<Longrightarrow> 0 \<notin> set ys \<Longrightarrow> xs = ys \<and> a = b"
proof (induction xs arbitrary: ys)
  case Nil
  then show ?case by (cases ys) auto
next
  case (Cons x xs)
  then show ?case by (cases ys) auto
qed

lemma hash_payload_inj:
  assumes "domain_ok d" "domain_ok e" "hash_payload d b = hash_payload e c"
  shows "d = e \<and> b = c"
proof -
  have nz: "0 \<notin> set (ascii_bytes d)" if "domain_ok d" for d
  proof
    assume "0 \<in> set (ascii_bytes d)"
    then obtain x where x: "x \<in> set d" "byte_of x = 0" by (auto simp: ascii_bytes_def)
    then have "unat (byte_of x) = x" using domain_ok_range[OF that x(1)] by (intro unat_byte_of) simp
    then show False using x(2) domain_ok_range[OF that x(1)] by simp
  qed
  have "ascii_bytes d @ [0] @ b = ascii_bytes e @ [0] @ c"
    using assms(3) by (simp add: hash_payload_def)
  then have "ascii_bytes d = ascii_bytes e \<and> b = c"
    using split_at_zero nz[OF assms(1)] nz[OF assms(2)] by blast
  moreover have "\<forall>x \<in> set d. x < 256" if "domain_ok d" for d
    using domain_ok_range[OF that] by fastforce
  ultimately show ?thesis using ascii_bytes_inj assms(1,2) by blast
qed

lemma canonical_hash_Inr:
  "canonical_hash v d = Inr h \<longleftrightarrow>
     domain_ok d \<and> (\<exists>b. canonical_json_bytes v = Inr b \<and> h = sha256_hexdigest (hash_payload d b))"
  by (auto simp: canonical_hash_def bindE_Inr_iff)

lemma is_ok_canonical_hash: "is_ok (canonical_hash v d) \<longleftrightarrow> domain_ok d \<and> canonical_ok v"
  by (auto simp: canonical_hash_def is_ok_bindE is_ok_canonical_json_bytes[symmetric]) (auto simp: is_ok_iff)

text \<open>The bytes hashed for a value in a domain.\<close>

definition payload_of :: "pyval \<Rightarrow> pystr \<Rightarrow> bytes" where
  "payload_of v d = hash_payload d (projr (canonical_json_bytes v))"

lemma canonical_hash_sound:
  assumes "canonical_hash v d = Inr h" "canonical_hash w e = Inr h" "wf_py v" "wf_py w"
  shows "d = e \<and> denote v = denote w \<or> sha256_collision (payload_of v d) (payload_of w e)"
proof -
  obtain b c where b: "domain_ok d" "canonical_json_bytes v = Inr b" "h = sha256_hexdigest (hash_payload d b)"
    and c: "domain_ok e" "canonical_json_bytes w = Inr c" "h = sha256_hexdigest (hash_payload e c)"
    using assms(1,2) by (auto simp: canonical_hash_Inr)
  show ?thesis
  proof (cases "hash_payload d b = hash_payload e c")
    case True
    then show ?thesis using hash_payload_inj b c canonical_bytes_eq_iff assms(3,4) by blast
  next
    case False
    then show ?thesis using b c by (simp add: sha256_collision_def payload_of_def)
  qed
qed

section \<open>Properties\<close>

text \<open>
  \<^verbatim>\<open>canonical_json_bytes\<close> succeeds exactly on canonical values: no lone
  surrogate in a string or key, string keys only, integers and integer-valued floats within the
  safe-integer range, finite numbers, and no value outside JSON; every other value raises.
\<close>

theorem canonical_bytes_domain: "is_ok (canonical_json_bytes v) \<longleftrightarrow> canonical_ok v"
  by (rule is_ok_canonical_json_bytes)

text \<open>
  C9 (canonical_bytes_meaning). Two values have the same canonical bytes exactly if they mean the
  same: key order, tuple against list, integer against equal float and the sign of zero do not
  matter, and nothing else is identified.
\<close>

theorem canonical_bytes_meaning:
  assumes "canonical_ok v" "canonical_ok w" "wf_py v" "wf_py w"
  shows "canonical_json_bytes v = canonical_json_bytes w \<longleftrightarrow> denote v = denote w"
proof -
  obtain b c where "canonical_json_bytes v = Inr b" "canonical_json_bytes w = Inr c"
    using assms(1,2) is_ok_canonical_json_bytes by (metis is_ok_iff)
  then show ?thesis using canonical_bytes_eq_iff assms(3,4) by simp
qed

theorem canonical_bytes_meaning_witness:
  "canonical_json_bytes (PDict [(KStr (lit ''a''), PInt 1), (KStr (lit ''b''), PTuple [PBool True])]) =
   canonical_json_bytes (PDict [(KStr (lit ''b''), PList [PBool True]), (KStr (lit ''a''), PFloat (f64_of_int 1))])"
proof -
  let ?v = "PDict [(KStr (lit ''a''), PInt 1), (KStr (lit ''b''), PTuple [PBool True])]"
  let ?w = "PDict [(KStr (lit ''b''), PList [PBool True]), (KStr (lit ''a''), PFloat (f64_of_int 1))]"
  have one: "f64_units (f64_of_int 1) = f64_one" "f64_finite (f64_of_int 1)"
    using f64_units_of_int[of 1] by simp_all
  have "canonical_ok ?v" "canonical_ok ?w"
    by (simp_all add: one MAX_SAFE_INTEGER_def f64_one_def)
  moreover have "wf_py ?v" "wf_py ?w" by simp_all
  moreover have "denote ?v = denote ?w"
    by (auto intro!: fmap_ext simp: fmlookup_of_list)
  ultimately show ?thesis using canonical_bytes_meaning by blast
qed

text \<open>
  C6 (canonical_hash_binding). Equal digests bind: if two canonical hashes agree, then the hash
  domains agree and the values mean the same, or the two exhibited payloads are a SHA-256 collision.
\<close>

theorem canonical_hash_binding:
  assumes "canonical_hash v d = Inr h" "canonical_hash w e = Inr h" "wf_py v" "wf_py w"
  shows "d = e \<and> denote v = denote w \<or> sha256_collision (payload_of v d) (payload_of w e)"
  using assms by (rule canonical_hash_sound)

theorem canonical_hash_binding_witness:
  "\<exists>h. canonical_hash PNone (lit ''a'') = Inr h \<and> canonical_hash (PEnum PNone) (lit ''a'') = Inr h \<and>
     (lit ''a'' = lit ''a'' \<and> denote PNone = denote (PEnum PNone) \<or>
      sha256_collision (payload_of PNone (lit ''a'')) (payload_of (PEnum PNone) (lit ''a'')))"
proof -
  have "is_ok (canonical_hash PNone (lit ''a''))"
    unfolding is_ok_canonical_hash by (simp add: domain_ok_def lit_chars is_lower_def)
  then obtain h where h: "canonical_hash PNone (lit ''a'') = Inr h" by (auto simp: is_ok_iff)
  moreover have "canonical_json_bytes (PEnum PNone) = canonical_json_bytes PNone"
    by (simp only: canonical_json_bytes_def tagged_tree.simps)
  then have "canonical_hash (PEnum PNone) (lit ''a'') = Inr h"
    using h by (simp only: canonical_hash_def)
  ultimately show ?thesis using canonical_hash_binding[of PNone "lit ''a''" h "PEnum PNone" "lit ''a''"] by auto
qed

end
