(* ===== verification/Hashed.thy ===== *)
theory Hashed
  imports Canonical
begin

text \<open>
  Records that are identified by a domain-separated digest. Operation requests, policies, datasets,
  plans, receipts, approvals and authorization bindings all hash a JSON projection of themselves; the
  locale \<open>hashed_record\<close> states what that takes and proves once what such a digest is worth.
\<close>

section \<open>JSON objects with literal keys\<close>

definition jobj :: "(string \<times> pyval) list \<Rightarrow> pyval" where
  "jobj fields = PDict (map (\<lambda>(k, v). (KStr (lit k), v)) fields)"

definition jopt :: "('a \<Rightarrow> pyval) \<Rightarrow> 'a option \<Rightarrow> pyval" where
  "jopt f x = (case x of None \<Rightarrow> PNone | Some a \<Rightarrow> f a)"

definition jstr :: "string \<Rightarrow> pyval" where
  "jstr s = PStr (lit s)"

lemma wf_jobj [simp]: "wf_py (jobj fields) \<longleftrightarrow> distinct (map fst fields) \<and> (\<forall>kv \<in> set fields. wf_py (snd kv))"
proof -
  have "distinct (map fst (map (\<lambda>(k, v). (KStr (lit k), v)) fields)) \<longleftrightarrow> distinct (map fst fields)"
    by (induction fields) (auto simp: image_iff)
  then show ?thesis by (force simp: jobj_def list_all_iff)
qed

lemma scalar_lit [simp]: "scalar_str (lit s)"
proof -
  have "is_scalar c" if "c \<in> set (lit s)" for c
    using set_lit_less[OF that] by (simp add: is_scalar_def is_surrogate_def)
  then show ?thesis by (simp add: scalar_str_def list_all_iff)
qed

lemma canonical_jobj [simp]: "canonical_ok (jobj fields) \<longleftrightarrow> (\<forall>kv \<in> set fields. canonical_ok (snd kv))"
  by (force simp: jobj_def list_all_iff)

lemma canonical_jstr [simp]: "canonical_ok (jstr s)" "wf_py (jstr s)" "denote (jstr s) = CStr (lit s)"
  by (simp_all add: jstr_def)

lemma jopt_simps [simp]: "jopt f None = PNone" "jopt f (Some a) = f a"
  by (simp_all add: jopt_def)

lemma wf_jopt: "wf_py (jopt f x) \<longleftrightarrow> (\<forall>a. x = Some a \<longrightarrow> wf_py (f a))"
  by (cases x) auto

lemma canonical_jopt: "canonical_ok (jopt f x) \<longleftrightarrow> (\<forall>a. x = Some a \<longrightarrow> canonical_ok (f a))"
  by (cases x) auto

lemma denote_jopt_PStr [simp]: "denote (jopt PStr x) = denote (jopt PStr y) \<longleftrightarrow> x = y"
  by (cases x; cases y) auto

lemma fmap_of_list_eq_iff:
  assumes "distinct (map fst xs)" "map fst xs = map fst ys"
  shows "fmap_of_list xs = fmap_of_list ys \<longleftrightarrow> xs = ys"
proof
  assume eq: "fmap_of_list xs = fmap_of_list ys"
  have len: "length xs = length ys" using assms(2) by (metis length_map)
  show "xs = ys"
  proof (rule nth_equalityI[OF len])
    fix i assume i: "i < length xs"
    have k: "fst (xs ! i) = fst (ys ! i)" using i len assms(2) by (metis nth_map)
    have "map_of xs (fst (xs ! i)) = Some (snd (xs ! i))" using assms(1) i by simp
    moreover have "map_of ys (fst (ys ! i)) = Some (snd (ys ! i))" using assms i len by simp
    ultimately show "xs ! i = ys ! i"
      using eq k by (metis fmlookup_of_list option.inject prod_eq_iff)
  qed
qed simp

lemma denote_jobj_iff:
  assumes "distinct (map fst xs)" "map fst xs = map fst ys"
  shows "denote (jobj xs) = denote (jobj ys) \<longleftrightarrow> map (denote \<circ> snd) xs = map (denote \<circ> snd) ys"
proof -
  let ?f = "\<lambda>zs. map (\<lambda>(k, v). (the (key_str k), denote v)) (map (\<lambda>(k, v). (KStr (lit k), v)) zs)"
  have keys: "map fst (?f zs) = map lit (map fst zs)" for zs by (induction zs) auto
  have snds: "map snd (?f zs) = map (denote \<circ> snd) zs" for zs by (induction zs) auto
  have "distinct (map fst (?f xs))" "map fst (?f xs) = map fst (?f ys)"
    unfolding keys using assms by (auto simp: distinct_map inj_on_def)
  then have "fmap_of_list (?f xs) = fmap_of_list (?f ys) \<longleftrightarrow> ?f xs = ?f ys" by (rule fmap_of_list_eq_iff)
  also have "\<dots> \<longleftrightarrow> map fst (?f xs) = map fst (?f ys) \<and> map snd (?f xs) = map snd (?f ys)"
    by (metis zip_map_fst_snd)
  also have "\<dots> \<longleftrightarrow> map (denote \<circ> snd) xs = map (denote \<circ> snd) ys" unfolding keys snds using assms by simp
  finally show ?thesis by (simp add: jobj_def)
qed

lemma denote_PInt_iff:
  assumes "\<bar>i\<bar> \<le> MAX_SAFE_INTEGER" "\<bar>j\<bar> \<le> MAX_SAFE_INTEGER"
  shows "denote (PInt i) = denote (PInt j) \<longleftrightarrow> i = j"
proof -
  have units: "f64_units (norm_zero (f64_of_int n)) = n * f64_one" if "\<bar>n\<bar> \<le> MAX_SAFE_INTEGER" for n
    using f64_units_of_int[of n] that
    by (auto simp: norm_zero_def MAX_SAFE_INTEGER_def f64_units_def f64_significand_def f64_exponent_def f64_fraction_def)
  then show ?thesis using assms by (auto simp: f64_one_def dest: arg_cong[of _ _ f64_units])
qed

text \<open>Lists of projected parts mean the same exactly if they agree part by part.\<close>

lemma denote_PList_map:
  "denote (PList (map f xs)) = denote (PList (map g ys)) \<longleftrightarrow> list_all2 (\<lambda>x y. denote (f x) = denote (g y)) xs ys"
  by (auto simp: list_all2_conv_all_nth list_eq_iff_nth_eq)

section \<open>The contract of a hashed record\<close>

locale hashed_record =
  fixes project :: "'a \<Rightarrow> pyval"
    and domain :: pystr
    and ok :: "'a \<Rightarrow> bool"
    and same :: "'a \<Rightarrow> 'a \<Rightarrow> bool"
  assumes domain_ok: "domain_ok domain"
    and project_wf: "ok x \<Longrightarrow> wf_py (project x)"
    and project_canonical: "ok x \<Longrightarrow> canonical_ok (project x)"
    and project_same: "ok x \<Longrightarrow> ok y \<Longrightarrow> denote (project x) = denote (project y) \<longleftrightarrow> same x y"
begin

lemma hash_total: "ok x \<Longrightarrow> \<exists>h. canonical_hash (project x) domain = Inr h"
  using is_ok_canonical_hash project_canonical domain_ok is_ok_iff by blast

lemma hash_complete:
  assumes "ok x" "ok y" "same x y"
  shows "canonical_hash (project x) domain = canonical_hash (project y) domain"
proof -
  obtain b c where b: "canonical_json_bytes (project x) = Inr b" "canonical_json_bytes (project y) = Inr c"
    using assms project_canonical is_ok_canonical_json_bytes by (metis is_ok_iff)
  then have "b = c" using assms project_same project_wf canonical_bytes_eq_iff[OF b] by blast
  then show ?thesis using b by (simp add: canonical_hash_def)
qed

lemma hash_binding:
  assumes "ok x" "ok y" "canonical_hash (project x) domain = canonical_hash (project y) domain"
  shows "same x y \<or> sha256_collision (payload_of (project x) domain) (payload_of (project y) domain)"
proof -
  obtain h where "canonical_hash (project x) domain = Inr h" using hash_total assms(1) by blast
  then show ?thesis
    using canonical_hash_sound[of "project x" domain h "project y" domain] assms project_wf project_same by auto
qed

lemma hash_hex: "canonical_hash (project x) domain = Inr h \<Longrightarrow> length h = 64 \<and> (\<forall>c \<in> set h. is_hex c)"
  using set_sha256_hexdigest by (auto simp: canonical_hash_Inr length_sha256_hexdigest)

end

end
