(* ===== verification/Operation.thy ===== *)
theory Operation
  imports Regex Hashed
begin

text \<open>
  \<^verbatim>\<open>protocol/operation.py\<close> and \<^verbatim>\<open>protocol/version.py\<close>: the models of one unmanaged component operation.
  A Pydantic model is a record; what its field constraints demand is a predicate \<open>*_valid\<close>; a
  \<^verbatim>\<open>model_validator\<close> that may raise is a function to a sum; \<^verbatim>\<open>model_dump(mode="json")\<close> is a function to
  \<open>pyval\<close>. Pydantic refuses strings with lone surrogates, so every text field is \<open>scalar_str\<close>.
\<close>

section \<open>Patterns\<close>

text \<open>
  \<^verbatim>\<open>\d\<close> of the Unicode-aware engine that checks Pydantic patterns: the decimal digits of Unicode 15,
  blocks of ten that begin at the listed code points.
\<close>

definition unicode_digit_zeros :: "nat list" where
  "unicode_digit_zeros =
     [0x30, 0x660, 0x6f0, 0x7c0, 0x966, 0x9e6, 0xa66, 0xae6, 0xb66, 0xbe6, 0xc66, 0xce6, 0xd66, 0xde6,
      0xe50, 0xed0, 0xf20, 0x1040, 0x1090, 0x17e0, 0x1810, 0x1946, 0x19d0, 0x1a80, 0x1a90, 0x1b50, 0x1bb0,
      0x1c40, 0x1c50, 0xa620, 0xa8d0, 0xa900, 0xa9d0, 0xa9f0, 0xaa50, 0xabf0, 0xff10, 0x104a0, 0x10d30,
      0x11066, 0x110f0, 0x11136, 0x111d0, 0x112f0, 0x11450, 0x114d0, 0x11650, 0x116c0, 0x11730, 0x118e0,
      0x11950, 0x11c50, 0x11d50, 0x11da0, 0x11f50, 0x16a60, 0x16ac0, 0x16b50, 0x1d7ce, 0x1d7d8, 0x1d7e2,
      0x1d7ec, 0x1d7f6, 0x1e140, 0x1e2f0, 0x1e4f0, 0x1e950, 0x1fbf0]"

definition unicode_digit :: "nat \<Rightarrow> bool" where
  "unicode_digit c \<longleftrightarrow> list_ex (\<lambda>z. z \<le> c \<and> c < z + 10) unicode_digit_zeros"

definition is_alpha :: "nat \<Rightarrow> bool" where
  "is_alpha c \<longleftrightarrow> is_lower c \<or> is_upper c"

definition id_tail_char :: "nat \<Rightarrow> bool" where
  "id_tail_char c \<longleftrightarrow> is_lower c \<or> is_digit c \<or> c = 95"

definition COMPONENT_ID_PATTERN :: rx where
  "COMPONENT_ID_PATTERN =
     Cats [Str ''dq.'', Cls is_lower, Star (Cls id_tail_char), Chr 46, Cls is_lower, Star (Cls id_tail_char)]"

definition SAFE_ID_PATTERN :: rx where
  "SAFE_ID_PATTERN = Cat (Cls is_lower) (AtMost 63 (Cls id_tail_char))"

definition SHA256_PATTERN :: rx where
  "SHA256_PATTERN = Times 64 (Cls is_hex)"

text \<open>\<^verbatim>\<open>0|[1-9]\d*\<close>, a pre-release identifier, and the semantic-version pattern.\<close>

definition VERSION_NUMBER :: rx where
  "VERSION_NUMBER = Alt (Chr 48) (Cat (Cls (\<lambda>c. 49 \<le> c \<and> c \<le> 57)) (Star (Cls unicode_digit)))"

definition ident_char :: "nat \<Rightarrow> bool" where
  "ident_char c \<longleftrightarrow> is_digit c \<or> is_alpha c \<or> c = 45"

definition PRERELEASE_IDENT :: rx where
  "PRERELEASE_IDENT =
     Alt VERSION_NUMBER
       (Cats [Star (Cls ident_char), Cls (\<lambda>c. is_alpha c \<or> c = 45), Star (Cls ident_char)])"

definition SEMVER_PATTERN :: rx where
  "SEMVER_PATTERN =
     Cats [VERSION_NUMBER, Chr 46, VERSION_NUMBER, Chr 46, VERSION_NUMBER,
           Opt (Cat (Chr 45) (SepBy 46 PRERELEASE_IDENT)),
           Opt (Cat (Chr 43) (SepBy 46 (Plus (Cls ident_char))))]"

definition member_char :: "nat \<Rightarrow> bool" where
  "member_char c \<longleftrightarrow> is_alpha c \<or> is_digit c \<or> c = 95 \<or> c = 45"

definition MEMBER_SEGMENT :: rx where
  "MEMBER_SEGMENT = SepBy 46 (Plus (Cls member_char))"

definition RELATIVE_MEMBER_PATH_PATTERN :: rx where
  "RELATIVE_MEMBER_PATH_PATTERN = SepBy 47 MEMBER_SEGMENT"

section \<open>Portable member paths\<close>

definition WINDOWS_DEVICE_MEMBER_NAMES :: "pystr list" where
  "WINDOWS_DEVICE_MEMBER_NAMES =
     map lit [''con'', ''prn'', ''aux'', ''nul''] @
     map (\<lambda>i. lit ''com'' @ [48 + i]) [1..<10] @ map (\<lambda>i. lit ''lpt'' @ [48 + i]) [1..<10]"

definition RELATIVE_MEMBER_PATH_ERROR :: pystr where
  "RELATIVE_MEMBER_PATH_ERROR =
     lit ''member path must use safe-ASCII segments with dots only inside segment names''"

text \<open>One step of the loop over \<^verbatim>\<open>value.split("/")\<close>.\<close>

definition fold_segment :: "pystr \<Rightarrow> py_exc + pystr" where
  "fold_segment segment =
     (if segment = lit ''.'' \<or> segment = lit ''..'' \<or> (segment \<noteq> [] \<and> last segment \<in> {46, 32}) \<or>
         58 \<in> set segment \<or> 92 \<in> set segment
      then Inl (ValueError RELATIVE_MEMBER_PATH_ERROR)
      else let folded = casefold segment in
           if hd (split_on 46 folded) \<in> set WINDOWS_DEVICE_MEMBER_NAMES
           then Inl (ValueError RELATIVE_MEMBER_PATH_ERROR)
           else Inr folded)"

definition portable_member_key :: "pystr \<Rightarrow> py_exc + pystr" where
  "portable_member_key value =
     (if \<not> list_all (\<lambda>c. c < 128) value then Inl (ValueError RELATIVE_MEMBER_PATH_ERROR)
      else if \<not> (1 \<le> length value \<and> length value \<le> 512) \<or> \<not> fullmatch RELATIVE_MEMBER_PATH_PATTERN value
      then Inl (ValueError RELATIVE_MEMBER_PATH_ERROR)
      else bindE (mapE fold_segment (split_on 47 value)) (\<lambda>segments. Inr (str_join [47] segments)))"

definition relative_member_path :: "pystr \<Rightarrow> py_exc + pystr" where
  "relative_member_path value = bindE (portable_member_key value) (\<lambda>_. Inr value)"

definition relative_member_path_valid :: "pystr \<Rightarrow> bool" where
  "relative_member_path_valid p \<longleftrightarrow>
     1 \<le> length p \<and> length p \<le> 512 \<and> fullmatch RELATIVE_MEMBER_PATH_PATTERN p \<and> is_ok (relative_member_path p)"

section \<open>Requests\<close>

datatype source_kind = USER_PROMPT | USER_ATTACHMENT | EXTERNAL_PROVIDER | SYNTHETIC

fun source_kind_value :: "source_kind \<Rightarrow> string" where
  "source_kind_value USER_PROMPT = ''user_prompt''"
| "source_kind_value USER_ATTACHMENT = ''user_attachment''"
| "source_kind_value EXTERNAL_PROVIDER = ''external_provider''"
| "source_kind_value SYNTHETIC = ''synthetic''"

datatype interpretation_method = AI_INTERPRETED | CALLER_STRUCTURED | ADAPTER_NORMALIZED

fun interpretation_method_value :: "interpretation_method \<Rightarrow> string" where
  "interpretation_method_value AI_INTERPRETED = ''ai_interpreted''"
| "interpretation_method_value CALLER_STRUCTURED = ''caller_structured''"
| "interpretation_method_value ADAPTER_NORMALIZED = ''adapter_normalized''"

datatype provenance_status = PS_UNVERIFIED | PS_CALLER_CONFIRMED

fun provenance_status_value :: "provenance_status \<Rightarrow> string" where
  "provenance_status_value PS_UNVERIFIED = ''unverified''"
| "provenance_status_value PS_CALLER_CONFIRMED = ''caller_confirmed''"

definition text_ok :: "nat \<Rightarrow> pystr \<Rightarrow> bool" where
  "text_ok n s \<longleftrightarrow> scalar_str s \<and> 1 \<le> length s \<and> length s \<le> n"

definition pattern_ok :: "rx \<Rightarrow> pystr \<Rightarrow> bool" where
  "pattern_ok r s \<longleftrightarrow> scalar_str s \<and> fullmatch r s"

record caller_provenance =
  source_kind :: source_kind
  interpretation_method :: interpretation_method
  verification_status :: provenance_status
  p_label :: pystr
  p_references :: "pystr list"
  content_sha256 :: "pystr option"
  assumptions :: "pystr list"

definition caller_provenance_valid :: "caller_provenance \<Rightarrow> bool" where
  "caller_provenance_valid p \<longleftrightarrow>
     text_ok 240 (p_label p) \<and>
     list_all (text_ok 500) (p_references p) \<and> length (p_references p) \<le> 50 \<and>
     pred_option (pattern_ok SHA256_PATTERN) (content_sha256 p) \<and>
     list_all (text_ok 500) (assumptions p) \<and> length (assumptions p) \<le> 50"

definition caller_provenance_dump :: "caller_provenance \<Rightarrow> pyval" where
  "caller_provenance_dump p =
     jobj [(''source_kind'', jstr (source_kind_value (source_kind p))),
           (''interpretation_method'', jstr (interpretation_method_value (interpretation_method p))),
           (''verification_status'', jstr (provenance_status_value (verification_status p))),
           (''label'', PStr (p_label p)),
           (''references'', PList (map PStr (p_references p))),
           (''content_sha256'', jopt PStr (content_sha256 p)),
           (''assumptions'', PList (map PStr (assumptions p)))]"

record component_ref =
  cr_id :: pystr
  cr_version :: pystr
  cr_subject_hash :: pystr

definition component_ref_valid :: "component_ref \<Rightarrow> bool" where
  "component_ref_valid r \<longleftrightarrow>
     pattern_ok COMPONENT_ID_PATTERN (cr_id r) \<and> pattern_ok SEMVER_PATTERN (cr_version r) \<and>
     pattern_ok SHA256_PATTERN (cr_subject_hash r)"

definition component_ref_dump :: "component_ref \<Rightarrow> pyval" where
  "component_ref_dump r =
     jobj [(''id'', PStr (cr_id r)), (''version'', PStr (cr_version r)),
           (''subject_hash'', PStr (cr_subject_hash r))]"

datatype svg_artifact_request = SvgArtifactRequest

fun svg_artifact_request_dump :: "svg_artifact_request \<Rightarrow> pyval" where
  "svg_artifact_request_dump SvgArtifactRequest = jobj [(''kind'', jstr ''svg''), (''selection'', jstr ''all'')]"

record operation_request =
  or_component :: component_ref
  or_input :: "(pykey \<times> pyval) list"
  or_provenance :: caller_provenance
  or_artifacts :: "svg_artifact_request option"

text \<open>
  A \<^verbatim>\<open>JsonValue\<close>, as Pydantic admits it: no sets, tuples, models or other objects, string keys, no
  repeated key.
\<close>

fun json_value :: "pyval \<Rightarrow> bool" where
  "json_value PNone = True"
| "json_value (PBool _) = True"
| "json_value (PInt _) = True"
| "json_value (PFloat _) = True"
| "json_value (PStr s) = scalar_str s"
| "json_value (PList xs) = list_all json_value xs"
| "json_value (PDict kvs) =
     (distinct (map fst kvs) \<and>
      list_all (\<lambda>kv. (case fst kv of KStr s \<Rightarrow> scalar_str s | KOther _ \<Rightarrow> False) \<and> json_value (snd kv)) kvs)"
| "json_value _ = False"

definition validate_canonical_input :: "operation_request \<Rightarrow> py_exc + operation_request" where
  "validate_canonical_input r = bindE (canonical_json_bytes (PDict (or_input r))) (\<lambda>_. Inr r)"

definition operation_request_valid :: "operation_request \<Rightarrow> bool" where
  "operation_request_valid r \<longleftrightarrow>
     component_ref_valid (or_component r) \<and> json_value (PDict (or_input r)) \<and>
     caller_provenance_valid (or_provenance r) \<and> is_ok (validate_canonical_input r)"

definition operation_request_dump :: "operation_request \<Rightarrow> pyval" where
  "operation_request_dump r =
     jobj [(''schema_version'', PInt 1), (''component'', component_ref_dump (or_component r)),
           (''input'', PDict (or_input r)), (''provenance'', caller_provenance_dump (or_provenance r)),
           (''artifacts'', jopt svg_artifact_request_dump (or_artifacts r))]"

definition OPERATION_HASH_DOMAIN :: pystr where
  "OPERATION_HASH_DOMAIN = lit ''operation.request.v1''"

definition operation_hash :: "operation_request \<Rightarrow> py_exc + pystr" where
  "operation_hash r = canonical_hash (operation_request_dump r) OPERATION_HASH_DOMAIN"

section \<open>Manifests\<close>

definition PROTOCOL_VERSION :: pystr where
  "PROTOCOL_VERSION = lit ''0.4.0''"

definition SUPPORTED_PROTOCOL_VERSIONS :: "pystr list" where
  "SUPPORTED_PROTOCOL_VERSIONS = [lit ''0.1.0'', lit ''0.2.0'', lit ''0.3.0'', PROTOCOL_VERSION]"

record runner_identity =
  ri_name :: pystr
  ri_version :: pystr

definition runner_identity_valid :: "runner_identity \<Rightarrow> bool" where
  "runner_identity_valid r \<longleftrightarrow>
     pattern_ok SAFE_ID_PATTERN (ri_name r) \<and> pattern_ok SEMVER_PATTERN (ri_version r)"

definition runner_identity_dump :: "runner_identity \<Rightarrow> pyval" where
  "runner_identity_dump r = jobj [(''name'', PStr (ri_name r)), (''version'', PStr (ri_version r))]"

record file_digest =
  fd_path :: pystr
  fd_sha256 :: pystr

definition file_digest_valid :: "file_digest \<Rightarrow> bool" where
  "file_digest_valid f \<longleftrightarrow> relative_member_path_valid (fd_path f) \<and> pattern_ok SHA256_PATTERN (fd_sha256 f)"

record svg_artifact =
  sa_path :: pystr
  sa_visualization_id :: pystr
  sa_title :: pystr
  sa_alt_text :: pystr
  sa_visualization_hash :: pystr
  sa_sha256 :: pystr
  sa_renderer :: pystr
  sa_renderer_version :: pystr

definition svg_artifact_valid :: "svg_artifact \<Rightarrow> bool" where
  "svg_artifact_valid a \<longleftrightarrow>
     relative_member_path_valid (sa_path a) \<and> pattern_ok SAFE_ID_PATTERN (sa_visualization_id a) \<and>
     text_ok 160 (sa_title a) \<and> text_ok 500 (sa_alt_text a) \<and>
     pattern_ok SHA256_PATTERN (sa_visualization_hash a) \<and> pattern_ok SHA256_PATTERN (sa_sha256 a) \<and>
     pattern_ok SAFE_ID_PATTERN (sa_renderer a) \<and> pattern_ok SEMVER_PATTERN (sa_renderer_version a)"

record operation_manifest =
  om_protocol_version :: pystr
  om_canonicalization_id :: pystr
  om_operation_hash :: pystr
  om_request :: operation_request
  om_component :: component_ref
  om_runner :: runner_identity
  om_input :: file_digest
  om_result :: file_digest
  om_artifacts :: "svg_artifact list"

definition operation_manifest_fields_valid :: "operation_manifest \<Rightarrow> bool" where
  "operation_manifest_fields_valid m \<longleftrightarrow>
     om_protocol_version m \<in> set SUPPORTED_PROTOCOL_VERSIONS \<and>
     om_canonicalization_id m = lit ''dq-tagged-json-v1'' \<and>
     pattern_ok SHA256_PATTERN (om_operation_hash m) \<and> operation_request_valid (om_request m) \<and>
     component_ref_valid (om_component m) \<and> runner_identity_valid (om_runner m) \<and>
     file_digest_valid (om_input m) \<and> file_digest_valid (om_result m) \<and>
     list_all svg_artifact_valid (om_artifacts m)"

definition member_paths :: "operation_manifest \<Rightarrow> pystr list" where
  "member_paths m = fd_path (om_input m) # fd_path (om_result m) # map sa_path (om_artifacts m)"

definition validate_bindings :: "operation_manifest \<Rightarrow> py_exc + operation_manifest" where
  "validate_bindings m =
     (if om_protocol_version m \<notin> set SUPPORTED_PROTOCOL_VERSIONS
      then Inl (ValueError (lit ''manifest protocol version is not supported by this package''))
      else if om_canonicalization_id m \<noteq> CANONICALIZATION_ID
      then Inl (ValueError (lit ''manifest canonicalization does not match this package''))
      else bindE (operation_hash (om_request m)) (\<lambda>h.
      if om_operation_hash m \<noteq> h
      then Inl (ValueError (lit ''manifest operation_hash does not bind its request''))
      else if om_component m \<noteq> or_component (om_request m)
      then Inl (ValueError (lit ''manifest component does not match its request''))
      else bindE (mapE portable_member_key (member_paths m)) (\<lambda>keys.
      bindE (portable_member_key (lit ''manifest.json'')) (\<lambda>manifest_key.
      if card (set keys) \<noteq> length keys \<or> manifest_key \<in> set keys
      then Inl (ValueError (lit ''manifest member paths must be unique''))
      else let ids = map sa_visualization_id (om_artifacts m) in
      if card (set ids) \<noteq> length ids
      then Inl (ValueError (lit ''manifest artifact visualization IDs must be unique''))
      else if or_artifacts (om_request m) = None \<and> om_artifacts m \<noteq> []
      then Inl (ValueError (lit ''manifest contains artifacts that were not requested''))
      else Inr m))))"

section \<open>Outcomes\<close>

datatype operation_error_code =
    INVALID_OPERATION_REQUEST | INVALID_JSON | COMPONENT_NOT_FOUND | COMPONENT_IDENTITY_MISMATCH
  | INVALID_COMPONENT_INPUT | COMPONENT_REFUSED | COMPONENT_EXECUTION_FAILED | OUTPUT_VALIDATION_FAILED
  | COMPONENT_CONTRACT_ERROR | INVALID_OUTPUT_DIRECTORY | OUTPUT_EXISTS | ARTIFACT_WRITE_FAILED
  | OPERATION_FAILED

record operation_error =
  oe_code :: operation_error_code
  oe_message :: pystr
  oe_component :: "component_ref option"
  oe_details :: "(pykey \<times> pyval) list"

definition operation_error_valid :: "operation_error \<Rightarrow> bool" where
  "operation_error_valid e \<longleftrightarrow>
     text_ok 500 (oe_message e) \<and> pred_option component_ref_valid (oe_component e) \<and>
     json_value (PDict (oe_details e)) \<and> is_ok (canonical_json_bytes (PDict (oe_details e)))"

datatype operation_result =
    OperationSuccess operation_manifest
  | OperationFailure "pystr option" operation_error

section \<open>What the path patterns accept\<close>

definition portable_segment :: "pystr \<Rightarrow> bool" where
  "portable_segment seg \<longleftrightarrow>
     (\<forall>w \<in> set (split_on 46 seg). w \<noteq> [] \<and> (\<forall>c \<in> set w. member_char c)) \<and>
     casefold (hd (split_on 46 seg)) \<notin> set WINDOWS_DEVICE_MEMBER_NAMES"

definition portable_path :: "pystr \<Rightarrow> bool" where
  "portable_path v \<longleftrightarrow> length v \<le> 512 \<and> (\<forall>seg \<in> set (split_on 47 v). portable_segment seg)"

lemma member_char_not_sep [simp]: "\<not> member_char 46" "\<not> member_char 47" "\<not> member_char 58" "\<not> member_char 92" "\<not> member_char 32"
  by (simp_all add: member_char_def is_alpha_def is_lower_def is_upper_def is_digit_def)

lemma member_char_ascii: "member_char c \<Longrightarrow> c < 128"
  by (auto simp: member_char_def is_alpha_def is_lower_def is_upper_def is_digit_def)

lemma lang_MEMBER_SEGMENT:
  "seg \<in> lang MEMBER_SEGMENT \<longleftrightarrow> (\<forall>w \<in> set (split_on 46 seg). w \<noteq> [] \<and> (\<forall>c \<in> set w. member_char c))"
proof -
  have "seg \<in> lang MEMBER_SEGMENT \<longleftrightarrow> set (split_on 46 seg) \<subseteq> lang (Plus (Cls member_char))"
    unfolding MEMBER_SEGMENT_def by (rule lang_SepBy) auto
  then show ?thesis by auto
qed

lemma set_join_split: "c \<in> set s \<Longrightarrow> c = sep \<or> (\<exists>p \<in> set (split_on sep s). c \<in> set p)"
proof (induction s)
  case (Cons d s)
  obtain p ps where "split_on sep s = p # ps" using split_on_ne by (meson neq_Nil_conv)
  then show ?case using Cons by auto
qed simp

lemma MEMBER_SEGMENT_chars:
  assumes "seg \<in> lang MEMBER_SEGMENT" "c \<in> set seg"
  shows "c = 46 \<or> member_char c"
  using set_join_split[OF assms(2), of 46] assms(1) lang_MEMBER_SEGMENT by blast

lemma fullmatch_member_path:
  "fullmatch RELATIVE_MEMBER_PATH_PATTERN v \<longleftrightarrow> (\<forall>seg \<in> set (split_on 47 v). seg \<in> lang MEMBER_SEGMENT)"
proof -
  have "v \<in> lang RELATIVE_MEMBER_PATH_PATTERN \<longleftrightarrow> set (split_on 47 v) \<subseteq> lang MEMBER_SEGMENT"
    unfolding RELATIVE_MEMBER_PATH_PATTERN_def
    by (rule lang_SepBy) (metis MEMBER_SEGMENT_chars member_char_not_sep(2) numeral_eq_iff num.distinct(5) num.inject(1))
  then show ?thesis by (auto simp: fullmatch_iff)
qed

lemma split_on_last: "split_on sep (s @ [sep]) = split_on sep s @ [[]]"
proof (induction s)
  case (Cons c s)
  obtain p ps where "split_on sep s = p # ps" using split_on_ne by (meson neq_Nil_conv)
  then show ?case using Cons by auto
qed simp

lemma MEMBER_SEGMENT_shape:
  assumes "seg \<in> lang MEMBER_SEGMENT"
  shows "seg \<noteq> []" "seg \<noteq> lit ''.''" "seg \<noteq> lit ''..''" "last seg \<noteq> 46" "last seg \<noteq> 32" "58 \<notin> set seg" "92 \<notin> set seg"
proof -
  have words: "w \<noteq> []" if "w \<in> set (split_on 46 seg)" for w
    using that assms lang_MEMBER_SEGMENT by blast
  show ne: "seg \<noteq> []" using words by fastforce
  show l46: "last seg \<noteq> 46"
  proof
    assume "last seg = 46"
    then have "seg = butlast seg @ [46]" using ne by (metis append_butlast_last_id)
    then have "split_on 46 seg = split_on 46 (butlast seg) @ [[]]" using split_on_last by metis
    then show False using words[of "[]"] by simp
  qed
  show "last seg \<noteq> 32" "58 \<notin> set seg" "92 \<notin> set seg"
    using MEMBER_SEGMENT_chars[OF assms] ne last_in_set by fastforce+
  show "seg \<noteq> lit ''.''" "seg \<noteq> lit ''..''" using l46 by (auto simp: lit_def)
qed

lemma casefold_char_sep: "casefold_char c = 46 \<longleftrightarrow> c = 46" "casefold_char c = 47 \<longleftrightarrow> c = 47"
  by (auto simp: casefold_char_def is_upper_def)

lemma split_on_casefold:
  assumes "\<And>c. casefold_char c = sep \<longleftrightarrow> c = sep"
  shows "split_on sep (casefold s) = map casefold (split_on sep s)"
proof (induction s)
  case (Cons c s)
  obtain p ps where "split_on sep s = p # ps" using split_on_ne by (meson neq_Nil_conv)
  then show ?case using Cons assms by auto
qed simp

lemma casefold_join:
  assumes "\<And>c. casefold_char c = sep \<longleftrightarrow> c = sep"
  shows "str_join [sep] (map casefold (split_on sep s)) = casefold s"
  by (metis assms join_split_on split_on_casefold)

lemma fold_segment_iff:
  assumes "seg \<in> lang MEMBER_SEGMENT"
  shows "fold_segment seg = Inr k \<longleftrightarrow> portable_segment seg \<and> k = casefold seg"
proof -
  have "hd (split_on 46 (casefold seg)) = casefold (hd (split_on 46 seg))"
    by (simp add: split_on_casefold casefold_char_sep hd_map)
  then show ?thesis
    using MEMBER_SEGMENT_shape[OF assms] assms
    by (auto simp: fold_segment_def portable_segment_def lang_MEMBER_SEGMENT Let_def)
qed

lemma portable_segment_lang: "portable_segment seg \<Longrightarrow> seg \<in> lang MEMBER_SEGMENT"
  by (simp add: portable_segment_def lang_MEMBER_SEGMENT)

lemma portable_path_ascii:
  assumes "\<forall>seg \<in> set (split_on 47 v). seg \<in> lang MEMBER_SEGMENT"
  shows "list_all (\<lambda>c. c < 128) v"
  unfolding list_all_iff
proof
  fix c assume "c \<in> set v"
  then consider "c = 47" | seg where "seg \<in> set (split_on 47 v)" "c \<in> set seg"
    using set_join_split by blast
  then show "c < 128"
    by cases (use assms MEMBER_SEGMENT_chars member_char_ascii in fastforce)+
qed

lemma portable_path_nonempty: "portable_path v \<Longrightarrow> v \<noteq> []"
  by (auto simp: portable_path_def portable_segment_def)

lemma portable_member_key_iff: "portable_member_key v = Inr k \<longleftrightarrow> portable_path v \<and> k = casefold v"
proof (cases "fullmatch RELATIVE_MEMBER_PATH_PATTERN v")
  case False
  then have "\<not> portable_path v"
    using portable_segment_lang by (auto simp: fullmatch_member_path portable_path_def)
  then show ?thesis using False by (simp add: portable_member_key_def)
next
  case True
  then have segs: "\<forall>seg \<in> set (split_on 47 v). seg \<in> lang MEMBER_SEGMENT" by (simp add: fullmatch_member_path)
  have ne: "v \<noteq> []" using segs MEMBER_SEGMENT_shape(1) by fastforce
  have "mapE fold_segment (split_on 47 v) = Inr ks \<longleftrightarrow>
      (\<forall>seg \<in> set (split_on 47 v). portable_segment seg) \<and> ks = map casefold (split_on 47 v)" for ks
    using segs fold_segment_iff by (intro mapE_Inr_iff_guarded) blast
  then show ?thesis
    using True portable_path_ascii[OF segs] ne
    by (auto simp: portable_member_key_def bindE_Inr_iff portable_path_def casefold_join casefold_char_sep Suc_le_eq)
qed

lemma member_char_casefold: "member_char (casefold_char c) \<longleftrightarrow> member_char c"
  by (auto simp: member_char_def casefold_char_def is_alpha_def is_lower_def is_upper_def is_digit_def)

lemma portable_path_casefold: "portable_path (casefold v) \<longleftrightarrow> portable_path v"
proof -
  have "portable_segment (casefold seg) \<longleftrightarrow> portable_segment seg" for seg
    unfolding portable_segment_def
    by (simp add: split_on_casefold casefold_char_sep hd_map) (simp add: casefold_def member_char_casefold)
  then show ?thesis by (simp add: portable_path_def split_on_casefold casefold_char_sep)
qed

text \<open>
  C16 (portable_member_key_exact). A path is accepted exactly if it has at most 512 characters and every
  slash-separated segment is a dot-joined sequence of non-empty words of letters, digits, underscores and
  hyphens whose first word is no Windows device name in any case; the key is the path in lower case. So no
  absolute path, empty segment, \<^verbatim>\<open>.\<close> or \<^verbatim>\<open>..\<close> is ever accepted.
\<close>

theorem portable_member_key_exact:
  "portable_member_key v = Inr k \<longleftrightarrow>
     (length v \<le> 512 \<and>
      (\<forall>seg \<in> set (split_on 47 v).
         (\<forall>w \<in> set (split_on 46 seg). w \<noteq> [] \<and> (\<forall>c \<in> set w. member_char c)) \<and>
         casefold (hd (split_on 46 seg)) \<notin> set WINDOWS_DEVICE_MEMBER_NAMES)) \<and>
     k = casefold v"
  unfolding portable_member_key_iff portable_path_def portable_segment_def ..

theorem portable_member_key_exact_witness: "portable_member_key (lit ''Charts/Out.svg'') = Inr (lit ''charts/out.svg'')"
  unfolding portable_member_key_exact
  by (simp add: lit_def member_char_def is_alpha_def is_lower_def is_upper_def is_digit_def casefold_char_def
      WINDOWS_DEVICE_MEMBER_NAMES_def upt_rec)

text \<open>
  Two accepted paths share a key exactly if they differ at most in the
  case of ASCII letters, and the key of a path is itself an accepted path with itself as key.
\<close>

theorem portable_member_key_identity:
  assumes "portable_member_key v = Inr k" "portable_member_key w = Inr l"
  shows "(k = l \<longleftrightarrow> casefold v = casefold w) \<and> portable_member_key k = Inr k"
  using assms by (auto simp: portable_member_key_iff portable_path_casefold)

theorem portable_member_key_identity_witness:
  "portable_member_key (lit ''a/b'') = Inr (lit ''a/b'') \<and> portable_member_key (lit ''A/b'') = Inr (lit ''a/b'') \<and>
   (lit ''a/b'' = lit ''a/b'' \<longleftrightarrow> casefold (lit ''A/b'') = casefold (lit ''a/b''))"
proof -
  have "portable_member_key (lit ''a/b'') = Inr (lit ''a/b'')" "portable_member_key (lit ''A/b'') = Inr (lit ''a/b'')"
    by code_simp+
  then show ?thesis using portable_member_key_identity by blast
qed

section \<open>What the field patterns accept\<close>

lemma is_hex_scalar: "is_hex c \<Longrightarrow> is_scalar c"
  by (auto simp: is_hex_def is_scalar_def is_surrogate_def)

lemma sha256_ok_iff: "pattern_ok SHA256_PATTERN s \<longleftrightarrow> length s = 64 \<and> (\<forall>c \<in> set s. is_hex c)"
  by (auto simp: pattern_ok_def SHA256_PATTERN_def fullmatch_iff scalar_str_def list_all_iff is_hex_scalar)

lemma safe_id_ok_iff:
  "pattern_ok SAFE_ID_PATTERN s \<longleftrightarrow>
     (\<exists>c cs. s = c # cs \<and> is_lower c \<and> length cs \<le> 63 \<and> (\<forall>d \<in> set cs. id_tail_char d))"
proof -
  have "is_scalar c" if "is_lower c \<or> id_tail_char c" for c
    using that by (auto simp: is_lower_def is_digit_def id_tail_char_def is_scalar_def is_surrogate_def)
  moreover have "fullmatch SAFE_ID_PATTERN s \<longleftrightarrow>
     (\<exists>c cs. s = c # cs \<and> is_lower c \<and> length cs \<le> 63 \<and> (\<forall>d \<in> set cs. id_tail_char d))"
    unfolding SAFE_ID_PATTERN_def fullmatch_iff Cat_Cls_iff lang_AtMost_Cls by blast
  ultimately show ?thesis by (auto simp: pattern_ok_def scalar_str_def list_all_iff)
qed

text \<open>What evaluating the version pattern on a literal unfolds.\<close>

lemmas semver_match =
  lit_def SEMVER_PATTERN_def VERSION_NUMBER_def PRERELEASE_IDENT_def SepBy_def Chr_def Opt_def Plus_def
  ident_char_def is_alpha_def is_lower_def is_upper_def is_digit_def unicode_digit_def unicode_digit_zeros_def

section \<open>Request identity\<close>

lemma json_value_wf: "json_value v \<Longrightarrow> wf_py v"
proof (induction v)
  case (PList xs)
  then show ?case by (auto simp: list_all_iff)
next
  case (PDict kvs)
  then show ?case by (force simp: list_all_iff)
qed auto

lemma source_kind_value_inj [simp]: "source_kind_value a = source_kind_value b \<longleftrightarrow> a = b"
  by (cases a; cases b) simp_all

lemma interpretation_method_value_inj [simp]:
  "interpretation_method_value a = interpretation_method_value b \<longleftrightarrow> a = b"
  by (cases a; cases b) simp_all

lemma provenance_status_value_inj [simp]: "provenance_status_value a = provenance_status_value b \<longleftrightarrow> a = b"
  by (cases a; cases b) simp_all

lemma text_ok_scalar: "text_ok n s \<Longrightarrow> scalar_str s"
  by (simp add: text_ok_def)

lemma pattern_ok_scalar: "pattern_ok r s \<Longrightarrow> scalar_str s"
  by (simp add: pattern_ok_def)

lemmas scalar_dests = text_ok_scalar pattern_ok_scalar

lemma denote_strs_iff [simp]: "map (denote \<circ> PStr) xs = map (denote \<circ> PStr) ys \<longleftrightarrow> xs = ys"
  by (auto dest!: map_injective[rotated] simp: inj_def)

lemma component_ref_dump_laws:
  "wf_py (component_ref_dump r)"
  "component_ref_valid r \<Longrightarrow> canonical_ok (component_ref_dump r)"
  "denote (component_ref_dump r) = denote (component_ref_dump s) \<longleftrightarrow> r = s"
  by (auto simp: component_ref_dump_def component_ref_valid_def denote_jobj_iff scalar_dests)

lemma caller_provenance_dump_laws:
  "wf_py (caller_provenance_dump p)"
  "caller_provenance_valid p \<Longrightarrow> canonical_ok (caller_provenance_dump p)"
  "denote (caller_provenance_dump p) = denote (caller_provenance_dump q) \<longleftrightarrow> p = q"
  by (auto simp: caller_provenance_dump_def caller_provenance_valid_def denote_jobj_iff scalar_dests
      wf_jopt canonical_jopt list_all_iff denote_jopt_PStr pred_option_def)

definition same_request :: "operation_request \<Rightarrow> operation_request \<Rightarrow> bool" where
  "same_request r s \<longleftrightarrow>
     or_component r = or_component s \<and> denote (PDict (or_input r)) = denote (PDict (or_input s)) \<and>
     or_provenance r = or_provenance s \<and> or_artifacts r = or_artifacts s"

lemma svg_dump_laws:
  "wf_py (jopt svg_artifact_request_dump a)" "canonical_ok (jopt svg_artifact_request_dump a)"
  "denote (jopt svg_artifact_request_dump a) = denote (jopt svg_artifact_request_dump b) \<longleftrightarrow> a = b"
proof -
  have eq: "x = y" for x y :: svg_artifact_request by (cases x; cases y) simp
  have dump: "svg_artifact_request_dump x = jobj [(''kind'', jstr ''svg''), (''selection'', jstr ''all'')]" for x
    by (cases x) simp
  show "wf_py (jopt svg_artifact_request_dump a)" "canonical_ok (jopt svg_artifact_request_dump a)"
    by (cases a; simp add: dump)+
  show "denote (jopt svg_artifact_request_dump a) = denote (jopt svg_artifact_request_dump b) \<longleftrightarrow> a = b"
    using eq by (cases a; cases b) (simp_all add: dump, simp_all add: jobj_def)
qed

lemma canonical_ok_input:
  "is_ok (validate_canonical_input r) \<Longrightarrow> canonical_ok (PDict (or_input r))"
  unfolding is_ok_canonical_json_bytes[symmetric] by (cases "canonical_json_bytes (PDict (or_input r))") (simp_all add: validate_canonical_input_def)

interpretation request: hashed_record operation_request_dump OPERATION_HASH_DOMAIN operation_request_valid same_request
proof
  show "domain_ok OPERATION_HASH_DOMAIN" by code_simp
  show "wf_py (operation_request_dump r)" if "operation_request_valid r" for r
    using that json_value_wf[of "PDict (or_input r)"] component_ref_dump_laws(1) caller_provenance_dump_laws(1) svg_dump_laws(1)
    by (simp add: operation_request_dump_def operation_request_valid_def del: wf_py.simps(4) json_value.simps)
  show "canonical_ok (operation_request_dump r)" if "operation_request_valid r" for r
    using that canonical_ok_input[of r] component_ref_dump_laws(2) caller_provenance_dump_laws(2) svg_dump_laws(2)
    by (simp add: operation_request_dump_def operation_request_valid_def MAX_SAFE_INTEGER_def del: canonical_ok.simps(8))
  show "denote (operation_request_dump r) = denote (operation_request_dump s) \<longleftrightarrow> same_request r s" for r s
    using component_ref_dump_laws(3) caller_provenance_dump_laws(3) svg_dump_laws(3)
    by (simp add: operation_request_dump_def denote_jobj_iff same_request_def del: denote.simps)
qed

section \<open>Manifest bindings\<close>

definition manifest_bound :: "operation_manifest \<Rightarrow> bool" where
  "manifest_bound m \<longleftrightarrow>
     om_protocol_version m \<in> set SUPPORTED_PROTOCOL_VERSIONS \<and> om_canonicalization_id m = CANONICALIZATION_ID \<and>
     operation_hash (om_request m) = Inr (om_operation_hash m) \<and>
     om_component m = or_component (om_request m) \<and>
     (\<forall>p \<in> set (member_paths m). portable_path p) \<and>
     distinct (map casefold (lit ''manifest.json'' # member_paths m)) \<and>
     distinct (map sa_visualization_id (om_artifacts m)) \<and>
     (om_artifacts m \<noteq> [] \<longrightarrow> or_artifacts (om_request m) \<noteq> None)"

lemma manifest_json_key: "portable_member_key (lit ''manifest.json'') = Inr (casefold (lit ''manifest.json''))"
  by code_simp

lemma member_keys_iff:
  "mapE portable_member_key ps = Inr ks \<longleftrightarrow> (\<forall>p \<in> set ps. portable_path p) \<and> ks = map casefold ps"
  by (rule mapE_Inr_iff_guarded) (simp add: portable_member_key_iff)

lemma validate_bindings_iff: "validate_bindings m = Inr m' \<longleftrightarrow> manifest_bound m \<and> m' = m"
proof (cases "operation_hash (om_request m)")
  case (Inl e)
  then show ?thesis by (auto simp: validate_bindings_def manifest_bound_def)
next
  case (Inr h)
  show ?thesis
  proof (cases "\<forall>p \<in> set (member_paths m). portable_path p")
    case True
    then have "mapE portable_member_key (member_paths m) = Inr (map casefold (member_paths m))"
      by (simp add: member_keys_iff)
    then show ?thesis using True Inr
      by (auto simp: validate_bindings_def manifest_bound_def manifest_json_key card_set_eq_length Let_def
          if_Inl_Inr_iff simp del: casefold_simps)
  next
    case False
    then have "mapE portable_member_key (member_paths m) \<noteq> Inr ks" for ks by (simp add: member_keys_iff)
    then show ?thesis using False Inr
      by (auto simp: validate_bindings_def manifest_bound_def bindE_Inr_iff if_Inl_Inr_iff)
  qed
qed

text \<open>
  The operation hash of a valid request always exists and is 64 lower-case
  hexadecimal digits, and two valid requests share it exactly if they name the same component, provenance
  and artifacts and mean the same input, unless the hashed payloads are a SHA-256 collision.
\<close>

theorem operation_hash_identity:
  assumes "operation_request_valid r" "operation_request_valid s"
  shows "(\<exists>h. operation_hash r = Inr h \<and> fullmatch SHA256_PATTERN h) \<and>
    (same_request r s \<longrightarrow> operation_hash r = operation_hash s) \<and>
    (operation_hash r = operation_hash s \<longrightarrow> same_request r s \<or>
       sha256_collision (payload_of (operation_request_dump r) OPERATION_HASH_DOMAIN)
                        (payload_of (operation_request_dump s) OPERATION_HASH_DOMAIN))"
proof -
  obtain h where h: "operation_hash r = Inr h"
    using request.hash_total[OF assms(1)] by (auto simp: operation_hash_def)
  then have "fullmatch SHA256_PATTERN h"
    using request.hash_hex unfolding operation_hash_def by (simp add: fullmatch_iff SHA256_PATTERN_def)
  then show ?thesis
    using h request.hash_complete[OF assms] request.hash_binding[OF assms] unfolding operation_hash_def by blast
qed

definition demo_request :: operation_request where
  "demo_request =
     \<lparr>or_component = \<lparr>cr_id = lit ''dq.market_data.log_return'', cr_version = lit ''1.2.0-rc.1'',
                       cr_subject_hash = replicate 64 97\<rparr>,
      or_input = [(KStr (lit ''prices''), PList [PInt 1, PInt 2])],
      or_provenance = \<lparr>source_kind = USER_PROMPT, interpretation_method = AI_INTERPRETED,
                        verification_status = PS_UNVERIFIED, p_label = lit ''prompt'', p_references = [],
                        content_sha256 = None, assumptions = []\<rparr>,
      or_artifacts = Some SvgArtifactRequest\<rparr>"

lemma demo_request_valid: "operation_request_valid demo_request"
proof -
  have "canonical_ok (PDict (or_input demo_request))"
    by (simp add: demo_request_def MAX_SAFE_INTEGER_def)
  then have "is_ok (validate_canonical_input demo_request)"
    unfolding is_ok_canonical_json_bytes[symmetric] by (cases "canonical_json_bytes (PDict (or_input demo_request))") (simp_all add: validate_canonical_input_def)
  moreover have "fullmatch COMPONENT_ID_PATTERN (lit ''dq.market_data.log_return'')" by code_simp
  then have "pattern_ok COMPONENT_ID_PATTERN (lit ''dq.market_data.log_return'')" by (simp add: pattern_ok_def)
  moreover have "fullmatch SEMVER_PATTERN (lit ''1.2.0-rc.1'')"
    by (simp add: lit_def SEMVER_PATTERN_def VERSION_NUMBER_def PRERELEASE_IDENT_def SepBy_def Chr_def Opt_def Plus_def
        ident_char_def is_alpha_def is_lower_def is_upper_def is_digit_def unicode_digit_def unicode_digit_zeros_def)
  then have "pattern_ok SEMVER_PATTERN (lit ''1.2.0-rc.1'')" by (simp add: pattern_ok_def)
  moreover have "pattern_ok SHA256_PATTERN (replicate 64 97)" by (simp add: sha256_ok_iff is_hex_def)
  moreover have "json_value (PDict (or_input demo_request))" by (simp add: demo_request_def)
  moreover have "caller_provenance_valid (or_provenance demo_request)"
    by (simp add: demo_request_def caller_provenance_valid_def text_ok_def)
  ultimately show ?thesis by (simp add: operation_request_valid_def component_ref_valid_def demo_request_def)
qed

theorem operation_hash_identity_witness:
  "\<exists>h. operation_hash demo_request = Inr h \<and> fullmatch SHA256_PATTERN h"
  using operation_hash_identity[OF demo_request_valid demo_request_valid] by blast

text \<open>
  C17 (manifest_bindings_exact). A manifest is accepted exactly if its hash is the recomputed hash of its own
  request, its component is the requested one, its members and \<^verbatim>\<open>manifest.json\<close> are pairwise distinct portable
  paths even on a file system that ignores case, visualization ids are unique and artifacts were requested.
\<close>

theorem manifest_bindings_exact:
  "validate_bindings m = Inr m' \<longleftrightarrow> manifest_bound m \<and> m' = m"
  by (rule validate_bindings_iff)

end
