(* ===== verification/Calendar.thy ===== *)
theory Calendar
  imports Py_Values Py_Text
begin

text \<open>
  Dates and datetimes as Python's \<^verbatim>\<open>datetime\<close> module has them: the proleptic Gregorian calendar, the texts \<^verbatim>\<open>isoformat()\<close>
  writes, and the comparison of datetimes. Two datetimes with an offset compare as instants, two without by their fields; one of
  each kind are never equal and have no order. Time zones whose offset depends on \<^verbatim>\<open>fold\<close> do not occur: the offsets of
  validated models are fixed.
\<close>

section \<open>Fields of digits\<close>

definition digits_value :: "pystr \<Rightarrow> nat" where
  "digits_value ds = foldl (\<lambda>n c. 10 * n + (c - 48)) 0 ds"

definition field_at :: "nat \<Rightarrow> nat \<Rightarrow> pystr \<Rightarrow> nat" where
  "field_at i n s = digits_value (take n (drop i s))"

section \<open>The calendar\<close>

definition days_in_month :: "nat \<Rightarrow> nat \<Rightarrow> nat" where
  "days_in_month y m =
     (if m = 2 then (if 4 dvd y \<and> (\<not> 100 dvd y \<or> 400 dvd y) then 29 else 28)
      else if m \<in> {4, 6, 9, 11} then 30 else 31)"

text \<open>\<^verbatim>\<open>date.toordinal\<close>.\<close>

definition day_number :: "nat \<Rightarrow> nat \<Rightarrow> nat \<Rightarrow> int" where
  "day_number y m d =
     int ((y - 1) * 365 + (y - 1) div 4 + (y - 1) div 400) - int ((y - 1) div 100) + int (sum_list (map (days_in_month y) [1..<m])) + int d"

section \<open>Datetimes\<close>

text \<open>The microseconds of a datetime's fields, and of its offset from UTC.\<close>

record moment =
  m_fields :: int
  m_offset :: "int option"

definition clock_micros :: "nat \<Rightarrow> pystr \<Rightarrow> int" where
  "clock_micros i s =
     (int (field_at i 2 s) * 60 + int (field_at (i + 3) 2 s)) * 60000000 + int (field_at (i + 6) 2 s) * 1000000 +
     (if i + 8 < length s \<and> s ! (i + 8) = 46 then int (field_at (i + 9) 6 s) else 0)"

text \<open>\<^verbatim>\<open>isoformat()\<close>: the date, \<^verbatim>\<open>T\<close>, the clock, a fraction of six digits if it is not zero, and the offset if there is one.\<close>

definition moment_of_text :: "pystr \<Rightarrow> moment" where
  "moment_of_text s =
     (let zone = drop (if 19 < length s \<and> s ! 19 = 46 then 26 else 19) s in
      \<lparr>m_fields = day_number (field_at 0 4 s) (field_at 5 2 s) (field_at 8 2 s) * 86400000000 + clock_micros 11 s,
       m_offset = (if zone = [] then None else Some ((if hd zone = 45 then - 1 else 1) * clock_micros 1 zone))\<rparr>)"

fun moment_of :: "pyval \<Rightarrow> moment option" where
  "moment_of (PProj name (PStr s)) = (if name = lit ''datetime'' then Some (moment_of_text s) else None)"
| "moment_of _ = None"

text \<open>The two numbers by which two datetimes compare.\<close>

definition moment_keys :: "moment \<Rightarrow> moment \<Rightarrow> (int \<times> int) option" where
  "moment_keys a b =
     (case (m_offset a, m_offset b) of
        (None, None) \<Rightarrow> Some (m_fields a, m_fields b)
      | (Some x, Some y) \<Rightarrow> Some (m_fields a - x, m_fields b - y)
      | _ \<Rightarrow> None)"

definition moment_eq :: "moment \<Rightarrow> moment \<Rightarrow> bool" where
  "moment_eq a b \<longleftrightarrow> (case moment_keys a b of None \<Rightarrow> False | Some (x, y) \<Rightarrow> x = y)"

text \<open>A \<^verbatim>\<open>date\<close> has a text of fixed width, so dates compare as their texts do.\<close>

fun date_text :: "pyval \<Rightarrow> pystr option" where
  "date_text (PProj name (PStr s)) = (if name = lit ''date'' then Some s else None)"
| "date_text _ = None"

end
