(* ===== verification/Managed.thy ===== *)
theory Managed
  imports Operation Calendar
begin

text \<open>
  The records of managed authorization: \<^verbatim>\<open>protocol/policy.py\<close>, \<^verbatim>\<open>protocol/plan.py\<close> and
  \<^verbatim>\<open>protocol/authorization.py\<close>, with their validators, their JSON projections and their hash domains.
  An aware datetime is the text Pydantic dumps for it. Each hashed record is an interpretation of
  \<open>hashed_record\<close>, so what its digest binds is a fact about the projection the code hashes.
\<close>

section \<open>Execution policy\<close>

definition EXECUTION_POLICY_HASH_DOMAIN :: pystr where
  "EXECUTION_POLICY_HASH_DOMAIN = lit ''managed.execution_policy.v1''"

datatype component_lifecycle = LC_DRAFT | LC_PUBLISHED | LC_DEPRECATED

fun component_lifecycle_value :: "component_lifecycle \<Rightarrow> string" where
  "component_lifecycle_value LC_DRAFT = ''draft''"
| "component_lifecycle_value LC_PUBLISHED = ''published''"
| "component_lifecycle_value LC_DEPRECATED = ''deprecated''"

datatype requirement_failure_code = RF_REQUIRED_INPUT_MISSING | RF_TIMESTAMP_REQUIRED

fun requirement_failure_code_value :: "requirement_failure_code \<Rightarrow> string" where
  "requirement_failure_code_value RF_REQUIRED_INPUT_MISSING = ''managed_required_input_missing''"
| "requirement_failure_code_value RF_TIMESTAMP_REQUIRED = ''managed_timestamp_required''"

record input_requirement =
  rq_field :: pystr
  rq_failure_code :: requirement_failure_code
  rq_non_empty :: bool

definition input_requirement_valid :: "input_requirement \<Rightarrow> bool" where
  "input_requirement_valid r \<longleftrightarrow> pattern_ok SAFE_ID_PATTERN (rq_field r)"

definition input_requirement_dump :: "input_requirement \<Rightarrow> pyval" where
  "input_requirement_dump r =
     jobj [(''field'', PStr (rq_field r)),
           (''failure_code'', jstr (requirement_failure_code_value (rq_failure_code r))),
           (''require_non_null'', PBool True), (''require_non_empty'', PBool (rq_non_empty r))]"

record managed_component_rule =
  mr_profile_id :: pystr
  mr_component :: component_ref
  mr_allowed_lifecycle :: component_lifecycle
  mr_explicit_opt_in :: bool
  mr_requirements :: "input_requirement list"

definition validate_requirements :: "managed_component_rule \<Rightarrow> py_exc + managed_component_rule" where
  "validate_requirements r =
     (let fields = map rq_field (mr_requirements r) in
      if card (set fields) \<noteq> length fields
      then Inl (ValueError (lit ''managed component requirements must use unique fields''))
      else Inr r)"

definition managed_component_rule_valid :: "managed_component_rule \<Rightarrow> bool" where
  "managed_component_rule_valid r \<longleftrightarrow>
     pattern_ok SAFE_ID_PATTERN (mr_profile_id r) \<and> component_ref_valid (mr_component r) \<and>
     list_all input_requirement_valid (mr_requirements r) \<and> is_ok (validate_requirements r)"

definition managed_component_rule_dump :: "managed_component_rule \<Rightarrow> pyval" where
  "managed_component_rule_dump r =
     jobj [(''profile_id'', PStr (mr_profile_id r)), (''component'', component_ref_dump (mr_component r)),
           (''allowed_lifecycle'', jstr (component_lifecycle_value (mr_allowed_lifecycle r))),
           (''require_explicit_opt_in'', PBool (mr_explicit_opt_in r)),
           (''requirements'', PList (map input_requirement_dump (mr_requirements r)))]"

record execution_policy =
  ep_policy_id :: pystr
  ep_version :: pystr
  ep_components :: "managed_component_rule list"

definition validate_unique_rules :: "execution_policy \<Rightarrow> py_exc + execution_policy" where
  "validate_unique_rules p =
     (let profiles = map mr_profile_id (ep_components p) in
      if card (set profiles) \<noteq> length profiles
      then Inl (ValueError (lit ''execution policy profile IDs must be unique''))
      else Inr p)"

definition execution_policy_valid :: "execution_policy \<Rightarrow> bool" where
  "execution_policy_valid p \<longleftrightarrow>
     pattern_ok SAFE_ID_PATTERN (ep_policy_id p) \<and> pattern_ok SEMVER_PATTERN (ep_version p) \<and>
     ep_components p \<noteq> [] \<and> list_all managed_component_rule_valid (ep_components p) \<and>
     is_ok (validate_unique_rules p)"

definition execution_policy_dump :: "execution_policy \<Rightarrow> pyval" where
  "execution_policy_dump p =
     jobj [(''schema_version'', PInt 1), (''policy_id'', PStr (ep_policy_id p)),
           (''version'', PStr (ep_version p)),
           (''components'', PList (map managed_component_rule_dump (ep_components p)))]"

definition policy_hash :: "execution_policy \<Rightarrow> py_exc + pystr" where
  "policy_hash p = canonical_hash (execution_policy_dump p) EXECUTION_POLICY_HASH_DOMAIN"

section \<open>Analysis plans\<close>

definition DATASET_BINDING_HASH_DOMAIN :: pystr where
  "DATASET_BINDING_HASH_DOMAIN = lit ''managed.dataset_binding.v1''"

definition ANALYSIS_PLAN_HASH_DOMAIN :: pystr where
  "ANALYSIS_PLAN_HASH_DOMAIN = lit ''managed.analysis_plan.v1''"

datatype question_verification_status = QV_UNVERIFIED | QV_CALLER_CONFIRMED

fun question_verification_status_value :: "question_verification_status \<Rightarrow> string" where
  "question_verification_status_value QV_UNVERIFIED = ''unverified''"
| "question_verification_status_value QV_CALLER_CONFIRMED = ''caller_confirmed''"

record resolved_question =
  rs_question_id :: pystr
  rs_target_field :: pystr
  rs_answer :: pyval
  rs_supplied_by :: pystr
  rs_verification_status :: question_verification_status
  rs_resolved_at :: pystr

definition validate_answer :: "resolved_question \<Rightarrow> py_exc + resolved_question" where
  "validate_answer q = bindE (canonical_json_bytes (rs_answer q)) (\<lambda>_. Inr q)"

definition resolved_question_valid :: "resolved_question \<Rightarrow> bool" where
  "resolved_question_valid q \<longleftrightarrow>
     pattern_ok SAFE_ID_PATTERN (rs_question_id q) \<and> pattern_ok SAFE_ID_PATTERN (rs_target_field q) \<and>
     json_value (rs_answer q) \<and> text_ok 160 (rs_supplied_by q) \<and> is_ok (validate_answer q)"

definition question_projection :: "resolved_question \<Rightarrow> pyval" where
  "question_projection q =
     jobj [(''schema_version'', PInt 1), (''question_id'', PStr (rs_question_id q)),
           (''target_field'', PStr (rs_target_field q)), (''answer'', rs_answer q),
           (''supplied_by'', PStr (rs_supplied_by q)),
           (''verification_status'', jstr (question_verification_status_value (rs_verification_status q)))]"

record dataset_binding =
  ds_dataset_id :: pystr
  ds_input :: "(pykey \<times> pyval) list"

definition validate_dataset_input :: "dataset_binding \<Rightarrow> py_exc + dataset_binding" where
  "validate_dataset_input d = bindE (canonical_json_bytes (PDict (ds_input d))) (\<lambda>_. Inr d)"

definition dataset_binding_valid :: "dataset_binding \<Rightarrow> bool" where
  "dataset_binding_valid d \<longleftrightarrow>
     pattern_ok SAFE_ID_PATTERN (ds_dataset_id d) \<and> json_value (PDict (ds_input d)) \<and>
     is_ok (validate_dataset_input d)"

definition dataset_binding_dump :: "dataset_binding \<Rightarrow> pyval" where
  "dataset_binding_dump d =
     jobj [(''schema_version'', PInt 1), (''dataset_id'', PStr (ds_dataset_id d)),
           (''verification_status'', jstr ''unverified''), (''input'', PDict (ds_input d))]"

definition dataset_hash :: "dataset_binding \<Rightarrow> py_exc + pystr" where
  "dataset_hash d = canonical_hash (dataset_binding_dump d) DATASET_BINDING_HASH_DOMAIN"

record plan_step =
  st_step_id :: pystr
  st_profile_id :: pystr
  st_component :: component_ref
  st_lifecycle :: component_lifecycle
  st_explicit_draft_opt_in :: bool
  st_dataset :: dataset_binding

definition plan_step_valid :: "plan_step \<Rightarrow> bool" where
  "plan_step_valid s \<longleftrightarrow>
     pattern_ok SAFE_ID_PATTERN (st_step_id s) \<and> pattern_ok SAFE_ID_PATTERN (st_profile_id s) \<and>
     component_ref_valid (st_component s) \<and> dataset_binding_valid (st_dataset s)"

definition plan_step_dump :: "plan_step \<Rightarrow> pyval" where
  "plan_step_dump s =
     jobj [(''schema_version'', PInt 1), (''step_id'', PStr (st_step_id s)),
           (''profile_id'', PStr (st_profile_id s)), (''component'', component_ref_dump (st_component s)),
           (''component_lifecycle'', jstr (component_lifecycle_value (st_lifecycle s))),
           (''explicit_draft_opt_in'', PBool (st_explicit_draft_opt_in s)),
           (''dataset'', dataset_binding_dump (st_dataset s))]"

record analysis_plan =
  ap_protocol_version :: pystr
  ap_plan_id :: pystr
  ap_revision :: int
  ap_parent_plan_hash :: "pystr option"
  ap_objective :: pystr
  ap_resolved_questions :: "resolved_question list"
  ap_step :: plan_step
  ap_expected_outputs :: "pystr list"
  ap_stop_conditions :: "pystr list"
  ap_policy_hash :: pystr

definition validate_revision_and_questions :: "analysis_plan \<Rightarrow> py_exc + analysis_plan" where
  "validate_revision_and_questions p =
     (if ap_revision p = 1 \<and> ap_parent_plan_hash p \<noteq> None
      then Inl (ValueError (lit ''first plan revision cannot have a parent_plan_hash''))
      else if ap_revision p > 1 \<and> ap_parent_plan_hash p = None
      then Inl (ValueError (lit ''later plan revisions require parent_plan_hash''))
      else let ids = map rs_question_id (ap_resolved_questions p);
               fields = map rs_target_field (ap_resolved_questions p) in
      if card (set ids) \<noteq> length ids
      then Inl (ValueError (lit ''resolved question IDs must be unique''))
      else if card (set fields) \<noteq> length fields
      then Inl (ValueError (lit ''resolved question target fields must be unique''))
      else Inr p)"

definition analysis_plan_valid :: "analysis_plan \<Rightarrow> bool" where
  "analysis_plan_valid p \<longleftrightarrow>
     ap_protocol_version p \<in> {lit ''0.2.0'', lit ''0.3.0'', lit ''0.4.0''} \<and>
     pattern_ok SAFE_ID_PATTERN (ap_plan_id p) \<and> 1 \<le> ap_revision p \<and>
     pred_option (pattern_ok SHA256_PATTERN) (ap_parent_plan_hash p) \<and> text_ok 500 (ap_objective p) \<and>
     list_all resolved_question_valid (ap_resolved_questions p) \<and> plan_step_valid (ap_step p) \<and>
     ap_expected_outputs p \<noteq> [] \<and> length (ap_expected_outputs p) \<le> 50 \<and>
     list_all (text_ok 500) (ap_expected_outputs p) \<and>
     ap_stop_conditions p \<noteq> [] \<and> length (ap_stop_conditions p) \<le> 50 \<and>
     list_all (text_ok 500) (ap_stop_conditions p) \<and>
     pattern_ok SHA256_PATTERN (ap_policy_hash p) \<and> is_ok (validate_revision_and_questions p)"

definition plan_projection :: "analysis_plan \<Rightarrow> pyval" where
  "plan_projection p =
     jobj [(''schema_version'', PInt 1), (''protocol_version'', PStr (ap_protocol_version p)),
           (''plan_id'', PStr (ap_plan_id p)), (''revision'', PInt (ap_revision p)),
           (''parent_plan_hash'', jopt PStr (ap_parent_plan_hash p)), (''objective'', PStr (ap_objective p)),
           (''resolved_questions'', PList (map question_projection (ap_resolved_questions p))),
           (''step'', plan_step_dump (ap_step p)),
           (''expected_outputs'', PList (map PStr (ap_expected_outputs p))),
           (''stop_conditions'', PList (map PStr (ap_stop_conditions p))),
           (''execution_policy_hash'', PStr (ap_policy_hash p))]"

definition plan_hash :: "analysis_plan \<Rightarrow> py_exc + pystr" where
  "plan_hash p = canonical_hash (plan_projection p) ANALYSIS_PLAN_HASH_DOMAIN"

section \<open>Validation outcomes\<close>

definition VALIDATION_RECEIPT_HASH_DOMAIN :: pystr where
  "VALIDATION_RECEIPT_HASH_DOMAIN = lit ''managed.validation_receipt.v1''"

definition MANUAL_APPROVAL_HASH_DOMAIN :: pystr where
  "MANUAL_APPROVAL_HASH_DOMAIN = lit ''managed.manual_approval.v1''"

definition AUTHORIZATION_BINDING_HASH_DOMAIN :: pystr where
  "AUTHORIZATION_BINDING_HASH_DOMAIN = lit ''managed.authorization_binding.v1''"

datatype validation_issue_code =
    EXECUTION_SCOPE_DENIED | PLAN_POLICY_MISMATCH | PLAN_COMPONENT_IDENTITY_MISMATCH
  | PLAN_COMPONENT_LIFECYCLE_DENIED | PLAN_REQUIRED_QUESTION_UNRESOLVED | PLAN_RESOLVED_QUESTION_MISMATCH
  | MANAGED_REQUIRED_INPUT_MISSING | MANAGED_TIMESTAMP_REQUIRED | VI_INVALID_COMPONENT_INPUT
  | COMPONENT_CONSTRAINT_VIOLATION | VI_COMPONENT_CONTRACT_ERROR

record validation_issue =
  vi_code :: validation_issue_code
  vi_message :: pystr
  vi_field :: "pystr option"

definition validation_issue_valid :: "validation_issue \<Rightarrow> bool" where
  "validation_issue_valid i \<longleftrightarrow> text_ok 500 (vi_message i) \<and> pred_option (text_ok 160) (vi_field i)"

record clarification_question =
  cq_question_id :: pystr
  cq_target_field :: pystr
  cq_prompt :: pystr
  cq_materiality :: pystr

definition clarification_question_valid :: "clarification_question \<Rightarrow> bool" where
  "clarification_question_valid q \<longleftrightarrow>
     pattern_ok SAFE_ID_PATTERN (cq_question_id q) \<and> pattern_ok SAFE_ID_PATTERN (cq_target_field q) \<and>
     text_ok 500 (cq_prompt q) \<and> text_ok 500 (cq_materiality q)"

datatype failure_status = NEEDS_INFORMATION | BLOCKED

record validation_failure =
  vf_status :: failure_status
  vf_plan_hash :: pystr
  vf_issues :: "validation_issue list"
  vf_questions :: "clarification_question list"

definition validate_status :: "validation_failure \<Rightarrow> py_exc + validation_failure" where
  "validate_status f =
     (if vf_status f = NEEDS_INFORMATION \<and> vf_questions f = []
      then Inl (ValueError (lit ''needs_information failures require clarification questions''))
      else if vf_status f = BLOCKED \<and> vf_questions f \<noteq> []
      then Inl (ValueError (lit ''blocked failures cannot contain clarification questions''))
      else let ids = map cq_question_id (vf_questions f); fields = map cq_target_field (vf_questions f) in
      if card (set ids) \<noteq> length ids
      then Inl (ValueError (lit ''clarification question IDs must be unique''))
      else if card (set fields) \<noteq> length fields
      then Inl (ValueError (lit ''clarification question target fields must be unique''))
      else Inr f)"

definition validation_failure_valid :: "validation_failure \<Rightarrow> bool" where
  "validation_failure_valid f \<longleftrightarrow>
     pattern_ok SHA256_PATTERN (vf_plan_hash f) \<and> vf_issues f \<noteq> [] \<and>
     list_all validation_issue_valid (vf_issues f) \<and>
     list_all clarification_question_valid (vf_questions f) \<and> is_ok (validate_status f)"

record validation_receipt =
  vr_plan_hash :: pystr
  vr_policy_hash :: pystr
  vr_component :: component_ref
  vr_dataset_hash :: pystr
  vr_validator :: runner_identity
  vr_checks :: "pystr list"

definition validate_checks :: "validation_receipt \<Rightarrow> py_exc + validation_receipt" where
  "validate_checks r =
     (if card (set (vr_checks r)) \<noteq> length (vr_checks r)
      then Inl (ValueError (lit ''validation receipt check IDs must be unique'')) else Inr r)"

definition validation_receipt_valid :: "validation_receipt \<Rightarrow> bool" where
  "validation_receipt_valid r \<longleftrightarrow>
     pattern_ok SHA256_PATTERN (vr_plan_hash r) \<and> pattern_ok SHA256_PATTERN (vr_policy_hash r) \<and>
     component_ref_valid (vr_component r) \<and> pattern_ok SHA256_PATTERN (vr_dataset_hash r) \<and>
     runner_identity_valid (vr_validator r) \<and> vr_checks r \<noteq> [] \<and>
     list_all (pattern_ok SAFE_ID_PATTERN) (vr_checks r) \<and> is_ok (validate_checks r)"

definition validation_check_dump :: "pystr \<Rightarrow> pyval" where
  "validation_check_dump c = jobj [(''check_id'', PStr c), (''status'', jstr ''passed'')]"

definition validation_receipt_dump :: "validation_receipt \<Rightarrow> pyval" where
  "validation_receipt_dump r =
     jobj [(''schema_version'', PInt 1), (''status'', jstr ''validated''), (''plan_hash'', PStr (vr_plan_hash r)),
           (''policy_hash'', PStr (vr_policy_hash r)), (''component'', component_ref_dump (vr_component r)),
           (''dataset_hash'', PStr (vr_dataset_hash r)), (''validator'', runner_identity_dump (vr_validator r)),
           (''checks'', PList (map validation_check_dump (vr_checks r)))]"

definition receipt_hash :: "validation_receipt \<Rightarrow> py_exc + pystr" where
  "receipt_hash r = canonical_hash (validation_receipt_dump r) VALIDATION_RECEIPT_HASH_DOMAIN"

section \<open>Approval and authorization\<close>

text \<open>
  \<^verbatim>\<open>AwareDatetime\<close>: a datetime is the text Pydantic writes for it, and it is aware if the text names an offset. The fields are
  those a \<^verbatim>\<open>datetime\<close> can have.
\<close>

definition JSON_DATETIME_PATTERN :: rx where
  "JSON_DATETIME_PATTERN =
     (let d = Cls is_digit in
      Cats [Times 4 d, Chr 45, Times 2 d, Chr 45, Times 2 d, Chr 84, Times 2 d, Chr 58, Times 2 d, Chr 58, Times 2 d,
            Opt (Cats [Chr 46, Times 6 d]), Alt (Chr 90) (Cats [Cls (\<lambda>c. c = 43 \<or> c = 45), Times 2 d, Chr 58, Times 2 d])])"

definition aware_datetime :: "pystr \<Rightarrow> bool" where
  "aware_datetime s \<longleftrightarrow>
     list_all (\<lambda>c. c < 128) s \<and> fullmatch JSON_DATETIME_PATTERN s \<and>
     1 \<le> field_at 0 4 s \<and> 1 \<le> field_at 5 2 s \<and> field_at 5 2 s \<le> 12 \<and>
     1 \<le> field_at 8 2 s \<and> field_at 8 2 s \<le> days_in_month (field_at 0 4 s) (field_at 5 2 s) \<and>
     field_at 11 2 s \<le> 23 \<and> field_at 14 2 s \<le> 59 \<and> field_at 17 2 s \<le> 59 \<and>
     (last s = 90 \<or> field_at (length s - 5) 2 s \<le> 23 \<and> field_at (length s - 2) 2 s \<le> 59)"

lemma aware_datetime_scalar: "aware_datetime s \<Longrightarrow> scalar_str s"
  by (auto simp: aware_datetime_def scalar_str_def list_all_iff is_scalar_ascii)

record approval_record =
  ar_plan_hash :: pystr
  ar_receipt_hash :: pystr
  ar_approved_by :: pystr
  ar_approved_at :: pystr
  ar_note :: "pystr option"

definition approval_record_valid :: "approval_record \<Rightarrow> bool" where
  "approval_record_valid a \<longleftrightarrow>
     pattern_ok SHA256_PATTERN (ar_plan_hash a) \<and> pattern_ok SHA256_PATTERN (ar_receipt_hash a) \<and>
     text_ok 160 (ar_approved_by a) \<and> aware_datetime (ar_approved_at a) \<and> pred_option (text_ok 500) (ar_note a)"

definition approval_record_dump :: "approval_record \<Rightarrow> pyval" where
  "approval_record_dump a =
     jobj [(''schema_version'', PInt 1), (''authorization_kind'', jstr ''manual''),
           (''plan_hash'', PStr (ar_plan_hash a)), (''validation_receipt_hash'', PStr (ar_receipt_hash a)),
           (''approved_by'', PStr (ar_approved_by a)), (''approved_at'', PStr (ar_approved_at a)),
           (''note'', jopt PStr (ar_note a))]"

definition approval_hash :: "approval_record \<Rightarrow> py_exc + pystr" where
  "approval_hash a = canonical_hash (approval_record_dump a) MANUAL_APPROVAL_HASH_DOMAIN"

record authorization_binding =
  ab_plan_hash :: pystr
  ab_receipt_hash :: pystr
  ab_approval_hash :: pystr
  ab_component :: component_ref
  ab_dataset_hash :: pystr

definition authorization_binding_valid :: "authorization_binding \<Rightarrow> bool" where
  "authorization_binding_valid b \<longleftrightarrow>
     pattern_ok SHA256_PATTERN (ab_plan_hash b) \<and> pattern_ok SHA256_PATTERN (ab_receipt_hash b) \<and>
     pattern_ok SHA256_PATTERN (ab_approval_hash b) \<and> component_ref_valid (ab_component b) \<and>
     pattern_ok SHA256_PATTERN (ab_dataset_hash b)"

definition authorization_binding_dump :: "authorization_binding \<Rightarrow> pyval" where
  "authorization_binding_dump b =
     jobj [(''schema_version'', PInt 1), (''plan_hash'', PStr (ab_plan_hash b)),
           (''validation_receipt_hash'', PStr (ab_receipt_hash b)), (''approval_hash'', PStr (ab_approval_hash b)),
           (''component'', component_ref_dump (ab_component b)), (''dataset_hash'', PStr (ab_dataset_hash b))]"

definition authorization_hash :: "authorization_binding \<Rightarrow> py_exc + pystr" where
  "authorization_hash b = canonical_hash (authorization_binding_dump b) AUTHORIZATION_BINDING_HASH_DOMAIN"

datatype authorization_error_code =
    PLAN_REVISION_STALE | VALIDATION_RECEIPT_MISMATCH | APPROVAL_BINDING_MISMATCH
  | COMPONENT_BINDING_MISMATCH | DATASET_BINDING_MISMATCH | POLICY_BINDING_MISMATCH
  | AUTHORIZATION_BINDING_MISMATCH

datatype authorization_outcome =
    AuthorizationSuccess authorization_binding
  | AuthorizationFailure authorization_error_code pystr

section \<open>What the projections mean\<close>

lemma component_lifecycle_value_inj [simp]: "component_lifecycle_value a = component_lifecycle_value b \<longleftrightarrow> a = b"
  by (cases a; cases b) simp_all

lemma requirement_failure_code_value_inj [simp]:
  "requirement_failure_code_value a = requirement_failure_code_value b \<longleftrightarrow> a = b"
  by (cases a; cases b) simp_all

lemma question_verification_status_value_inj [simp]:
  "question_verification_status_value a = question_verification_status_value b \<longleftrightarrow> a = b"
  by (cases a; cases b) simp_all

lemma denote_PList_inj:
  "(\<And>x y. denote (f x) = denote (f y) \<longleftrightarrow> x = y) \<Longrightarrow>
     denote (PList (map f xs)) = denote (PList (map f ys)) \<longleftrightarrow> xs = ys"
  unfolding denote_PList_map by (simp add: list.rel_eq)

lemma input_requirement_dump_laws:
  "wf_py (input_requirement_dump r)"
  "input_requirement_valid r \<Longrightarrow> canonical_ok (input_requirement_dump r)"
  "denote (input_requirement_dump r) = denote (input_requirement_dump s) \<longleftrightarrow> r = s"
  by (auto simp: input_requirement_dump_def input_requirement_valid_def denote_jobj_iff scalar_dests)

lemma managed_component_rule_dump_laws:
  "wf_py (managed_component_rule_dump r)"
  "managed_component_rule_valid r \<Longrightarrow> canonical_ok (managed_component_rule_dump r)"
  "denote (managed_component_rule_dump r) = denote (managed_component_rule_dump s) \<longleftrightarrow> r = s"
proof -
  show "wf_py (managed_component_rule_dump r)"
    by (simp add: managed_component_rule_dump_def component_ref_dump_laws input_requirement_dump_laws list_all_iff)
  show "managed_component_rule_valid r \<Longrightarrow> canonical_ok (managed_component_rule_dump r)"
    by (auto simp: managed_component_rule_dump_def managed_component_rule_valid_def component_ref_dump_laws
        input_requirement_dump_laws list_all_iff scalar_dests)
  show "denote (managed_component_rule_dump r) = denote (managed_component_rule_dump s) \<longleftrightarrow> r = s"
    by (simp add: managed_component_rule_dump_def denote_jobj_iff component_ref_dump_laws
        denote_PList_inj[OF input_requirement_dump_laws(3)] del: denote.simps(6)) auto
qed

lemma is_ok_canonical_guard: "is_ok (bindE (canonical_json_bytes v) (\<lambda>_. Inr x)) \<longleftrightarrow> canonical_ok v"
  unfolding is_ok_canonical_json_bytes[symmetric] by (cases "canonical_json_bytes v") simp_all

lemma question_projection_laws:
  "resolved_question_valid q \<Longrightarrow> wf_py (question_projection q)"
  "resolved_question_valid q \<Longrightarrow> canonical_ok (question_projection q)"
  by (auto simp: question_projection_def resolved_question_valid_def validate_answer_def is_ok_canonical_guard
      json_value_wf scalar_dests MAX_SAFE_INTEGER_def)

definition same_question :: "resolved_question \<Rightarrow> resolved_question \<Rightarrow> bool" where
  "same_question q r \<longleftrightarrow>
     rs_question_id q = rs_question_id r \<and> rs_target_field q = rs_target_field r \<and>
     denote (rs_answer q) = denote (rs_answer r) \<and> rs_supplied_by q = rs_supplied_by r \<and>
     rs_verification_status q = rs_verification_status r"

lemma denote_question: "denote (question_projection q) = denote (question_projection r) \<longleftrightarrow> same_question q r"
  by (simp add: question_projection_def denote_jobj_iff same_question_def)

definition same_dataset :: "dataset_binding \<Rightarrow> dataset_binding \<Rightarrow> bool" where
  "same_dataset d e \<longleftrightarrow>
     ds_dataset_id d = ds_dataset_id e \<and> denote (PDict (ds_input d)) = denote (PDict (ds_input e))"

lemma dataset_binding_dump_laws:
  "dataset_binding_valid d \<Longrightarrow> wf_py (dataset_binding_dump d)"
  "dataset_binding_valid d \<Longrightarrow> canonical_ok (dataset_binding_dump d)"
  "denote (dataset_binding_dump d) = denote (dataset_binding_dump e) \<longleftrightarrow> same_dataset d e"
proof -
  show "dataset_binding_valid d \<Longrightarrow> wf_py (dataset_binding_dump d)"
    using json_value_wf[of "PDict (ds_input d)"]
    by (simp add: dataset_binding_dump_def dataset_binding_valid_def del: wf_py.simps(4) json_value.simps)
  show "dataset_binding_valid d \<Longrightarrow> canonical_ok (dataset_binding_dump d)"
    by (auto simp: dataset_binding_dump_def dataset_binding_valid_def validate_dataset_input_def is_ok_canonical_guard
        scalar_dests MAX_SAFE_INTEGER_def simp del: canonical_ok.simps(8) json_value.simps)
  show "denote (dataset_binding_dump d) = denote (dataset_binding_dump e) \<longleftrightarrow> same_dataset d e"
    by (simp add: dataset_binding_dump_def denote_jobj_iff same_dataset_def del: denote.simps(8))
qed

definition same_step :: "plan_step \<Rightarrow> plan_step \<Rightarrow> bool" where
  "same_step s t \<longleftrightarrow>
     st_step_id s = st_step_id t \<and> st_profile_id s = st_profile_id t \<and> st_component s = st_component t \<and>
     st_lifecycle s = st_lifecycle t \<and> st_explicit_draft_opt_in s = st_explicit_draft_opt_in t \<and>
     same_dataset (st_dataset s) (st_dataset t)"

lemma plan_step_dump_laws:
  "plan_step_valid s \<Longrightarrow> wf_py (plan_step_dump s)"
  "plan_step_valid s \<Longrightarrow> canonical_ok (plan_step_dump s)"
  "denote (plan_step_dump s) = denote (plan_step_dump t) \<longleftrightarrow> same_step s t"
proof -
  show "plan_step_valid s \<Longrightarrow> wf_py (plan_step_dump s)"
    by (simp add: plan_step_dump_def plan_step_valid_def component_ref_dump_laws dataset_binding_dump_laws)
  show "plan_step_valid s \<Longrightarrow> canonical_ok (plan_step_dump s)"
    by (auto simp: plan_step_dump_def plan_step_valid_def component_ref_dump_laws dataset_binding_dump_laws
        scalar_dests MAX_SAFE_INTEGER_def)
  show "denote (plan_step_dump s) = denote (plan_step_dump t) \<longleftrightarrow> same_step s t"
    by (simp add: plan_step_dump_def denote_jobj_iff same_step_def component_ref_dump_laws dataset_binding_dump_laws)
qed

definition same_plan :: "analysis_plan \<Rightarrow> analysis_plan \<Rightarrow> bool" where
  "same_plan p q \<longleftrightarrow>
     ap_protocol_version p = ap_protocol_version q \<and> ap_plan_id p = ap_plan_id q \<and>
     ap_revision p = ap_revision q \<and> ap_parent_plan_hash p = ap_parent_plan_hash q \<and>
     ap_objective p = ap_objective q \<and>
     list_all2 same_question (ap_resolved_questions p) (ap_resolved_questions q) \<and>
     same_step (ap_step p) (ap_step q) \<and> ap_expected_outputs p = ap_expected_outputs q \<and>
     ap_stop_conditions p = ap_stop_conditions q \<and> ap_policy_hash p = ap_policy_hash q"

text \<open>A plan whose revision counter is still a safe integer: the only field that can exceed what is hashable.\<close>

definition plan_hashable :: "analysis_plan \<Rightarrow> bool" where
  "plan_hashable p \<longleftrightarrow> analysis_plan_valid p \<and> ap_revision p \<le> MAX_SAFE_INTEGER"

lemma plan_projection_laws:
  "plan_hashable p \<Longrightarrow> wf_py (plan_projection p)"
  "plan_hashable p \<Longrightarrow> canonical_ok (plan_projection p)"
  "plan_hashable p \<Longrightarrow> plan_hashable q \<Longrightarrow>
     denote (plan_projection p) = denote (plan_projection q) \<longleftrightarrow> same_plan p q"
proof -
  show "wf_py (plan_projection p)" if "plan_hashable p"
    using that plan_step_dump_laws(1)[of "ap_step p"]
    by (auto simp: plan_projection_def plan_hashable_def analysis_plan_valid_def question_projection_laws
        list_all_iff wf_jopt)
  have "pattern_ok SHA256_PATTERN h" if "plan_hashable p" "ap_parent_plan_hash p = Some h" for h
    using that by (simp add: plan_hashable_def analysis_plan_valid_def)
  then show "canonical_ok (plan_projection p)" if "plan_hashable p"
    using that plan_step_dump_laws(2)[of "ap_step p"]
    by (auto simp: plan_projection_def plan_hashable_def analysis_plan_valid_def question_projection_laws
        list_all_iff canonical_jopt scalar_dests MAX_SAFE_INTEGER_def)
  show "denote (plan_projection p) = denote (plan_projection q) \<longleftrightarrow> same_plan p q" if "plan_hashable p" "plan_hashable q"
    using that denote_PInt_iff[of "ap_revision p" "ap_revision q"]
    by (simp add: plan_projection_def denote_jobj_iff same_plan_def plan_hashable_def analysis_plan_valid_def
        plan_step_dump_laws denote_PList_map denote_question list.rel_eq del: denote.simps(3,6))
qed

section \<open>Hashed records\<close>

interpretation policy: hashed_record execution_policy_dump EXECUTION_POLICY_HASH_DOMAIN execution_policy_valid "(=)"
proof
  show "domain_ok EXECUTION_POLICY_HASH_DOMAIN" by code_simp
  show "wf_py (execution_policy_dump p)" if "execution_policy_valid p" for p
    using that by (simp add: execution_policy_dump_def managed_component_rule_dump_laws list_all_iff)
  show "canonical_ok (execution_policy_dump p)" if "execution_policy_valid p" for p
    using that by (auto simp: execution_policy_dump_def execution_policy_valid_def managed_component_rule_dump_laws
        list_all_iff scalar_dests MAX_SAFE_INTEGER_def)
  show "denote (execution_policy_dump p) = denote (execution_policy_dump q) \<longleftrightarrow> p = q" for p q
    by (auto simp: execution_policy_dump_def denote_jobj_iff denote_PList_inj[OF managed_component_rule_dump_laws(3)]
        simp del: denote.simps(6))
qed

interpretation dataset: hashed_record dataset_binding_dump DATASET_BINDING_HASH_DOMAIN dataset_binding_valid same_dataset
proof
  show "domain_ok DATASET_BINDING_HASH_DOMAIN" by code_simp
qed (simp_all add: dataset_binding_dump_laws)

interpretation plan: hashed_record plan_projection ANALYSIS_PLAN_HASH_DOMAIN plan_hashable same_plan
proof
  show "domain_ok ANALYSIS_PLAN_HASH_DOMAIN" by code_simp
qed (simp_all add: plan_projection_laws)

lemma runner_identity_dump_laws:
  "wf_py (runner_identity_dump r)"
  "runner_identity_valid r \<Longrightarrow> canonical_ok (runner_identity_dump r)"
  "denote (runner_identity_dump r) = denote (runner_identity_dump s) \<longleftrightarrow> r = s"
  by (auto simp: runner_identity_dump_def runner_identity_valid_def denote_jobj_iff scalar_dests)

lemma validation_check_dump_laws:
  "wf_py (validation_check_dump c)" "pattern_ok SAFE_ID_PATTERN c \<Longrightarrow> canonical_ok (validation_check_dump c)"
  "denote (validation_check_dump c) = denote (validation_check_dump d) \<longleftrightarrow> c = d"
  by (auto simp: validation_check_dump_def denote_jobj_iff scalar_dests)

interpretation receipt: hashed_record validation_receipt_dump VALIDATION_RECEIPT_HASH_DOMAIN validation_receipt_valid "(=)"
proof
  show "domain_ok VALIDATION_RECEIPT_HASH_DOMAIN" by code_simp
  show "wf_py (validation_receipt_dump r)" if "validation_receipt_valid r" for r
    by (simp add: validation_receipt_dump_def component_ref_dump_laws runner_identity_dump_laws
        validation_check_dump_laws list_all_iff)
  show "canonical_ok (validation_receipt_dump r)" if "validation_receipt_valid r" for r
    using that by (auto simp: validation_receipt_dump_def validation_receipt_valid_def component_ref_dump_laws
        runner_identity_dump_laws validation_check_dump_laws list_all_iff scalar_dests MAX_SAFE_INTEGER_def)
  show "denote (validation_receipt_dump r) = denote (validation_receipt_dump s) \<longleftrightarrow> r = s" for r s
    by (auto simp: validation_receipt_dump_def denote_jobj_iff component_ref_dump_laws runner_identity_dump_laws
        denote_PList_inj[OF validation_check_dump_laws(3)] simp del: denote.simps(6))
qed

interpretation approval: hashed_record approval_record_dump MANUAL_APPROVAL_HASH_DOMAIN approval_record_valid "(=)"
proof
  show "domain_ok MANUAL_APPROVAL_HASH_DOMAIN" by code_simp
  show "wf_py (approval_record_dump a)" if "approval_record_valid a" for a
    by (simp add: approval_record_dump_def wf_jopt)
  show "canonical_ok (approval_record_dump a)" if "approval_record_valid a" for a
    using that by (auto simp: approval_record_dump_def approval_record_valid_def canonical_jopt scalar_dests aware_datetime_scalar
        MAX_SAFE_INTEGER_def)
  show "denote (approval_record_dump a) = denote (approval_record_dump b) \<longleftrightarrow> a = b" for a b
    by (auto simp: approval_record_dump_def denote_jobj_iff)
qed

interpretation binding: hashed_record authorization_binding_dump AUTHORIZATION_BINDING_HASH_DOMAIN
  authorization_binding_valid "(=)"
proof
  show "domain_ok AUTHORIZATION_BINDING_HASH_DOMAIN" by code_simp
  show "wf_py (authorization_binding_dump b)" if "authorization_binding_valid b" for b
    by (simp add: authorization_binding_dump_def component_ref_dump_laws)
  show "canonical_ok (authorization_binding_dump b)" if "authorization_binding_valid b" for b
    using that by (auto simp: authorization_binding_dump_def authorization_binding_valid_def component_ref_dump_laws
        scalar_dests MAX_SAFE_INTEGER_def)
  show "denote (authorization_binding_dump a) = denote (authorization_binding_dump b) \<longleftrightarrow> a = b" for a b
    by (auto simp: authorization_binding_dump_def denote_jobj_iff component_ref_dump_laws)
qed

end
