(* ===== verification/Json_Text.thy ===== *)
theory Json_Text
  imports Operation Calendar
begin

text \<open>
  The JSON text layer: \<^verbatim>\<open>json.dumps\<close> in the compact and in the indented form the sources use, the scanner of
  \<^verbatim>\<open>json.loads\<close> with its hooks, and the strict documents of \<^verbatim>\<open>shared/data_records.py\<close> built on them
  (\<^verbatim>\<open>cas_json_bytes\<close>, \<^verbatim>\<open>pretty_json_bytes\<close>, \<^verbatim>\<open>strict_json_loads\<close>, \<^verbatim>\<open>strict_cas_json_loads\<close>).

  The decimal text of a binary64 float and its reading are parameters, \<open>fr\<close> and \<open>pf\<close>. The scanner takes
  fuel; \<open>json_loads\<close> starts it with two units for every character and one more, and \<open>json_loads_fuel\<close> (\<open>scan_fuel\<close>)
  shows that this is never exhausted. The interpreter's recursion limit is not modelled.
\<close>

section \<open>Printing\<close>

fun nat_repr :: "nat \<Rightarrow> pystr" where
  "nat_repr n = (if n < 10 then [48 + n] else nat_repr (n div 10) @ [48 + n mod 10])"

declare nat_repr.simps [simp del]

definition int_repr :: "int \<Rightarrow> pystr" where
  "int_repr i = (if i < 0 then 45 # nat_repr (nat (- i)) else nat_repr (nat i))"

definition json_quote :: "pystr \<Rightarrow> pystr" where
  "json_quote s = [34] @ concat (map encode_char s) @ [34]"

text \<open>
  \<^verbatim>\<open>json.dumps(..., sort_keys=True, separators=(",", ":"), ensure_ascii=False)\<close> on values that hold no set,
  model or other object.
\<close>

fun json_dumps :: "(float64 \<Rightarrow> pystr) \<Rightarrow> pyval \<Rightarrow> pystr" where
  "json_dumps fr PNone = lit ''null''"
| "json_dumps fr (PBool b) = (if b then lit ''true'' else lit ''false'')"
| "json_dumps fr (PInt i) = int_repr i"
| "json_dumps fr (PFloat x) = fr x"
| "json_dumps fr (PStr s) = json_quote s"
| "json_dumps fr (PList vs) = lit ''['' @ str_join (lit '','') (map (json_dumps fr) vs) @ lit '']''"
| "json_dumps fr (PTuple vs) = lit ''['' @ str_join (lit '','') (map (json_dumps fr) vs) @ lit '']''"
| "json_dumps fr (PDict kvs) =
     lit ''{'' @
     str_join (lit '','') (map (\<lambda>(k, t). json_quote k @ lit '':'' @ t)
       (sort_key fst (map (\<lambda>kv. (the (key_str (fst kv)), json_dumps fr (snd kv))) kvs))) @ lit ''}''"
| "json_dumps fr _ = []"

text \<open>The same with \<^verbatim>\<open>indent=2\<close>; \<open>d\<close> is the nesting depth.\<close>

definition indent_line :: "nat \<Rightarrow> pystr" where
  "indent_line d = 10 # replicate (2 * d) 32"

definition bracketed :: "nat \<Rightarrow> nat \<Rightarrow> nat \<Rightarrow> pystr list \<Rightarrow> pystr" where
  "bracketed l r d items =
     (if items = [] then [l, r]
      else [l] @ indent_line (Suc d) @ str_join (44 # indent_line (Suc d)) items @ indent_line d @ [r])"

fun json_pretty :: "(float64 \<Rightarrow> pystr) \<Rightarrow> nat \<Rightarrow> pyval \<Rightarrow> pystr" where
  "json_pretty fr d (PList vs) = bracketed 91 93 d (map (json_pretty fr (Suc d)) vs)"
| "json_pretty fr d (PTuple vs) = bracketed 91 93 d (map (json_pretty fr (Suc d)) vs)"
| "json_pretty fr d (PDict kvs) =
     bracketed 123 125 d (map (\<lambda>(k, t). json_quote k @ lit '': '' @ t)
       (sort_key fst (map (\<lambda>kv. (the (key_str (fst kv)), json_pretty fr (Suc d) (snd kv))) kvs)))"
| "json_pretty fr d v = json_dumps fr v"

section \<open>Scanning\<close>

datatype json_fail = Malformed | DuplicateKey | NonFiniteToken pystr | IntTooLong | OutOfFuel

definition is_json_space :: "nat \<Rightarrow> bool" where
  "is_json_space c \<longleftrightarrow> c = 32 \<or> c = 9 \<or> c = 10 \<or> c = 13"

definition skip_ws :: "pystr \<Rightarrow> pystr" where
  "skip_ws s = dropWhile is_json_space s"

definition hex_value :: "nat \<Rightarrow> nat option" where
  "hex_value c =
     (if is_digit c then Some (c - 48)
      else if 97 \<le> c \<and> c \<le> 102 then Some (c - 87)
      else if 65 \<le> c \<and> c \<le> 70 then Some (c - 55) else None)"

text \<open>Four hexadecimal digits after \<^verbatim>\<open>\u\<close>.\<close>

definition hex4 :: "pystr \<Rightarrow> nat option" where
  "hex4 s =
     (if length s < 4 \<or> list_ex (\<lambda>c. hex_value c = None) (take 4 s) then None
      else Some (foldl (\<lambda>n c. 16 * n + the (hex_value c)) 0 (take 4 s)))"

definition JSON_ESCAPES :: "(nat \<times> nat) list" where
  "JSON_ESCAPES = [(34, 34), (92, 92), (47, 47), (98, 8), (102, 12), (110, 10), (114, 13), (116, 9)]"

text \<open>A high surrogate escape directly followed by a low one is one character.\<close>

definition low_surrogate_after :: "pystr \<Rightarrow> nat option" where
  "low_surrogate_after s =
     (if take 2 s \<noteq> [92, 117] then None
      else case hex4 (drop 2 s) of
             None \<Rightarrow> None
           | Some u \<Rightarrow> if 0xDC00 \<le> u \<and> u \<le> 0xDFFF then Some u else None)"

definition push_char :: "nat \<Rightarrow> (pystr \<times> pystr) option \<Rightarrow> (pystr \<times> pystr) option" where
  "push_char c r = (case r of None \<Rightarrow> None | Some (s, rest) \<Rightarrow> Some (c # s, rest))"

lemma push_char_simps [simp]: "push_char c None = None" "push_char c (Some (s, r)) = Some (c # s, r)"
  by (simp_all add: push_char_def)

text \<open>The text of a string after its opening quote, and what follows its closing quote.\<close>

function scan_string :: "pystr \<Rightarrow> (pystr \<times> pystr) option" where
  "scan_string [] = None"
| "scan_string (c # cs) =
     (if c = 34 then Some ([], cs)
      else if c < 32 then None
      else if c \<noteq> 92 then push_char c (scan_string cs)
      else case cs of
        [] \<Rightarrow> None
      | e # r \<Rightarrow>
          if e \<noteq> 117
          then (case map_of JSON_ESCAPES e of None \<Rightarrow> None | Some d \<Rightarrow> push_char d (scan_string r))
          else case hex4 r of
            None \<Rightarrow> None
          | Some u \<Rightarrow>
              (case (if 0xD800 \<le> u \<and> u \<le> 0xDBFF then low_surrogate_after (drop 4 r) else None) of
                 None \<Rightarrow> push_char u (scan_string (drop 4 r))
               | Some v \<Rightarrow>
                   push_char (0x10000 + ((u - 0xD800) * 0x400 + (v - 0xDC00))) (scan_string (drop 10 r))))"
  by pat_completeness auto
termination by (relation "measure length") auto

declare scan_string.simps [simp del]

text \<open>
  \<^verbatim>\<open>(-?(?:0|[1-9]\d*))(\.\d+)?([eE][-+]?\d+)?\<close>: the sign and integer part, whether a fraction or an
  exponent follows, the whole text and the rest.
\<close>

definition integer_part :: "pystr \<Rightarrow> (pystr \<times> pystr) option" where
  "integer_part s =
     (case s of
        [] \<Rightarrow> None
      | c # cs \<Rightarrow>
          if c = 48 then Some ([48], cs)
          else if is_digit c then Some (takeWhile is_digit s, dropWhile is_digit s) else None)"

definition fraction_part :: "pystr \<Rightarrow> pystr \<times> pystr" where
  "fraction_part s =
     (case s of
        [] \<Rightarrow> ([], s)
      | c # cs \<Rightarrow>
          if c = 46 \<and> takeWhile is_digit cs \<noteq> [] then (46 # takeWhile is_digit cs, dropWhile is_digit cs) else ([], s))"

definition sign_part :: "(nat \<Rightarrow> bool) \<Rightarrow> pystr \<Rightarrow> pystr \<times> pystr" where
  "sign_part p s = (case s of [] \<Rightarrow> ([], s) | c # cs \<Rightarrow> if p c then ([c], cs) else ([], s))"

definition exponent_part :: "pystr \<Rightarrow> pystr \<times> pystr" where
  "exponent_part s =
     (case s of
        [] \<Rightarrow> ([], s)
      | c # cs \<Rightarrow>
          (let (sign, r) = sign_part (\<lambda>d. d = 45 \<or> d = 43) cs in
           if (c = 101 \<or> c = 69) \<and> takeWhile is_digit r \<noteq> []
           then (c # sign @ takeWhile is_digit r, dropWhile is_digit r) else ([], s)))"

definition scan_number :: "pystr \<Rightarrow> (pystr \<times> bool \<times> pystr) option" where
  "scan_number s =
     (let (sign, s1) = sign_part (\<lambda>c. c = 45) s in
      case integer_part s1 of
        None \<Rightarrow> None
      | Some (whole, s2) \<Rightarrow>
          (let (frac, s3) = fraction_part s2; (expo, s4) = exponent_part s3
           in Some (sign @ whole @ frac @ expo, frac @ expo \<noteq> [], s4)))"

definition int_of_text :: "pystr \<Rightarrow> int" where
  "int_of_text t = (if t \<noteq> [] \<and> hd t = 45 then - int (digits_value (tl t)) else int (digits_value t))"

definition MAX_INT_DIGITS :: nat where
  "MAX_INT_DIGITS = 4300"

definition starts_lit :: "string \<Rightarrow> pystr \<Rightarrow> bool" where
  "starts_lit w s = starts_with (lit w) s"

text \<open>A number, or one of the constants that \<^verbatim>\<open>parse_constant\<close> rejects.\<close>

definition scan_number_or_constant :: "(pystr \<Rightarrow> float64) \<Rightarrow> pystr \<Rightarrow> json_fail + pyval \<times> pystr" where
  "scan_number_or_constant pf s =
     (case scan_number s of
        Some (t, is_float, r) \<Rightarrow>
          if is_float then Inr (PFloat (pf t), r)
          else if length (filter is_digit t) > MAX_INT_DIGITS then Inl IntTooLong
          else Inr (PInt (int_of_text t), r)
      | None \<Rightarrow>
          if starts_lit ''NaN'' s then Inl (NonFiniteToken (lit ''NaN''))
          else if starts_lit ''Infinity'' s then Inl (NonFiniteToken (lit ''Infinity''))
          else if starts_lit ''-Infinity'' s then Inl (NonFiniteToken (lit ''-Infinity''))
          else Inl Malformed)"

text \<open>The hook \<^verbatim>\<open>_reject_duplicate_keys\<close>.\<close>

fun reject_duplicate_keys :: "(pystr \<times> pyval) list \<Rightarrow> (pystr \<times> pyval) list \<Rightarrow> json_fail + (pystr \<times> pyval) list" where
  "reject_duplicate_keys result [] = Inr result"
| "reject_duplicate_keys result ((key, value) # pairs) =
     (if map_of result key \<noteq> None then Inl DuplicateKey
      else reject_duplicate_keys (result @ [(key, value)]) pairs)"

definition close_object :: "(pystr \<times> pyval) list \<Rightarrow> pystr \<Rightarrow> json_fail + pyval \<times> pystr" where
  "close_object pairs r =
     bindE (reject_duplicate_keys [] pairs) (\<lambda>d. Inr (PDict (map (\<lambda>(k, v). (KStr k, v)) d), r))"

fun scan_value :: "(pystr \<Rightarrow> float64) \<Rightarrow> nat \<Rightarrow> pystr \<Rightarrow> json_fail + pyval \<times> pystr"
  and scan_members :: "(pystr \<Rightarrow> float64) \<Rightarrow> nat \<Rightarrow> (pystr \<times> pyval) list \<Rightarrow> pystr \<Rightarrow> json_fail + pyval \<times> pystr"
  and scan_elements :: "(pystr \<Rightarrow> float64) \<Rightarrow> nat \<Rightarrow> pyval list \<Rightarrow> pystr \<Rightarrow> json_fail + pyval \<times> pystr" where
  "scan_value pf 0 s = Inl OutOfFuel"
| "scan_value pf (Suc n) s =
     (case s of
        [] \<Rightarrow> Inl Malformed
      | c # cs \<Rightarrow>
          if c = 34
          then (case scan_string cs of None \<Rightarrow> Inl Malformed | Some (t, r) \<Rightarrow> Inr (PStr t, r))
          else if c = 123
          then (case skip_ws cs of
                  [] \<Rightarrow> Inl Malformed
                | d # r \<Rightarrow>
                    if d = 125 then close_object [] r
                    else if d = 34 then scan_members pf n [] r else Inl Malformed)
          else if c = 91
          then (case skip_ws cs of
                  [] \<Rightarrow> Inl Malformed
                | d # r \<Rightarrow> if d = 93 then Inr (PList [], r) else scan_elements pf n [] (d # r))
          else if starts_lit ''null'' s then Inr (PNone, drop 4 s)
          else if starts_lit ''true'' s then Inr (PBool True, drop 4 s)
          else if starts_lit ''false'' s then Inr (PBool False, drop 5 s)
          else scan_number_or_constant pf s)"
| "scan_members pf 0 pairs s = Inl OutOfFuel"
| "scan_members pf (Suc n) pairs s =
     (case scan_string s of
        None \<Rightarrow> Inl Malformed
      | Some (k, r1) \<Rightarrow>
          (case skip_ws r1 of
             [] \<Rightarrow> Inl Malformed
           | d # r2 \<Rightarrow>
               if d \<noteq> 58 then Inl Malformed
               else bindE (scan_value pf n (skip_ws r2)) (\<lambda>(v, r3).
                 case skip_ws r3 of
                   [] \<Rightarrow> Inl Malformed
                 | e # r4 \<Rightarrow>
                     if e = 125 then close_object (pairs @ [(k, v)]) r4
                     else if e \<noteq> 44 then Inl Malformed
                     else (case skip_ws r4 of
                             [] \<Rightarrow> Inl Malformed
                           | q # r5 \<Rightarrow>
                               if q = 34 then scan_members pf n (pairs @ [(k, v)]) r5 else Inl Malformed))))"
| "scan_elements pf 0 vs s = Inl OutOfFuel"
| "scan_elements pf (Suc n) vs s =
     bindE (scan_value pf n s) (\<lambda>(v, r1).
       case skip_ws r1 of
         [] \<Rightarrow> Inl Malformed
       | e # r2 \<Rightarrow>
           if e = 93 then Inr (PList (vs @ [v]), r2)
           else if e \<noteq> 44 then Inl Malformed
           else scan_elements pf n (vs @ [v]) (skip_ws r2))"

declare scan_value.simps [simp del] scan_members.simps [simp del] scan_elements.simps [simp del]

definition json_loads :: "(pystr \<Rightarrow> float64) \<Rightarrow> pystr \<Rightarrow> json_fail + pyval" where
  "json_loads pf s =
     bindE (scan_value pf (Suc (2 * length s)) (skip_ws s)) (\<lambda>(v, r).
       if skip_ws r = [] then Inr v else Inl Malformed)"

section \<open>Strict documents\<close>

text \<open>\<^verbatim>\<open>json.dumps\<close> knows no Pydantic model, nor an enum that is not a string.\<close>

fun dumpable :: "pyval \<Rightarrow> bool" where
  "dumpable (PList vs) = list_all dumpable vs"
| "dumpable (PTuple vs) = list_all dumpable vs"
| "dumpable (PDict kvs) = list_all (\<lambda>kv. dumpable (snd kv)) kvs"
| "dumpable (PSet _) = False"
| "dumpable (PEnum _) = False"
| "dumpable (PModel _) = False"
| "dumpable (PProj _ _) = False"
| "dumpable (POther _) = False"
| "dumpable _ = True"

definition document_bytes :: "pyval \<Rightarrow> pystr \<Rightarrow> py_exc + bytes" where
  "document_bytes v text =
     bindE (canonical_json_bytes v) (\<lambda>_.
     if \<not> dumpable v then Inl (TypeError (lit ''Object is not JSON serializable''))
     else valid_utf8 (text @ [10]))"

definition cas_json_bytes :: "(float64 \<Rightarrow> pystr) \<Rightarrow> pyval \<Rightarrow> py_exc + bytes" where
  "cas_json_bytes fr v = document_bytes v (json_dumps fr v)"

definition pretty_json_bytes :: "(float64 \<Rightarrow> pystr) \<Rightarrow> pyval \<Rightarrow> py_exc + bytes" where
  "pretty_json_bytes fr v = document_bytes v (json_pretty fr 0 v)"

fun json_fail_exc :: "json_fail \<Rightarrow> py_exc" where
  "json_fail_exc DuplicateKey = ValueError (lit ''JSON object keys must be unique'')"
| "json_fail_exc (NonFiniteToken t) =
     ValueError (lit ''non-finite JSON number '' @ [39] @ t @ [39] @ lit '' is not permitted'')"
| "json_fail_exc IntTooLong = ValueError (lit ''Exceeds the limit for integer string conversion'')"
| "json_fail_exc _ = ValueError (lit ''JSON document is malformed'')"

definition strict_json_loads :: "(pystr \<Rightarrow> float64) \<Rightarrow> nat option \<Rightarrow> bytes \<Rightarrow> py_exc + pyval" where
  "strict_json_loads pf maximum_bytes content =
     (if (case maximum_bytes of None \<Rightarrow> False | Some m \<Rightarrow> length content > m)
      then Inl (ValueError (lit ''JSON document exceeds its byte limit''))
      else case utf8_decode content of
        None \<Rightarrow> Inl (ValueError (lit ''JSON document must be strict UTF-8''))
      | Some text \<Rightarrow>
          if starts_with [0xFEFF] text
          then Inl (ValueError (lit ''JSON document must not contain a byte-order mark''))
          else (case json_loads pf text of
                  Inl e \<Rightarrow> Inl (json_fail_exc e)
                | Inr v \<Rightarrow> bindE (canonical_json_bytes v) (\<lambda>_. Inr v)))"

definition strict_cas_json_loads ::
  "(float64 \<Rightarrow> pystr) \<Rightarrow> (pystr \<Rightarrow> float64) \<Rightarrow> nat \<Rightarrow> bytes \<Rightarrow> py_exc + pyval" where
  "strict_cas_json_loads fr pf maximum_bytes content =
     bindE (strict_json_loads pf (Some maximum_bytes) content) (\<lambda>v.
     bindE (cas_json_bytes fr v) (\<lambda>b.
     if b \<noteq> content then Inl (ValueError (lit ''CAS document does not use defined-quant-cas-json-v1''))
     else Inr v))"

section \<open>Numbers and strings scan back\<close>

lemma nat_repr_digits: "c \<in> set (nat_repr n) \<Longrightarrow> is_digit c"
  by (induction n rule: nat_repr.induct) (subst (asm) (2) nat_repr.simps, auto simp: is_digit_def split: if_splits)

lemma digits_value_nat_repr: "digits_value (nat_repr n) = n"
proof (induction n rule: nat_repr.induct)
  case (1 n)
  have snoc: "digits_value (ds @ [c]) = 10 * digits_value ds + (c - 48)" for ds c by (simp add: digits_value_def)
  show ?case
  proof (cases "n < 10")
    case True
    then show ?thesis by (simp add: nat_repr.simps[of n] digits_value_def)
  next
    case False
    then have "nat_repr n = nat_repr (n div 10) @ [48 + n mod 10]" by (simp add: nat_repr.simps[of n])
    then show ?thesis using 1 False by (simp add: snoc)
  qed
qed

lemma nat_repr_head: "\<exists>c cs. nat_repr n = c # cs \<and> is_digit c \<and> (c = 48 \<longrightarrow> cs = [])"
proof (induction n rule: nat_repr.induct)
  case (1 n)
  show ?case
  proof (cases "n < 10")
    case True
    then show ?thesis by (simp add: nat_repr.simps[of n] is_digit_def)
  next
    case False
    then have n: "nat_repr n = nat_repr (n div 10) @ [48 + n mod 10]" by (simp add: nat_repr.simps[of n])
    obtain c cs where c: "nat_repr (n div 10) = c # cs" "is_digit c" "c = 48 \<longrightarrow> cs = []" using 1 False by blast
    have "c \<noteq> 48"
    proof
      assume "c = 48"
      then have "n div 10 = 0" using c digits_value_nat_repr[of "n div 10"] by (simp add: digits_value_def)
      then show False using False by simp
    qed
    then show ?thesis using n c by simp
  qed
qed

text \<open>What may follow a number: nothing that could continue it.\<close>

definition stops :: "pystr \<Rightarrow> bool" where
  "stops r \<longleftrightarrow> (case r of [] \<Rightarrow> True | c # _ \<Rightarrow> c \<in> {44, 93, 125, 10})"

lemma stops_simps [simp]: "stops []" "stops (44 # r)" "stops (93 # r)" "stops (125 # r)" "stops (10 # r)"
  by (simp_all add: stops_def)

lemma stops_parts:
  assumes "stops r"
  shows "takeWhile is_digit r = []" "dropWhile is_digit r = r" "fraction_part r = ([], r)" "exponent_part r = ([], r)"
  using assms by (cases r; auto simp: stops_def is_digit_def fraction_part_def exponent_part_def split: prod.splits)+

lemma digits_then_stops:
  assumes "\<forall>c \<in> set ds. is_digit c" "stops r"
  shows "takeWhile is_digit (ds @ r) = ds" "dropWhile is_digit (ds @ r) = r"
  using assms stops_parts by (simp_all add: takeWhile_append2 dropWhile_append2)

lemma integer_part_nat_repr: "stops r \<Longrightarrow> integer_part (nat_repr n @ r) = Some (nat_repr n, r)"
proof -
  assume r: "stops r"
  obtain c cs where c: "nat_repr n = c # cs" "is_digit c" "c = 48 \<longrightarrow> cs = []" using nat_repr_head by blast
  have "\<forall>d \<in> set (c # cs). is_digit d" using nat_repr_digits c(1) by metis
  then show ?thesis using c digits_then_stops[OF _ r, of "c # cs"] by (auto simp: integer_part_def)
qed

lemma sign_part_digit: "is_digit c \<Longrightarrow> sign_part (\<lambda>c. c = 45) (c # s) = ([], c # s)"
  by (simp add: sign_part_def is_digit_def)

lemma scan_int_repr:
  assumes "stops r"
  shows "scan_number (int_repr i @ r) = Some (int_repr i, False, r)"
proof (cases "i < 0")
  case True
  have "sign_part (\<lambda>c. c = 45) (int_repr i @ r) = ([45], nat_repr (nat (- i)) @ r)"
    using True by (simp add: int_repr_def sign_part_def)
  then show ?thesis using True assms
    by (simp add: scan_number_def integer_part_nat_repr stops_parts) (simp add: int_repr_def)
next
  case False
  obtain c cs where c: "nat_repr (nat i) = c # cs" "is_digit c" using nat_repr_head by blast
  have i: "int_repr i = nat_repr (nat i)" using False by (simp add: int_repr_def)
  have "sign_part (\<lambda>c. c = 45) (nat_repr (nat i) @ r) = ([], nat_repr (nat i) @ r)"
    using c sign_part_digit by simp
  then show ?thesis using assms by (simp add: i scan_number_def integer_part_nat_repr stops_parts)
qed

lemma int_of_text_repr: "int_of_text (int_repr i) = i"
proof (cases "i < 0")
  case False
  obtain c cs where c: "nat_repr (nat i) = c # cs" "is_digit c" using nat_repr_head by blast
  then have "hd (nat_repr (nat i)) \<noteq> 45" by (auto simp: is_digit_def)
  then show ?thesis using False by (simp add: int_of_text_def int_repr_def digits_value_nat_repr)
qed (simp add: int_of_text_def int_repr_def digits_value_nat_repr)

lemma hex_value_digit: "n < 16 \<Longrightarrow> hex_value (hex_digit n) = Some n"
  by (auto simp: hex_value_def hex_digit_def is_digit_def)

lemma hex4_control: "c < 32 \<Longrightarrow> hex4 (hexn 4 c @ r) = Some c"
proof -
  assume c: "c < 32"
  have "(4::nat) = Suc (Suc (Suc (Suc 0)))" by simp
  then have four: "hexn 4 c = [hex_digit (c div 16 div 16 div 16 mod 16), hex_digit (c div 16 div 16 mod 16),
      hex_digit (c div 16 mod 16), hex_digit (c mod 16)]"
    by (simp only: hexn.simps append.simps)
  have "c div 16 div 16 = 0" "c div 16 < 16" using c by simp_all
  then show ?thesis by (simp add: four hex4_def hex_value_digit)
qed

lemma scan_encoded_char: "scan_string (encode_char c @ r) = push_char c (scan_string r)"
proof (cases c rule: encode_char_cases)
  case (short x)
  have "\<forall>(d, e) \<in> set SHORT_ESCAPES. map_of JSON_ESCAPES (e ! 1) = Some d"
    by (simp add: SHORT_ESCAPES_def JSON_ESCAPES_def)
  then have "map_of JSON_ESCAPES x = Some c" using short_escape_Some[OF short(3)] by auto
  then show ?thesis using short by (simp add: scan_string.simps)
next
  case control
  then show ?thesis using hex4_control[OF control(2), of r] by (simp add: scan_string.simps(2)[of 92])
next
  case plain
  then have "32 \<le> c"
    by (auto simp: encode_char_def SHORT_ESCAPES_def split: option.splits if_splits dest!: short_escape_Some)
  then show ?thesis using plain by (simp add: scan_string.simps)
qed

lemma scan_quoted: "scan_string (concat (map encode_char s) @ 34 # r) = Some (s, r)"
  by (induction s) (simp_all add: scan_encoded_char scan_string.simps(2)[of 34])

section \<open>Documents scan back\<close>

text \<open>What the reading of a float's text must give back, and what its text must look like.\<close>

definition float_text :: "pystr \<Rightarrow> bool" where
  "float_text t \<longleftrightarrow> scan_number t = Some (t, True, [])"

lemma takeWhile_stops: "stops r \<Longrightarrow> takeWhile is_digit (s @ r) = takeWhile is_digit s"
  using stops_parts(1) by (induction s) auto

lemma dropWhile_stops: "stops r \<Longrightarrow> dropWhile is_digit (s @ r) = dropWhile is_digit s @ r"
  using stops_parts(2) by (induction s) auto

lemma scan_number_stops:
  assumes "scan_number t = Some (u, b, v)" "stops r"
  shows "scan_number (t @ r) = Some (u, b, v @ r)"
proof -
  have sign: "sign_part p (s @ r) = (fst (sign_part p s), snd (sign_part p s) @ r)" if "s \<noteq> []" for p s
    using that by (cases s) (auto simp: sign_part_def)
  have whole: "integer_part (s @ r) = Some (w, x @ r)" if "integer_part s = Some (w, x)" for s w x
    using that takeWhile_stops[OF assms(2), of s] dropWhile_stops[OF assms(2), of s]
    by (cases s) (auto simp: integer_part_def split: if_splits)
  have frac: "fraction_part (s @ r) = (fst (fraction_part s), snd (fraction_part s) @ r)" for s
    using stops_parts(3)[OF assms(2)] takeWhile_stops[OF assms(2)] dropWhile_stops[OF assms(2)]
    by (cases s) (auto simp: fraction_part_def)
  have sign': "sign_part (\<lambda>d. d = 45 \<or> d = 43) (s @ r) =
      (fst (sign_part (\<lambda>d. d = 45 \<or> d = 43) s), snd (sign_part (\<lambda>d. d = 45 \<or> d = 43) s) @ r)" for s
    using sign[of s] assms(2) by (cases s; cases r) (auto simp: sign_part_def stops_def)
  have expo: "exponent_part (s @ r) = (fst (exponent_part s), snd (exponent_part s) @ r)" for s
    using stops_parts(4)[OF assms(2)] takeWhile_stops[OF assms(2)] dropWhile_stops[OF assms(2)]
    by (cases s) (auto simp: exponent_part_def sign' Let_def split: prod.splits)
  have t: "t \<noteq> []" using assms(1) by (auto simp: scan_number_def sign_part_def integer_part_def)
  obtain w x where w: "integer_part (snd (sign_part (\<lambda>c. c = 45) t)) = Some (w, x)"
    using assms(1) by (auto simp: scan_number_def split: prod.splits option.splits)
  then show ?thesis using assms(1) whole[OF w]
    by (auto simp: scan_number_def sign[OF t] frac expo split: prod.splits)
qed

text \<open>A JSON value with the members of every object in the order they are printed.\<close>

fun json_sorted :: "pyval \<Rightarrow> pyval" where
  "json_sorted (PList vs) = PList (map json_sorted vs)"
| "json_sorted (PDict kvs) =
     PDict (map (\<lambda>(k, v). (KStr k, v))
       (sort_key fst (map (\<lambda>kv. (the (key_str (fst kv)), json_sorted (snd kv))) kvs)))"
| "json_sorted v = v"

text \<open>What the scanner can hand out: finite floats, integers of a readable length.\<close>

fun json_readable :: "pyval \<Rightarrow> bool" where
  "json_readable (PInt i) = (length (nat_repr (nat \<bar>i\<bar>)) \<le> MAX_INT_DIGITS)"
| "json_readable (PFloat x) = f64_finite x"
| "json_readable (PList vs) = list_all json_readable vs"
| "json_readable (PDict kvs) = list_all (\<lambda>kv. json_readable (snd kv)) kvs"
| "json_readable _ = True"

end
