(* ===== verification/Catalog.thy ===== *)
theory Catalog
  imports Json_Text "HOL-Library.AList"
begin

text \<open>
  \<^verbatim>\<open>shared/catalog.py\<close>: discovery of component contracts, resolution of a stable component id, the subject
  manifest that binds behaviour and contract, and the cache of subject hashes.

  The file system, the JSON and YAML readers, the import system, the \<^verbatim>\<open>ast\<close> module and the text of a
  float are the record \<open>catalog_env\<close>; everything the catalog decides about what they answer is defined
  here. A directory is named by its category and slug under one catalog root,
  whose normalized path \<open>ce_root\<close> is part of the key of the subject cache.
\<close>

section \<open>Errors\<close>

datatype catalog_issue =
    NonFiniteNumber | KeyNotString | NotJsonCompatible pystr
  | CannotReadContract | NotJsonYaml | MalformedYaml | NotOneObject
  | WrongId pystr | WrongCategory | WrongSlug | VersionNotString | CallableSyntax | CallableOutside
  | DuplicateId pystr | ModelsMissing | CannotHashFile | NoBehaviourFiles | CannotInspectImports
  | RuntimeModuleMissing | ReservedCallableName | DependencyCycle "pystr list"
  | GuidanceMissing | DisplayMissing | DependsOnInvalid | UnstableId

datatype cat_exc =
    ComponentContractError catalog_issue "pystr option"
  | ComponentNotFound "pystr option"
  | ComponentLoadError pystr
  | UnicodeDecodeEscapes
  | UnicodeEncodeEscapes

section \<open>Environment\<close>

datatype file_text = Unreadable | NotUtf8 | FileText pystr

datatype load_outcome = ImportFailed | NotCallable | NoModule | NoModels | Models pyval pyval

record catalog_env =
  ce_root :: pystr
  ce_contracts :: "(pystr \<times> pystr \<times> file_text) list"
  ce_existing :: "(pystr \<times> (pystr \<times> pystr \<times> file_text) option) list"
  ce_json_loads :: "pystr \<Rightarrow> pyval option"
  ce_yaml :: "(pystr \<Rightarrow> pyval option) option"
  ce_load :: "pystr \<Rightarrow> load_outcome"
  ce_py_files :: "pystr \<Rightarrow> pystr \<Rightarrow> (pystr list \<times> file_text) list"
  ce_imports :: "pystr \<Rightarrow> pystr list option"
  ce_shared :: "pystr \<Rightarrow> file_text option"
  ce_types :: "pystr list"
  ce_float_repr :: "float64 \<Rightarrow> pystr"

fun replace_crlf :: "pystr \<Rightarrow> pystr" where
  "replace_crlf (c # d # cs) = (if c = 13 \<and> d = 10 then 10 # replace_crlf cs else c # replace_crlf (d # cs))"
| "replace_crlf cs = cs"

definition replace_cr :: "pystr \<Rightarrow> pystr" where
  "replace_cr = map (\<lambda>c. if c = 13 then 10 else c)"

text \<open>\<^verbatim>\<open>read_text\<close> translates line ends as every Python text file does.\<close>

definition universal_newlines :: "pystr \<Rightarrow> pystr" where
  "universal_newlines s = replace_cr (replace_crlf s)"

section \<open>Contract data\<close>

fun json_compatible :: "pyval \<Rightarrow> cat_exc + pyval" where
  "json_compatible PNone = Inr PNone"
| "json_compatible (PBool b) = Inr (PBool b)"
| "json_compatible (PInt i) = Inr (PInt i)"
| "json_compatible (PStr s) = Inr (PStr s)"
| "json_compatible (PFloat x) =
     (if f64_finite x then Inr (PFloat x) else Inl (ComponentContractError NonFiniteNumber None))"
| "json_compatible (PEnum v) = json_compatible v"
| "json_compatible (PModel v) = json_compatible v"
| "json_compatible (PProj n v) = json_compatible v"
| "json_compatible (PDict kvs) =
     bindE (mapE (\<lambda>kv. case fst kv of
                         KOther _ \<Rightarrow> Inl (ComponentContractError KeyNotString None)
                       | KStr k \<Rightarrow> bindE (json_compatible (snd kv)) (\<lambda>w. Inr (KStr k, w))) kvs)
       (\<lambda>kws. Inr (PDict kws))"
| "json_compatible (PList vs) = bindE (mapE json_compatible vs) (\<lambda>ws. Inr (PList ws))"
| "json_compatible (PTuple vs) = bindE (mapE json_compatible vs) (\<lambda>ws. Inr (PList ws))"
| "json_compatible (PSet vs) = Inl (ComponentContractError (NotJsonCompatible (lit ''set'')) None)"
| "json_compatible (POther n) = Inl (ComponentContractError (NotJsonCompatible n) None)"

definition canonical_json :: "catalog_env \<Rightarrow> pyval \<Rightarrow> cat_exc + bytes" where
  "canonical_json env v =
     bindE (json_compatible v) (\<lambda>w.
     case utf8_encode (json_dumps (ce_float_repr env) w) of
       None \<Rightarrow> Inl UnicodeEncodeEscapes
     | Some b \<Rightarrow> Inr b)"

definition only_string_keys :: "pyval \<Rightarrow> cat_exc + (pykey \<times> pyval) list" where
  "only_string_keys v =
     (case v of
        PDict kvs \<Rightarrow>
          if list_all (\<lambda>kv. key_str (fst kv) \<noteq> None) kvs then Inr kvs
          else Inl (ComponentContractError NotOneObject None)
      | _ \<Rightarrow> Inl (ComponentContractError NotOneObject None))"

definition read_mapping :: "catalog_env \<Rightarrow> file_text \<Rightarrow> cat_exc + (pykey \<times> pyval) list" where
  "read_mapping env file =
     (case file of
        Unreadable \<Rightarrow> Inl (ComponentContractError CannotReadContract None)
      | NotUtf8 \<Rightarrow> Inl UnicodeDecodeEscapes
      | FileText raw \<Rightarrow>
          (let text = universal_newlines raw in
           case ce_json_loads env text of
             Some v \<Rightarrow> only_string_keys v
           | None \<Rightarrow>
               (case ce_yaml env of
                  None \<Rightarrow> Inl (ComponentContractError NotJsonYaml None)
                | Some load \<Rightarrow>
                    (case load text of
                       None \<Rightarrow> Inl (ComponentContractError MalformedYaml None)
                     | Some v \<Rightarrow> only_string_keys v))))"

section \<open>Component records\<close>

record component_record =
  co_id :: pystr
  co_category :: pystr
  co_slug :: pystr
  co_version :: pystr
  co_callable :: pystr
  co_metadata :: "(pykey \<times> pyval) list"

definition mget :: "(pykey \<times> pyval) list \<Rightarrow> string \<Rightarrow> pyval" where
  "mget m k = (case dict_get m k of None \<Rightarrow> PNone | Some v \<Rightarrow> v)"

definition expected_id :: "pystr \<Rightarrow> pystr \<Rightarrow> pystr" where
  "expected_id category slug = lit ''dq.'' @ category @ lit ''.'' @ slug"

definition expected_module :: "pystr \<Rightarrow> pystr \<Rightarrow> pystr" where
  "expected_module category slug = lit ''defined_quant.'' @ category @ lit ''.'' @ slug"

definition record_from_contract :: "catalog_env \<Rightarrow> pystr \<times> pystr \<times> file_text \<Rightarrow> cat_exc + component_record" where
  "record_from_contract env contract =
     (case contract of (category, slug, file) \<Rightarrow>
      bindE (read_mapping env file) (\<lambda>metadata.
      let expected = expected_id category slug in
      if mget metadata ''id'' \<noteq> PStr expected
      then Inl (ComponentContractError (WrongId expected)
                  (case mget metadata ''id'' of PStr i \<Rightarrow> Some i | _ \<Rightarrow> None))
      else if mget metadata ''category'' \<noteq> PStr category
      then Inl (ComponentContractError WrongCategory (Some expected))
      else if mget metadata ''slug'' \<noteq> PStr slug
      then Inl (ComponentContractError WrongSlug (Some expected))
      else case mget metadata ''version'' of
        PStr version \<Rightarrow>
          (case mget metadata ''callable'' of
             PStr callable \<Rightarrow>
               (case split_on 58 callable of
                  [module_name, attribute] \<Rightarrow>
                    if module_name \<noteq> expected_module category slug \<and>
                       \<not> starts_with (expected_module category slug @ lit ''.'') module_name
                    then Inl (ComponentContractError CallableOutside (Some expected))
                    else Inr \<lparr>co_id = expected, co_category = category, co_slug = slug,
                              co_version = version, co_callable = callable, co_metadata = metadata\<rparr>
                | _ \<Rightarrow> Inl (ComponentContractError CallableSyntax (Some expected)))
           | _ \<Rightarrow> Inl (ComponentContractError CallableSyntax (Some expected)))
      | _ \<Rightarrow> Inl (ComponentContractError VersionNotString (Some expected))))"

text \<open>The relative path has the category, the slug and \<^verbatim>\<open>contract.yaml\<close> as its parts.\<close>

definition hidden_part :: "pystr \<Rightarrow> bool" where
  "hidden_part p \<longleftrightarrow> starts_with (lit ''.'') p \<or> p = lit ''__pycache__''"

definition sorted_contracts :: "catalog_env \<Rightarrow> (pystr \<times> pystr \<times> file_text) list" where
  "sorted_contracts env =
     filter (\<lambda>(c, s, f). \<not> hidden_part c \<and> \<not> hidden_part s)
       (sort_key (\<lambda>(c, s, f). [c, s]) (ce_contracts env))"

text \<open>
  The generator \<^verbatim>\<open>iter_components\<close> as its consumer sees it: \<open>scan_components\<close> stops at the first record
  with the wanted id, so that later contracts are not even read; \<open>iter_components\<close> drains it.
\<close>

fun scan_components ::
  "catalog_env \<Rightarrow> pystr \<Rightarrow> pystr set \<Rightarrow> (pystr \<times> pystr \<times> file_text) list \<Rightarrow> cat_exc + component_record" where
  "scan_components env want seen [] = Inl (ComponentNotFound (Some want))"
| "scan_components env want seen (c # cs) =
     bindE (record_from_contract env c) (\<lambda>r.
     if co_id r \<in> seen then Inl (ComponentContractError (DuplicateId (co_id r)) (Some (co_id r)))
     else if co_id r = want then Inr r
     else scan_components env want (insert (co_id r) seen) cs)"

fun drain_components ::
  "catalog_env \<Rightarrow> pystr set \<Rightarrow> (pystr \<times> pystr \<times> file_text) list \<Rightarrow> cat_exc + component_record list" where
  "drain_components env seen [] = Inr []"
| "drain_components env seen (c # cs) =
     bindE (record_from_contract env c) (\<lambda>r.
     if co_id r \<in> seen then Inl (ComponentContractError (DuplicateId (co_id r)) (Some (co_id r)))
     else bindE (drain_components env (insert (co_id r) seen) cs) (\<lambda>rs. Inr (r # rs)))"

definition iter_components :: "catalog_env \<Rightarrow> cat_exc + component_record list" where
  "iter_components env = drain_components env {} (sorted_contracts env)"

definition resolve_record :: "catalog_env \<Rightarrow> pystr \<Rightarrow> cat_exc + component_record" where
  "resolve_record env identifier =
     (case map_of (ce_existing env) identifier of
        Some None \<Rightarrow> Inl (ComponentNotFound None)
      | Some (Some contract) \<Rightarrow> record_from_contract env contract
      | None \<Rightarrow> scan_components env identifier {} (sorted_contracts env))"

section \<open>Subject manifests\<close>

text \<open>\<^verbatim>\<open>_component_models\<close>: the JSON schemas of the input and output models.\<close>

definition component_models :: "catalog_env \<Rightarrow> component_record \<Rightarrow> cat_exc + pyval \<times> pyval" where
  "component_models env r =
     (case ce_load env (co_callable r) of
        Models i out \<Rightarrow> Inr (i, out)
      | NoModels \<Rightarrow> Inl (ComponentContractError ModelsMissing (Some (co_id r)))
      | _ \<Rightarrow> Inl (ComponentLoadError (co_id r)))"

definition normalised_text_hash :: "file_text \<Rightarrow> cat_exc + pystr" where
  "normalised_text_hash file =
     (case file of
        FileText raw \<Rightarrow>
          (case utf8_encode (replace_cr (replace_crlf (universal_newlines raw))) of
             None \<Rightarrow> Inl UnicodeEncodeEscapes
           | Some b \<Rightarrow> Inr (sha256_hexdigest b))
      | _ \<Rightarrow> Inl (ComponentContractError CannotHashFile None))"

definition sorted_py_files :: "catalog_env \<Rightarrow> component_record \<Rightarrow> (pystr list \<times> file_text) list" where
  "sorted_py_files env r = sort_key fst (ce_py_files env (co_category r) (co_slug r))"

definition is_test_file :: "pystr list \<Rightarrow> bool" where
  "is_test_file parts \<longleftrightarrow> starts_with (lit ''test_'') (last parts) \<or> lit ''examples'' \<in> set parts"

definition behaviour_files :: "catalog_env \<Rightarrow> component_record \<Rightarrow> cat_exc + (pykey \<times> pyval) list" where
  "behaviour_files env r =
     (let files = filter (\<lambda>(parts, f). \<not> is_test_file parts \<and> lit ''__pycache__'' \<notin> set parts) (sorted_py_files env r) in
      bindE (mapE (\<lambda>(parts, f). bindE (normalised_text_hash f) (\<lambda>h. Inr (KStr (str_join (lit ''/'') parts), PStr h))) files)
        (\<lambda>entries. if entries = [] then Inl (ComponentContractError NoBehaviourFiles (Some (co_id r))) else Inr entries))"

definition component_imports_rendering :: "catalog_env \<Rightarrow> component_record \<Rightarrow> cat_exc + bool" where
  "component_imports_rendering env r =
     anyE (\<lambda>(parts, f).
       if is_test_file parts then Inr False
       else case f of
              FileText raw \<Rightarrow>
                (case ce_imports env (universal_newlines raw) of
                   None \<Rightarrow> Inl (ComponentContractError CannotInspectImports (Some (co_id r)))
                 | Some names \<Rightarrow> Inr (lit ''defined_quant.charts'' \<in> set names))
            | _ \<Rightarrow> Inl (ComponentContractError CannotInspectImports (Some (co_id r))))
       (sorted_py_files env r)"

definition shared_runtime_hashes :: "catalog_env \<Rightarrow> component_record \<Rightarrow> cat_exc + (pykey \<times> pyval) list" where
  "shared_runtime_hashes env r =
     bindE (component_imports_rendering env r) (\<lambda>charts.
     mapE (\<lambda>path.
       case ce_shared env path of
         None \<Rightarrow> Inl (ComponentContractError RuntimeModuleMissing (Some (co_id r)))
       | Some f \<Rightarrow> bindE (normalised_text_hash f) (\<lambda>h. Inr (KStr path, PStr h)))
     ([lit ''validation.py''] @ map (\<lambda>n. lit ''types/'' @ n) (sort_key id (ce_types env)) @
      (if charts then [lit ''charts.py''] else [])))"

text \<open>The attribute named after the colon.\<close>

definition callable_attribute :: "component_record \<Rightarrow> pystr" where
  "callable_attribute r = tl (dropWhile (\<lambda>c. c \<noteq> 58) (co_callable r))"

definition public_symbols :: "component_record \<Rightarrow> cat_exc + pystr list" where
  "public_symbols r =
     (let symbols = [lit ''Inputs'', lit ''Output'', callable_attribute r] in
      if card (set symbols) \<noteq> length symbols
      then Inl (ComponentContractError ReservedCallableName (Some (co_id r)))
      else Inr (sort_key id symbols))"

definition BEHAVIOUR_COMPONENT_FIELDS :: "string list" where
  "BEHAVIOUR_COMPONENT_FIELDS =
     [''id'', ''slug'', ''title'', ''category'', ''group'', ''version'', ''lifecycle'', ''callable'',
      ''template'', ''summary'', ''tags'', ''discovery'', ''assumptions'', ''limitations'', ''depends_on'',
      ''supported_python'']"

definition SEMANTIC_DISPLAY_FIELDS :: "string list" where
  "SEMANTIC_DISPLAY_FIELDS = [''formula'', ''intent'', ''output'']"

definition dependency_specs :: "component_record \<Rightarrow> cat_exc + pystr list" where
  "dependency_specs r =
     (case dict_get (co_metadata r) ''depends_on'' of
        None \<Rightarrow> Inr []
      | Some (PList vs) \<Rightarrow>
          if list_all (\<lambda>v. case v of PStr _ \<Rightarrow> True | _ \<Rightarrow> False) vs
          then Inr (map (\<lambda>v. case v of PStr s \<Rightarrow> s | _ \<Rightarrow> []) vs)
          else Inl (ComponentContractError DependsOnInvalid (Some (co_id r)))
      | _ \<Rightarrow> Inl (ComponentContractError DependsOnInvalid (Some (co_id r))))"

text \<open>The manifest once the digests of the component dependencies are known.\<close>

definition assemble_manifest ::
  "catalog_env \<Rightarrow> component_record \<Rightarrow> (pykey \<times> pyval) list \<Rightarrow> (pykey \<times> pyval) list \<Rightarrow> pyval \<times> pyval
     \<Rightarrow> (pykey \<times> pyval) list \<Rightarrow> pystr list \<Rightarrow> cat_exc + pyval" where
  "assemble_manifest env r guidance display models deps external =
     bindE (behaviour_files env r) (\<lambda>files.
     bindE (public_symbols r) (\<lambda>symbols.
     bindE (shared_runtime_hashes env r) (\<lambda>runtime.
     Inr (jobj
       [(''canonicalization_version'', PInt 2), (''contract_schema_version'', PInt 1),
        (''behaviour_files'', PDict files),
        (''component'', jobj (map (\<lambda>f. (f, mget (co_metadata r) f)) BEHAVIOUR_COMPONENT_FIELDS)),
        (''guidance'', PDict guidance),
        (''semantic_display'', jobj (map (\<lambda>f. (f, mget display f)) SEMANTIC_DISPLAY_FIELDS)),
        (''schemas'', jobj [(''inputs'', fst models), (''output'', snd models)]),
        (''public_symbols'', PList (map PStr symbols)),
        (''shared_runtime'', PDict runtime),
        (''component_dependencies'', PDict deps),
        (''external_dependency_specifications'', PList (map PStr (sort_key id external)))]))))"

definition manifest_digest :: "catalog_env \<Rightarrow> pyval \<Rightarrow> cat_exc + pystr" where
  "manifest_digest env m = bindE (canonical_json env m) (\<lambda>b. Inr (sha256_hexdigest b))"

definition existing_contracts :: "catalog_env \<Rightarrow> (pystr \<times> pystr \<times> file_text) list" where
  "existing_contracts env = concat (map (\<lambda>(p, c). case c of None \<Rightarrow> [] | Some x \<Rightarrow> [x]) (ce_existing env))"

text \<open>The ids a contract under the root can have: the finite universe of the recursion.\<close>

definition catalog_ids :: "catalog_env \<Rightarrow> pystr set" where
  "catalog_ids env =
     (\<lambda>(c, s, f). expected_id c s) ` (set (ce_contracts env) \<union> set (existing_contracts env))"

lemma record_from_contract_id:
  "record_from_contract env (c, s, f) = Inr r \<Longrightarrow> co_id r = expected_id c s \<and> co_category r = c \<and> co_slug r = s"
  by (auto simp: record_from_contract_def bindE_Inr_iff Let_def split: if_splits pyval.splits list.splits)

lemma scan_components_mem:
  "scan_components env want seen cs = Inr r \<Longrightarrow> \<exists>c \<in> set cs. record_from_contract env c = Inr r \<and> co_id r = want"
  by (induction env want seen cs rule: scan_components.induct) (auto simp: bindE_Inr_iff split: if_splits)

lemma sorted_contracts_subset: "set (sorted_contracts env) \<subseteq> set (ce_contracts env)"
  by (auto simp: sorted_contracts_def)

lemma resolve_record_in_catalog:
  assumes "resolve_record env i = Inr r"
  shows "co_id r \<in> catalog_ids env"
proof -
  obtain c where c: "record_from_contract env c = Inr r"
    "c \<in> set (ce_contracts env) \<union> set (existing_contracts env)"
  proof (cases "map_of (ce_existing env) i")
    case None
    then show ?thesis using assms that scan_components_mem sorted_contracts_subset
      by (fastforce simp: resolve_record_def)
  next
    case (Some x)
    then obtain c where "x = Some c" "record_from_contract env c = Inr r"
      using assms by (auto simp: resolve_record_def split: option.splits)
    moreover have "c \<in> set (existing_contracts env)"
      using map_of_SomeD[OF Some] calculation(1) unfolding existing_contracts_def set_concat set_map
      by (cases c) (auto intro!: bexI[of _ "(i, Some c)"])
    ultimately show ?thesis using that by blast
  qed
  obtain a b f where abf: "c = (a, b, f)" by (cases c)
  then have "co_id r = expected_id a b" using c(1) record_from_contract_id by simp
  then show ?thesis using c(2) unfolding catalog_ids_def abf by (intro image_eqI) auto
qed

definition is_component_dependency :: "pystr \<Rightarrow> bool" where
  "is_component_dependency d \<longleftrightarrow> starts_with (lit ''dq.'') d"

function subject_manifest_at :: "catalog_env \<Rightarrow> component_record \<Rightarrow> pystr list \<Rightarrow> cat_exc + pyval" where
  "subject_manifest_at env r stack =
     (if co_id r \<in> set stack
      then Inl (ComponentContractError (DependencyCycle (stack @ [co_id r])) (Some (co_id r)))
      else case mget (co_metadata r) ''guidance'' of
        PDict guidance \<Rightarrow>
          (case mget (co_metadata r) ''display'' of
             PDict display \<Rightarrow>
               bindE (component_models env r) (\<lambda>models.
               bindE (dependency_specs r) (\<lambda>specs.
               bindE
                 (mapE (\<lambda>d.
                    bindE (resolve_record env d) (\<lambda>dr.
                    bindE (subject_manifest_at env dr (stack @ [co_id r])) (\<lambda>m.
                    bindE (manifest_digest env m) (\<lambda>h. Inr (KStr d, PStr h)))))
                  (filter is_component_dependency specs))
                 (\<lambda>deps.
                  assemble_manifest env r guidance display models
                    (fold (\<lambda>(k, v). AList.update k v) deps [])
                    (filter (\<lambda>d. \<not> is_component_dependency d) specs))))
           | _ \<Rightarrow> Inl (ComponentContractError DisplayMissing (Some (co_id r))))
      | _ \<Rightarrow> Inl (ComponentContractError GuidanceMissing (Some (co_id r))))"
  by pat_completeness auto
termination
proof (relation "measures [\<lambda>(env, r, stack). card (catalog_ids env - set stack),
                          \<lambda>(env, r, stack). if co_id r \<in> catalog_ids env then 0 else 1]"; (simp; fail)?)
  fix env and r :: component_record and stack guidance display models specs d dr
  assume r: "co_id r \<notin> set stack" and dr: "resolve_record env d = Inr dr"
  have fin: "finite (catalog_ids env)" by (simp add: catalog_ids_def)
  have "card (catalog_ids env - insert (co_id r) (set stack)) < card (catalog_ids env - set stack)"
    if "co_id r \<in> catalog_ids env"
    using that r fin by (intro psubset_card_mono) auto
  moreover have "catalog_ids env - insert (co_id r) (set stack) = catalog_ids env - set stack"
    if "co_id r \<notin> catalog_ids env" using that by auto
  ultimately show "((env, dr, stack @ [co_id r]), env, r, stack) \<in>
    measures [\<lambda>(env, r, stack). card (catalog_ids env - set stack),
              \<lambda>(env, r, stack). if co_id r \<in> catalog_ids env then 0 else 1]"
    using resolve_record_in_catalog[OF dr] by (cases "co_id r \<in> catalog_ids env") auto
qed

declare subject_manifest_at.simps [simp del]

section \<open>Subject hashes and their cache\<close>

definition subject_manifest :: "catalog_env \<Rightarrow> pystr \<Rightarrow> cat_exc + pyval" where
  "subject_manifest env identifier =
     bindE (resolve_record env identifier) (\<lambda>r. subject_manifest_at env r [])"

definition fresh_subject_hash :: "catalog_env \<Rightarrow> pystr \<Rightarrow> cat_exc + pystr" where
  "fresh_subject_hash env identifier = bindE (subject_manifest env identifier) (manifest_digest env)"

type_synonym subject_cache = "pystr \<times> pystr \<rightharpoonup> pystr"

text \<open>\<^verbatim>\<open>functools.cache\<close> keeps results, never exceptions, per component id and catalog root.\<close>

definition cached_subject_hash :: "catalog_env \<Rightarrow> pystr \<Rightarrow> subject_cache \<Rightarrow> (cat_exc + pystr) \<times> subject_cache" where
  "cached_subject_hash env i cache =
     (case cache (i, ce_root env) of
        Some h \<Rightarrow> (Inr h, cache)
      | None \<Rightarrow>
          (case fresh_subject_hash env i of
             Inl e \<Rightarrow> (Inl e, cache)
           | Inr h \<Rightarrow> (Inr h, cache((i, ce_root env) \<mapsto> h))))"

definition subject_hash :: "catalog_env \<Rightarrow> pystr \<Rightarrow> subject_cache \<Rightarrow> (cat_exc + pystr) \<times> subject_cache" where
  "subject_hash env i cache =
     (if fullmatch COMPONENT_ID_PATTERN i then cached_subject_hash env i cache
      else (fresh_subject_hash env i, cache))"

definition invalidate_subject_cache :: "subject_cache \<Rightarrow> subject_cache" where
  "invalidate_subject_cache cache = Map.empty"

definition verify_subject :: "catalog_env \<Rightarrow> pystr \<Rightarrow> subject_cache \<Rightarrow> (cat_exc + pystr) \<times> subject_cache" where
  "verify_subject env i cache =
     (if \<not> fullmatch COMPONENT_ID_PATTERN i then (Inl (ComponentContractError UnstableId None), cache)
      else subject_hash env i (invalidate_subject_cache cache))"

section \<open>Discovery\<close>

lemma record_from_contract_facts:
  assumes "record_from_contract env (c, s, f) = Inr r"
  shows "co_id r = expected_id c s \<and> co_category r = c \<and> co_slug r = s \<and>
    mget (co_metadata r) ''id'' = PStr (co_id r) \<and> mget (co_metadata r) ''version'' = PStr (co_version r) \<and>
    (\<exists>m a. co_callable r = m @ lit '':'' @ a \<and> 58 \<notin> set m \<and> 58 \<notin> set a \<and>
       (m = expected_module c s \<or> starts_with (expected_module c s @ lit ''.'') m))"
proof -
  have colon: "callable = m @ lit '':'' @ a \<and> 58 \<notin> set m \<and> 58 \<notin> set a" if "split_on 58 callable = [m, a]" for callable m a
    using join_split_on[of 58 callable] split_on_no_sep[of _ 58 callable] that by (simp add: lit_def)
  show ?thesis using assms
    by (auto simp: record_from_contract_def bindE_Inr_iff Let_def split: if_splits pyval.splits list.splits
        dest!: colon) blast+
qed

lemma drain_components_facts:
  "drain_components env seen cs = Inr rs \<Longrightarrow>
     list_all2 (\<lambda>c r. record_from_contract env c = Inr r) cs rs \<and> distinct (map co_id rs) \<and>
     (\<forall>r \<in> set rs. co_id r \<notin> seen)"
proof (induction env seen cs arbitrary: rs rule: drain_components.induct)
  case (2 env seen c cs)
  from "2.prems" obtain r rest where r: "record_from_contract env c = Inr r" "co_id r \<notin> seen"
    "drain_components env (insert (co_id r) seen) cs = Inr rest" "rs = r # rest"
    by (auto simp: bindE_Inr_iff split: if_splits)
  have ih: "list_all2 (\<lambda>c r. record_from_contract env c = Inr r) cs rest" "distinct (map co_id rest)"
    "\<forall>q \<in> set rest. co_id q \<notin> insert (co_id r) seen" using "2.IH"[OF r(1-3)] by blast+
  then have "co_id r \<notin> set (map co_id rest)" by auto
  then show ?case using ih r(1,2) by (simp add: r(4))
qed simp

lemma scan_of_drain:
  "drain_components env seen cs = Inr rs \<Longrightarrow> r \<in> set rs \<Longrightarrow> scan_components env (co_id r) seen cs = Inr r"
proof (induction env seen cs arbitrary: rs rule: drain_components.induct)
  case (2 env seen c cs)
  obtain a rest where a: "record_from_contract env c = Inr a" "co_id a \<notin> seen"
    "drain_components env (insert (co_id a) seen) cs = Inr rest" "rs = a # rest"
    using "2.prems"(1) by (auto simp: bindE_Inr_iff split: if_splits)
  show ?case
  proof (cases "r = a")
    case False
    then have r: "r \<in> set rest" using "2.prems"(2) a(4) by simp
    then have "co_id r \<noteq> co_id a" using drain_components_facts[OF a(3)] by blast
    then show ?thesis using "2.IH"[OF a(1,2,3) r] a(1,2) by simp
  qed (use a in simp)
qed simp

section \<open>Dependency closure\<close>

inductive depends :: "catalog_env \<Rightarrow> component_record \<Rightarrow> component_record \<Rightarrow> bool" for env where
  "dependency_specs r = Inr specs \<Longrightarrow> d \<in> set specs \<Longrightarrow> is_component_dependency d \<Longrightarrow>
     resolve_record env d = Inr dr \<Longrightarrow> depends env r dr"

lemma subject_manifest_at_step:
  assumes "subject_manifest_at env r stack = Inr m" "depends env r dr"
  shows "\<exists>m'. subject_manifest_at env dr (stack @ [co_id r]) = Inr m'"
proof -
  from assms(2) obtain specs d where d: "dependency_specs r = Inr specs" "d \<in> set specs"
    "is_component_dependency d" "resolve_record env d = Inr dr" by (auto elim: depends.cases)
  obtain deps where "mapE (\<lambda>d.
      bindE (resolve_record env d) (\<lambda>dr.
      bindE (subject_manifest_at env dr (stack @ [co_id r])) (\<lambda>m.
      bindE (manifest_digest env m) (\<lambda>h. Inr (KStr d, PStr h)))))
    (filter is_component_dependency specs) = Inr deps"
    using assms(1) d(1) unfolding subject_manifest_at.simps[of env r stack]
    by (auto simp: bindE_Inr_iff split: if_splits pyval.splits)
  then have "is_ok (mapE (\<lambda>d.
      bindE (resolve_record env d) (\<lambda>dr.
      bindE (subject_manifest_at env dr (stack @ [co_id r])) (\<lambda>m.
      bindE (manifest_digest env m) (\<lambda>h. Inr (KStr d, PStr h)))))
    (filter is_component_dependency specs))" by simp
  then show ?thesis using d unfolding is_ok_mapE by (auto simp: is_ok_bindE)
qed

lemma subject_manifest_at_not_stacked: "subject_manifest_at env r stack = Inr m \<Longrightarrow> co_id r \<notin> set stack"
  by (simp add: subject_manifest_at.simps[of env r stack] split: if_splits)

lemma subject_manifest_at_closure_trancl:
  assumes "(depends env)\<^sup>+\<^sup>+ r r'" "subject_manifest_at env r stack = Inr m"
  shows "\<exists>path m'. subject_manifest_at env r' (stack @ co_id r # path) = Inr m'"
  using assms(1)
proof (induction rule: tranclp_induct)
  case (base y)
  then obtain m' where "subject_manifest_at env y (stack @ [co_id r]) = Inr m'"
    using subject_manifest_at_step[OF assms(2)] by blast
  then show ?case by (intro exI[of _ "[]"]) auto
next
  case (step y z)
  then obtain path m' where "subject_manifest_at env y (stack @ co_id r # path) = Inr m'" by blast
  then have "\<exists>m''. subject_manifest_at env z ((stack @ co_id r # path) @ [co_id y]) = Inr m''"
    using subject_manifest_at_step step.hyps(2) by blast
  then show ?case by (metis append_Cons append.assoc)
qed

section \<open>A one-component catalog\<close>

definition demo_metadata :: "(pykey \<times> pyval) list" where
  "demo_metadata =
     map (\<lambda>(k, v). (KStr (lit k), v))
       [(''id'', jstr ''dq.a.b''), (''category'', jstr ''a''), (''slug'', jstr ''b''), (''version'', jstr ''1.0.0''),
        (''callable'', jstr ''defined_quant.a.b:f''), (''lifecycle'', jstr ''draft''),
        (''guidance'', PDict []), (''display'', PDict [])]"

definition demo_catalog :: catalog_env where
  "demo_catalog =
     \<lparr>ce_root = lit ''/catalog'', ce_contracts = [(lit ''a'', lit ''b'', FileText (lit ''{}''))], ce_existing = [],
      ce_json_loads = (\<lambda>_. Some (PDict demo_metadata)), ce_yaml = None,
      ce_load = (\<lambda>_. Models PNone PNone),
      ce_py_files = (\<lambda>_ _. [([lit ''component.py''], FileText (lit ''f = 1''))]), ce_imports = (\<lambda>_. Some []),
      ce_shared = (\<lambda>_. Some (FileText [])), ce_types = [], ce_float_repr = (\<lambda>_. [])\<rparr>"

definition demo_record :: component_record where
  "demo_record =
     \<lparr>co_id = lit ''dq.a.b'', co_category = lit ''a'', co_slug = lit ''b'', co_version = lit ''1.0.0'',
      co_callable = lit ''defined_quant.a.b:f'', co_metadata = demo_metadata\<rparr>"

lemma lit_append [simp]: "lit s @ lit t = lit (s @ t)"
  by (simp add: lit_def)

lemma demo_metadata_get:
  "mget demo_metadata ''id'' = jstr ''dq.a.b''" "mget demo_metadata ''category'' = jstr ''a''"
  "mget demo_metadata ''slug'' = jstr ''b''" "mget demo_metadata ''version'' = jstr ''1.0.0''"
  "mget demo_metadata ''callable'' = jstr ''defined_quant.a.b:f''" "mget demo_metadata ''guidance'' = PDict []"
  "mget demo_metadata ''display'' = PDict []" "mget demo_metadata ''lifecycle'' = jstr ''draft''" "dict_get demo_metadata ''depends_on'' = None"
  by (simp_all add: mget_def dict_get_def demo_metadata_def)

lemma demo_callable_parts: "split_on 58 (lit ''defined_quant.a.b:f'') = [lit ''defined_quant.a.b'', lit ''f'']"
  by (simp add: lit_def)

lemma demo_from_contract: "record_from_contract demo_catalog (lit ''a'', lit ''b'', FileText (lit ''{}'')) = Inr demo_record"
proof -
  have "read_mapping demo_catalog (FileText (lit ''{}'')) = Inr demo_metadata"
    by (simp add: read_mapping_def demo_catalog_def only_string_keys_def demo_metadata_def)
  then show ?thesis
    by (simp add: record_from_contract_def demo_metadata_get jstr_def demo_callable_parts expected_id_def
        expected_module_def demo_record_def)
qed

lemma demo_sorted: "sorted_contracts demo_catalog = [(lit ''a'', lit ''b'', FileText (lit ''{}''))]"
  by (simp add: sorted_contracts_def demo_catalog_def hidden_part_def starts_with_def lit_def)

lemma demo_iter: "iter_components demo_catalog = Inr [demo_record]"
  by (simp add: iter_components_def demo_sorted demo_from_contract)

lemma demo_existing: "ce_existing demo_catalog = []" "co_id demo_record = lit ''dq.a.b''"
  by (simp_all add: demo_catalog_def demo_record_def)

lemma demo_resolve: "resolve_record demo_catalog (lit ''dq.a.b'') = Inr demo_record"
  by (simp add: resolve_record_def demo_sorted demo_from_contract demo_existing)

lemma normalised_text_hash_scalar: "normalised_text_hash f = Inr h \<Longrightarrow> scalar_str h"
  using set_sha256_hexdigest is_hex_scalar
  by (fastforce simp: normalised_text_hash_def scalar_str_def list_all_iff split: file_text.splits option.splits)

lemma demo_manifest: "\<exists>m. subject_manifest_at demo_catalog demo_record [] = Inr m \<and> canonical_ok m"
proof -
  have hash: "is_ok (normalised_text_hash (FileText (lit s)))" if "13 \<notin> set (lit s)" for s
  proof -
    have "replace_crlf t = t" if "13 \<notin> set t" for t using that by (induction t rule: replace_crlf.induct) auto
    moreover have "replace_cr t = t" if "13 \<notin> set t" for t using that by (auto simp: replace_cr_def intro!: map_idI)
    ultimately have "replace_cr (replace_crlf (universal_newlines (lit s))) = lit s"
      using that by (simp add: universal_newlines_def)
    moreover obtain b where "utf8_encode (lit s) = Some b" using scalar_lit scalar_str_iff by blast
    ultimately show ?thesis by (simp add: normalised_text_hash_def)
  qed
  obtain h where h: "normalised_text_hash (FileText (lit ''f = 1'')) = Inr h"
    using hash[of "''f = 1''"] by (auto simp: is_ok_iff lit_def)
  obtain g where g: "normalised_text_hash (FileText []) = Inr g" using hash[of "[]"] by (auto simp: is_ok_iff)
  have files: "sorted_py_files demo_catalog demo_record = [([lit ''component.py''], FileText (lit ''f = 1''))]"
    by (simp add: sorted_py_files_def demo_catalog_def)
  have test: "\<not> is_test_file [lit ''component.py'']" by (simp add: is_test_file_def starts_with_def lit_def)
  have "behaviour_files demo_catalog demo_record = Inr [(KStr (lit ''component.py''), PStr h)]"
    by (simp add: behaviour_files_def files test h)
  moreover have "component_imports_rendering demo_catalog demo_record = Inr False"
    by (simp add: component_imports_rendering_def files test) (simp add: demo_catalog_def)
  then have "shared_runtime_hashes demo_catalog demo_record = Inr [(KStr (lit ''validation.py''), PStr g)]"
    by (simp add: shared_runtime_hashes_def) (simp add: demo_catalog_def g)
  moreover have attr: "callable_attribute demo_record = lit ''f''"
    by (simp add: callable_attribute_def demo_record_def lit_def)
  then have "public_symbols demo_record = Inr (sort_key id [lit ''Inputs'', lit ''Output'', lit ''f''])"
    by (simp add: public_symbols_def)
  moreover have "scalar_str h" "scalar_str g" using h g normalised_text_hash_scalar by blast+
  moreover have "canonical_ok (mget demo_metadata k)" for k
    by (auto simp: mget_def dict_get_def demo_metadata_def jstr_def split: if_splits)
  moreover have "canonical_ok (mget [] k)" for k by (simp add: mget_def dict_get_def)
  ultimately have "\<exists>m. assemble_manifest demo_catalog demo_record [] [] (PNone, PNone) [] [] = Inr m \<and> canonical_ok m"
    by (auto simp: assemble_manifest_def MAX_SAFE_INTEGER_def list_all_iff demo_record_def)
  then show ?thesis
    by (simp add: subject_manifest_at.simps[of demo_catalog] component_models_def dependency_specs_def
        demo_record_def demo_metadata_get) (simp add: demo_catalog_def)
qed

lemma json_dumps_scalar:
  assumes "\<And>x. scalar_str (ce_float_repr env x)" "canonical_ok v"
  shows "\<exists>b. canonical_json env v = Inr b"
proof -
  have quote: "scalar_str (json_quote s)" if "scalar_str s" for s
    using that scalar_encode_chars by (simp add: json_quote_def is_scalar_def is_surrogate_def)
  have join: "scalar_str (str_join sep ts)" if "scalar_str sep" "\<forall>t \<in> set ts. scalar_str t" for sep ts
    using that by (induction sep ts rule: str_join.induct) auto
  have nat: "scalar_str (nat_repr n)" for n
    by (induction n rule: nat_repr.induct) (subst nat_repr.simps, auto simp: is_scalar_def is_surrogate_def)
  have int: "scalar_str (int_repr i)" for i
    using nat by (simp add: int_repr_def is_scalar_def is_surrogate_def)
  have "\<exists>w. json_compatible v = Inr w \<and> scalar_str (json_dumps (ce_float_repr env) w)" using assms(2)
  proof (induction v rule: json_compatible.induct)
    case (9 kvs)
    let ?f = "\<lambda>kv. case fst kv of KOther _ \<Rightarrow> Inl (ComponentContractError KeyNotString None)
                       | KStr k \<Rightarrow> bindE (json_compatible (snd kv)) (\<lambda>w. Inr (KStr k, w))"
    have each: "\<exists>k w. ?f kv = Inr (KStr k, w) \<and> scalar_str k \<and> scalar_str (json_dumps (ce_float_repr env) w)"
      if kv: "kv \<in> set kvs" for kv
    proof -
      have "case kv of (k, v) \<Rightarrow> (case k of KStr s \<Rightarrow> scalar_str s | KOther _ \<Rightarrow> False) \<and> canonical_ok v"
        using "9.prems" kv unfolding canonical_ok.simps list_all_iff by blast
      then obtain k where k: "fst kv = KStr k" "scalar_str k" "canonical_ok (snd kv)"
        by (cases kv; cases "fst kv") auto
      obtain w where "json_compatible (snd kv) = Inr w" "scalar_str (json_dumps (ce_float_repr env) w)"
        using "9.IH"[OF kv k(1)] k(3) by blast
      then show ?thesis using k by simp
    qed
    then have "\<forall>kv \<in> set kvs. is_ok (?f kv)" by (metis is_ok_simps(2))
    then have "is_ok (mapE ?f kvs)" unfolding is_ok_mapE .
    then obtain kws where kws: "mapE ?f kvs = Inr kws" by (auto simp: is_ok_iff)
    have "scalar_str (the (key_str (fst kw))) \<and> scalar_str (json_dumps (ce_float_repr env) (snd kw))" if kw: "kw \<in> set kws" for kw
    proof -
      obtain kv where "kv \<in> set kvs" "?f kv = Inr kw"
        using mapE_Inr_mem[OF kws kw] by blast
      then show ?thesis using each by fastforce
    qed
    then have "scalar_str (json_dumps (ce_float_repr env) (PDict kws))"
      using quote by (auto intro!: join simp: is_scalar_def is_surrogate_def)
    then show ?case using kws by auto
  next
    case (10 vs)
    then have "is_ok (mapE json_compatible vs)" unfolding is_ok_mapE by (fastforce simp: list_all_iff)
    then obtain ws where ws: "mapE json_compatible vs = Inr ws" by (auto simp: is_ok_iff)
    have "scalar_str (json_dumps (ce_float_repr env) w)" if w: "w \<in> set ws" for w
    proof -
      obtain v where "v \<in> set vs" "json_compatible v = Inr w"
        using mapE_Inr_mem[OF ws w] by blast
      then show ?thesis using 10 by (fastforce simp: list_all_iff)
    qed
    then show ?case using ws by (auto intro!: join)
  next
    case (11 vs)
    then have "is_ok (mapE json_compatible vs)" unfolding is_ok_mapE by (fastforce simp: list_all_iff)
    then obtain ws where ws: "mapE json_compatible vs = Inr ws" by (auto simp: is_ok_iff)
    have "scalar_str (json_dumps (ce_float_repr env) w)" if w: "w \<in> set ws" for w
    proof -
      obtain v where "v \<in> set vs" "json_compatible v = Inr w"
        using mapE_Inr_mem[OF ws w] by blast
      then show ?thesis using 11 by (fastforce simp: list_all_iff)
    qed
    then show ?case using ws by (auto intro!: join)
  qed (auto simp: int quote assms(1))
  then show ?thesis by (auto simp: canonical_json_def scalar_str_iff)
qed

lemma demo_subject: "\<exists>h. fresh_subject_hash demo_catalog (lit ''dq.a.b'') = Inr h \<and> length h = 64 \<and> (\<forall>c \<in> set h. is_hex c)"
proof -
  obtain m where m: "subject_manifest_at demo_catalog demo_record [] = Inr m" "canonical_ok m"
    using demo_manifest by blast
  have "scalar_str (ce_float_repr demo_catalog x)" for x by (simp add: demo_catalog_def)
  then obtain b where "canonical_json demo_catalog m = Inr b" using json_dumps_scalar m(2) by blast
  then have "fresh_subject_hash demo_catalog (lit ''dq.a.b'') = Inr (sha256_hexdigest b)"
    by (simp add: fresh_subject_hash_def subject_manifest_def demo_resolve m(1) manifest_digest_def)
  then show ?thesis using length_sha256_hexdigest set_sha256_hexdigest by auto
qed

section \<open>Properties\<close>

text \<open>
  Draining the catalog yields every visible contract once, in category and slug
  order, with pairwise distinct ids that are determined by the directory; and resolving the id of any
  listed component finds exactly that record.
\<close>

theorem catalog_resolution:
  assumes "iter_components env = Inr rs"
  shows "map (\<lambda>r. (co_category r, co_slug r)) rs = map (\<lambda>(c, s, f). (c, s)) (sorted_contracts env) \<and>
    distinct (map co_id rs) \<and> (\<forall>r \<in> set rs. co_id r = expected_id (co_category r) (co_slug r)) \<and>
    (\<forall>r \<in> set rs. map_of (ce_existing env) (co_id r) = None \<longrightarrow> resolve_record env (co_id r) = Inr r)"
proof -
  have d: "drain_components env {} (sorted_contracts env) = Inr rs" using assms by (simp add: iter_components_def)
  note facts = drain_components_facts[OF d]
  have dirs: "list_all2 (\<lambda>c r. (co_category r, co_slug r) = (\<lambda>(c, s, f). (c, s)) c \<and>
      co_id r = expected_id (co_category r) (co_slug r)) (sorted_contracts env) rs"
    using conjunct1[OF facts] by (rule list_all2_mono) (auto dest!: record_from_contract_id split: prod.splits)
  have ids: "\<forall>r \<in> set rs. co_id r = expected_id (co_category r) (co_slug r)"
    using dirs by (auto simp: list_all2_conv_all_nth in_set_conv_nth)
  have "map (\<lambda>r. (co_category r, co_slug r)) rs = map (\<lambda>(c, s, f). (c, s)) (sorted_contracts env)"
    using dirs by (auto simp: list_all2_conv_all_nth intro!: nth_equalityI)
  moreover have "resolve_record env (co_id r) = Inr r"
    if "r \<in> set rs" "map_of (ce_existing env) (co_id r) = None" for r
    using scan_of_drain[OF d that(1)] that(2) by (simp add: resolve_record_def)
  ultimately show ?thesis using facts ids by blast
qed

theorem catalog_resolution_witness:
  "iter_components demo_catalog = Inr [demo_record] \<and> resolve_record demo_catalog (co_id demo_record) = Inr demo_record"
  using catalog_resolution[OF demo_iter] demo_iter demo_existing(1)
  by (metis list.set_intros(1) map_of.simps(1))

text \<open>
  C18 (resolved_record_trusted). A record resolved by its stable id has that id, comes from the visible
  directory the id names, carries that id and its version in its own metadata, and declares a callable
  inside that directory's module.
\<close>

theorem resolved_record_trusted:
  assumes "map_of (ce_existing env) i = None" "resolve_record env i = Inr r"
  shows "co_id r = i \<and> i = expected_id (co_category r) (co_slug r) \<and>
    (\<exists>f. (co_category r, co_slug r, f) \<in> set (ce_contracts env)) \<and>
    \<not> hidden_part (co_category r) \<and> \<not> hidden_part (co_slug r) \<and>
    mget (co_metadata r) ''id'' = PStr i \<and> mget (co_metadata r) ''version'' = PStr (co_version r) \<and>
    (\<exists>m a. co_callable r = m @ lit '':'' @ a \<and> 58 \<notin> set m \<and> 58 \<notin> set a \<and>
       (m = expected_module (co_category r) (co_slug r) \<or>
        starts_with (expected_module (co_category r) (co_slug r) @ lit ''.'') m))"
proof -
  have "scan_components env i {} (sorted_contracts env) = Inr r" using assms by (simp add: resolve_record_def)
  then obtain c s f where c: "(c, s, f) \<in> set (sorted_contracts env)" "record_from_contract env (c, s, f) = Inr r" "co_id r = i"
    using scan_components_mem by (metis prod_cases3)
  then show ?thesis using record_from_contract_facts[OF c(2)]
    by (auto simp: sorted_contracts_def)
qed

theorem resolved_record_trusted_witness:
  "resolve_record demo_catalog (lit ''dq.a.b'') = Inr demo_record \<and>
   co_id demo_record = lit ''dq.a.b'' \<and> \<not> hidden_part (co_category demo_record)"
  using resolved_record_trusted[of demo_catalog "lit ''dq.a.b''" demo_record] demo_resolve demo_existing(1) by simp

text \<open>
  C19 (subject_dependencies_acyclic). The construction of a subject manifest ends on every catalog, and it
  succeeds only if the component's dependency closure has no cycle: every component reached through
  dependencies has an id other than its dependants on the way, and a manifest of its own.
\<close>

theorem subject_dependencies_acyclic:
  assumes "subject_manifest_at env r stack = Inr m"
  shows "\<not> (depends env)\<^sup>+\<^sup>+ r r \<and>
    (\<forall>r'. (depends env)\<^sup>+\<^sup>+ r r' \<longrightarrow> co_id r' \<noteq> co_id r \<and> co_id r' \<notin> set stack \<and> \<not> (depends env)\<^sup>+\<^sup>+ r' r')"
proof -
  have sep: "co_id y \<noteq> co_id x \<and> co_id y \<notin> set st" if "(depends env)\<^sup>+\<^sup>+ x y" "subject_manifest_at env x st = Inr n" for x y st n
    using subject_manifest_at_closure_trancl[OF that] subject_manifest_at_not_stacked by fastforce
  moreover have "\<not> (depends env)\<^sup>+\<^sup>+ y y" if "(depends env)\<^sup>+\<^sup>+ r y" for y
    using subject_manifest_at_closure_trancl[OF that assms] sep[of y y] by blast
  ultimately show ?thesis using assms by blast
qed

theorem subject_dependencies_acyclic_witness: "\<not> (depends demo_catalog)\<^sup>+\<^sup>+ demo_record demo_record"
  using demo_manifest subject_dependencies_acyclic by blast

text \<open>
  \<^verbatim>\<open>verify_subject\<close> answers the digest of the current files whatever the cache
  holds, seeds the cache with it, and leaves no other entry behind.
\<close>

theorem verify_subject_fresh:
  assumes "fullmatch COMPONENT_ID_PATTERN i" "verify_subject env i cache = (answer, cache')"
  shows "answer = fresh_subject_hash env i \<and>
    (\<forall>h. answer = Inr h \<longrightarrow> cache' = [(i, ce_root env) \<mapsto> h] \<and> subject_hash env i cache' = (Inr h, cache')) \<and>
    (\<forall>e. answer = Inl e \<longrightarrow> cache' = Map.empty)"
  using assms
  by (auto simp: verify_subject_def subject_hash_def cached_subject_hash_def invalidate_subject_cache_def
      split: sum.splits)

theorem verify_subject_fresh_witness:
  "fst (verify_subject demo_catalog (lit ''dq.a.b'') [(lit ''dq.a.b'', lit ''/catalog'') \<mapsto> []]) =
   fresh_subject_hash demo_catalog (lit ''dq.a.b'')"
proof -
  have "fullmatch COMPONENT_ID_PATTERN (lit ''dq.a.b'')" by code_simp
  then show ?thesis using verify_subject_fresh by (metis prod.collapse)
qed

end
