(* ===== verification/Py_Compare.thy ===== *)
theory Py_Compare
  imports Calendar
begin

text \<open>
  Python's equality and ordering on dynamically typed values, and \<^verbatim>\<open>statistics.stdev\<close>.

  Numbers compare by their exact values across \<^verbatim>\<open>bool\<close>, \<^verbatim>\<open>int\<close> and \<^verbatim>\<open>float\<close>, NaN compares false,
  strings and sequences compare lexicographically, sets by inclusion, datetimes as instants, and every other
  ordering is a \<^verbatim>\<open>TypeError\<close> (\<open>None\<close> here). Object identity is not modelled: the identity shortcut of
  container comparisons can only be seen through one NaN object shared by both operands.
\<close>

section \<open>Exact numbers\<close>

datatype pynum = NFin int | NPosInf | NNegInf | NNan

fun num_of :: "pyval \<Rightarrow> pynum option" where
  "num_of (PBool b) = Some (NFin (if b then f64_one else 0))"
| "num_of (PInt i) = Some (NFin (i * f64_one))"
| "num_of (PFloat x) =
     Some (if f64_finite x then NFin (f64_units x)
           else if f64_nan x then NNan
           else if f64_negative x then NNegInf else NPosInf)"
| "num_of _ = None"

fun num_lt :: "pynum \<Rightarrow> pynum \<Rightarrow> bool" where
  "num_lt (NFin a) (NFin b) = (a < b)"
| "num_lt NNan _ = False"
| "num_lt _ NNan = False"
| "num_lt NNegInf y = (y \<noteq> NNegInf)"
| "num_lt x NPosInf = (x \<noteq> NPosInf)"
| "num_lt _ _ = False"

definition num_eq :: "pynum \<Rightarrow> pynum \<Rightarrow> bool" where
  "num_eq x y \<longleftrightarrow> x = y \<and> x \<noteq> NNan"

datatype cmp_op = OpLt | OpLe | OpGt | OpGe

fun num_cmp :: "cmp_op \<Rightarrow> pynum \<Rightarrow> pynum \<Rightarrow> bool" where
  "num_cmp OpLt x y = num_lt x y"
| "num_cmp OpLe x y = (num_lt x y \<or> num_eq x y)"
| "num_cmp OpGt x y = num_lt y x"
| "num_cmp OpGe x y = (num_lt y x \<or> num_eq x y)"

section \<open>Equality\<close>

text \<open>
  Containers of one kind are equal when their parts are; numbers are equal across their types by value;
  datetimes are equal when they are one instant; any other two values are equal when they are the same value of the same type.
\<close>

lemma size_zip_left: "(x, y) \<in> set (zip xs ys) \<Longrightarrow> size x \<le> size_list size xs"
  by (auto dest!: set_zip_leftD intro!: size_list_estimation')

lemma size_dict_value: "(k, v) \<in> set kvs \<Longrightarrow> size v \<le> size_list (size_prod (\<lambda>_. 0) size) kvs"
  by (induction kvs) auto

function (sequential) py_eq :: "pyval \<Rightarrow> pyval \<Rightarrow> bool" where
  "py_eq (PList xs) w =
     (case w of PList ys \<Rightarrow> length xs = length ys \<and> list_all (\<lambda>(x, y). py_eq x y) (zip xs ys) | _ \<Rightarrow> False)"
| "py_eq (PTuple xs) w =
     (case w of PTuple ys \<Rightarrow> length xs = length ys \<and> list_all (\<lambda>(x, y). py_eq x y) (zip xs ys) | _ \<Rightarrow> False)"
| "py_eq (PSet xs) w =
     (case w of
        PSet ys \<Rightarrow> list_all (\<lambda>x. list_ex (py_eq x) ys) xs \<and> list_all (\<lambda>y. list_ex (\<lambda>x. py_eq x y) xs) ys
      | _ \<Rightarrow> False)"
| "py_eq (PDict kvs) w =
     (case w of
        PDict kws \<Rightarrow>
          length kvs = length kws \<and>
          list_all (\<lambda>(k, v). case map_of kws k of None \<Rightarrow> False | Some w' \<Rightarrow> py_eq v w') kvs
      | _ \<Rightarrow> False)"
| "py_eq v w =
     (case (num_of v, num_of w) of
        (Some x, Some y) \<Rightarrow> num_eq x y
      | _ \<Rightarrow>
          (case (moment_of v, moment_of w) of
             (Some a, Some b) \<Rightarrow> moment_eq a b
           | _ \<Rightarrow> v = w))"
  by pat_completeness auto
termination
  by (relation "measure (\<lambda>(v, w). size v)")
    (auto simp: less_Suc_eq_le intro: size_zip_left size_dict_value size_list_estimation')

section \<open>Ordering\<close>

text \<open>The first position at which two sequences differ, with the two elements there.\<close>

fun first_diff :: "pyval list \<Rightarrow> pyval list \<Rightarrow> (pyval \<times> pyval) option" where
  "first_diff (x # xs) (y # ys) = (if py_eq x y then first_diff xs ys else Some (x, y))"
| "first_diff _ _ = None"

definition nat_cmp :: "cmp_op \<Rightarrow> nat \<Rightarrow> nat \<Rightarrow> bool" where
  "nat_cmp op m n = (case op of OpLt \<Rightarrow> m < n | OpLe \<Rightarrow> m \<le> n | OpGt \<Rightarrow> m > n | OpGe \<Rightarrow> m \<ge> n)"

definition str_cmp :: "cmp_op \<Rightarrow> pystr \<Rightarrow> pystr \<Rightarrow> bool" where
  "str_cmp op s t = (case op of OpLt \<Rightarrow> s < t | OpLe \<Rightarrow> s \<le> t | OpGt \<Rightarrow> s > t | OpGe \<Rightarrow> s \<ge> t)"

definition int_cmp :: "cmp_op \<Rightarrow> int \<Rightarrow> int \<Rightarrow> bool" where
  "int_cmp op m n = (case op of OpLt \<Rightarrow> m < n | OpLe \<Rightarrow> m \<le> n | OpGt \<Rightarrow> m > n | OpGe \<Rightarrow> m \<ge> n)"

text \<open>Dates order as dates and datetimes as datetimes; a datetime with an offset has no order with one without.\<close>

definition calendar_cmp :: "cmp_op \<Rightarrow> pyval \<Rightarrow> pyval \<Rightarrow> bool option" where
  "calendar_cmp op v w =
     (case (moment_of v, moment_of w) of
        (Some a, Some b) \<Rightarrow> map_option (\<lambda>(x, y). int_cmp op x y) (moment_keys a b)
      | _ \<Rightarrow>
          (case (date_text v, date_text w) of
             (Some s, Some t) \<Rightarrow> Some (str_cmp op s t)
           | _ \<Rightarrow> None))"

definition set_le :: "pyval list \<Rightarrow> pyval list \<Rightarrow> bool" where
  "set_le xs ys \<longleftrightarrow> list_all (\<lambda>x. list_ex (py_eq x) ys) xs"

definition set_cmp :: "cmp_op \<Rightarrow> pyval list \<Rightarrow> pyval list \<Rightarrow> bool" where
  "set_cmp op xs ys =
     (case op of
        OpLt \<Rightarrow> set_le xs ys \<and> \<not> set_le ys xs
      | OpLe \<Rightarrow> set_le xs ys
      | OpGt \<Rightarrow> set_le ys xs \<and> \<not> set_le xs ys
      | OpGe \<Rightarrow> set_le ys xs)"

lemma first_diff_size: "first_diff xs ys = Some (x, y) \<Longrightarrow> size x < Suc (size_list size xs)"
  by (induction xs ys rule: first_diff.induct) (auto split: if_splits)

function py_cmp :: "cmp_op \<Rightarrow> pyval \<Rightarrow> pyval \<Rightarrow> bool option" where
  "py_cmp op v w =
     (case (num_of v, num_of w) of
        (Some x, Some y) \<Rightarrow> Some (num_cmp op x y)
      | _ \<Rightarrow>
          (case (v, w) of
             (PStr s, PStr t) \<Rightarrow> Some (str_cmp op s t)
           | (PList xs, PList ys) \<Rightarrow>
               (case first_diff xs ys of
                  None \<Rightarrow> Some (nat_cmp op (length xs) (length ys))
                | Some (x, y) \<Rightarrow> py_cmp op x y)
           | (PTuple xs, PTuple ys) \<Rightarrow>
               (case first_diff xs ys of
                  None \<Rightarrow> Some (nat_cmp op (length xs) (length ys))
                | Some (x, y) \<Rightarrow> py_cmp op x y)
           | (PSet xs, PSet ys) \<Rightarrow> Some (set_cmp op xs ys)
           | _ \<Rightarrow> calendar_cmp op v w))"
  by pat_completeness auto
termination
  by (relation "measure (\<lambda>(op, v, w). size v)") (auto dest!: first_diff_size simp: less_Suc_eq_le)

declare py_cmp.simps [simp del]

section \<open>Conversion to float and the sample standard deviation\<close>

text \<open>
  \<open>round_units n\<close> rounds a non-negative number of units \<open>2 ^ -1075\<close>, given as the square root of
  the ratio \<open>n / d\<close>, to the nearest binary64 significand and exponent, ties to even. It is the
  correctly rounded square root of \<^verbatim>\<open>statistics._float_sqrt_of_frac\<close>.
\<close>

fun isqrt :: "nat \<Rightarrow> nat" where
  "isqrt n =
     (if n = 0 then 0
      else let r = 2 * isqrt (n div 4) in if (r + 1) * (r + 1) \<le> n then r + 1 else r)"

declare isqrt.simps [simp del]

text \<open>The float with significand \<open>m\<close> (at most \<open>2 ^ 53\<close>) in units of \<open>2 ^ (e - 1075)\<close>, \<open>1 \<le> e\<close>.\<close>

definition f64_make :: "nat \<Rightarrow> nat \<Rightarrow> float64 option" where
  "f64_make m e =
     (let (m', e') = (if m = 2 ^ 53 then (2 ^ 52, e + 1) else (m, e)) in
      if m' < 2 ^ 52 then Some (of_nat m')
      else if e' \<ge> 2047 then None
      else Some (of_nat (e' * 2 ^ 52 + (m' - 2 ^ 52))))"

definition sqrt_ratio :: "nat \<Rightarrow> nat \<Rightarrow> float64 option" where
  "sqrt_ratio n d =
     (let e = max 1 (bit_length (isqrt (n div d)) - 53);
          m = isqrt (n div (d * 4 ^ e));
          mid = d * ((2 * m + 1) * (2 * m + 1)) * 4 ^ e;
          up = 4 * n > mid \<or> 4 * n = mid \<and> odd m
      in f64_make (if up then m + 1 else m) e)"

text \<open>
  \<^verbatim>\<open>float(value)\<close> of an integer: correctly rounded; \<open>None\<close> is \<^verbatim>\<open>OverflowError\<close>.
\<close>

definition f64_round_int :: "int \<Rightarrow> float64 option" where
  "f64_round_int i =
     (let n = nat \<bar>i\<bar>; k = bit_length n - 53; q = n div 2 ^ k; r = n mod 2 ^ k;
          up = 2 * r > 2 ^ k \<or> 2 * r = 2 ^ k \<and> odd q \<and> k > 0
      in if k = 0 then Some (f64_of_int i)
         else map_option (\<lambda>x. if i < 0 then of_nat (2 ^ 63 + unat x) else x)
                (f64_make (if up then q + 1 else q) (k + 1075)))"

text \<open>
  \<^verbatim>\<open>statistics._ss(data)\<close>: the sum of the squared deviations as an exact fraction, here in units. \<^verbatim>\<open>_exact_ratio\<close> gives an
  infinity or a NaN no denominator, so such elements are added as floats of their own, and then their sum is what \<^verbatim>\<open>_ss\<close> returns.
\<close>

datatype square_sum = ExactSum int nat | FloatSum float64

definition add_nonfinite :: "float64 \<Rightarrow> float64 \<Rightarrow> float64" where
  "add_nonfinite x y =
     (if f64_nan x \<or> f64_nan y \<or> f64_negative x \<noteq> f64_negative y then of_nat (2047 * 2 ^ 52 + 2 ^ 51) else x)"

definition square_deviations :: "float64 list \<Rightarrow> square_sum" where
  "square_deviations xs =
     (case filter (\<lambda>x. \<not> f64_finite x) xs of
        x # special \<Rightarrow> FloatSum (foldl add_nonfinite x special)
      | [] \<Rightarrow>
          (let us = map f64_units xs; n = int (length xs) in
           ExactSum (n * sum_list (map (\<lambda>x. x * x) us) - sum_list us * sum_list us) (length xs)))"

datatype stdev_outcome = StdevValue float64 | StdevAttributeError | StdevOverflowError

text \<open>
  \<^verbatim>\<open>statistics.stdev(numbers)\<close> for at least two floats: the sum of squares over \<open>n - 1\<close>, and the correctly rounded square root
  of its numerator and denominator. A float has neither, which is an \<^verbatim>\<open>AttributeError\<close>.
\<close>

definition stdev :: "float64 list \<Rightarrow> stdev_outcome" where
  "stdev xs =
     (case square_deviations xs of
        FloatSum _ \<Rightarrow> StdevAttributeError
      | ExactSum ss n \<Rightarrow>
          (if ss = 0 then StdevValue 0
           else case sqrt_ratio (nat ss) (n * (n - 1)) of
                  Some x \<Rightarrow> StdevValue x
                | None \<Rightarrow> StdevOverflowError))"

end
