(* ===== verification/Constraints.thy ===== *)
theory Constraints
  imports Py_Compare "HOL-Library.AList"
begin

text \<open>
  The closed constraint language of \<^verbatim>\<open>shared/validation.py\<close>: measures, operands, comparisons, the
  depth-bounded expression evaluator, the resolution of required questions and allowed defaults, the
  constraint loop and preflight.

  Guidance is contract data, so it is a dynamically typed \<open>pyval\<close> and every shape test of the code is
  a branch here. Each \<^verbatim>\<open>raise _contract_error(...)\<close> is a constructor of \<open>contract_reason\<close> that keeps
  what its message names; the component id, one and the same in every error of a call, is left
  implicit. Exceptions the code does not catch (an integer too large for a float, the library error
  of \<^verbatim>\<open>statistics.stdev\<close> on a non-finite sample, an unhashable severity, a \<^verbatim>\<open>Violation\<close> whose fields
  are too long) are values of \<open>eval_exc\<close> too.
\<close>

section \<open>Errors\<close>

datatype contract_reason =
    NeedsSequence string | NeedsNumeric string | CountNeedsSized
  | StdevNeedsTwo | StdevNonFinite | MinEmpty | MinUndefined | MaxEmpty | MaxUndefined
  | NotComparable
  | OperandNotObject | OperandValueOrField | LiteralOnlyValue | FieldUnknownKeys | FieldNotString
  | FieldUnavailable pystr | UnknownMeasure pyval | UnknownOperator pystr | NotSetLike pystr
  | CompareUndefined pystr
  | TooDeep | ExpressionNotObject | BranchNotList string | ComparisonKeys | OperatorNotString
  | DefaultsNotLists | InvalidDefault | DefaultNoValue pystr | InvalidQuestion | ResolvesToNotString
  | ConstraintsNotList | ConstraintNotObject | ConstraintIdInvalid | DuplicateConstraint pystr
  | InvalidSeverity pystr | NoMessage pystr | NoExpression pystr | GuidanceNotObject

record violation =
  v_rule :: pystr
  v_severity :: pystr
  v_message :: pystr

datatype eval_exc =
    ContractEvaluationError contract_reason
  | AmbiguousInput pystr "pyval list"
  | DomainError pystr "violation list"
  | PyOverflowError | PyAttributeError | PyTypeError | PyValidationError

abbreviation contract_error :: "contract_reason \<Rightarrow> eval_exc + 'a" where
  "contract_error r \<equiv> Inl (ContractEvaluationError r)"

type_synonym inputs = "(pystr \<times> pyval) list"

section \<open>Measures\<close>

fun sequence :: "pyval \<Rightarrow> string \<Rightarrow> eval_exc + pyval list" where
  "sequence (PList xs) m = Inr xs"
| "sequence (PTuple xs) m = Inr xs"
| "sequence _ m = contract_error (NeedsSequence m)"

fun real_of :: "string \<Rightarrow> pyval \<Rightarrow> eval_exc + float64" where
  "real_of m (PInt i) = (case f64_round_int i of None \<Rightarrow> Inl PyOverflowError | Some x \<Rightarrow> Inr x)"
| "real_of m (PFloat x) = Inr x"
| "real_of m _ = contract_error (NeedsNumeric m)"

definition measure_identity :: "pyval \<Rightarrow> eval_exc + pyval" where
  "measure_identity v = Inr v"

fun measure_count :: "pyval \<Rightarrow> eval_exc + pyval" where
  "measure_count (PList xs) = Inr (PInt (int (length xs)))"
| "measure_count (PTuple xs) = Inr (PInt (int (length xs)))"
| "measure_count (PSet xs) = Inr (PInt (int (length xs)))"
| "measure_count (PDict kvs) = Inr (PInt (int (length kvs)))"
| "measure_count _ = contract_error CountNeedsSized"

definition measure_stdev :: "pyval \<Rightarrow> eval_exc + pyval" where
  "measure_stdev v =
     bindE (sequence v ''stdev'') (\<lambda>vs.
     bindE (mapE (real_of ''stdev'') vs) (\<lambda>numbers.
     if length numbers < 2 then contract_error StdevNeedsTwo
     else case stdev numbers of
            StdevAttributeError \<Rightarrow> Inl PyAttributeError
          | StdevOverflowError \<Rightarrow> Inl PyOverflowError
          | StdevValue r \<Rightarrow>
              if \<not> f64_finite r then contract_error StdevNonFinite else Inr (PFloat r)))"

text \<open>\<^verbatim>\<open>min\<close> and \<^verbatim>\<open>max\<close> keep the first extremal element; \<open>None\<close> is the \<^verbatim>\<open>TypeError\<close> of a comparison.\<close>

fun py_best :: "cmp_op \<Rightarrow> pyval \<Rightarrow> pyval list \<Rightarrow> pyval option" where
  "py_best op best [] = Some best"
| "py_best op best (x # xs) =
     (case py_cmp op x best of
        None \<Rightarrow> None
      | Some b \<Rightarrow> py_best op (if b then x else best) xs)"

definition measure_min :: "pyval \<Rightarrow> eval_exc + pyval" where
  "measure_min v =
     bindE (sequence v ''min'') (\<lambda>vs.
     case vs of
       [] \<Rightarrow> contract_error MinEmpty
     | x # xs \<Rightarrow>
         (case py_best OpLt x xs of None \<Rightarrow> contract_error MinUndefined | Some r \<Rightarrow> Inr r))"

definition measure_max :: "pyval \<Rightarrow> eval_exc + pyval" where
  "measure_max v =
     bindE (sequence v ''max'') (\<lambda>vs.
     case vs of
       [] \<Rightarrow> contract_error MaxEmpty
     | x # xs \<Rightarrow>
         (case py_best OpGt x xs of None \<Rightarrow> contract_error MaxUndefined | Some r \<Rightarrow> Inr r))"

definition measure_all_finite :: "pyval \<Rightarrow> eval_exc + pyval" where
  "measure_all_finite v =
     bindE
       (case v of
          PList xs \<Rightarrow> mapE (real_of ''all_finite'') xs
        | PTuple xs \<Rightarrow> mapE (real_of ''all_finite'') xs
        | _ \<Rightarrow> mapE (real_of ''all_finite'') [v])
       (\<lambda>numbers. Inr (PBool (list_all f64_finite numbers)))"

text \<open>\<^verbatim>\<open>_CALENDAR_MONTH.fullmatch\<close>: four digits, a hyphen, and 01 to 12.\<close>

fun calendar_month :: "pyval \<Rightarrow> bool" where
  "calendar_month (PStr [y1, y2, y3, y4, h, m1, m2]) =
     (is_digit y1 \<and> is_digit y2 \<and> is_digit y3 \<and> is_digit y4 \<and> h = 45 \<and>
      (m1 = 48 \<and> 49 \<le> m2 \<and> m2 \<le> 57 \<or> m1 = 49 \<and> 48 \<le> m2 \<and> m2 \<le> 50))"
| "calendar_month _ = False"

definition measure_all_valid_calendar_month_labels :: "pyval \<Rightarrow> eval_exc + pyval" where
  "measure_all_valid_calendar_month_labels v =
     bindE (sequence v ''all_valid_calendar_month_labels'') (\<lambda>vs.
     Inr (PBool (list_all calendar_month vs)))"

fun has_dup :: "pyval list \<Rightarrow> pyval list \<Rightarrow> bool" where
  "has_dup prior [] = False"
| "has_dup prior (x # xs) = (list_ex (py_eq x) prior \<or> has_dup (prior @ [x]) xs)"

definition measure_has_duplicates :: "pyval \<Rightarrow> eval_exc + pyval" where
  "measure_has_duplicates v =
     bindE (sequence v ''has_duplicates'') (\<lambda>vs. Inr (PBool (has_dup [] vs)))"

text \<open>\<^verbatim>\<open>int(item[:4]) * 12 + int(item[5:]) - 1\<close> of a month label.\<close>

definition int_of_digits :: "pystr \<Rightarrow> int" where
  "int_of_digits s = foldl (\<lambda>n c. 10 * n + (int c - 48)) 0 s"

fun month_ordinal :: "pyval \<Rightarrow> int option" where
  "month_ordinal (PStr s) = Some (int_of_digits (take 4 s) * 12 + int_of_digits (drop 5 s) - 1)"
| "month_ordinal _ = None"

definition measure_is_consecutive_calendar_months :: "pyval \<Rightarrow> eval_exc + pyval" where
  "measure_is_consecutive_calendar_months v =
     bindE (sequence v ''is_consecutive_calendar_months'') (\<lambda>vs.
     bindE (measure_all_valid_calendar_month_labels v) (\<lambda>valid.
     if valid \<noteq> PBool True then Inr (PBool False)
     else let ordinals = List.map_filter month_ordinal vs
          in Inr (PBool (list_all (\<lambda>(l, r). r = l + 1) (zip ordinals (tl ordinals))))))"

definition measure_is_strictly_increasing :: "pyval \<Rightarrow> eval_exc + pyval" where
  "measure_is_strictly_increasing v =
     bindE (sequence v ''is_strictly_increasing'') (\<lambda>vs.
     bindE
       (allE (\<lambda>(l, r). case py_cmp OpLt l r of None \<Rightarrow> contract_error NotComparable | Some b \<Rightarrow> Inr b)
          (zip vs (tl vs)))
       (\<lambda>b. Inr (PBool b)))"

section \<open>Operands and comparisons\<close>

definition MEASURE_DISPATCH :: "(pystr \<times> (pyval \<Rightarrow> eval_exc + pyval)) list" where
  "MEASURE_DISPATCH =
     [(lit ''identity'', measure_identity),
      (lit ''count'', measure_count),
      (lit ''stdev'', measure_stdev),
      (lit ''min'', measure_min),
      (lit ''max'', measure_max),
      (lit ''all_finite'', measure_all_finite),
      (lit ''all_valid_calendar_month_labels'', measure_all_valid_calendar_month_labels),
      (lit ''has_duplicates'', measure_has_duplicates),
      (lit ''is_consecutive_calendar_months'', measure_is_consecutive_calendar_months),
      (lit ''is_strictly_increasing'', measure_is_strictly_increasing)]"

definition MEASURES :: "pystr set" where
  "MEASURES =
     {lit ''identity'', lit ''count'', lit ''stdev'', lit ''min'', lit ''max'', lit ''all_finite'',
      lit ''all_valid_calendar_month_labels'', lit ''has_duplicates'',
      lit ''is_consecutive_calendar_months'', lit ''is_strictly_increasing''}"

definition OPERATORS :: "pystr set" where
  "OPERATORS =
     {lit ''lt'', lit ''le'', lit ''gt'', lit ''ge'', lit ''eq'', lit ''ne'', lit ''in_set'',
      lit ''not_in_set''}"

definition MAX_EXPRESSION_DEPTH :: nat where
  "MAX_EXPRESSION_DEPTH = 3"

text \<open>The entries of an object all of whose keys are strings, the test the code makes of expressions and operands.\<close>

fun string_object :: "pyval \<Rightarrow> (pykey \<times> pyval) list option" where
  "string_object (PDict kvs) = (if list_all (\<lambda>kv. key_str (fst kv) \<noteq> None) kvs then Some kvs else None)"
| "string_object _ = None"

definition keys_of :: "(pykey \<times> pyval) list \<Rightarrow> pykey set" where
  "keys_of kvs = fst ` set kvs"

definition KS :: "string \<Rightarrow> pykey" where
  "KS s = KStr (lit s)"

text \<open>\<open>object.get(key)\<close>: a missing key and an explicit \<^verbatim>\<open>None\<close> look alike.\<close>

definition obj_get :: "(pykey \<times> pyval) list \<Rightarrow> string \<Rightarrow> pyval" where
  "obj_get kvs k = (case dict_get kvs k of None \<Rightarrow> PNone | Some v \<Rightarrow> v)"

definition resolve_field :: "(pykey \<times> pyval) list \<Rightarrow> inputs \<Rightarrow> eval_exc + pyval" where
  "resolve_field kvs vals =
     (case obj_get kvs ''field'' of
        PStr field \<Rightarrow>
          (case map_of vals field of
             None \<Rightarrow> contract_error (FieldUnavailable field)
           | Some v \<Rightarrow>
               (let m = (case dict_get kvs ''measure'' of None \<Rightarrow> PStr (lit ''identity'') | Some m \<Rightarrow> m) in
                case m of
                  PStr name \<Rightarrow>
                    if name \<notin> MEASURES then contract_error (UnknownMeasure m)
                    else the (map_of MEASURE_DISPATCH name) v
                | _ \<Rightarrow> contract_error (UnknownMeasure m)))
      | _ \<Rightarrow> contract_error FieldNotString)"

definition resolve_operand :: "pyval \<Rightarrow> inputs \<Rightarrow> eval_exc + pyval" where
  "resolve_operand operand vals =
     (case string_object operand of
        None \<Rightarrow> contract_error OperandNotObject
      | Some kvs \<Rightarrow>
          (let has_value = KS ''value'' \<in> keys_of kvs; has_field = KS ''field'' \<in> keys_of kvs in
           if has_value = has_field then contract_error OperandValueOrField
           else if has_value then
             (if keys_of kvs \<noteq> {KS ''value''} then contract_error LiteralOnlyValue
              else Inr (obj_get kvs ''value''))
           else if \<not> keys_of kvs \<subseteq> {KS ''field'', KS ''measure''} then contract_error FieldUnknownKeys
           else resolve_field kvs vals))"

text \<open>
  Whether \<^verbatim>\<open>left in right\<close> can hash \<open>left\<close> when \<open>right\<close> is a set: Python looks a \<^verbatim>\<open>set\<close> up as the
  frozen set with its elements, and the models of this code base are frozen.
\<close>

fun hashable :: "pyval \<Rightarrow> bool" where
  "hashable (PList _) = False"
| "hashable (PDict _) = False"
| "hashable (PTuple xs) = list_all hashable xs"
| "hashable _ = True"

definition in_collection :: "pystr \<Rightarrow> pyval \<Rightarrow> pyval \<Rightarrow> eval_exc + bool" where
  "in_collection op l r =
     (case r of
        PList ys \<Rightarrow> Inr (list_ex (py_eq l) ys)
      | PTuple ys \<Rightarrow> Inr (list_ex (py_eq l) ys)
      | PSet ys \<Rightarrow> if hashable l then Inr (list_ex (py_eq l) ys) else contract_error (CompareUndefined op)
      | _ \<Rightarrow> contract_error (NotSetLike op))"

definition ordered :: "pystr \<Rightarrow> cmp_op \<Rightarrow> pyval \<Rightarrow> pyval \<Rightarrow> eval_exc + bool" where
  "ordered op c l r =
     (case py_cmp c l r of None \<Rightarrow> contract_error (CompareUndefined op) | Some b \<Rightarrow> Inr b)"

definition compare :: "pystr \<Rightarrow> pyval \<Rightarrow> pyval \<Rightarrow> eval_exc + bool" where
  "compare op l r =
     (if op \<notin> OPERATORS then contract_error (UnknownOperator op)
      else if op = lit ''lt'' then ordered op OpLt l r
      else if op = lit ''le'' then ordered op OpLe l r
      else if op = lit ''gt'' then ordered op OpGt l r
      else if op = lit ''ge'' then ordered op OpGe l r
      else if op = lit ''eq'' then Inr (py_eq l r)
      else if op = lit ''ne'' then Inr (\<not> py_eq l r)
      else bindE (in_collection op l r) (\<lambda>b. Inr (if op = lit ''in_set'' then b else \<not> b)))"

section \<open>Expressions\<close>

definition comparison :: "(pykey \<times> pyval) list \<Rightarrow> inputs \<Rightarrow> eval_exc + bool" where
  "comparison kvs vals =
     (if keys_of kvs \<noteq> {KS ''left'', KS ''op'', KS ''right''} then contract_error ComparisonKeys
      else case obj_get kvs ''op'' of
             PStr operator \<Rightarrow>
               bindE (resolve_operand (obj_get kvs ''left'') vals) (\<lambda>l.
               bindE (resolve_operand (obj_get kvs ''right'') vals) (\<lambda>r.
               compare operator l r))
           | _ \<Rightarrow> contract_error OperatorNotString)"

function evaluate_at :: "nat \<Rightarrow> pyval \<Rightarrow> inputs \<Rightarrow> eval_exc + bool" where
  "evaluate_at depth expression vals =
     (if depth > MAX_EXPRESSION_DEPTH then contract_error TooDeep
      else case string_object expression of
        None \<Rightarrow> contract_error ExpressionNotObject
      | Some kvs \<Rightarrow>
          if keys_of kvs = {KS ''all''} then
            (case obj_get kvs ''all'' of
               PList (c # cs) \<Rightarrow> allE (\<lambda>child. evaluate_at (depth + 1) child vals) (c # cs)
             | _ \<Rightarrow> contract_error (BranchNotList ''all''))
          else if keys_of kvs = {KS ''any''} then
            (case obj_get kvs ''any'' of
               PList (c # cs) \<Rightarrow> anyE (\<lambda>child. evaluate_at (depth + 1) child vals) (c # cs)
             | _ \<Rightarrow> contract_error (BranchNotList ''any''))
          else comparison kvs vals)"
  by pat_completeness auto
termination
  by (relation "measure (\<lambda>(depth, e, vals). 4 - depth)") (auto simp: MAX_EXPRESSION_DEPTH_def)

declare evaluate_at.simps [simp del]

definition evaluate_expression :: "pyval \<Rightarrow> inputs \<Rightarrow> eval_exc + bool" where
  "evaluate_expression expression vals = evaluate_at 1 expression vals"

section \<open>Defaults and questions\<close>

fun default_record :: "pyval \<Rightarrow> (pystr \<times> (pykey \<times> pyval) list) list \<Rightarrow> eval_exc + (pystr \<times> (pykey \<times> pyval) list) list" where
  "default_record (PDict kvs) defaults =
     (case obj_get kvs ''field'' of
        PStr field \<Rightarrow>
          if dict_get kvs ''value'' = None then contract_error (DefaultNoValue field)
          else Inr (AList.update field kvs defaults)
      | _ \<Rightarrow> contract_error InvalidDefault)"
| "default_record _ defaults = contract_error InvalidDefault"

definition missing_question :: "(pykey \<times> pyval) list \<Rightarrow> pyval" where
  "missing_question q =
     PDict [(KS ''id'', obj_get q ''id''), (KS ''field'', obj_get q ''resolves_to''),
            (KS ''ask'', obj_get q ''ask''), (KS ''why'', obj_get q ''why'')]"

definition missing_field :: "pyval \<Rightarrow> pystr" where
  "missing_field m =
     (case m of PDict kvs \<Rightarrow> (case obj_get kvs ''field'' of PStr f \<Rightarrow> f | _ \<Rightarrow> []) | _ \<Rightarrow> [])"

definition ambiguous :: "pyval list \<Rightarrow> eval_exc" where
  "ambiguous missing =
     AmbiguousInput
       (lit ''required convention-bearing input is missing: '' @ str_join (lit '', '') (map missing_field missing))
       missing"

type_synonym rules = "(pystr \<times> (pykey \<times> pyval) list) list"

text \<open>First pass over the questions: their shape, and those that nothing could answer.\<close>

fun check_question ::
  "rules \<Rightarrow> inputs \<Rightarrow> pyval \<Rightarrow> (pystr \<times> (pykey \<times> pyval) list) list \<times> pyval list
     \<Rightarrow> eval_exc + (pystr \<times> (pykey \<times> pyval) list) list \<times> pyval list" where
  "check_question defaults vals (PDict q) (questions, missing) =
     (case obj_get q ''resolves_to'' of
        PStr field \<Rightarrow>
          Inr (questions @ [(field, q)],
               if map_of vals field = None \<and> map_of defaults field = None \<and> obj_get q ''default'' = PNone
               then missing @ [missing_question q] else missing)
      | _ \<Rightarrow> contract_error ResolvesToNotString)"
| "check_question defaults vals _ st = contract_error InvalidQuestion"

definition only_if_holds :: "(pykey \<times> pyval) list \<Rightarrow> inputs \<Rightarrow> eval_exc + bool" where
  "only_if_holds rule vals =
     (if obj_get rule ''only_if'' = PNone then Inr True
      else evaluate_expression (obj_get rule ''only_if'') vals)"

text \<open>Second pass: answer each open question by its allowed default, else by its own default.\<close>

definition answer_question ::
  "rules \<Rightarrow> pystr \<times> (pykey \<times> pyval) list \<Rightarrow> inputs \<times> pyval list \<Rightarrow> eval_exc + inputs \<times> pyval list" where
  "answer_question defaults fq st =
     (let (field, q) = fq; (vals, missing) = st;
          fallback = (if obj_get q ''default'' \<noteq> PNone
                      then (AList.update field (obj_get q ''default'') vals, missing)
                      else (vals, missing @ [missing_question q]))
      in if map_of vals field \<noteq> None then Inr (vals, missing)
         else case map_of defaults field of
                None \<Rightarrow> Inr fallback
              | Some rule \<Rightarrow>
                  bindE (only_if_holds rule vals) (\<lambda>ok.
                  Inr (if ok then (AList.update field (obj_get rule ''value'') vals, missing) else fallback)))"

text \<open>Last pass: the allowed defaults no question asks for.\<close>

definition apply_default :: "pystr \<times> (pykey \<times> pyval) list \<Rightarrow> inputs \<Rightarrow> eval_exc + inputs" where
  "apply_default fr vals =
     (let (field, rule) = fr in
      if map_of vals field \<noteq> None then Inr vals
      else bindE (only_if_holds rule vals) (\<lambda>ok.
           Inr (if ok then AList.update field (obj_get rule ''value'') vals else vals)))"

definition get_list :: "(pykey \<times> pyval) list \<Rightarrow> string \<Rightarrow> pyval list option" where
  "get_list g k =
     (case dict_get g k of None \<Rightarrow> Some [] | Some (PList xs) \<Rightarrow> Some xs | Some _ \<Rightarrow> None)"

definition effective_values :: "(pykey \<times> pyval) list \<Rightarrow> inputs \<Rightarrow> eval_exc + inputs" where
  "effective_values guidance supplied =
     (case (get_list guidance ''allowed_defaults'', get_list guidance ''required_questions'') of
        (Some defaults_raw, Some questions_raw) \<Rightarrow>
          bindE (foldE default_record defaults_raw []) (\<lambda>defaults.
          bindE (foldE (check_question defaults supplied) questions_raw ([], [])) (\<lambda>(questions, missing).
          if missing \<noteq> [] then Inl (ambiguous missing)
          else bindE (foldE (answer_question defaults) questions (supplied, [])) (\<lambda>(vals, missing').
          if missing' \<noteq> [] then Inl (ambiguous missing')
          else foldE apply_default defaults vals)))
      | _ \<Rightarrow> contract_error DefaultsNotLists)"

section \<open>Constraints and preflight\<close>

definition blocking :: pystr where
  "blocking = lit ''blocking''"

definition warning :: pystr where
  "warning = lit ''warning''"

text \<open>The Pydantic model bounds its fields and refuses strings with lone surrogates.\<close>

definition make_violation :: "pystr \<Rightarrow> pystr \<Rightarrow> pystr \<Rightarrow> eval_exc + violation" where
  "make_violation rule severity message =
     (if rule \<noteq> [] \<and> length rule \<le> 120 \<and> severity \<in> {blocking, warning} \<and>
         message \<noteq> [] \<and> length message \<le> 1000 \<and>
         list_all is_scalar rule \<and> list_all is_scalar message
      then Inr \<lparr>v_rule = rule, v_severity = severity, v_message = message\<rparr>
      else Inl PyValidationError)"

definition rule_severity :: "pystr \<Rightarrow> pyval \<Rightarrow> eval_exc + pystr" where
  "rule_severity rule_id severity =
     (if \<not> hashable severity then Inl PyTypeError
      else case severity of
             PStr s \<Rightarrow> if s \<in> {blocking, warning} then Inr s else contract_error (InvalidSeverity rule_id)
           | _ \<Rightarrow> contract_error (InvalidSeverity rule_id))"

definition rule_id :: "(pykey \<times> pyval) list \<Rightarrow> eval_exc + pystr" where
  "rule_id rule =
     (case obj_get rule ''id'' of
        PStr i \<Rightarrow> if i = [] then contract_error ConstraintIdInvalid else Inr i
      | _ \<Rightarrow> contract_error ConstraintIdInvalid)"

definition rule_message :: "pystr \<Rightarrow> (pykey \<times> pyval) list \<Rightarrow> eval_exc + pystr" where
  "rule_message i rule =
     (case obj_get rule ''message'' of
        PStr m \<Rightarrow> if m = [] then contract_error (NoMessage i) else Inr m
      | _ \<Rightarrow> contract_error (NoMessage i))"

definition check_rule :: "inputs \<Rightarrow> pyval \<Rightarrow> pystr set \<times> violation list \<Rightarrow> eval_exc + pystr set \<times> violation list" where
  "check_rule vals rule st =
     (case rule of
        PDict r \<Rightarrow>
          (let (seen, violations) = st in
           bindE (rule_id r) (\<lambda>i.
           if i \<in> seen then contract_error (DuplicateConstraint i)
           else bindE (rule_severity i (obj_get r ''severity'')) (\<lambda>sev.
           bindE (rule_message i r) (\<lambda>msg.
           if obj_get r ''when'' = PNone then contract_error (NoExpression i)
           else bindE (evaluate_at 1 (obj_get r ''when'') vals) (\<lambda>hit.
           if hit then bindE (make_violation i sev msg) (\<lambda>v. Inr (insert i seen, violations @ [v]))
           else Inr (insert i seen, violations))))))
      | _ \<Rightarrow> contract_error ConstraintNotObject)"

definition evaluate_constraints :: "(pykey \<times> pyval) list \<Rightarrow> inputs \<Rightarrow> eval_exc + violation list" where
  "evaluate_constraints guidance vals =
     (case get_list guidance ''constraints'' of
        None \<Rightarrow> contract_error ConstraintsNotList
      | Some rules \<Rightarrow> bindE (foldE (check_rule vals) rules ({}, [])) (\<lambda>(seen, violations). Inr violations))"

text \<open>\<^verbatim>\<open>preflight\<close> after the component's record is found: its metadata and the keyword arguments.\<close>

definition preflight_metadata :: "(pykey \<times> pyval) list \<Rightarrow> inputs \<Rightarrow> eval_exc + violation list" where
  "preflight_metadata metadata kwargs =
     (case obj_get metadata ''guidance'' of
        PDict guidance \<Rightarrow>
          bindE (effective_values guidance kwargs) (\<lambda>vals.
          bindE (evaluate_constraints guidance vals) (\<lambda>violations.
          let bl = filter (\<lambda>v. v_severity v = blocking) violations in
          if bl \<noteq> [] then Inl (DomainError (str_join (lit ''; '') (map v_message bl)) bl)
          else Inr (filter (\<lambda>v. v_severity v = warning) violations)))
      | _ \<Rightarrow> contract_error GuidanceNotObject)"

section \<open>The meaning of expressions\<close>

text \<open>The dispatch table answers every measure the language admits, so the lookup never fails.\<close>

lemma MEASURE_DISPATCH_total: "fst ` set MEASURE_DISPATCH = MEASURES"
  by (auto simp: MEASURE_DISPATCH_def MEASURES_def)

text \<open>
  A big-step semantics without evaluation order, short circuits or depth counters: \<open>evals vals n e b\<close>
  says that \<open>e\<close> has the value \<open>b\<close> with at most \<open>n\<close> nested levels.
\<close>

definition branch :: "string \<Rightarrow> pyval \<Rightarrow> pyval list \<Rightarrow> bool" where
  "branch name e cs \<longleftrightarrow>
     (\<exists>kvs. e = PDict kvs \<and> keys_of kvs = {KS name} \<and> obj_get kvs name = PList cs \<and> cs \<noteq> [])"

definition compares :: "inputs \<Rightarrow> pyval \<Rightarrow> bool \<Rightarrow> bool" where
  "compares vals e b \<longleftrightarrow>
     (\<exists>kvs op l r.
        e = PDict kvs \<and> keys_of kvs = {KS ''left'', KS ''op'', KS ''right''} \<and>
        obj_get kvs ''op'' = PStr op \<and>
        resolve_operand (obj_get kvs ''left'') vals = Inr l \<and>
        resolve_operand (obj_get kvs ''right'') vals = Inr r \<and> compare op l r = Inr b)"

inductive evals :: "inputs \<Rightarrow> nat \<Rightarrow> pyval \<Rightarrow> bool \<Rightarrow> bool" for vals where
  comparison: "compares vals e b \<Longrightarrow> evals vals (Suc n) e b"
| all_true: "branch ''all'' e cs \<Longrightarrow> (\<And>c. c \<in> set cs \<Longrightarrow> evals vals n c True) \<Longrightarrow> evals vals (Suc n) e True"
| all_false: "branch ''all'' e (ys @ c # zs) \<Longrightarrow> (\<And>y. y \<in> set ys \<Longrightarrow> evals vals n y True) \<Longrightarrow>
    evals vals n c False \<Longrightarrow> evals vals (Suc n) e False"
| any_true: "branch ''any'' e (ys @ c # zs) \<Longrightarrow> (\<And>y. y \<in> set ys \<Longrightarrow> evals vals n y False) \<Longrightarrow>
    evals vals n c True \<Longrightarrow> evals vals (Suc n) e True"
| any_false: "branch ''any'' e cs \<Longrightarrow> (\<And>c. c \<in> set cs \<Longrightarrow> evals vals n c False) \<Longrightarrow> evals vals (Suc n) e False"

inductive_cases evals_0E: "evals vals 0 e b"
inductive_simps evals_Suc_iff: "evals vals (Suc n) e b"

lemma KS_eq_iff [simp]: "KS s = KS t \<longleftrightarrow> s = t"
  by (simp add: KS_def)

lemma string_object_Some_iff:
  "string_object e = Some kvs \<longleftrightarrow> e = PDict kvs \<and> (\<forall>k \<in> keys_of kvs. key_str k \<noteq> None)"
  by (cases e) (auto simp: list_all_iff keys_of_def)

lemma string_object_of_keys:
  "keys_of kvs = KS ` S \<Longrightarrow> string_object (PDict kvs) = Some kvs"
  unfolding string_object_Some_iff by (auto simp: KS_def)

lemma string_object_branch:
  "keys_of kvs = {KS a} \<Longrightarrow> string_object (PDict kvs) = Some kvs"
  "keys_of kvs = {KS a, KS b, KS c} \<Longrightarrow> string_object (PDict kvs) = Some kvs"
  using string_object_of_keys[of kvs "{a}"] string_object_of_keys[of kvs "{a, b, c}"] by auto

lemma comparison_iff:
  "(\<exists>kvs. string_object e = Some kvs \<and> comparison kvs vals = Inr b) \<longleftrightarrow> compares vals e b"
proof -
  have "comparison kvs vals = Inr b \<longleftrightarrow>
      keys_of kvs = {KS ''left'', KS ''op'', KS ''right''} \<and>
      (\<exists>op l r. obj_get kvs ''op'' = PStr op \<and> resolve_operand (obj_get kvs ''left'') vals = Inr l \<and>
         resolve_operand (obj_get kvs ''right'') vals = Inr r \<and> compare op l r = Inr b)" for kvs
    by (auto simp: comparison_def bindE_Inr_iff split: pyval.splits)
  then show ?thesis
    unfolding compares_def by (metis string_object_branch(2) string_object_Some_iff)
qed

lemma evaluate_at_Inr_iff:
  assumes "depth \<le> MAX_EXPRESSION_DEPTH"
  shows "evaluate_at depth e vals = Inr b \<longleftrightarrow>
    (\<exists>cs. branch ''all'' e cs \<and> allE (\<lambda>c. evaluate_at (Suc depth) c vals) cs = Inr b) \<or>
    (\<exists>cs. branch ''any'' e cs \<and> anyE (\<lambda>c. evaluate_at (Suc depth) c vals) cs = Inr b) \<or>
    compares vals e b"
proof (cases "string_object e")
  case None
  then have "\<not> branch a e cs" "\<not> compares vals e b" for a cs
    using string_object_branch by (force simp: branch_def compares_def simp del: string_object.simps)+
  then show ?thesis using None assms by (simp add: evaluate_at.simps[of depth])
next
  case (Some kvs)
  then have e: "e = PDict kvs" by (simp add: string_object_Some_iff)
  consider "keys_of kvs = {KS ''all''}" | "keys_of kvs = {KS ''any''}"
    | "keys_of kvs \<noteq> {KS ''all''}" "keys_of kvs \<noteq> {KS ''any''}" by blast
  then show ?thesis
  proof cases
    case 1
    then have "\<not> compares vals e b" by (auto simp: compares_def e)
    then show ?thesis using 1 Some assms
      by (auto simp: evaluate_at.simps[of depth] branch_def e not_less split: pyval.split list.split)
  next
    case 2
    then have "\<not> compares vals e b" by (auto simp: compares_def e)
    then show ?thesis using 2 Some assms
      by (auto simp: evaluate_at.simps[of depth] branch_def e not_less split: pyval.split list.split)
  next
    case 3
    then have "\<not> branch ''all'' e cs" "\<not> branch ''any'' e cs" for cs by (auto simp: branch_def e)
    then show ?thesis using 3 Some assms comparison_iff[of e vals b]
      by (simp add: evaluate_at.simps[of depth] not_less)
  qed
qed

lemma evaluate_at_iff_evals:
  "n \<le> 3 \<Longrightarrow> evaluate_at (4 - n) e vals = Inr b \<longleftrightarrow> evals vals n e b"
proof (induction n arbitrary: e b)
  case 0
  then show ?case by (auto simp: evaluate_at.simps MAX_EXPRESSION_DEPTH_def elim: evals_0E)
next
  case (Suc n)
  then have d: "Suc (4 - Suc n) = 4 - n" "4 - Suc n \<le> MAX_EXPRESSION_DEPTH"
    by (auto simp: MAX_EXPRESSION_DEPTH_def)
  have ih: "evaluate_at (4 - n) c vals = Inr x \<longleftrightarrow> evals vals n c x" for c x
    using Suc by simp
  show ?case
    unfolding evaluate_at_Inr_iff[OF d(2)] d(1) allE_Inr_iff anyE_Inr_iff ih evals_Suc_iff
    by (cases b) (simp; blast)+
qed

section \<open>Expressions read only the fields they name\<close>

fun expr_fields :: "pyval \<Rightarrow> pystr set" where
  "expr_fields (PList xs) = (\<Union>x \<in> set xs. expr_fields x)"
| "expr_fields (PDict kvs) =
     (case dict_get kvs ''field'' of Some (PStr f) \<Rightarrow> {f} | _ \<Rightarrow> {}) \<union> (\<Union>kv \<in> set kvs. expr_fields (snd kv))"
| "expr_fields _ = {}"

lemma expr_fields_get: "expr_fields (obj_get kvs k) \<subseteq> expr_fields (PDict kvs)"
proof (cases "dict_get kvs k")
  case (Some v)
  then have "(KS k, v) \<in> set kvs" by (auto simp: dict_get_def KS_def dest: map_of_SomeD)
  then show ?thesis using Some by (force simp: obj_get_def)
qed (simp add: obj_get_def)

lemma expr_fields_children: "obj_get kvs k = PList cs \<Longrightarrow> c \<in> set cs \<Longrightarrow> expr_fields c \<subseteq> expr_fields (PDict kvs)"
  using expr_fields_get[of kvs k] by auto

lemma resolve_field_frame:
  "(\<And>f. f \<in> expr_fields (PDict kvs) \<Longrightarrow> map_of vs f = map_of ws f) \<Longrightarrow> resolve_field kvs vs = resolve_field kvs ws"
  by (cases "dict_get kvs ''field''")
    (auto simp: resolve_field_def obj_get_def cong: option.case_cong split: pyval.splits)

lemma resolve_operand_frame:
  assumes "\<And>f. f \<in> expr_fields e \<Longrightarrow> map_of vs f = map_of ws f"
  shows "resolve_operand e vs = resolve_operand e ws"
proof (cases "string_object e")
  case (Some kvs)
  then have "e = PDict kvs" by (simp add: string_object_Some_iff)
  then have "resolve_field kvs vs = resolve_field kvs ws" using assms resolve_field_frame by blast
  then show ?thesis by (simp add: resolve_operand_def Some Let_def)
qed (simp add: resolve_operand_def)

lemma comparison_frame:
  assumes "\<And>f. f \<in> expr_fields (PDict kvs) \<Longrightarrow> map_of vs f = map_of ws f"
  shows "comparison kvs vs = comparison kvs ws"
proof -
  have "resolve_operand (obj_get kvs k) vs = resolve_operand (obj_get kvs k) ws" for k
    using assms expr_fields_get by (blast intro: resolve_operand_frame)
  then show ?thesis unfolding comparison_def by presburger
qed

lemma evaluate_at_frame:
  "(\<And>f. f \<in> expr_fields e \<Longrightarrow> map_of vs f = map_of ws f) \<Longrightarrow> evaluate_at depth e vs = evaluate_at depth e ws"
proof (induction depth e vs rule: evaluate_at.induct)
  case (1 depth e vs)
  show ?case
  proof (cases "string_object e")
    case None
    then show ?thesis by (simp add: evaluate_at.simps)
  next
    case (Some kvs)
    then have e: "e = PDict kvs" by (simp add: string_object_Some_iff)
    have sub: "f \<in> expr_fields e" if "obj_get kvs k = PList cs" "c \<in> set cs" "f \<in> expr_fields c" for k cs c f
      using that expr_fields_children unfolding e by blast
    have cmp: "comparison kvs vs = comparison kvs ws"
      using "1.prems" unfolding e by (rule comparison_frame)
    have all: "allE (\<lambda>c. evaluate_at (depth + 1) c vs) (c # cs) = allE (\<lambda>c. evaluate_at (depth + 1) c ws) (c # cs)"
      if "\<not> depth > MAX_EXPRESSION_DEPTH" "keys_of kvs = {KS ''all''}" "obj_get kvs ''all'' = PList (c # cs)" for c cs
      using "1.IH"(1)[OF that(1) Some that(2,3)] "1.prems" sub[OF that(3)] by (intro allE_cong) blast+
    have any: "anyE (\<lambda>c. evaluate_at (depth + 1) c vs) (c # cs) = anyE (\<lambda>c. evaluate_at (depth + 1) c ws) (c # cs)"
      if "\<not> depth > MAX_EXPRESSION_DEPTH" "keys_of kvs \<noteq> {KS ''all''}" "keys_of kvs = {KS ''any''}"
        "obj_get kvs ''any'' = PList (c # cs)" for c cs
      using "1.IH"(2)[OF that(1) Some that(2-4)] "1.prems" sub[OF that(4)] by (intro anyE_cong) blast+
    show ?thesis
      unfolding evaluate_at.simps[of depth] Some option.case cmp
      using all any by (auto simp del: allE.simps anyE.simps split: pyval.split list.split)
  qed
qed

section \<open>The constraint loop\<close>

text \<open>What a rule contributes, without the loop: its id, whether it fires, and its violation.\<close>

definition str_of :: "pyval \<Rightarrow> pystr" where
  "str_of v = (case v of PStr s \<Rightarrow> s | _ \<Rightarrow> [])"

definition rule_field :: "pyval \<Rightarrow> string \<Rightarrow> pyval" where
  "rule_field r k = (case r of PDict kvs \<Rightarrow> obj_get kvs k | _ \<Rightarrow> PNone)"

definition triggered :: "inputs \<Rightarrow> pyval \<Rightarrow> bool" where
  "triggered vals r \<longleftrightarrow> evaluate_expression (rule_field r ''when'') vals = Inr True"

definition rule_violation :: "pyval \<Rightarrow> violation" where
  "rule_violation r =
     \<lparr>v_rule = str_of (rule_field r ''id''), v_severity = str_of (rule_field r ''severity''),
      v_message = str_of (rule_field r ''message'')\<rparr>"

definition rule_wf :: "inputs \<Rightarrow> pyval \<Rightarrow> bool" where
  "rule_wf vals r \<longleftrightarrow>
     (\<exists>kvs i sev msg b. r = PDict kvs \<and>
        obj_get kvs ''id'' = PStr i \<and> i \<noteq> [] \<and>
        obj_get kvs ''severity'' = PStr sev \<and> (sev = blocking \<or> sev = warning) \<and>
        obj_get kvs ''message'' = PStr msg \<and> msg \<noteq> [] \<and> obj_get kvs ''when'' \<noteq> PNone \<and>
        evaluate_expression (obj_get kvs ''when'') vals = Inr b \<and>
        (b \<longrightarrow> length i \<le> 120 \<and> length msg \<le> 1000 \<and> list_all is_scalar i \<and> list_all is_scalar msg))"

lemma rule_parts_iff:
  "rule_id kvs = Inr i \<longleftrightarrow> obj_get kvs ''id'' = PStr i \<and> i \<noteq> []"
  "rule_severity j v = Inr sev \<longleftrightarrow> v = PStr sev \<and> (sev = blocking \<or> sev = warning)"
  "rule_message j kvs = Inr msg \<longleftrightarrow> obj_get kvs ''message'' = PStr msg \<and> msg \<noteq> []"
  "make_violation i sev msg = Inr viol \<longleftrightarrow>
     i \<noteq> [] \<and> length i \<le> 120 \<and> (sev = blocking \<or> sev = warning) \<and> msg \<noteq> [] \<and> length msg \<le> 1000 \<and>
     list_all is_scalar i \<and> list_all is_scalar msg \<and> viol = \<lparr>v_rule = i, v_severity = sev, v_message = msg\<rparr>"
  by (auto simp: rule_id_def rule_severity_def rule_message_def make_violation_def split: pyval.split)

lemma check_rule_Inr_iff:
  "check_rule vals (PDict kvs) (seen, acc) = Inr z \<longleftrightarrow>
    (\<exists>i sev msg b. rule_id kvs = Inr i \<and> i \<notin> seen \<and>
        rule_severity i (obj_get kvs ''severity'') = Inr sev \<and> rule_message i kvs = Inr msg \<and>
        obj_get kvs ''when'' \<noteq> PNone \<and> evaluate_at 1 (obj_get kvs ''when'') vals = Inr b \<and>
        (if b then \<exists>v. make_violation i sev msg = Inr v \<and> z = (insert i seen, acc @ [v])
         else z = (insert i seen, acc)))"
  by (cases "rule_id kvs"; cases "rule_severity (projr (rule_id kvs)) (obj_get kvs ''severity'')";
      cases "rule_message (projr (rule_id kvs)) kvs"; cases "evaluate_at 1 (obj_get kvs ''when'') vals")
    (auto simp: check_rule_def bindE_Inr_iff if_Inl_Inr_iff)

lemma rule_wf_PDict:
  "rule_wf vals (PDict kvs) \<longleftrightarrow>
    (\<exists>i sev msg b. rule_id kvs = Inr i \<and> rule_severity i (obj_get kvs ''severity'') = Inr sev \<and>
        rule_message i kvs = Inr msg \<and> obj_get kvs ''when'' \<noteq> PNone \<and>
        evaluate_at 1 (obj_get kvs ''when'') vals = Inr b \<and>
        (b \<longrightarrow> length i \<le> 120 \<and> length msg \<le> 1000 \<and> list_all is_scalar i \<and> list_all is_scalar msg))"
  unfolding rule_parts_iff rule_wf_def evaluate_expression_def by blast

lemma check_rule_iff:
  "check_rule vals r (seen, acc) = Inr (seen', acc') \<longleftrightarrow>
     rule_wf vals r \<and> v_rule (rule_violation r) \<notin> seen \<and>
     seen' = insert (v_rule (rule_violation r)) seen \<and>
     acc' = acc @ (if triggered vals r then [rule_violation r] else [])"
proof (cases r)
  case (PDict kvs)
  have key: "rule_id kvs = Inr i \<Longrightarrow> v_rule (rule_violation r) = i" for i
    by (simp add: rule_parts_iff PDict rule_violation_def rule_field_def str_of_def)
  have viol: "rule_violation r = \<lparr>v_rule = i, v_severity = sev, v_message = msg\<rparr>"
    if "rule_id kvs = Inr i" "rule_severity i (obj_get kvs ''severity'') = Inr sev" "rule_message i kvs = Inr msg"
    for i sev msg
    using that by (auto simp: rule_parts_iff PDict rule_violation_def rule_field_def str_of_def)
  have make: "make_violation i sev msg = Inr v \<longleftrightarrow>
      length i \<le> 120 \<and> length msg \<le> 1000 \<and> list_all is_scalar i \<and> list_all is_scalar msg \<and> v = rule_violation r"
    if "rule_id kvs = Inr i" "rule_severity i (obj_get kvs ''severity'') = Inr sev" "rule_message i kvs = Inr msg"
    for i sev msg v
    using that viol[OF that] by (auto simp: rule_parts_iff)
  have trig: "triggered vals r \<longleftrightarrow> evaluate_at 1 (obj_get kvs ''when'') vals = Inr True"
    by (simp add: triggered_def rule_field_def evaluate_expression_def PDict)
  show ?thesis
  proof (cases "rule_wf vals r")
    case True
    then obtain i sev msg b where parts: "rule_id kvs = Inr i"
      "rule_severity i (obj_get kvs ''severity'') = Inr sev" "rule_message i kvs = Inr msg"
      "obj_get kvs ''when'' \<noteq> PNone" "evaluate_at 1 (obj_get kvs ''when'') vals = Inr b"
      "b \<longrightarrow> length i \<le> 120 \<and> length msg \<le> 1000 \<and> list_all is_scalar i \<and> list_all is_scalar msg"
      unfolding PDict rule_wf_PDict by blast
    then have "check_rule vals r (seen, acc) = Inr (seen', acc') \<longleftrightarrow> i \<notin> seen \<and>
        (if b then seen' = insert i seen \<and> acc' = acc @ [rule_violation r]
         else seen' = insert i seen \<and> acc' = acc)"
      unfolding PDict check_rule_Inr_iff using make[OF parts(1-3)] by (simp add: PDict)
    then show ?thesis using True key[OF parts(1)] trig parts(5) by auto
  next
    case False
    then show ?thesis using make unfolding PDict check_rule_Inr_iff rule_wf_PDict
      by (auto split: if_splits)
  qed
qed (auto simp: check_rule_def rule_wf_def)

lemma check_rules_iff:
  "(\<exists>seen'. foldE (check_rule vals) rules (seen, acc) = Inr (seen', acc')) \<longleftrightarrow>
     (\<forall>r \<in> set rules. rule_wf vals r) \<and> distinct (map (\<lambda>r. v_rule (rule_violation r)) rules) \<and>
     (\<forall>r \<in> set rules. v_rule (rule_violation r) \<notin> seen) \<and>
     acc' = acc @ map rule_violation (filter (triggered vals) rules)"
proof (induction rules arbitrary: seen acc)
  case Nil
  then show ?case by auto
next
  case (Cons r rs)
  have "(\<exists>seen'. foldE (check_rule vals) (r # rs) (seen, acc) = Inr (seen', acc')) \<longleftrightarrow>
    rule_wf vals r \<and> v_rule (rule_violation r) \<notin> seen \<and>
    (\<exists>seen'. foldE (check_rule vals) rs
       (insert (v_rule (rule_violation r)) seen, acc @ (if triggered vals r then [rule_violation r] else []))
       = Inr (seen', acc'))"
    by (auto simp: bindE_Inr_iff check_rule_iff)
  moreover have "(\<forall>q \<in> set rs. v_rule (rule_violation q) \<notin> insert (v_rule (rule_violation r)) seen) \<longleftrightarrow>
    v_rule (rule_violation r) \<notin> (\<lambda>q. v_rule (rule_violation q)) ` set rs \<and>
    (\<forall>q \<in> set rs. v_rule (rule_violation q) \<notin> seen)"
    unfolding image_iff by (metis insert_iff)
  ultimately show ?case unfolding Cons by (simp, argo)
qed

lemma evaluate_constraints_iff:
  "evaluate_constraints g vals = Inr vs \<longleftrightarrow>
     (\<exists>rules. get_list g ''constraints'' = Some rules \<and> (\<forall>r \<in> set rules. rule_wf vals r) \<and>
        distinct (map (\<lambda>r. v_rule (rule_violation r)) rules) \<and>
        vs = map rule_violation (filter (triggered vals) rules))"
proof (cases "get_list g ''constraints''")
  case (Some rules)
  then have "evaluate_constraints g vals = Inr vs \<longleftrightarrow>
      (\<exists>seen'. foldE (check_rule vals) rules ({}, []) = Inr (seen', vs))"
    by (auto simp: evaluate_constraints_def bindE_Inr_iff)
  then show ?thesis unfolding check_rules_iff Some by auto
qed (simp add: evaluate_constraints_def)

section \<open>Defaults and questions\<close>

lemma update_fresh: "map_of vals f = None \<Longrightarrow> AList.update f v vals = vals @ [(f, v)]"
  by (induction vals) (auto split: if_splits)

definition question_of :: "pyval \<Rightarrow> pystr \<times> (pykey \<times> pyval) list" where
  "question_of r = (case r of PDict q \<Rightarrow> (str_of (obj_get q ''resolves_to''), q) | _ \<Rightarrow> ([], []))"

definition question_wf :: "pyval \<Rightarrow> bool" where
  "question_wf r \<longleftrightarrow> (\<exists>q f. r = PDict q \<and> obj_get q ''resolves_to'' = PStr f)"

definition unanswerable :: "rules \<Rightarrow> inputs \<Rightarrow> pystr \<times> (pykey \<times> pyval) list \<Rightarrow> bool" where
  "unanswerable defaults vals fq \<longleftrightarrow>
     map_of vals (fst fq) = None \<and> map_of defaults (fst fq) = None \<and> obj_get (snd fq) ''default'' = PNone"

lemma check_question_iff:
  "check_question defaults vals r (qs, ms) = Inr st \<longleftrightarrow>
     question_wf r \<and>
     st = (qs @ [question_of r],
           if unanswerable defaults vals (question_of r) then ms @ [missing_question (snd (question_of r))] else ms)"
  by (cases r) (auto simp: question_wf_def question_of_def unanswerable_def str_of_def split: pyval.split)

lemma check_questions_iff:
  "foldE (check_question defaults vals) raw (qs, ms) = Inr st \<longleftrightarrow>
     (\<forall>r \<in> set raw. question_wf r) \<and>
     st = (qs @ map question_of raw,
           ms @ map (\<lambda>fq. missing_question (snd fq)) (filter (unanswerable defaults vals) (map question_of raw)))"
proof (induction raw arbitrary: qs ms)
  case (Cons r raw)
  have "foldE (check_question defaults vals) (r # raw) (qs, ms) = Inr st \<longleftrightarrow>
    question_wf r \<and> foldE (check_question defaults vals) raw (qs @ [question_of r],
      if unanswerable defaults vals (question_of r) then ms @ [missing_question (snd (question_of r))] else ms) = Inr st"
    by (auto simp: bindE_Inr_iff check_question_iff)
  then show ?case using Cons by auto
qed auto

text \<open>Which declared default a field has: a record of the contract with that field and a value.\<close>

definition declared_default :: "pyval list \<Rightarrow> pystr \<Rightarrow> (pykey \<times> pyval) list \<Rightarrow> bool" where
  "declared_default raw f rule \<longleftrightarrow>
     PDict rule \<in> set raw \<and> obj_get rule ''field'' = PStr f \<and> dict_get rule ''value'' \<noteq> None"

lemma default_records_declared:
  assumes "foldE default_record raw [] = Inr defaults" "map_of defaults f = Some rule"
  shows "declared_default raw f rule"
proof -
  have "\<forall>f rule. map_of defaults f = Some rule \<longrightarrow> declared_default raw f rule"
  proof (rule foldE_invariant[OF assms(1)])
    fix r s s' assume r: "r \<in> set raw" "default_record r s = Inr s'"
      and inv: "\<forall>f rule. map_of s f = Some rule \<longrightarrow> declared_default raw f rule"
    obtain kvs field where "r = PDict kvs" "obj_get kvs ''field'' = PStr field"
      "dict_get kvs ''value'' \<noteq> None" "s' = AList.update field kvs s"
      using r(2) by (cases r rule: pyval.exhaust) (auto split: pyval.splits if_splits)
    then show "\<forall>f rule. map_of s' f = Some rule \<longrightarrow> declared_default raw f rule"
      using inv r(1) by (auto simp: update_conv' declared_default_def split: if_splits)
  qed simp
  then show ?thesis using assms(2) by blast
qed

text \<open>
  Every value beyond the supplied ones is accounted for: at the moment it was added it was the value
  of an allowed default whose condition held on the values so far, or the default of a question.
\<close>

definition accounted :: "pyval list \<Rightarrow> pyval list \<Rightarrow> inputs \<Rightarrow> pystr \<times> pyval \<Rightarrow> bool" where
  "accounted defaults_raw questions_raw before fv \<longleftrightarrow>
     map_of before (fst fv) = None \<and>
     ((\<exists>rule. declared_default defaults_raw (fst fv) rule \<and> obj_get rule ''value'' = snd fv \<and>
         only_if_holds rule before = Inr True) \<or>
      (\<exists>q. PDict q \<in> set questions_raw \<and> obj_get q ''resolves_to'' = PStr (fst fv) \<and>
         obj_get q ''default'' = snd fv \<and> snd fv \<noteq> PNone))"

inductive completes :: "pyval list \<Rightarrow> pyval list \<Rightarrow> inputs \<Rightarrow> inputs \<Rightarrow> bool" for ds qs supplied where
  start: "completes ds qs supplied supplied"
| add: "completes ds qs supplied vals \<Longrightarrow> accounted ds qs vals fv \<Longrightarrow> completes ds qs supplied (vals @ [fv])"

lemma completes_extends:
  "completes ds qs supplied vals \<Longrightarrow> map_of supplied f = Some v \<Longrightarrow> map_of vals f = Some v"
  by (induction rule: completes.induct) (auto simp: map_add_def)

lemma answer_question_completes:
  assumes ok: "foldE default_record ds [] = Inr defaults" "q \<in> set qs" "question_wf q"
    and st: "completes ds qs supplied vals" "answer_question defaults (question_of q) (vals, ms) = Inr (vals', ms')"
  shows "completes ds qs supplied vals'"
proof -
  obtain kvs f where q: "q = PDict kvs" "obj_get kvs ''resolves_to'' = PStr f" "question_of q = (f, kvs)"
    using ok(3) by (auto simp: question_wf_def question_of_def str_of_def)
  have "accounted ds qs vals (f, obj_get kvs ''default'')"
    if "map_of vals f = None" "obj_get kvs ''default'' \<noteq> PNone"
    using that ok(2) q by (auto simp: accounted_def)
  moreover have "accounted ds qs vals (f, obj_get rule ''value'')"
    if "map_of vals f = None" "map_of defaults f = Some rule" "only_if_holds rule vals = Inr True" for rule
    using that default_records_declared[OF ok(1) that(2)] by (auto simp: accounted_def)
  ultimately show ?thesis using st completes.add
    by (auto simp: answer_question_def q(3) Let_def bindE_Inr_iff update_fresh split: option.splits if_splits)
qed

lemma apply_default_completes:
  assumes "foldE default_record ds [] = Inr defaults" "map_of defaults f = Some rule"
    and "completes ds qs supplied vals" "apply_default (f, rule) vals = Inr vals'"
  shows "completes ds qs supplied vals'"
proof -
  have "accounted ds qs vals (f, obj_get rule ''value'')"
    if "map_of vals f = None" "only_if_holds rule vals = Inr True"
    using that default_records_declared[OF assms(1,2)] by (auto simp: accounted_def)
  then show ?thesis using assms(3,4) completes.add
    by (auto simp: apply_default_def bindE_Inr_iff update_fresh split: if_splits)
qed

text \<open>A question leaves an answer or a complaint, and neither is ever withdrawn.\<close>

definition answered :: "inputs \<times> pyval list \<Rightarrow> pystr \<Rightarrow> bool" where
  "answered st f \<longleftrightarrow> map_of (fst st) f \<noteq> None \<or> snd st \<noteq> []"

lemma answer_question_answered:
  "answer_question defaults fq st = Inr st' \<Longrightarrow> answered st' (fst fq) \<and> (answered st f \<longrightarrow> answered st' f)"
  by (auto simp: answer_question_def answered_def Let_def bindE_Inr_iff update_conv' split: prod.splits option.splits if_splits)

lemma answer_questions_answered:
  "foldE (answer_question defaults) qs st = Inr st' \<Longrightarrow>
     (\<forall>fq \<in> set qs. answered st' (fst fq)) \<and> (answered st f \<longrightarrow> answered st' f)"
proof (induction qs arbitrary: st f)
  case (Cons q qs)
  then obtain s where s: "answer_question defaults q st = Inr s" "foldE (answer_question defaults) qs s = Inr st'"
    by (auto simp: bindE_Inr_iff)
  show ?case using answer_question_answered[OF s(1)] Cons.IH[OF s(2)] by auto
qed simp

lemma default_records_distinct:
  "foldE default_record raw [] = Inr defaults \<Longrightarrow> distinct (map fst defaults)"
proof (rule foldE_invariant[where P = "\<lambda>d. distinct (map fst d)"])
  fix r and s s' :: rules assume "distinct (map fst s)" "default_record r s = Inr s'"
  then show "distinct (map fst s')"
    by (cases r) (auto simp: distinct_update split: pyval.splits if_splits)
qed auto

lemma effective_values_phases:
  assumes "effective_values g supplied = Inr vals"
  obtains ds qs defaults mid where
    "get_list g ''allowed_defaults'' = Some ds" "get_list g ''required_questions'' = Some qs"
    "foldE default_record ds [] = Inr defaults" "\<forall>q \<in> set qs. question_wf q"
    "foldE (answer_question defaults) (map question_of qs) (supplied, []) = Inr (mid, [])"
    "foldE apply_default defaults mid = Inr vals"
proof -
  obtain ds qs where lists: "get_list g ''allowed_defaults'' = Some ds" "get_list g ''required_questions'' = Some qs"
    using assms by (auto simp: effective_values_def split: option.splits)
  then obtain defaults where d: "foldE default_record ds [] = Inr defaults"
    using assms by (auto simp: effective_values_def bindE_Inr_iff)
  then obtain st where "foldE (check_question defaults supplied) qs ([], []) = Inr st"
    using assms lists by (auto simp: effective_values_def bindE_Inr_iff)
  then have c: "foldE (check_question defaults supplied) qs ([], []) = Inr (map question_of qs,
      map (\<lambda>fq. missing_question (snd fq)) (filter (unanswerable defaults supplied) (map question_of qs)))"
    "\<forall>q \<in> set qs. question_wf q" using check_questions_iff[of defaults supplied qs] by auto
  then obtain mid where "foldE (answer_question defaults) (map question_of qs) (supplied, []) = Inr (mid, [])"
    "foldE apply_default defaults mid = Inr vals"
    using assms unfolding effective_values_def lists d prod.case option.case bindE_simps c(1)
    by (auto simp: bindE_Inr_iff split: if_splits)
  with lists d c(2) show ?thesis by (rule that)
qed

section \<open>A contract to evaluate\<close>

definition demo_guidance :: "(pykey \<times> pyval) list" where
  "demo_guidance =
     [(KS ''required_questions'',
         PList [PDict [(KS ''id'', PStr (lit ''q1'')), (KS ''resolves_to'', PStr (lit ''basis'')),
                       (KS ''ask'', PStr (lit ''Which basis?''))]]),
      (KS ''allowed_defaults'',
         PList [PDict [(KS ''field'', PStr (lit ''basis'')), (KS ''value'', PInt 252)]]),
      (KS ''constraints'',
         PList [PDict [(KS ''id'', PStr (lit ''basis_small'')), (KS ''severity'', PStr warning),
                       (KS ''message'', PStr (lit ''small basis'')),
                       (KS ''when'', PDict [(KS ''left'', PDict [(KS ''field'', PStr (lit ''basis''))]),
                                            (KS ''op'', PStr (lit ''lt'')),
                                            (KS ''right'', PDict [(KS ''value'', PInt 300)])])]])]"

lemma demo_effective: "effective_values demo_guidance [] = Inr [(lit ''basis'', PInt 252)]"
  by code_simp

lemma lit_scalar: "list_all is_scalar (lit s)"
proof -
  have "is_scalar c" if "c \<in> set (lit s)" for c
    using set_lit_less[OF that] by (simp add: is_scalar_def is_surrogate_def)
  then show ?thesis by (simp add: list_all_iff)
qed

lemma demo_constraints:
  "evaluate_constraints demo_guidance [(lit ''basis'', PInt 252)] =
   Inr [\<lparr>v_rule = lit ''basis_small'', v_severity = warning, v_message = lit ''small basis''\<rparr>]"
proof -
  let ?w = "PDict [(KS ''left'', PDict [(KS ''field'', PStr (lit ''basis''))]), (KS ''op'', PStr (lit ''lt'')),
                   (KS ''right'', PDict [(KS ''value'', PInt 300)])]"
  let ?r = "[(KS ''id'', PStr (lit ''basis_small'')), (KS ''severity'', PStr warning),
             (KS ''message'', PStr (lit ''small basis'')), (KS ''when'', ?w)]"
  have ev: "evaluate_expression ?w [(lit ''basis'', PInt 252)] = Inr True" by code_simp
  have get: "obj_get ?r ''id'' = PStr (lit ''basis_small'')" "obj_get ?r ''severity'' = PStr warning"
    "obj_get ?r ''message'' = PStr (lit ''small basis'')" "obj_get ?r ''when'' = ?w"
    by (simp_all add: obj_get_def dict_get_def KS_def)
  have "rule_wf [(lit ''basis'', PInt 252)] (PDict ?r)"
    unfolding rule_wf_def using get ev lit_scalar by (intro exI[of _ ?r]) (auto intro: exI[of _ True])
  moreover have "rule_violation (PDict ?r) =
      \<lparr>v_rule = lit ''basis_small'', v_severity = warning, v_message = lit ''small basis''\<rparr>"
    using get by (simp add: rule_violation_def rule_field_def str_of_def)
  moreover have "triggered [(lit ''basis'', PInt 252)] (PDict ?r)"
    using get ev by (simp add: triggered_def rule_field_def)
  moreover have "get_list demo_guidance ''constraints'' = Some [PDict ?r]"
    by (simp add: get_list_def dict_get_def demo_guidance_def KS_def)
  ultimately show ?thesis unfolding evaluate_constraints_iff by (intro exI[of _ "[PDict ?r]"]) simp
qed

section \<open>The outcome of preflight\<close>

text \<open>Preflight gets as far as its rules: complete values, and rules that can all be evaluated.\<close>

definition preflight_reaches :: "(pykey \<times> pyval) list \<Rightarrow> inputs \<Rightarrow> inputs \<Rightarrow> pyval list \<Rightarrow> bool" where
  "preflight_reaches metadata kwargs vals rules \<longleftrightarrow>
     (\<exists>g. obj_get metadata ''guidance'' = PDict g \<and> effective_values g kwargs = Inr vals \<and>
        get_list g ''constraints'' = Some rules \<and> (\<forall>r \<in> set rules. rule_wf vals r) \<and>
        distinct (map (\<lambda>r. v_rule (rule_violation r)) rules))"

definition blocking_rules :: "inputs \<Rightarrow> pyval list \<Rightarrow> pyval list" where
  "blocking_rules vals rules = filter (\<lambda>r. triggered vals r \<and> rule_field r ''severity'' = PStr blocking) rules"

lemma preflight_reaches_unique:
  "preflight_reaches md kw vals rules \<Longrightarrow> preflight_reaches md kw vals' rules' \<Longrightarrow> vals = vals' \<and> rules = rules'"
  by (auto simp: preflight_reaches_def)

lemma preflight_decided:
  assumes "preflight_reaches metadata kwargs vals rules"
  shows "preflight_metadata metadata kwargs =
    (if blocking_rules vals rules = [] then Inr (map rule_violation (filter (triggered vals) rules))
     else Inl (DomainError (str_join (lit ''; '') (map (\<lambda>r. v_message (rule_violation r)) (blocking_rules vals rules)))
       (map rule_violation (blocking_rules vals rules))))"
proof -
  let ?vs = "map rule_violation (filter (triggered vals) rules)"
  obtain g where g: "obj_get metadata ''guidance'' = PDict g" "effective_values g kwargs = Inr vals"
    "get_list g ''constraints'' = Some rules" and wf: "\<forall>r \<in> set rules. rule_wf vals r"
    and "distinct (map (\<lambda>r. v_rule (rule_violation r)) rules)"
    using assms by (auto simp: preflight_reaches_def)
  then have ev: "evaluate_constraints g vals = Inr ?vs" unfolding evaluate_constraints_iff by blast
  have sev: "(v_severity (rule_violation r) = blocking \<longleftrightarrow> rule_field r ''severity'' = PStr blocking) \<and>
      (v_severity (rule_violation r) = warning \<longleftrightarrow> rule_field r ''severity'' \<noteq> PStr blocking)"
    if "r \<in> set rules" for r
    using wf that by (auto simp: rule_wf_def rule_violation_def rule_field_def str_of_def blocking_def warning_def)
  have bl: "filter (\<lambda>v. v_severity v = blocking) ?vs = map rule_violation (blocking_rules vals rules)"
    unfolding blocking_rules_def filter_map filter_filter o_def using sev by (auto intro!: arg_cong[of _ _ "map _"] filter_cong)
  have wn: "filter (\<lambda>v. v_severity v = warning) ?vs = ?vs" if "blocking_rules vals rules = []"
    using that sev unfolding blocking_rules_def filter_empty_conv by (auto simp: filter_id_conv)
  show ?thesis
    using wn by (simp add: preflight_metadata_def g(1,2) ev bl Let_def comp_def)
qed

text \<open>Nothing before the rules' verdict raises \<^verbatim>\<open>DomainError\<close>.\<close>

named_theorems no_domain_intros \<open>computations that never raise a domain error\<close>

definition no_domain :: "eval_exc + 'a \<Rightarrow> bool" where
  "no_domain m \<longleftrightarrow> (\<forall>s vs. m \<noteq> Inl (DomainError s vs))"

lemma no_domainD: "no_domain m \<Longrightarrow> m \<noteq> Inl (DomainError s vs)"
  by (simp add: no_domain_def)

lemma no_domain_basic [no_domain_intros]:
  "no_domain (Inr a)" "no_domain (contract_error r)" "no_domain (Inl PyOverflowError)" "no_domain (Inl PyAttributeError)"
  "no_domain (Inl PyTypeError)" "no_domain (Inl PyValidationError)" "no_domain (Inl (AmbiguousInput s qs))"
  by (simp_all add: no_domain_def)

lemma no_domain_bindE [no_domain_intros]: "no_domain m \<Longrightarrow> (\<And>a. no_domain (f a)) \<Longrightarrow> no_domain (bindE m f)"
  by (cases m) (auto simp: no_domain_def)

lemma no_domain_if [no_domain_intros]: "no_domain m \<Longrightarrow> no_domain n \<Longrightarrow> no_domain (if b then m else n)"
  by simp

lemma no_domain_option [no_domain_intros]:
  "no_domain m \<Longrightarrow> (\<And>x. no_domain (f x)) \<Longrightarrow> no_domain (case v of None \<Rightarrow> m | Some x \<Rightarrow> f x)"
  by (cases v) simp_all

lemma no_domain_loops [no_domain_intros]:
  "(\<And>x. no_domain (f x)) \<Longrightarrow> no_domain (mapE f xs)" "(\<And>x s. no_domain (g x s)) \<Longrightarrow> no_domain (foldE g xs s)"
  "(\<And>x. no_domain (h x)) \<Longrightarrow> no_domain (allE h xs)" "(\<And>x. no_domain (h x)) \<Longrightarrow> no_domain (anyE h xs)"
proof -
  show "(\<And>x. no_domain (f x)) \<Longrightarrow> no_domain (mapE f xs)" by (induction xs) (auto intro!: no_domain_intros)
  show "(\<And>x s. no_domain (g x s)) \<Longrightarrow> no_domain (foldE g xs s)"
    by (induction xs arbitrary: s) (auto intro!: no_domain_intros)
  show "(\<And>x. no_domain (h x)) \<Longrightarrow> no_domain (allE h xs)" by (induction xs) (auto intro!: no_domain_intros)
  show "(\<And>x. no_domain (h x)) \<Longrightarrow> no_domain (anyE h xs)" by (induction xs) (auto intro!: no_domain_intros)
qed

lemma no_domain_measures [no_domain_intros]:
  "no_domain (sequence v m)" "no_domain (real_of m v)"
  by (cases v; auto intro!: no_domain_intros)+

lemma no_domain_dispatch: "map_of MEASURE_DISPATCH name = Some f \<Longrightarrow> no_domain (f v)"
proof -
  have "no_domain (measure_identity v)" "no_domain (measure_count v)"
    by (cases v; simp add: measure_identity_def no_domain_basic)+
  moreover have "no_domain (measure_stdev v)" unfolding measure_stdev_def
    by (intro no_domain_intros) (auto split: stdev_outcome.split intro!: no_domain_intros)
  moreover have "no_domain (measure_min v)" "no_domain (measure_max v)" unfolding measure_min_def measure_max_def
    by (intro no_domain_intros; auto split: list.split option.split intro!: no_domain_intros)+
  moreover have "no_domain (measure_all_finite v)" unfolding measure_all_finite_def
    by (intro no_domain_intros) (auto split: pyval.split intro!: no_domain_intros)
  moreover have valid: "no_domain (measure_all_valid_calendar_month_labels v)" "no_domain (measure_has_duplicates v)"
    unfolding measure_all_valid_calendar_month_labels_def measure_has_duplicates_def by (intro no_domain_intros)+
  moreover have "no_domain (measure_is_consecutive_calendar_months v)"
    unfolding measure_is_consecutive_calendar_months_def Let_def by (intro no_domain_intros valid)
  moreover have "no_domain (measure_is_strictly_increasing v)" unfolding measure_is_strictly_increasing_def
    by (intro no_domain_intros) (auto split: option.split intro!: no_domain_intros)
  ultimately show "map_of MEASURE_DISPATCH name = Some f \<Longrightarrow> no_domain (f v)"
    by (auto simp: MEASURE_DISPATCH_def split: if_splits)
qed

lemma no_domain_operand [no_domain_intros]: "no_domain (resolve_operand operand vals)"
proof -
  have "no_domain (resolve_field kvs vals)" for kvs
  proof -
    have "no_domain (the (map_of MEASURE_DISPATCH name) v)" if name: "name \<in> MEASURES" for name v
    proof -
      obtain f where "map_of MEASURE_DISPATCH name = Some f"
        using name MEASURE_DISPATCH_total by (cases "map_of MEASURE_DISPATCH name") (auto simp: map_of_eq_None_iff)
      then show ?thesis using no_domain_dispatch by simp
    qed
    then show ?thesis unfolding resolve_field_def Let_def
      by (auto split: pyval.split option.split intro!: no_domain_intros)
  qed
  then show ?thesis unfolding resolve_operand_def Let_def by (auto split: option.split intro!: no_domain_intros)
qed

lemma no_domain_compare [no_domain_intros]: "no_domain (compare op l r)"
proof -
  have "no_domain (ordered op c l r)" for c by (cases "py_cmp c l r") (simp_all add: ordered_def no_domain_basic)
  moreover have "no_domain (in_collection op l r)" by (cases r) (simp_all add: in_collection_def no_domain_basic)
  ultimately show ?thesis unfolding compare_def by (intro no_domain_intros)
qed

lemma no_domain_evaluate [no_domain_intros]: "no_domain (evaluate_at depth e vals)"
proof (induction "4 - depth" arbitrary: depth e rule: less_induct)
  case less
  have cmp: "no_domain (comparison kvs vals)" for kvs
    unfolding comparison_def by (auto split: pyval.split intro!: no_domain_intros)
  show ?case
  proof (cases "depth > MAX_EXPRESSION_DEPTH")
    case True
    then show ?thesis by (simp add: evaluate_at.simps[of depth] no_domain_basic)
  next
    case False
    then have "no_domain (evaluate_at (depth + 1) c vals)" for c by (intro less) (simp add: MAX_EXPRESSION_DEPTH_def)
    then show ?thesis unfolding evaluate_at.simps[of depth] using cmp False
      by (auto split: option.split pyval.split list.split intro!: no_domain_intros simp del: allE.simps anyE.simps)
  qed
qed

lemma no_domain_effective_values: "no_domain (effective_values g supplied)"
proof -
  have "no_domain (default_record d ds)" for d ds by (cases d) (auto split: pyval.split intro!: no_domain_intros)
  moreover have "no_domain (check_question ds vals q st)" for ds vals q st
    by (cases st; cases q) (auto split: pyval.split intro!: no_domain_intros)
  moreover have hold: "no_domain (only_if_holds rule vals)" for rule vals
    unfolding only_if_holds_def evaluate_expression_def by (intro no_domain_intros)
  moreover have "no_domain (answer_question ds fq st)" for ds fq st
    unfolding answer_question_def Let_def by (auto split: prod.split option.split intro!: no_domain_intros hold)
  moreover have "no_domain (apply_default fr vals)" for fr vals
    unfolding apply_default_def Let_def by (auto split: prod.split intro!: no_domain_intros hold)
  ultimately show ?thesis unfolding effective_values_def ambiguous_def
    by (auto split: option.split prod.split intro!: no_domain_intros)
qed

lemma no_domain_evaluate_constraints: "no_domain (evaluate_constraints g vals)"
proof -
  have "no_domain (rule_id r)" "no_domain (rule_message i r)" "no_domain (rule_severity i v)" "no_domain (make_violation i sev msg)"
    for r i v sev msg
    unfolding rule_id_def rule_message_def rule_severity_def make_violation_def
    by (auto split: pyval.split intro!: no_domain_intros)
  then have "no_domain (check_rule vals r st)" for r st
    unfolding check_rule_def Let_def by (auto split: pyval.split prod.split intro!: no_domain_intros)
  then show ?thesis unfolding evaluate_constraints_def by (auto split: option.split prod.split intro!: no_domain_intros)
qed

section \<open>Properties\<close>

text \<open>
  C8 (evaluator_meaning). The recursive evaluator, with its short circuits and depth counter, computes
  the big-step semantics: it returns a Boolean exactly if the expression has that value with at most
  three nested levels, and every other expression is refused with an exception.
\<close>

theorem evaluator_meaning: "evaluate_expression e vals = Inr b \<longleftrightarrow> evals vals MAX_EXPRESSION_DEPTH e b"
  using evaluate_at_iff_evals[of 3] by (simp add: evaluate_expression_def MAX_EXPRESSION_DEPTH_def)

text \<open>
  Evaluation, its errors included, depends only on the input fields the
  expression names.
\<close>

theorem evaluator_frame:
  assumes "\<forall>f \<in> expr_fields e. map_of vs f = map_of ws f"
  shows "evaluate_expression e vs = evaluate_expression e ws"
  using assms unfolding evaluate_expression_def by (blast intro: evaluate_at_frame)

text \<open>
  C14 (effective_values_accounted). The effective values extend the supplied ones, one accounted value
  at a time: nothing supplied is changed, each added value is a declared default whose condition held
  when it was added or the default of a required question, and every required question is answered.
\<close>

theorem effective_values_accounted:
  assumes "effective_values g supplied = Inr vals"
  shows "\<exists>ds qs. get_list g ''allowed_defaults'' = Some ds \<and> get_list g ''required_questions'' = Some qs \<and>
    completes ds qs supplied vals \<and>
    (\<forall>f v. map_of supplied f = Some v \<longrightarrow> map_of vals f = Some v) \<and>
    (\<forall>q \<in> set qs. map_of vals (fst (question_of q)) \<noteq> None)"
proof -
  from assms obtain ds qs defaults mid where p:
    "get_list g ''allowed_defaults'' = Some ds" "get_list g ''required_questions'' = Some qs"
    "foldE default_record ds [] = Inr defaults" "\<forall>q \<in> set qs. question_wf q"
    "foldE (answer_question defaults) (map question_of qs) (supplied, []) = Inr (mid, [])"
    "foldE apply_default defaults mid = Inr vals" by (rule effective_values_phases)
  have "completes ds qs supplied (fst (mid, [] :: pyval list))"
  proof (rule foldE_invariant[OF p(5), where P = "\<lambda>st. completes ds qs supplied (fst st)"])
    fix fq and st st' :: "inputs \<times> pyval list"
    assume "fq \<in> set (map question_of qs)" "completes ds qs supplied (fst st)" "answer_question defaults fq st = Inr st'"
    then show "completes ds qs supplied (fst st')"
      using answer_question_completes[OF p(3)] p(4) by (cases st, cases st') auto
  qed (simp add: completes.start)
  then have mid: "completes ds qs supplied mid" by simp
  have step: "completes ds qs s v \<Longrightarrow> completes ds qs s v'"
    if "fr \<in> set defaults" "apply_default fr v = Inr v'" for fr s v v'
    using that apply_default_completes[OF p(3)] default_records_distinct[OF p(3)]
    by (metis map_of_insertion_order prod.collapse)
  have vals: "completes ds qs supplied vals"
    using foldE_invariant[OF p(6), where P = "completes ds qs supplied"] mid step by blast
  have keep: "map_of mid f \<noteq> None \<Longrightarrow> map_of vals f \<noteq> None" for f
    using foldE_invariant[OF p(6), where P = "completes ds qs mid"] completes.start step completes_extends
    by (metis option.exhaust)
  have "map_of mid (fst (question_of q)) \<noteq> None" if "q \<in> set qs" for q
    using answer_questions_answered[OF p(5)] that by (auto simp: answered_def)
  then show ?thesis using p(1,2) vals keep completes_extends by blast
qed

text \<open>
  When the contract's records are well formed and some required
  question has neither a supplied value nor any default, preflight stops with \<^verbatim>\<open>AmbiguousInput\<close>, and its
  details list exactly those questions, in the order of the contract.
\<close>

theorem unanswerable_questions_reported:
  assumes "get_list g ''allowed_defaults'' = Some ds" "get_list g ''required_questions'' = Some qs"
    and "foldE default_record ds [] = Inr defaults" "\<forall>q \<in> set qs. question_wf q"
    and "\<exists>q \<in> set qs. unanswerable defaults supplied (question_of q)"
  shows "effective_values g supplied =
    Inl (ambiguous (map (\<lambda>fq. missing_question (snd fq))
      (filter (unanswerable defaults supplied) (map question_of qs))))"
proof -
  let ?m = "map (\<lambda>fq. missing_question (snd fq)) (filter (unanswerable defaults supplied) (map question_of qs))"
  have "foldE (check_question defaults supplied) qs ([], []) = Inr (map question_of qs, ?m)"
    using check_questions_iff[of defaults supplied qs "[]" "[]"] assms(4) by simp
  moreover have "?m \<noteq> []" using assms(5) by (auto simp: filter_empty_conv)
  ultimately show ?thesis by (simp add: effective_values_def assms(1-3))
qed

text \<open>
  The constraint loop returns exactly the violations of the triggered rules, in
  contract order, and returns at all exactly if every rule is well formed and evaluable and no id repeats.
\<close>

theorem constraints_exact:
  "evaluate_constraints g vals = Inr vs \<longleftrightarrow>
     (\<exists>rules. get_list g ''constraints'' = Some rules \<and> (\<forall>r \<in> set rules. rule_wf vals r) \<and>
        distinct (map (\<lambda>r. v_rule (rule_violation r)) rules) \<and>
        vs = map rule_violation (filter (triggered vals) rules))"
  by (rule evaluate_constraints_iff)

theorem evaluator_frame_witness:
  "evaluate_expression
     (PDict [(KS ''left'', PDict [(KS ''field'', PStr (lit ''periods''))]), (KS ''op'', PStr (lit ''lt'')),
             (KS ''right'', PDict [(KS ''value'', PInt 2)])])
     [(lit ''periods'', PInt 1)] =
   evaluate_expression
     (PDict [(KS ''left'', PDict [(KS ''field'', PStr (lit ''periods''))]), (KS ''op'', PStr (lit ''lt'')),
             (KS ''right'', PDict [(KS ''value'', PInt 2)])])
     [(lit ''prices'', PList []), (lit ''periods'', PInt 1)]"
  by (rule evaluator_frame) (simp add: dict_get_def KS_def)

theorem effective_values_accounted_witness:
  "\<exists>ds qs. get_list demo_guidance ''allowed_defaults'' = Some ds \<and>
    get_list demo_guidance ''required_questions'' = Some qs \<and> completes ds qs [] [(lit ''basis'', PInt 252)]"
  using effective_values_accounted[OF demo_effective] by blast

theorem unanswerable_questions_reported_witness:
  "effective_values [(KS ''required_questions'', PList [PDict [(KS ''resolves_to'', PStr (lit ''basis''))]])] [] =
   Inl (AmbiguousInput (lit ''required convention-bearing input is missing: basis'')
          [missing_question [(KS ''resolves_to'', PStr (lit ''basis''))]])"
proof -
  let ?g = "[(KS ''required_questions'', PList [PDict [(KS ''resolves_to'', PStr (lit ''basis''))]])]"
  have "effective_values ?g [] =
    Inl (ambiguous (map (\<lambda>fq. missing_question (snd fq))
      (filter (unanswerable [] []) (map question_of [PDict [(KS ''resolves_to'', PStr (lit ''basis''))]]))))"
    by (rule unanswerable_questions_reported[where ds = "[]"])
      (simp_all add: get_list_def dict_get_def KS_def question_wf_def question_of_def obj_get_def unanswerable_def)
  moreover have "ambiguous (map (\<lambda>fq. missing_question (snd fq))
      (filter (unanswerable [] []) (map question_of [PDict [(KS ''resolves_to'', PStr (lit ''basis''))]]))) =
      AmbiguousInput (lit ''required convention-bearing input is missing: basis'')
          [missing_question [(KS ''resolves_to'', PStr (lit ''basis''))]]"
    by code_simp
  ultimately show ?thesis by simp
qed

theorem constraints_exact_witness:
  "\<exists>rules. get_list demo_guidance ''constraints'' = Some rules \<and>
     map rule_violation (filter (triggered [(lit ''basis'', PInt 252)]) rules) =
       [\<lparr>v_rule = lit ''basis_small'', v_severity = warning, v_message = lit ''small basis''\<rparr>]"
  using constraints_exact[THEN iffD1, OF demo_constraints] by metis



end
