(* ===== verification/Plan_Validation.thy ===== *)
theory Plan_Validation
  imports Managed Catalog Constraints
begin

text \<open>
  \<^verbatim>\<open>shared/plan_validation.py\<close>: catalog-aware validation of one atomic plan, manual approval, the capture of
  authorization roots and their revalidation; and \<^verbatim>\<open>preflight\<close> of \<^verbatim>\<open>shared/validation.py\<close> on the catalog.

  \<open>plan_env\<close> holds what lies outside the sources: the packaged policy files with the Pydantic parse of
  their JSON, and the component's own input model, which answers the number of validation errors or the
  validated values. An exception that leaves \<^verbatim>\<open>validate_plan\<close> uncaught is a \<open>plan_exc\<close>.
\<close>

section \<open>Preflight on the catalog\<close>

datatype preflight_exc = CatalogExc cat_exc | EvalExc eval_exc

definition preflight :: "catalog_env \<Rightarrow> pystr \<Rightarrow> inputs \<Rightarrow> preflight_exc + violation list" where
  "preflight env component_id kwargs =
     (case resolve_record env component_id of
        Inl e \<Rightarrow> Inl (CatalogExc e)
      | Inr r \<Rightarrow>
          (case preflight_metadata (co_metadata r) kwargs of
             Inl e \<Rightarrow> Inl (EvalExc e)
           | Inr ws \<Rightarrow> Inr ws))"

section \<open>Packaged policies\<close>

record plan_env =
  pe_catalog :: catalog_env
  pe_policy_file :: "pystr \<Rightarrow> (py_exc + pyval) option"
  pe_parse_policy :: "pyval \<Rightarrow> execution_policy option"
  pe_validate_input :: "component_record \<Rightarrow> (pykey \<times> pyval) list \<Rightarrow> nat + inputs"

fun unique_json_object :: "(pystr \<times> pyval) list \<Rightarrow> (pystr \<times> pyval) list \<Rightarrow> py_exc + (pystr \<times> pyval) list" where
  "unique_json_object result [] = Inr result"
| "unique_json_object result ((key, value) # pairs) =
     (if map_of result key \<noteq> None then Inl (ValueError (lit ''duplicate JSON object key: '' @ key))
      else unique_json_object (result @ [(key, value)]) pairs)"

text \<open>Every failure of \<^verbatim>\<open>load_execution_policy\<close> is a \<^verbatim>\<open>ValueError\<close> or a \<^verbatim>\<open>ValidationError\<close>, which the caller treats alike.\<close>

definition load_execution_policy :: "plan_env \<Rightarrow> pystr \<Rightarrow> execution_policy option" where
  "load_execution_policy env policy_id =
     (if \<not> fullmatch SAFE_ID_PATTERN policy_id then None
      else case pe_policy_file env policy_id of
             Some (Inr raw) \<Rightarrow>
               (case pe_parse_policy env raw of
                  Some policy \<Rightarrow> if ep_policy_id policy \<noteq> policy_id then None else Some policy
                | None \<Rightarrow> None)
           | _ \<Rightarrow> None)"

section \<open>Failures\<close>

datatype plan_exc = PlanPy py_exc | PlanEval eval_exc | PlanCat cat_exc | PlanValidationError

definition MAX_ISSUE_MESSAGE_LENGTH :: nat where
  "MAX_ISSUE_MESSAGE_LENGTH = 500"

definition VALIDATOR :: runner_identity where
  "VALIDATOR = \<lparr>ri_name = lit ''managed_plan_validator'', ri_version = lit ''0.1.0''\<rparr>"

definition PASSED_CHECKS :: "pystr list" where
  "PASSED_CHECKS =
     map lit [''policy_binding'', ''component_identity'', ''lifecycle_opt_in'', ''required_questions'',
              ''managed_input_requirements'', ''component_input_schema'', ''component_constraints'']"

definition normalize_message :: "pystr \<Rightarrow> pystr" where
  "normalize_message message =
     (let joined = str_join [32] (split_words message);
          normalized = (if joined = [] then lit ''managed validation failed'' else joined)
      in if length normalized > MAX_ISSUE_MESSAGE_LENGTH
         then take (MAX_ISSUE_MESSAGE_LENGTH - 3) normalized @ lit ''...'' else normalized)"

definition issue :: "validation_issue_code \<Rightarrow> pystr \<Rightarrow> pystr option \<Rightarrow> plan_exc + validation_issue" where
  "issue code message field =
     (let i = \<lparr>vi_code = code, vi_message = normalize_message message, vi_field = field\<rparr>
      in if validation_issue_valid i then Inr i else Inl PlanValidationError)"

definition lift_py :: "py_exc + 'a \<Rightarrow> plan_exc + 'a" where
  "lift_py r = (case r of Inl e \<Rightarrow> Inl (PlanPy e) | Inr a \<Rightarrow> Inr a)"

definition make_failure ::
  "analysis_plan \<Rightarrow> failure_status \<Rightarrow> validation_issue list \<Rightarrow> clarification_question list \<Rightarrow> plan_exc + validation_failure" where
  "make_failure plan status issues questions =
     bindE (lift_py (plan_hash plan)) (\<lambda>h.
     let f = \<lparr>vf_status = status, vf_plan_hash = h, vf_issues = issues, vf_questions = questions\<rparr>
     in if validation_failure_valid f then Inr f else Inl PlanValidationError)"

definition blocked_failure ::
  "analysis_plan \<Rightarrow> validation_issue_code \<Rightarrow> pystr \<Rightarrow> pystr option \<Rightarrow> plan_exc + validation_failure" where
  "blocked_failure plan code message field =
     bindE (lift_py (plan_hash plan)) (\<lambda>_.
     bindE (issue code message field) (\<lambda>i. make_failure plan BLOCKED [i] []))"

section \<open>Questions\<close>

definition nonempty_str :: "pyval \<Rightarrow> pystr option" where
  "nonempty_str v = (case v of PStr s \<Rightarrow> if s = [] then None else Some s | _ \<Rightarrow> None)"

text \<open>\<open>None\<close>: a \<^verbatim>\<open>ComponentContractError\<close> or a \<^verbatim>\<open>ValidationError\<close>, which every caller treats alike.\<close>

definition contract_question :: "(pykey \<times> pyval) list \<Rightarrow> clarification_question option" where
  "contract_question raw =
     (case (nonempty_str (obj_get raw ''id''), nonempty_str (obj_get raw ''resolves_to''),
            nonempty_str (obj_get raw ''ask''), nonempty_str (obj_get raw ''why'')) of
        (Some i, Some t, Some p, Some m) \<Rightarrow>
          (let q = \<lparr>cq_question_id = i, cq_target_field = t, cq_prompt = p, cq_materiality = m\<rparr>
           in if clarification_question_valid q then Some q else None)
      | _ \<Rightarrow> None)"

text \<open>The generator over the objects of a list: all of them must convert.\<close>

fun contract_questions :: "((pykey \<times> pyval) list \<Rightarrow> clarification_question option) \<Rightarrow> pyval list \<Rightarrow> clarification_question list option" where
  "contract_questions f [] = Some []"
| "contract_questions f (PDict raw # rest) =
     (case f raw of
        None \<Rightarrow> None
      | Some q \<Rightarrow> (case contract_questions f rest of None \<Rightarrow> None | Some qs \<Rightarrow> Some (q # qs)))"
| "contract_questions f (_ # rest) = contract_questions f rest"

definition unresolved_message :: "clarification_question \<Rightarrow> pystr" where
  "unresolved_message q =
     lit ''required question '' @ [39] @ cq_question_id q @ [39] @ lit '' needs caller confirmation''"

definition resolution_of :: "analysis_plan \<Rightarrow> clarification_question \<Rightarrow> resolved_question option" where
  "resolution_of plan q =
     map_of (rev (map (\<lambda>r. ((rs_question_id r, rs_target_field r), r)) (ap_resolved_questions plan)))
       (cq_question_id q, cq_target_field q)"

definition plan_input :: "analysis_plan \<Rightarrow> (pykey \<times> pyval) list" where
  "plan_input plan = ds_input (st_dataset (ap_step plan))"

text \<open>The loop over the contract's questions: an early failure, or the issues and questions still open.\<close>

fun question_loop ::
  "analysis_plan \<Rightarrow> clarification_question list \<Rightarrow> validation_issue list \<times> clarification_question list
     \<Rightarrow> plan_exc + (validation_failure + validation_issue list \<times> clarification_question list)" where
  "question_loop plan [] acc = Inr (Inr acc)"
| "question_loop plan (q # qs) (issues, open_questions) =
     (case resolution_of plan q of
        Some r \<Rightarrow>
          if rs_verification_status r \<noteq> QV_CALLER_CONFIRMED
          then bindE (issue PLAN_REQUIRED_QUESTION_UNRESOLVED (unresolved_message q) (Some (cq_target_field q))) (\<lambda>i.
               question_loop plan qs (issues @ [i], open_questions @ [q]))
          else (case map_of (plan_input plan) (KStr (cq_target_field q)) of
            None \<Rightarrow>
              bindE (blocked_failure plan PLAN_RESOLVED_QUESTION_MISMATCH
                (lit ''resolved question target is absent from the bound dataset input'') (Some (cq_target_field q)))
                (\<lambda>f. Inr (Inl f))
          | Some v \<Rightarrow>
              bindE (lift_py (canonical_json_bytes v)) (\<lambda>bound.
              bindE (lift_py (canonical_json_bytes (rs_answer r))) (\<lambda>answered.
              if bound \<noteq> answered
              then bindE (blocked_failure plan PLAN_RESOLVED_QUESTION_MISMATCH
                     (lit ''resolved question answer does not match the bound dataset input'')
                     (Some (cq_target_field q))) (\<lambda>f. Inr (Inl f))
              else question_loop plan qs (issues, open_questions))))
      | None \<Rightarrow>
          bindE (issue PLAN_REQUIRED_QUESTION_UNRESOLVED (unresolved_message q) (Some (cq_target_field q))) (\<lambda>i.
          question_loop plan qs (issues @ [i], open_questions @ [q])))"

fun question_outcome ::
  "analysis_plan \<Rightarrow> validation_failure + validation_issue list \<times> clarification_question list
     \<Rightarrow> plan_exc + validation_failure option" where
  "question_outcome plan (Inl f) = Inr (Some f)"
| "question_outcome plan (Inr (issues, open_questions)) =
     (if open_questions \<noteq> []
      then bindE (make_failure plan NEEDS_INFORMATION issues open_questions) (\<lambda>f. Inr (Some f))
      else Inr None)"

definition validate_required_questions ::
  "analysis_plan \<Rightarrow> (pykey \<times> pyval) list \<Rightarrow> plan_exc + validation_failure option" where
  "validate_required_questions plan guidance =
     (let contract_blocked = (\<lambda>m. bindE (blocked_failure plan VI_COMPONENT_CONTRACT_ERROR (lit m) None) (\<lambda>f. Inr (Some f))) in
      case get_list guidance ''required_questions'' of
        None \<Rightarrow> contract_blocked ''component required_questions must be a list''
      | Some raw_questions \<Rightarrow>
          (case contract_questions contract_question raw_questions of
             None \<Rightarrow> contract_blocked ''component required-question metadata is invalid''
           | Some questions \<Rightarrow>
               if length questions \<noteq> length raw_questions
               then contract_blocked ''component required_questions contains a non-object entry''
               else if \<not> set (map (\<lambda>r. (rs_question_id r, rs_target_field r)) (ap_resolved_questions plan))
                         \<subseteq> set (map (\<lambda>q. (cq_question_id q, cq_target_field q)) questions)
               then bindE (blocked_failure plan PLAN_RESOLVED_QUESTION_MISMATCH
                      (lit ''plan contains a resolved question not declared by the component contract'') None)
                      (\<lambda>f. Inr (Some f))
               else bindE (question_loop plan questions ([], [])) (question_outcome plan)))"

text \<open>The question an \<^verbatim>\<open>AmbiguousInput\<close> reports names its target as \<^verbatim>\<open>field\<close>.\<close>

definition ambiguity_question :: "(pykey \<times> pyval) list \<Rightarrow> clarification_question option" where
  "ambiguity_question raw =
     contract_question [(KS ''id'', obj_get raw ''id''), (KS ''resolves_to'', obj_get raw ''field''),
                        (KS ''ask'', obj_get raw ''ask''), (KS ''why'', obj_get raw ''why'')]"

definition ambiguity_failure :: "analysis_plan \<Rightarrow> pyval list \<Rightarrow> plan_exc + validation_failure" where
  "ambiguity_failure plan raw_questions =
     (if raw_questions = []
      then blocked_failure plan VI_COMPONENT_CONTRACT_ERROR
             (lit ''component reported ambiguity without valid clarification questions'') None
      else case contract_questions ambiguity_question raw_questions of
        None \<Rightarrow> blocked_failure plan VI_COMPONENT_CONTRACT_ERROR (lit ''component ambiguity metadata is invalid'') None
      | Some questions \<Rightarrow>
          if length questions \<noteq> length raw_questions
          then blocked_failure plan VI_COMPONENT_CONTRACT_ERROR
                 (lit ''component ambiguity contains a non-object clarification question'') None
          else bindE (lift_py (plan_hash plan)) (\<lambda>_.
               bindE (mapE (\<lambda>q. issue PLAN_REQUIRED_QUESTION_UNRESOLVED (unresolved_message q) (Some (cq_target_field q))) questions)
                 (\<lambda>issues. make_failure plan NEEDS_INFORMATION issues questions)))"

section \<open>Requirements and rules\<close>

definition is_empty :: "pyval \<Rightarrow> bool" where
  "is_empty v = (v = PStr [] \<or> v = PList [] \<or> v = PTuple [] \<or> v = PDict [])"

definition requirement_missing :: "analysis_plan \<Rightarrow> input_requirement \<Rightarrow> bool" where
  "requirement_missing plan r =
     (case map_of (plan_input plan) (KStr (rq_field r)) of
        None \<Rightarrow> True
      | Some v \<Rightarrow> v = PNone \<or> rq_non_empty r \<and> is_empty v)"

fun requirement_issue_code :: "requirement_failure_code \<Rightarrow> validation_issue_code" where
  "requirement_issue_code RF_REQUIRED_INPUT_MISSING = MANAGED_REQUIRED_INPUT_MISSING"
| "requirement_issue_code RF_TIMESTAMP_REQUIRED = MANAGED_TIMESTAMP_REQUIRED"

fun managed_requirements :: "analysis_plan \<Rightarrow> input_requirement list \<Rightarrow> plan_exc + validation_failure option" where
  "managed_requirements plan [] = Inr None"
| "managed_requirements plan (r # rs) =
     (if requirement_missing plan r
      then bindE (blocked_failure plan (requirement_issue_code (rq_failure_code r))
             (lit ''managed profile requires non-empty input field '' @ [39] @ rq_field r @ [39]) (Some (rq_field r)))
             (\<lambda>f. Inr (Some f))
      else managed_requirements plan rs)"

definition validate_managed_requirements ::
  "analysis_plan \<Rightarrow> managed_component_rule \<Rightarrow> plan_exc + validation_failure option" where
  "validate_managed_requirements plan rule = managed_requirements plan (mr_requirements rule)"

definition matching_rule ::
  "analysis_plan \<Rightarrow> execution_policy \<Rightarrow> plan_exc + (validation_failure + managed_component_rule)" where
  "matching_rule plan policy =
     (let profile_rules = filter (\<lambda>r. mr_profile_id r = st_profile_id (ap_step plan)) (ep_components policy) in
      if profile_rules = []
      then bindE (blocked_failure plan EXECUTION_SCOPE_DENIED
             (lit ''plan profile is not allowed by the execution policy'') (Some (lit ''profile_id''))) (\<lambda>f. Inr (Inl f))
      else case find (\<lambda>r. mr_component r = st_component (ap_step plan)) profile_rules of
             Some r \<Rightarrow> Inr (Inr r)
           | None \<Rightarrow>
               bindE (blocked_failure plan PLAN_COMPONENT_IDENTITY_MISMATCH
                 (lit ''plan component identity is not the exact subject allowed by its profile'')
                 (Some (lit ''component''))) (\<lambda>f. Inr (Inl f)))"

section \<open>Validation\<close>

text \<open>The catalog errors that \<^verbatim>\<open>validate_plan\<close> catches; a Unicode error is not one of them.\<close>

fun caught :: "cat_exc \<Rightarrow> bool" where
  "caught (ComponentContractError _ _) = True"
| "caught (ComponentLoadError _) = True"
| "caught (ComponentNotFound _) = True"
| "caught _ = False"

fun lifecycle_of :: "pyval \<Rightarrow> component_lifecycle option" where
  "lifecycle_of (PStr s) =
     (if s = lit ''draft'' then Some LC_DRAFT
      else if s = lit ''published'' then Some LC_PUBLISHED
      else if s = lit ''deprecated'' then Some LC_DEPRECATED else None)"
| "lifecycle_of _ = None"

type_synonym validation_outcome = "plan_exc + (validation_failure + validation_receipt)"

definition block :: "analysis_plan \<Rightarrow> validation_issue_code \<Rightarrow> pystr \<Rightarrow> pystr option \<Rightarrow> validation_outcome" where
  "block plan code message field = bindE (blocked_failure plan code message field) (\<lambda>f. Inr (Inl f))"

text \<open>
  The installed component: its record, and whether version and subject are exactly the plan's.
  \<^verbatim>\<open>verify_subject\<close> runs only when the version agrees, and it renews the subject cache.
\<close>

definition installed_component ::
  "plan_env \<Rightarrow> analysis_plan \<Rightarrow> subject_cache \<Rightarrow> (cat_exc + component_record \<times> bool) \<times> subject_cache" where
  "installed_component env plan cache =
     (let component = st_component (ap_step plan) in
      case resolve_record (pe_catalog env) (cr_id component) of
        Inl e \<Rightarrow> (Inl e, cache)
      | Inr r \<Rightarrow>
          if co_version r \<noteq> cr_version component then (Inr (r, False), cache)
          else case verify_subject (pe_catalog env) (co_id r) cache of
                 (Inl e, cache') \<Rightarrow> (Inl e, cache')
               | (Inr h, cache') \<Rightarrow> (Inr (r, h = cr_subject_hash component), cache'))"

definition make_receipt :: "analysis_plan \<Rightarrow> execution_policy \<Rightarrow> validation_outcome" where
  "make_receipt plan policy =
     bindE (lift_py (plan_hash plan)) (\<lambda>ph.
     bindE (lift_py (policy_hash policy)) (\<lambda>qh.
     bindE (lift_py (dataset_hash (st_dataset (ap_step plan)))) (\<lambda>dh.
     let r = \<lparr>vr_plan_hash = ph, vr_policy_hash = qh, vr_component = st_component (ap_step plan),
              vr_dataset_hash = dh, vr_validator = VALIDATOR, vr_checks = PASSED_CHECKS\<rparr>
     in if validation_receipt_valid r then Inr (Inr r) else Inl PlanValidationError)))"

text \<open>The component's own constraints, on the values its input model validated.\<close>

definition validate_constraints ::
  "plan_env \<Rightarrow> analysis_plan \<Rightarrow> execution_policy \<Rightarrow> inputs \<Rightarrow> validation_outcome" where
  "validate_constraints env plan policy kwargs =
     (case preflight (pe_catalog env) (cr_id (st_component (ap_step plan))) kwargs of
        Inr _ \<Rightarrow> make_receipt plan policy
      | Inl (EvalExc (AmbiguousInput _ questions)) \<Rightarrow> bindE (ambiguity_failure plan questions) (\<lambda>f. Inr (Inl f))
      | Inl (EvalExc (ContractEvaluationError _)) \<Rightarrow>
          block plan VI_COMPONENT_CONTRACT_ERROR (lit ''component constraint contract could not be evaluated'') None
      | Inl (EvalExc (DomainError message _)) \<Rightarrow> block plan COMPONENT_CONSTRAINT_VIOLATION message None
      | Inl (EvalExc e) \<Rightarrow> Inl (PlanEval e)
      | Inl (CatalogExc e) \<Rightarrow>
          if caught e
          then block plan VI_COMPONENT_CONTRACT_ERROR (lit ''component constraints could not be validated'') None
          else Inl (PlanCat e))"

definition validate_input ::
  "plan_env \<Rightarrow> analysis_plan \<Rightarrow> execution_policy \<Rightarrow> component_record \<Rightarrow> validation_outcome" where
  "validate_input env plan policy r =
     (case component_models (pe_catalog env) r of
        Inl e \<Rightarrow>
          if caught e
          then block plan VI_COMPONENT_CONTRACT_ERROR
                 (lit ''installed component input model could not be validated'') (Some (lit ''component''))
          else Inl (PlanCat e)
      | Inr _ \<Rightarrow>
          (case pe_validate_input env r (plan_input plan) of
             Inl count \<Rightarrow>
               block plan VI_INVALID_COMPONENT_INPUT
                 (lit ''component input does not match its closed Pydantic schema ('' @ nat_repr count @
                  lit '' validation error(s))'') (Some (lit ''input''))
           | Inr kwargs \<Rightarrow> validate_constraints env plan policy kwargs))"

definition validate_contract ::
  "plan_env \<Rightarrow> analysis_plan \<Rightarrow> execution_policy \<Rightarrow> managed_component_rule \<Rightarrow> component_record \<Rightarrow> validation_outcome" where
  "validate_contract env plan policy rule r =
     (case lifecycle_of (mget (co_metadata r) ''lifecycle'') of
        None \<Rightarrow>
          block plan VI_COMPONENT_CONTRACT_ERROR (lit ''installed component has an invalid lifecycle'')
            (Some (lit ''component_lifecycle''))
      | Some installed \<Rightarrow>
          if st_lifecycle (ap_step plan) \<noteq> installed \<or> installed \<noteq> mr_allowed_lifecycle rule \<or>
             (mr_explicit_opt_in rule \<and> \<not> st_explicit_draft_opt_in (ap_step plan))
          then block plan PLAN_COMPONENT_LIFECYCLE_DENIED
                 (lit ''component lifecycle or required explicit opt-in is not authorized'')
                 (Some (lit ''component_lifecycle''))
          else case mget (co_metadata r) ''guidance'' of
            PDict guidance \<Rightarrow>
              bindE (validate_required_questions plan guidance) (\<lambda>qf.
              case qf of
                Some f \<Rightarrow> Inr (Inl f)
              | None \<Rightarrow>
                  bindE (validate_managed_requirements plan rule) (\<lambda>rf.
                  case rf of
                    Some f \<Rightarrow> Inr (Inl f)
                  | None \<Rightarrow> validate_input env plan policy r))
          | _ \<Rightarrow> block plan VI_COMPONENT_CONTRACT_ERROR (lit ''component guidance must be an object'') None)"

definition validate_plan ::
  "plan_env \<Rightarrow> analysis_plan \<Rightarrow> execution_policy \<Rightarrow> subject_cache \<Rightarrow> validation_outcome \<times> subject_cache" where
  "validate_plan env plan policy cache =
     (case policy_hash policy of
        Inl e \<Rightarrow> (Inl (PlanPy e), cache)
      | Inr policy_digest \<Rightarrow>
      if ap_policy_hash plan \<noteq> policy_digest
      then (block plan PLAN_POLICY_MISMATCH (lit ''plan does not bind the supplied execution policy'')
              (Some (lit ''execution_policy_hash'')), cache)
      else case load_execution_policy env (ep_policy_id policy) of
        None \<Rightarrow>
          (block plan EXECUTION_SCOPE_DENIED (lit ''execution policy is not an installed packaged allowlist'')
             (Some (lit ''execution_policy_hash'')), cache)
      | Some packaged \<Rightarrow>
      if packaged \<noteq> policy
      then (block plan EXECUTION_SCOPE_DENIED (lit ''execution policy differs from the packaged allowlist'')
              (Some (lit ''execution_policy_hash'')), cache)
      else case matching_rule plan policy of
        Inl e \<Rightarrow> (Inl e, cache)
      | Inr (Inl f) \<Rightarrow> (Inr (Inl f), cache)
      | Inr (Inr rule) \<Rightarrow>
      (case installed_component env plan cache of
         (Inl e, cache') \<Rightarrow>
           (if caught e
            then block plan VI_COMPONENT_CONTRACT_ERROR
                   (lit ''installed component identity or contract could not be validated'') (Some (lit ''component''))
            else Inl (PlanCat e), cache')
       | (Inr (r, False), cache') \<Rightarrow>
           (block plan PLAN_COMPONENT_IDENTITY_MISMATCH
              (lit ''installed component does not match the plan's exact version and subject'')
              (Some (lit ''component'')), cache')
       | (Inr (r, True), cache') \<Rightarrow> (validate_contract env plan policy rule r, cache')))"

section \<open>Approval and authorization\<close>

definition create_manual_approval ::
  "validation_receipt \<Rightarrow> pystr \<Rightarrow> pystr \<Rightarrow> pystr option \<Rightarrow> plan_exc + approval_record" where
  "create_manual_approval receipt approved_by approved_at note =
     bindE (lift_py (receipt_hash receipt)) (\<lambda>rh.
     let a = \<lparr>ar_plan_hash = vr_plan_hash receipt, ar_receipt_hash = rh, ar_approved_by = approved_by,
              ar_approved_at = approved_at, ar_note = note\<rparr>
     in if approval_record_valid a then Inr a else Inl PlanValidationError)"

definition create_authorization_binding ::
  "analysis_plan \<Rightarrow> validation_receipt \<Rightarrow> approval_record \<Rightarrow> plan_exc + authorization_binding" where
  "create_authorization_binding plan receipt approval =
     bindE (lift_py (plan_hash plan)) (\<lambda>ph.
     if vr_plan_hash receipt \<noteq> ph
     then Inl (PlanPy (ValueError (lit ''validation receipt does not bind the supplied plan'')))
     else if ar_plan_hash approval \<noteq> ph
     then Inl (PlanPy (ValueError (lit ''manual approval does not bind the supplied plan'')))
     else bindE (lift_py (receipt_hash receipt)) (\<lambda>rh.
     if ar_receipt_hash approval \<noteq> rh
     then Inl (PlanPy (ValueError (lit ''manual approval does not bind the supplied validation receipt'')))
     else bindE (lift_py (approval_hash approval)) (\<lambda>ah.
     bindE (lift_py (dataset_hash (st_dataset (ap_step plan)))) (\<lambda>dh.
     let b = \<lparr>ab_plan_hash = ph, ab_receipt_hash = rh, ab_approval_hash = ah,
              ab_component = st_component (ap_step plan), ab_dataset_hash = dh\<rparr>
     in if authorization_binding_valid b then Inr b else Inl PlanValidationError))))"

abbreviation refuse ::
  "authorization_error_code \<Rightarrow> string \<Rightarrow> subject_cache \<Rightarrow> (plan_exc + authorization_outcome) \<times> subject_cache" where
  "refuse code message cache \<equiv> (Inr (AuthorizationFailure code (lit message)), cache)"

text \<open>The tail of the chain, once the receipt has been reproduced.\<close>

definition verify_approval ::
  "analysis_plan \<Rightarrow> validation_receipt \<Rightarrow> approval_record \<Rightarrow> authorization_binding \<Rightarrow> pystr \<Rightarrow> pystr \<Rightarrow> subject_cache
     \<Rightarrow> (plan_exc + authorization_outcome) \<times> subject_cache" where
  "verify_approval plan receipt approval binding plan_digest receipt_digest cache =
     (if ar_plan_hash approval \<noteq> plan_digest \<or> ar_receipt_hash approval \<noteq> receipt_digest
      then refuse APPROVAL_BINDING_MISMATCH ''manual approval does not bind the current plan and validation receipt'' cache
      else case approval_hash approval of
        Inl _ \<Rightarrow> refuse APPROVAL_BINDING_MISMATCH ''manual approval is no longer canonically hashable'' cache
      | Inr approval_digest \<Rightarrow>
      if ab_approval_hash binding \<noteq> approval_digest
      then refuse APPROVAL_BINDING_MISMATCH ''manual approval changed after authorization roots were captured'' cache
      else case create_authorization_binding plan receipt approval of
        Inl e \<Rightarrow> (Inl e, cache)
      | Inr expected \<Rightarrow>
      if binding \<noteq> expected
      then refuse AUTHORIZATION_BINDING_MISMATCH
             ''authorization binding differs from the reproduced authorization roots'' cache
      else (Inr (AuthorizationSuccess binding), cache))"

definition verify_authorization ::
  "plan_env \<Rightarrow> analysis_plan \<Rightarrow> validation_receipt \<Rightarrow> approval_record \<Rightarrow> authorization_binding \<Rightarrow> execution_policy
     \<Rightarrow> subject_cache \<Rightarrow> (plan_exc + authorization_outcome) \<times> subject_cache" where
  "verify_authorization env plan receipt approval binding policy cache =
     (if ab_component binding \<noteq> st_component (ap_step plan) \<or> vr_component receipt \<noteq> st_component (ap_step plan)
      then refuse COMPONENT_BINDING_MISMATCH ''component identity changed after authorization'' cache
      else case dataset_hash (st_dataset (ap_step plan)) of
        Inl _ \<Rightarrow> refuse DATASET_BINDING_MISMATCH ''dataset content is no longer canonically hashable'' cache
      | Inr dataset_digest \<Rightarrow>
      if ab_dataset_hash binding \<noteq> dataset_digest \<or> vr_dataset_hash receipt \<noteq> dataset_digest
      then refuse DATASET_BINDING_MISMATCH ''dataset content or timestamps changed after authorization'' cache
      else case policy_hash policy of
        Inl _ \<Rightarrow> refuse POLICY_BINDING_MISMATCH ''execution policy is no longer canonically hashable'' cache
      | Inr policy_digest \<Rightarrow>
      if ap_policy_hash plan \<noteq> policy_digest \<or> vr_policy_hash receipt \<noteq> policy_digest
      then refuse POLICY_BINDING_MISMATCH ''execution policy changed after plan validation'' cache
      else case plan_hash plan of
        Inl _ \<Rightarrow> refuse PLAN_REVISION_STALE ''plan content is no longer canonically hashable'' cache
      | Inr plan_digest \<Rightarrow>
      if ab_plan_hash binding \<noteq> plan_digest \<or> vr_plan_hash receipt \<noteq> plan_digest
      then refuse PLAN_REVISION_STALE ''plan revision changed after validation'' cache
      else case receipt_hash receipt of
        Inl _ \<Rightarrow> refuse VALIDATION_RECEIPT_MISMATCH ''validation receipt is no longer canonically hashable'' cache
      | Inr receipt_digest \<Rightarrow>
      if ab_receipt_hash binding \<noteq> receipt_digest
      then refuse VALIDATION_RECEIPT_MISMATCH
             ''validation receipt changed after authorization roots were captured'' cache
      else case validate_plan env plan policy cache of
        (Inl e, cache') \<Rightarrow> (Inl e, cache')
      | (Inr outcome, cache') \<Rightarrow>
      if outcome \<noteq> Inr receipt
      then refuse VALIDATION_RECEIPT_MISMATCH
             ''validation receipt cannot be reproduced from the current plan and policy'' cache'
      else verify_approval plan receipt approval binding plan_digest receipt_digest cache')"

section \<open>What a failure is\<close>

lemma lift_py_Inr_iff [simp]: "lift_py r = Inr a \<longleftrightarrow> r = Inr a"
  by (cases r) (auto simp: lift_py_def)

definition failure_of :: "analysis_plan \<Rightarrow> validation_failure \<Rightarrow> bool" where
  "failure_of plan f \<longleftrightarrow> validation_failure_valid f \<and> plan_hash plan = Inr (vf_plan_hash f)"

lemma make_failure_of: "make_failure plan s is qs = Inr f \<Longrightarrow> failure_of plan f"
  by (auto simp: make_failure_def failure_of_def bindE_Inr_iff Let_def split: if_splits)

lemma blocked_failure_of: "blocked_failure plan c m x = Inr f \<Longrightarrow> failure_of plan f"
  by (auto simp: blocked_failure_def bindE_Inr_iff dest: make_failure_of)

lemma block_failure: "block plan c m x = Inr z \<Longrightarrow> \<exists>f. z = Inl f \<and> failure_of plan f"
  by (auto simp: block_def bindE_Inr_iff dest: blocked_failure_of)

lemma block_not_receipt [simp]: "block plan c m x \<noteq> Inr (Inr r)"
  by (auto dest: block_failure)

lemma question_loop_failure: "question_loop plan qs acc = Inr (Inl f) \<Longrightarrow> failure_of plan f"
  by (induction plan qs acc rule: question_loop.induct)
    (auto simp: bindE_Inr_iff split: option.splits if_splits dest: blocked_failure_of)

lemma question_outcome_Some:
  "question_outcome plan out = Inr (Some f) \<Longrightarrow>
     out = Inl f \<or> (\<exists>is os. make_failure plan NEEDS_INFORMATION is os = Inr f)"
  by (cases "(plan, out)" rule: question_outcome.cases) (auto simp: bindE_Inr_iff split: if_splits)

lemma question_outcome_None: "question_outcome plan out = Inr None \<longleftrightarrow> (\<exists>is. out = Inr (is, []))"
  by (cases "(plan, out)" rule: question_outcome.cases) (auto simp: bindE_Inr_iff)

lemma validate_required_questions_failure: "validate_required_questions plan g = Inr (Some f) \<Longrightarrow> failure_of plan f"
  by (auto simp: validate_required_questions_def Let_def bindE_Inr_iff split: option.splits if_splits
      dest!: question_outcome_Some dest: blocked_failure_of make_failure_of question_loop_failure)

lemma ambiguity_failure_of: "ambiguity_failure plan qs = Inr f \<Longrightarrow> failure_of plan f"
  by (auto simp: ambiguity_failure_def bindE_Inr_iff split: if_splits option.splits
      dest: blocked_failure_of make_failure_of)

lemma managed_requirements_failure: "managed_requirements plan rs = Inr (Some f) \<Longrightarrow> failure_of plan f"
  by (induction plan rs rule: managed_requirements.induct)
    (auto simp: bindE_Inr_iff split: if_splits dest: blocked_failure_of)

lemma matching_rule_failure: "matching_rule plan policy = Inr (Inl f) \<Longrightarrow> failure_of plan f"
  by (auto simp: matching_rule_def Let_def bindE_Inr_iff split: if_splits option.splits dest: blocked_failure_of)

lemma make_receipt_not_failure [simp]: "make_receipt plan policy \<noteq> Inr (Inl f)"
  by (auto simp: make_receipt_def bindE_Inr_iff Let_def split: if_splits)

lemma validate_constraints_failure:
  "validate_constraints env plan policy kwargs = Inr (Inl f) \<Longrightarrow> failure_of plan f"
  by (auto simp: validate_constraints_def bindE_Inr_iff split: sum.splits preflight_exc.splits eval_exc.splits if_splits
      dest: block_failure ambiguity_failure_of)

lemma validate_input_failure: "validate_input env plan policy r = Inr (Inl f) \<Longrightarrow> failure_of plan f"
  by (auto simp: validate_input_def split: sum.splits if_splits dest: block_failure validate_constraints_failure)

lemma validate_contract_failure: "validate_contract env plan policy rule r = Inr (Inl f) \<Longrightarrow> failure_of plan f"
  by (auto simp: validate_contract_def bindE_Inr_iff validate_managed_requirements_def
      split: option.splits if_splits pyval.splits
      dest: block_failure validate_required_questions_failure managed_requirements_failure validate_input_failure)

lemma validate_plan_failure: "validate_plan env plan policy cache = (Inr (Inl f), cache') \<Longrightarrow> failure_of plan f"
  by (auto simp: validate_plan_def split: sum.splits option.splits if_splits prod.splits bool.splits
      dest: block_failure matching_rule_failure validate_contract_failure)

section \<open>What a receipt proves\<close>

text \<open>A question of the contract that the plan answers, confirmed by the caller and equal to the bound input.\<close>

definition question_settled :: "analysis_plan \<Rightarrow> clarification_question \<Rightarrow> bool" where
  "question_settled plan q \<longleftrightarrow>
     (\<exists>r v b. resolution_of plan q = Some r \<and> rs_verification_status r = QV_CALLER_CONFIRMED \<and>
        map_of (plan_input plan) (KStr (cq_target_field q)) = Some v \<and>
        canonical_json_bytes v = Inr b \<and> canonical_json_bytes (rs_answer r) = Inr b)"

lemma question_loop_settled:
  "question_loop plan qs (is, os) = Inr (Inr (is', os')) \<Longrightarrow>
     length os \<le> length os' \<and> (length os' = length os \<longrightarrow> (\<forall>q \<in> set qs. question_settled plan q))"
proof (induction qs arbitrary: "is" os)
  case (Cons q qs)
  show ?case
  proof (cases "question_settled plan q")
    case True
    then have "question_loop plan qs (is, os) = Inr (Inr (is', os'))"
      using Cons.prems by (auto simp: question_settled_def lift_py_def)
    then show ?thesis using Cons.IH True by simp
  next
    case False
    then obtain i where "question_loop plan qs (is @ [i], os @ [q]) = Inr (Inr (is', os'))"
      using Cons.prems by (auto simp: question_settled_def bindE_Inr_iff split: option.splits if_splits)
    then have "length (os @ [q]) \<le> length os'" using Cons.IH by blast
    then show ?thesis by simp
  qed
qed simp

lemma validate_required_questions_settled:
  assumes "validate_required_questions plan g = Inr None"
  obtains raw qs where "get_list g ''required_questions'' = Some raw"
    "contract_questions contract_question raw = Some qs" "length qs = length raw"
    "\<forall>q \<in> set qs. question_settled plan q"
    "set (map (\<lambda>r. (rs_question_id r, rs_target_field r)) (ap_resolved_questions plan))
       \<subseteq> set (map (\<lambda>q. (cq_question_id q, cq_target_field q)) qs)"
proof -
  obtain raw qs "is" where c: "get_list g ''required_questions'' = Some raw"
    "contract_questions contract_question raw = Some qs" "length qs = length raw"
    "set (map (\<lambda>r. (rs_question_id r, rs_target_field r)) (ap_resolved_questions plan))
       \<subseteq> set (map (\<lambda>q. (cq_question_id q, cq_target_field q)) qs)"
    "question_loop plan qs ([], []) = Inr (Inr (is, []))"
    using assms by (auto simp: validate_required_questions_def Let_def bindE_Inr_iff question_outcome_None
        split: option.splits if_splits)
  then show ?thesis using question_loop_settled[OF c(5)] that by simp
qed

lemma managed_requirements_met:
  "managed_requirements plan rs = Inr None \<Longrightarrow> \<forall>r \<in> set rs. \<not> requirement_missing plan r"
  by (induction plan rs rule: managed_requirements.induct) (auto simp: bindE_Inr_iff split: if_splits)

lemma matching_rule_found:
  assumes "matching_rule plan policy = Inr (Inr rule)"
  shows "rule \<in> set (ep_components policy) \<and> mr_profile_id rule = st_profile_id (ap_step plan) \<and>
    mr_component rule = st_component (ap_step plan)"
  using assms
  by (auto simp: matching_rule_def Let_def bindE_Inr_iff split: if_splits option.splits dest!: find_SomeD)

definition receipt_for :: "analysis_plan \<Rightarrow> execution_policy \<Rightarrow> validation_receipt \<Rightarrow> bool" where
  "receipt_for plan policy r \<longleftrightarrow>
     validation_receipt_valid r \<and> plan_hash plan = Inr (vr_plan_hash r) \<and> policy_hash policy = Inr (vr_policy_hash r) \<and>
     dataset_hash (st_dataset (ap_step plan)) = Inr (vr_dataset_hash r) \<and>
     vr_component r = st_component (ap_step plan) \<and> vr_validator r = VALIDATOR \<and> vr_checks r = PASSED_CHECKS"

lemma make_receipt_iff: "make_receipt plan policy = Inr (Inr r) \<longleftrightarrow> receipt_for plan policy r"
  by (cases r) (auto simp: make_receipt_def receipt_for_def bindE_Inr_iff Let_def if_Inl_Inr_iff)

lemma validate_constraints_receipt:
  "validate_constraints env plan policy kwargs = Inr (Inr r) \<longleftrightarrow>
     is_ok (preflight (pe_catalog env) (cr_id (st_component (ap_step plan))) kwargs) \<and> receipt_for plan policy r"
  by (auto simp: validate_constraints_def bindE_Inr_iff make_receipt_iff
      split: sum.splits preflight_exc.splits eval_exc.splits if_splits)

lemma validate_input_receipt:
  "validate_input env plan policy c = Inr (Inr r) \<longleftrightarrow>
     is_ok (component_models (pe_catalog env) c) \<and>
     (\<exists>kwargs. pe_validate_input env c (plan_input plan) = Inr kwargs \<and>
        is_ok (preflight (pe_catalog env) (cr_id (st_component (ap_step plan))) kwargs)) \<and>
     receipt_for plan policy r"
  by (auto simp: validate_input_def validate_constraints_receipt split: sum.splits if_splits)

end
