(* ===== verification/Authorization.thy ===== *)
theory Authorization
  imports Plan_Validation
begin

text \<open>
  What the managed authorization chain guarantees: what a validation receipt proves, that every refusal is
  well formed and bound to its plan, what a verified authorization binds, and that an honest chain verifies.
\<close>

section \<open>Receipts\<close>

definition lifecycle_authorized :: "analysis_plan \<Rightarrow> managed_component_rule \<Rightarrow> component_record \<Rightarrow> bool" where
  "lifecycle_authorized plan rule c \<longleftrightarrow>
     lifecycle_of (mget (co_metadata c) ''lifecycle'') = Some (mr_allowed_lifecycle rule) \<and>
     st_lifecycle (ap_step plan) = mr_allowed_lifecycle rule \<and>
     (mr_explicit_opt_in rule \<longrightarrow> st_explicit_draft_opt_in (ap_step plan))"

text \<open>The caller has confirmed every question of the contract, and answers no other.\<close>

definition questions_settled :: "analysis_plan \<Rightarrow> component_record \<Rightarrow> bool" where
  "questions_settled plan c \<longleftrightarrow>
     (\<exists>g raw qs. mget (co_metadata c) ''guidance'' = PDict g \<and> get_list g ''required_questions'' = Some raw \<and>
        contract_questions contract_question raw = Some qs \<and> length qs = length raw \<and>
        (\<forall>r \<in> set (ap_resolved_questions plan). \<exists>q \<in> set qs.
           cq_question_id q = rs_question_id r \<and> cq_target_field q = rs_target_field r) \<and>
        (\<forall>q \<in> set qs. question_settled plan q))"

lemma question_loop_clear: "\<forall>q \<in> set qs. question_settled plan q \<Longrightarrow> question_loop plan qs acc = Inr (Inr acc)"
proof (induction qs)
  case (Cons q qs)
  then show ?case by (cases acc) (auto simp: question_settled_def lift_py_def)
qed simp

lemma required_questions_iff:
  "validate_required_questions plan g = Inr None \<longleftrightarrow>
     (\<exists>raw qs. get_list g ''required_questions'' = Some raw \<and> contract_questions contract_question raw = Some qs \<and>
        length qs = length raw \<and>
        (\<forall>r \<in> set (ap_resolved_questions plan). \<exists>q \<in> set qs.
           cq_question_id q = rs_question_id r \<and> cq_target_field q = rs_target_field r) \<and>
        (\<forall>q \<in> set qs. question_settled plan q))" (is "?v \<longleftrightarrow> ?s")
proof
  assume ?v
  then obtain raw qs where "get_list g ''required_questions'' = Some raw"
    "contract_questions contract_question raw = Some qs" "length qs = length raw" "\<forall>q \<in> set qs. question_settled plan q"
    "set (map (\<lambda>r. (rs_question_id r, rs_target_field r)) (ap_resolved_questions plan))
       \<subseteq> set (map (\<lambda>q. (cq_question_id q, cq_target_field q)) qs)"
    by (rule validate_required_questions_settled)
  moreover have "\<exists>q \<in> set qs. cq_question_id q = rs_question_id r \<and> cq_target_field q = rs_target_field r"
    if "r \<in> set (ap_resolved_questions plan)" for r
  proof -
    have "(rs_question_id r, rs_target_field r) \<in> (\<lambda>q. (cq_question_id q, cq_target_field q)) ` set qs"
      using that calculation(5) by auto
    then show ?thesis by auto
  qed
  ultimately show ?s by (intro exI[of _ raw] exI[of _ qs]) simp
next
  assume ?s
  then obtain raw qs where "get_list g ''required_questions'' = Some raw"
    "contract_questions contract_question raw = Some qs" "length qs = length raw" "\<forall>q \<in> set qs. question_settled plan q"
    "\<forall>r \<in> set (ap_resolved_questions plan). \<exists>q \<in> set qs.
       cq_question_id q = rs_question_id r \<and> cq_target_field q = rs_target_field r" by blast
  moreover have "set (map (\<lambda>r. (rs_question_id r, rs_target_field r)) (ap_resolved_questions plan))
      \<subseteq> set (map (\<lambda>q. (cq_question_id q, cq_target_field q)) qs)"
  proof
    fix x assume "x \<in> set (map (\<lambda>r. (rs_question_id r, rs_target_field r)) (ap_resolved_questions plan))"
    then obtain r where r: "r \<in> set (ap_resolved_questions plan)" "x = (rs_question_id r, rs_target_field r)" by auto
    then obtain q where "q \<in> set qs" "x = (cq_question_id q, cq_target_field q)" using calculation(5) by metis
    then show "x \<in> set (map (\<lambda>q. (cq_question_id q, cq_target_field q)) qs)" by simp
  qed
  ultimately show ?v by (simp add: validate_required_questions_def question_loop_clear)
qed

lemma managed_requirements_iff:
  "managed_requirements plan rs = Inr None \<longleftrightarrow> (\<forall>r \<in> set rs. \<not> requirement_missing plan r)"
  by (induction plan rs rule: managed_requirements.induct) (auto simp: bindE_Inr_iff)

lemma validate_contract_receipt:
  "validate_contract env plan policy rule c = Inr (Inr r) \<longleftrightarrow>
     lifecycle_authorized plan rule c \<and> questions_settled plan c \<and>
     (\<forall>q \<in> set (mr_requirements rule). \<not> requirement_missing plan q) \<and> validate_input env plan policy c = Inr (Inr r)"
proof -
  have g: "(\<exists>g. mget (co_metadata c) ''guidance'' = PDict g \<and> validate_required_questions plan g = Inr None) \<longleftrightarrow>
      questions_settled plan c" by (auto simp: required_questions_iff questions_settled_def)
  show ?thesis
    unfolding g[symmetric] managed_requirements_iff[symmetric]
    by (auto simp: validate_contract_def lifecycle_authorized_def bindE_Inr_iff validate_managed_requirements_def
        split: option.splits if_splits pyval.splits)
qed

lemma verify_subject_answer:
  "verify_subject env i cache = (Inr h, cache') \<Longrightarrow> fullmatch COMPONENT_ID_PATTERN i \<and> fresh_subject_hash env i = Inr h"
  by (auto simp: verify_subject_def subject_hash_def cached_subject_hash_def invalidate_subject_cache_def
      split: if_splits sum.splits)

definition component_installed :: "plan_env \<Rightarrow> component_ref \<Rightarrow> component_record \<Rightarrow> bool" where
  "component_installed env ref c \<longleftrightarrow>
     resolve_record (pe_catalog env) (cr_id ref) = Inr c \<and> co_version c = cr_version ref \<and>
     fullmatch COMPONENT_ID_PATTERN (co_id c) \<and> fresh_subject_hash (pe_catalog env) (co_id c) = Inr (cr_subject_hash ref)"

lemma installed_component_True:
  "(\<exists>cache'. installed_component env plan cache = (Inr (c, True), cache')) \<longleftrightarrow> component_installed env (st_component (ap_step plan)) c"
proof
  assume "\<exists>cache'. installed_component env plan cache = (Inr (c, True), cache')"
  then show "component_installed env (st_component (ap_step plan)) c"
    by (auto simp: installed_component_def component_installed_def Let_def split: sum.splits if_splits prod.splits
        dest: verify_subject_answer)
next
  assume "component_installed env (st_component (ap_step plan)) c"
  then show "\<exists>cache'. installed_component env plan cache = (Inr (c, True), cache')"
    by (simp add: installed_component_def component_installed_def verify_subject_def subject_hash_def cached_subject_hash_def
        invalidate_subject_cache_def)
qed

text \<open>
  The rule that applies is the first of the policy for the plan's profile and component. Every condition of \<^verbatim>\<open>validate_plan\<close> is
  one of the conjuncts.
\<close>

definition plan_authorized :: "plan_env \<Rightarrow> analysis_plan \<Rightarrow> execution_policy \<Rightarrow> bool" where
  "plan_authorized env plan policy \<longleftrightarrow>
     policy_hash policy = Inr (ap_policy_hash plan) \<and>
     load_execution_policy env (ep_policy_id policy) = Some policy \<and>
     (\<exists>rule c kwargs.
        find (\<lambda>r. mr_profile_id r = st_profile_id (ap_step plan) \<and> mr_component r = st_component (ap_step plan))
          (ep_components policy) = Some rule \<and>
        component_installed env (st_component (ap_step plan)) c \<and> lifecycle_authorized plan rule c \<and>
        questions_settled plan c \<and> (\<forall>q \<in> set (mr_requirements rule). \<not> requirement_missing plan q) \<and>
        is_ok (component_models (pe_catalog env) c) \<and>
        pe_validate_input env c (plan_input plan) = Inr kwargs \<and>
        is_ok (preflight (pe_catalog env) (cr_id (st_component (ap_step plan))) kwargs))"

lemma find_filter: "find P (filter Q xs) = find (\<lambda>x. Q x \<and> P x) xs"
  by (induction xs) auto

lemma matching_rule_iff:
  "matching_rule plan policy = Inr (Inr rule) \<longleftrightarrow>
     find (\<lambda>r. mr_profile_id r = st_profile_id (ap_step plan) \<and> mr_component r = st_component (ap_step plan))
       (ep_components policy) = Some rule"
proof -
  let ?rules = "filter (\<lambda>r. mr_profile_id r = st_profile_id (ap_step plan)) (ep_components policy)"
  have "matching_rule plan policy = Inr (Inr rule) \<longleftrightarrow> find (\<lambda>r. mr_component r = st_component (ap_step plan)) ?rules = Some rule"
    by (cases "?rules = []") (auto simp: matching_rule_def Let_def bindE_Inr_iff split: option.splits)
  then show ?thesis by (simp add: find_filter)
qed

lemma validate_plan_receipt_iff:
  "(\<exists>cache'. validate_plan env plan policy cache = (Inr (Inr r), cache')) \<longleftrightarrow>
     plan_authorized env plan policy \<and> receipt_for plan policy r"
proof -
  have "(\<exists>cache'. validate_plan env plan policy cache = (Inr (Inr r), cache')) \<longleftrightarrow>
      policy_hash policy = Inr (ap_policy_hash plan) \<and> load_execution_policy env (ep_policy_id policy) = Some policy \<and>
      (\<exists>rule. matching_rule plan policy = Inr (Inr rule) \<and>
         (\<exists>c. (\<exists>cache'. installed_component env plan cache = (Inr (c, True), cache')) \<and>
            validate_contract env plan policy rule c = Inr (Inr r)))"
    by (auto simp: validate_plan_def block_def bindE_Inr_iff split: sum.splits option.splits if_splits prod.splits bool.splits)
  then show ?thesis
    unfolding matching_rule_iff installed_component_True validate_contract_receipt validate_input_receipt plan_authorized_def
    by blast
qed

lemma validate_plan_receipt:
  "validate_plan env plan policy cache = (Inr (Inr r), cache') \<Longrightarrow> plan_authorized env plan policy \<and> receipt_for plan policy r"
  using validate_plan_receipt_iff by blast

text \<open>The outcome does not depend on what the subject cache held.\<close>

lemma verify_subject_cache_irrelevant: "fst (verify_subject env i c1) = fst (verify_subject env i c2)"
  by (simp add: verify_subject_def invalidate_subject_cache_def)

lemma installed_component_cache_irrelevant:
  "fst (installed_component env plan c1) = fst (installed_component env plan c2)"
proof -
  have "fst (verify_subject e i c1) = fst (verify_subject e i c2)" for e i by (rule verify_subject_cache_irrelevant)
  then show ?thesis
    by (auto simp: installed_component_def Let_def split: sum.splits prod.splits) (metis fst_conv sum.distinct(1) sum.inject)+
qed

lemma validate_plan_cache_irrelevant: "fst (validate_plan env plan policy c1) = fst (validate_plan env plan policy c2)"
proof -
  obtain x d1 where 1: "installed_component env plan c1 = (x, d1)" by (cases "installed_component env plan c1")
  obtain d2 where 2: "installed_component env plan c2 = (x, d2)"
    using installed_component_cache_irrelevant[of env plan c1 c2] 1 by (cases "installed_component env plan c2") auto
  show ?thesis unfolding validate_plan_def 1 2 by (auto split: sum.splits option.splits prod.splits bool.splits)
qed

section \<open>Verified authorizations\<close>

lemma verify_approval_success:
  assumes "verify_approval plan receipt approval binding ph rh cache = (Inr (AuthorizationSuccess b), cache')"
  shows "b = binding \<and> ar_plan_hash approval = ph \<and> ar_receipt_hash approval = rh \<and>
    approval_hash approval = Inr (ab_approval_hash binding) \<and>
    create_authorization_binding plan receipt approval = Inr binding"
  using assms by (auto simp: verify_approval_def split: if_splits sum.splits)

text \<open>Every root of the chain, recomputed, is the one the binding captured.\<close>

definition chain_bound ::
  "plan_env \<Rightarrow> analysis_plan \<Rightarrow> validation_receipt \<Rightarrow> approval_record \<Rightarrow> authorization_binding \<Rightarrow> execution_policy \<Rightarrow> bool" where
  "chain_bound env plan receipt approval binding policy \<longleftrightarrow>
     ab_component binding = st_component (ap_step plan) \<and>
     dataset_hash (st_dataset (ap_step plan)) = Inr (ab_dataset_hash binding) \<and>
     plan_hash plan = Inr (ab_plan_hash binding) \<and>
     receipt_hash receipt = Inr (ab_receipt_hash binding) \<and>
     approval_hash approval = Inr (ab_approval_hash binding) \<and>
     ar_plan_hash approval = ab_plan_hash binding \<and> ar_receipt_hash approval = ab_receipt_hash binding \<and>
     receipt_for plan policy receipt \<and> plan_authorized env plan policy"

lemma verify_authorization_success:
  assumes "verify_authorization env plan receipt approval binding policy cache = (Inr (AuthorizationSuccess b), cache')"
  shows "b = binding \<and> chain_bound env plan receipt approval binding policy"
proof -
  obtain dh qh ph rh cache'' where
    d: "dataset_hash (st_dataset (ap_step plan)) = Inr dh" "ab_dataset_hash binding = dh"
    and comp: "ab_component binding = st_component (ap_step plan)"
    and p: "plan_hash plan = Inr ph" "ab_plan_hash binding = ph"
    and r: "receipt_hash receipt = Inr rh" "ab_receipt_hash binding = rh"
    and v: "validate_plan env plan policy cache = (Inr (Inr receipt), cache'')"
    and a: "verify_approval plan receipt approval binding ph rh cache'' = (Inr (AuthorizationSuccess b), cache')"
    using assms by (auto simp: verify_authorization_def split: if_splits sum.splits prod.splits)
  show ?thesis
    using d comp p r verify_approval_success[OF a] validate_plan_receipt[OF v] by (auto simp: chain_bound_def)
qed

section \<open>Honest chains\<close>

lemma hash_pattern:
  "length h = 64 \<and> (\<forall>c \<in> set h. is_hex c) \<Longrightarrow> pattern_ok SHA256_PATTERN h"
  by (simp add: sha256_ok_iff)

lemma approval_created:
  assumes "validation_receipt_valid receipt" "text_ok 160 who" "aware_datetime at" "pred_option (text_ok 500) note"
  obtains approval where "create_manual_approval receipt who at note = Inr approval" "approval_record_valid approval"
    "ar_plan_hash approval = vr_plan_hash receipt" "receipt_hash receipt = Inr (ar_receipt_hash approval)"
proof -
  obtain rh where rh: "receipt_hash receipt = Inr rh"
    using receipt.hash_total[OF assms(1)] by (auto simp: receipt_hash_def)
  then have "pattern_ok SHA256_PATTERN rh" using receipt.hash_hex hash_pattern unfolding receipt_hash_def by blast
  moreover have "pattern_ok SHA256_PATTERN (vr_plan_hash receipt)" using assms(1) by (simp add: validation_receipt_valid_def)
  ultimately have "approval_record_valid \<lparr>ar_plan_hash = vr_plan_hash receipt, ar_receipt_hash = rh,
      ar_approved_by = who, ar_approved_at = at, ar_note = note\<rparr>"
    using assms by (simp add: approval_record_valid_def)
  with rh show ?thesis
    by (intro that[of "\<lparr>ar_plan_hash = vr_plan_hash receipt, ar_receipt_hash = rh, ar_approved_by = who,
      ar_approved_at = at, ar_note = note\<rparr>"]) (simp_all add: create_manual_approval_def lift_py_def)
qed

lemma binding_created:
  assumes "receipt_for plan policy receipt" "approval_record_valid approval"
    "ar_plan_hash approval = vr_plan_hash receipt" "receipt_hash receipt = Inr (ar_receipt_hash approval)"
  obtains binding where "create_authorization_binding plan receipt approval = Inr binding"
    "ab_plan_hash binding = vr_plan_hash receipt" "ab_receipt_hash binding = ar_receipt_hash approval"
    "approval_hash approval = Inr (ab_approval_hash binding)" "ab_component binding = st_component (ap_step plan)"
    "ab_dataset_hash binding = vr_dataset_hash receipt"
proof -
  obtain ah where ah: "approval_hash approval = Inr ah"
    using approval.hash_total[OF assms(2)] by (auto simp: approval_hash_def)
  then have "pattern_ok SHA256_PATTERN ah" using approval.hash_hex hash_pattern unfolding approval_hash_def by blast
  then have "authorization_binding_valid \<lparr>ab_plan_hash = vr_plan_hash receipt, ab_receipt_hash = ar_receipt_hash approval,
      ab_approval_hash = ah, ab_component = st_component (ap_step plan), ab_dataset_hash = vr_dataset_hash receipt\<rparr>"
    using assms by (auto simp: authorization_binding_valid_def receipt_for_def validation_receipt_valid_def
        approval_record_valid_def)
  then show ?thesis using assms ah
    by (intro that[of "\<lparr>ab_plan_hash = vr_plan_hash receipt, ab_receipt_hash = ar_receipt_hash approval,
      ab_approval_hash = ah, ab_component = st_component (ap_step plan), ab_dataset_hash = vr_dataset_hash receipt\<rparr>"])
      (auto simp: create_authorization_binding_def receipt_for_def lift_py_def)
qed

lemma is_ok_validate_status:
  "is_ok (validate_status f) \<longleftrightarrow>
     (vf_status f = NEEDS_INFORMATION \<longleftrightarrow> vf_questions f \<noteq> []) \<and>
     distinct (map cq_question_id (vf_questions f)) \<and> distinct (map cq_target_field (vf_questions f))"
  unfolding validate_status_def Let_def card_set_eq_length is_ok_if_Inl by (cases "vf_status f") simp_all

lemma honest_chain:
  assumes "validate_plan env plan policy cache = (Inr (Inr receipt), cache')"
    and "text_ok 160 who" "aware_datetime at" "pred_option (text_ok 500) note"
  shows "\<exists>approval binding cache''.
    create_manual_approval receipt who at note = Inr approval \<and> approval_record_valid approval \<and>
    create_authorization_binding plan receipt approval = Inr binding \<and>
    verify_authorization env plan receipt approval binding policy later = (Inr (AuthorizationSuccess binding), cache'')"
proof -
  have auth: "plan_authorized env plan policy" and rf: "receipt_for plan policy receipt"
    using validate_plan_receipt[OF assms(1)] by blast+
  then have "validation_receipt_valid receipt" by (simp add: receipt_for_def)
  then obtain approval where a: "create_manual_approval receipt who at note = Inr approval" "approval_record_valid approval"
    "ar_plan_hash approval = vr_plan_hash receipt" "receipt_hash receipt = Inr (ar_receipt_hash approval)"
    using approval_created assms(2-4) by blast
  obtain binding where b: "create_authorization_binding plan receipt approval = Inr binding"
    "ab_plan_hash binding = vr_plan_hash receipt" "ab_receipt_hash binding = ar_receipt_hash approval"
    "approval_hash approval = Inr (ab_approval_hash binding)" "ab_component binding = st_component (ap_step plan)"
    "ab_dataset_hash binding = vr_dataset_hash receipt"
    using binding_created[OF rf a(2-4)] by blast
  obtain later' where v: "validate_plan env plan policy later = (Inr (Inr receipt), later')"
    using validate_plan_cache_irrelevant[of env plan policy later cache] assms(1)
    by (cases "validate_plan env plan policy later") auto
  have "verify_authorization env plan receipt approval binding policy later =
      verify_approval plan receipt approval binding (vr_plan_hash receipt) (ar_receipt_hash approval) later'"
    using rf auth a b v by (auto simp: verify_authorization_def receipt_for_def plan_authorized_def)
  also have "\<dots> = (Inr (AuthorizationSuccess binding), later')"
    using a b by (simp add: verify_approval_def)
  finally show ?thesis using a(1,2) b(1) by blast
qed

section \<open>A chain on the one-component catalog\<close>

definition demo_ref :: component_ref where
  "demo_ref =
     \<lparr>cr_id = lit ''dq.a.b'', cr_version = lit ''1.0.0'',
      cr_subject_hash = projr (fresh_subject_hash demo_catalog (lit ''dq.a.b''))\<rparr>"

definition demo_rule :: managed_component_rule where
  "demo_rule =
     \<lparr>mr_profile_id = lit ''p'', mr_component = demo_ref, mr_allowed_lifecycle = LC_DRAFT,
      mr_explicit_opt_in = True, mr_requirements = []\<rparr>"

definition demo_policy :: execution_policy where
  "demo_policy = \<lparr>ep_policy_id = lit ''pol'', ep_version = lit ''1.0.0'', ep_components = [demo_rule]\<rparr>"

definition demo_plan :: "pystr \<Rightarrow> analysis_plan" where
  "demo_plan policy_digest =
     \<lparr>ap_protocol_version = lit ''0.4.0'', ap_plan_id = lit ''plan'', ap_revision = 1, ap_parent_plan_hash = None,
      ap_objective = lit ''x'', ap_resolved_questions = [],
      ap_step = \<lparr>st_step_id = lit ''s'', st_profile_id = lit ''p'', st_component = demo_ref, st_lifecycle = LC_DRAFT,
                 st_explicit_draft_opt_in = True, st_dataset = \<lparr>ds_dataset_id = lit ''d'', ds_input = []\<rparr>\<rparr>,
      ap_expected_outputs = [lit ''x''], ap_stop_conditions = [lit ''x''], ap_policy_hash = policy_digest\<rparr>"

definition demo_env :: plan_env where
  "demo_env =
     \<lparr>pe_catalog = demo_catalog, pe_policy_file = (\<lambda>_. Some (Inr PNone)), pe_parse_policy = (\<lambda>_. Some demo_policy),
      pe_validate_input = (\<lambda>_ _. Inr [])\<rparr>"

lemma demo_ref_hash:
  "fresh_subject_hash demo_catalog (lit ''dq.a.b'') = Inr (cr_subject_hash demo_ref)"
  "pattern_ok SHA256_PATTERN (cr_subject_hash demo_ref)"
  using demo_subject hash_pattern by (auto simp: demo_ref_def)

lemma text_ok_lit: "text_ok n (lit s) \<longleftrightarrow> s \<noteq> [] \<and> length s \<le> n"
proof -
  have "length (lit s) = length s" by (simp add: lit_def)
  then show ?thesis using scalar_lit[of s] by (cases s) (simp_all add: text_ok_def del: scalar_lit)
qed

lemma demo_ids:
  "pattern_ok SAFE_ID_PATTERN (lit ''p'')" "pattern_ok SAFE_ID_PATTERN (lit ''pol'')"
  "pattern_ok SAFE_ID_PATTERN (lit ''plan'')" "pattern_ok SAFE_ID_PATTERN (lit ''s'')"
  "pattern_ok SAFE_ID_PATTERN (lit ''d'')"
  by (simp_all add: safe_id_ok_iff lit_def is_lower_def id_tail_char_def)

lemma demo_patterns:
  "pattern_ok SEMVER_PATTERN (lit ''1.0.0'')" "pattern_ok COMPONENT_ID_PATTERN (lit ''dq.a.b'')"
proof -
  have "fullmatch SEMVER_PATTERN (lit ''1.0.0'')" by (simp add: semver_match)
  moreover have "fullmatch COMPONENT_ID_PATTERN (lit ''dq.a.b'')" by code_simp
  ultimately show "pattern_ok SEMVER_PATTERN (lit ''1.0.0'')" "pattern_ok COMPONENT_ID_PATTERN (lit ''dq.a.b'')"
    by (simp_all add: pattern_ok_def scalar_lit)
qed

lemma validator_valid: "runner_identity_valid VALIDATOR"
proof -
  have "fullmatch SEMVER_PATTERN (lit ''0.1.0'')" by (simp add: semver_match)
  moreover have "pattern_ok SAFE_ID_PATTERN (lit ''managed_plan_validator'')"
    by (simp add: safe_id_ok_iff lit_def is_lower_def id_tail_char_def)
  ultimately show ?thesis by (simp add: runner_identity_valid_def VALIDATOR_def pattern_ok_def scalar_lit)
qed

lemma demo_checks: "list_all (pattern_ok SAFE_ID_PATTERN) PASSED_CHECKS" "distinct PASSED_CHECKS"
  by (simp_all add: PASSED_CHECKS_def safe_id_ok_iff lit_def is_lower_def id_tail_char_def)

lemma demo_valid:
  "component_ref_valid demo_ref" "execution_policy_valid demo_policy"
  "pattern_ok SHA256_PATTERN h \<Longrightarrow> plan_hashable (demo_plan h)"
  "dataset_binding_valid (st_dataset (ap_step (demo_plan h)))"
proof -
  show ref: "component_ref_valid demo_ref"
    using demo_ref_hash(2) demo_patterns by (simp add: component_ref_valid_def) (simp add: demo_ref_def)
  show "execution_policy_valid demo_policy"
    by (simp add: execution_policy_valid_def demo_policy_def demo_ids demo_patterns managed_component_rule_valid_def
        demo_rule_def ref validate_requirements_def validate_unique_rules_def)
  show ds: "dataset_binding_valid (st_dataset (ap_step (demo_plan h)))" for h
    by (simp add: dataset_binding_valid_def demo_plan_def demo_ids validate_dataset_input_def is_ok_canonical_guard)
  have x: "text_ok 500 (lit ''x'')" by (simp add: text_ok_lit)
  show "pattern_ok SHA256_PATTERN h \<Longrightarrow> plan_hashable (demo_plan h)"
    using ds[of h] by (simp add: plan_hashable_def analysis_plan_valid_def plan_step_valid_def validate_revision_and_questions_def demo_plan_def demo_ids ref x MAX_SAFE_INTEGER_def)
qed

lemma demo_preflight: "is_ok (preflight demo_catalog (lit ''dq.a.b'') [])"
  by (simp add: preflight_def demo_resolve)
   (simp add: preflight_metadata_def demo_record_def demo_metadata_def obj_get_def effective_values_def get_list_def
     dict_get_def evaluate_constraints_def)

lemma demo_installed:
  "\<exists>c. installed_component demo_env (demo_plan h) cache = (Inr (demo_record, True), c)"
proof -
  have "fullmatch COMPONENT_ID_PATTERN (lit ''dq.a.b'')" using demo_patterns(2) by (simp add: pattern_ok_def)
  then obtain c where "verify_subject demo_catalog (lit ''dq.a.b'') cache = (Inr (cr_subject_hash demo_ref), c)"
    using demo_ref_hash(1) by (simp add: verify_subject_def subject_hash_def cached_subject_hash_def
        invalidate_subject_cache_def)
  moreover have "cr_id demo_ref = lit ''dq.a.b''" "cr_version demo_ref = lit ''1.0.0''" by (simp_all add: demo_ref_def)
  ultimately show ?thesis
    by (simp add: installed_component_def demo_env_def demo_plan_def demo_resolve)
      (simp add: demo_record_def)
qed

lemma demo_contract:
  assumes h: "policy_hash demo_policy = Inr h" "pattern_ok SHA256_PATTERN h"
  shows "\<exists>r. validate_contract demo_env (demo_plan h) demo_policy demo_rule demo_record = Inr (Inr r)"
proof -
  have step: "st_component (ap_step (demo_plan h)) = demo_ref" "cr_id demo_ref = lit ''dq.a.b''"
    by (simp_all add: demo_plan_def demo_ref_def)
  obtain ph where ph: "plan_hash (demo_plan h) = Inr ph"
    using plan.hash_total[OF demo_valid(3)[OF h(2)]] by (auto simp: plan_hash_def)
  then have "pattern_ok SHA256_PATTERN ph" using plan.hash_hex hash_pattern unfolding plan_hash_def by blast
  moreover obtain dh where dh: "dataset_hash (st_dataset (ap_step (demo_plan h))) = Inr dh"
    using dataset.hash_total[OF demo_valid(4)] by (auto simp: dataset_hash_def)
  then have "pattern_ok SHA256_PATTERN dh" using dataset.hash_hex hash_pattern unfolding dataset_hash_def by blast
  ultimately have "receipt_for (demo_plan h) demo_policy
      \<lparr>vr_plan_hash = ph, vr_policy_hash = h, vr_component = demo_ref, vr_dataset_hash = dh,
       vr_validator = VALIDATOR, vr_checks = PASSED_CHECKS\<rparr>" (is "receipt_for _ _ ?r")
    using h ph dh demo_valid(1) demo_checks validator_valid
    by (auto simp: receipt_for_def validation_receipt_valid_def step validate_checks_def distinct_card PASSED_CHECKS_def)
  moreover have "component_models (pe_catalog demo_env) demo_record = Inr (PNone, PNone)"
    by (simp add: component_models_def demo_env_def demo_catalog_def)
  ultimately have "validate_input demo_env (demo_plan h) demo_policy demo_record = Inr (Inr ?r)"
    using demo_preflight by (simp add: validate_input_receipt step) (simp add: demo_env_def)
  moreover have "lifecycle_of (mget (co_metadata demo_record) ''lifecycle'') = Some LC_DRAFT"
    "mget (co_metadata demo_record) ''guidance'' = PDict []"
    by (simp_all add: demo_record_def demo_metadata_get jstr_def)
  moreover have "validate_required_questions (demo_plan h) [] = Inr None"
    by (simp add: validate_required_questions_def get_list_def dict_get_def demo_plan_def)
  ultimately show ?thesis
    by (simp add: validate_contract_def validate_managed_requirements_def) (simp add: demo_plan_def demo_rule_def)
qed

lemma demo_receipt:
  "\<exists>h r c. policy_hash demo_policy = Inr h \<and> pattern_ok SHA256_PATTERN h \<and>
     validate_plan demo_env (demo_plan h) demo_policy cache = (Inr (Inr r), c)"
proof -
  obtain h where h: "policy_hash demo_policy = Inr h"
    using policy.hash_total[OF demo_valid(2)] by (auto simp: policy_hash_def)
  then have hex: "pattern_ok SHA256_PATTERN h" using policy.hash_hex hash_pattern unfolding policy_hash_def by blast
  have "fullmatch SAFE_ID_PATTERN (lit ''pol'')" using demo_ids(2) by (simp add: pattern_ok_def)
  then have load: "load_execution_policy demo_env (ep_policy_id demo_policy) = Some demo_policy"
    by (simp add: load_execution_policy_def demo_env_def) (simp add: demo_policy_def)
  have rule: "matching_rule (demo_plan h) demo_policy = Inr (Inr demo_rule)"
    by (simp add: matching_rule_def demo_policy_def demo_rule_def demo_plan_def)
  have "ap_policy_hash (demo_plan h) = h" by (simp add: demo_plan_def)
  then show ?thesis using h hex load rule demo_installed[of h cache] demo_contract[OF h hex]
    by (auto simp: validate_plan_def)
qed

lemma issue_valid: "issue c m x = Inr i \<Longrightarrow> validation_issue_valid i"
  by (auto simp: issue_def Let_def split: if_splits)

lemma split_words_chars: "w \<in> set (split_words s) \<Longrightarrow> set w \<subseteq> set s"
proof (induction s rule: split_words.induct)
  case (2 c cs)
  then show ?case by (fastforce dest: set_takeWhileD set_dropWhileD split: if_splits)
qed simp

lemma str_join_chars: "set (str_join sep ws) \<subseteq> set sep \<union> \<Union> (set ` set ws)"
  by (induction sep ws rule: str_join.induct) auto

text \<open>Every issue message is non-empty text within its bound, however the component words its complaint.\<close>

lemma normalize_message_ok: "scalar_str m \<Longrightarrow> text_ok 500 (normalize_message m)"
proof -
  assume "scalar_str m"
  moreover have "set (str_join [32] (split_words m)) \<subseteq> {32} \<union> set m"
    using str_join_chars[of "[32]" "split_words m"] split_words_chars by fastforce
  ultimately have "scalar_str (str_join [32] (split_words m))"
    by (auto simp: scalar_str_def list_all_iff is_scalar_def is_surrogate_def)
  then have "scalar_str (if str_join [32] (split_words m) = [] then lit ''managed validation failed''
      else str_join [32] (split_words m))" (is "scalar_str ?n") by (simp add: scalar_lit)
  moreover have "?n \<noteq> []" by (simp add: lit_def)
  ultimately show ?thesis
    by (auto simp: normalize_message_def Let_def text_ok_def MAX_ISSUE_MESSAGE_LENGTH_def scalar_lit
        scalar_str_def list_all_iff Suc_le_eq lit_def is_scalar_def is_surrogate_def dest: in_set_takeD)
qed

text \<open>With no packaged policy the same plan is refused.\<close>

lemma demo_refusal:
  "\<exists>h f c. validate_plan (demo_env\<lparr>pe_policy_file := \<lambda>_. None\<rparr>) (demo_plan h) demo_policy Map.empty = (Inr (Inl f), c)"
proof -
  obtain h r c where h: "policy_hash demo_policy = Inr h" "pattern_ok SHA256_PATTERN h"
    using demo_receipt by blast
  obtain ph where ph: "plan_hash (demo_plan h) = Inr ph"
    using plan.hash_total[OF demo_valid(3)[OF h(2)]] by (auto simp: plan_hash_def)
  then have hex: "pattern_ok SHA256_PATTERN ph" using plan.hash_hex hash_pattern unfolding plan_hash_def by blast
  have "is_ok (issue EXECUTION_SCOPE_DENIED (lit ''execution policy is not an installed packaged allowlist'')
      (Some (lit ''execution_policy_hash'')))"
    using normalize_message_ok scalar_lit by (simp add: issue_def validation_issue_valid_def text_ok_lit)
  then have "\<exists>f. block (demo_plan h) EXECUTION_SCOPE_DENIED (lit ''execution policy is not an installed packaged allowlist'')
      (Some (lit ''execution_policy_hash'')) = Inr (Inl f)"
    using ph hex issue_valid by (auto simp: block_def blocked_failure_def make_failure_def is_ok_iff lift_py_def validation_failure_valid_def
      validate_status_def)
  moreover have "load_execution_policy (demo_env\<lparr>pe_policy_file := \<lambda>_. None\<rparr>) (ep_policy_id demo_policy) = None"
    by (simp add: load_execution_policy_def)
  moreover have "ap_policy_hash (demo_plan h) = h" by (simp add: demo_plan_def)
  ultimately show ?thesis using h by (auto simp: validate_plan_def)
qed

lemma demo_time: "aware_datetime (lit ''2026-01-01T00:00:00Z'')"
  by code_simp

lemma demo_chain:
  "\<exists>plan receipt approval binding c.
     verify_authorization demo_env plan receipt approval binding demo_policy Map.empty = (Inr (AuthorizationSuccess binding), c) \<and>
     plan_hashable plan \<and> approval_record_valid approval"
proof -
  obtain h r c where "validate_plan demo_env (demo_plan h) demo_policy Map.empty = (Inr (Inr r), c)" "plan_hashable (demo_plan h)"
    using demo_receipt demo_valid(3) by blast
  moreover have "text_ok 160 (lit ''x'')" by (simp add: text_ok_lit)
  ultimately show ?thesis using demo_time honest_chain[of _ _ _ _ _ _ "lit ''x''" "lit ''2026-01-01T00:00:00Z''" None] by fastforce
qed

section \<open>Properties\<close>

text \<open>
  C3 (receipt_requires_authorization). A validation receipt is issued exactly for a plan that binds a packaged policy, whose
  profile and component that policy allows, whose component is installed with exactly the version and freshly recomputed
  subject hash of the plan, whose lifecycle and opt-in are authorized, that answers only questions the contract declares and
  all of them, each confirmed by the caller and equal to the bound input, whose managed requirements are met, whose component
  has its models, whose input fits them and whose constraints pass; and the receipt carries the recomputed hashes of exactly
  that plan, policy and dataset. What the subject cache held makes no difference.
\<close>

theorem receipt_requires_authorization:
  "(\<exists>cache'. validate_plan env plan policy cache = (Inr (Inr receipt), cache')) \<longleftrightarrow>
     plan_authorized env plan policy \<and> receipt_for plan policy receipt"
  by (rule validate_plan_receipt_iff)

theorem receipt_requires_authorization_witness:
  "\<exists>h r. receipt_for (demo_plan h) demo_policy r \<and> plan_authorized demo_env (demo_plan h) demo_policy"
  using demo_receipt[of Map.empty] receipt_requires_authorization by blast

text \<open>
  C20 (refusals_well_formed). Every refusal of plan validation is a valid failure record bound to the plan's
  own hash: it has at least one issue, asks questions exactly if it needs information, and never repeats a
  question id or a target field.
\<close>

theorem refusals_well_formed:
  assumes "validate_plan env plan policy cache = (Inr (Inl f), cache')"
  shows "validation_failure_valid f \<and> plan_hash plan = Inr (vf_plan_hash f) \<and> vf_issues f \<noteq> [] \<and>
    (vf_status f = NEEDS_INFORMATION \<longleftrightarrow> vf_questions f \<noteq> []) \<and>
    distinct (map cq_question_id (vf_questions f)) \<and> distinct (map cq_target_field (vf_questions f))"
proof -
  have f: "validation_failure_valid f" "plan_hash plan = Inr (vf_plan_hash f)"
    using validate_plan_failure[OF assms] by (auto simp: failure_of_def)
  then show ?thesis by (simp add: validation_failure_valid_def is_ok_validate_status)
qed

theorem refusals_well_formed_witness:
  "\<exists>h f. validation_failure_valid f \<and> vf_issues f \<noteq> [] \<and> plan_hash (demo_plan h) = Inr (vf_plan_hash f)"
  using demo_refusal refusals_well_formed by blast

text \<open>
  C5 (authorization_binds_chain). A verified authorization returns its own binding, and then every root,
  recomputed from the current plan, dataset, policy, receipt and approval, is the one captured in the
  binding, and the plan still passes validation against the installed catalog.
\<close>

theorem authorization_binds_chain:
  assumes "verify_authorization env plan receipt approval binding policy cache = (Inr (AuthorizationSuccess b), cache')"
  shows "b = binding \<and> chain_bound env plan receipt approval binding policy"
  using assms by (rule verify_authorization_success)

theorem authorization_binds_chain_witness:
  "\<exists>plan receipt approval binding. chain_bound demo_env plan receipt approval binding demo_policy"
  using demo_chain authorization_binds_chain by blast

text \<open>
  C10 (honest_chain_verifies). After a plan validates, a manual approval with acceptable text and a datetime that
  names its offset can be created (any other time is refused), a binding can be captured from it, and the resulting chain
  verifies as long as catalog and policy are unchanged, whatever the subject cache holds by then.
\<close>

theorem honest_chain_verifies:
  assumes "validate_plan env plan policy cache = (Inr (Inr receipt), cache')"
    and "text_ok 160 who" "aware_datetime at" "pred_option (text_ok 500) note"
  shows "(\<exists>approval binding cache''.
    create_manual_approval receipt who at note = Inr approval \<and> ar_approved_at approval = at \<and>
    create_authorization_binding plan receipt approval = Inr binding \<and>
    verify_authorization env plan receipt approval binding policy later = (Inr (AuthorizationSuccess binding), cache'')) \<and>
    (\<forall>time. \<not> aware_datetime time \<longrightarrow> create_manual_approval receipt who time note = Inl PlanValidationError)"
  using honest_chain[OF assms, of later] by (auto simp: create_manual_approval_def bindE_Inr_iff Let_def approval_record_valid_def
      lift_py_def split: sum.splits if_splits)

theorem honest_chain_verifies_witness:
  "\<exists>plan receipt approval binding c.
     verify_authorization demo_env plan receipt approval binding demo_policy Map.empty = (Inr (AuthorizationSuccess binding), c)"
proof -
  obtain h r c where "validate_plan demo_env (demo_plan h) demo_policy Map.empty = (Inr (Inr r), c)"
    using demo_receipt by blast
  moreover have "text_ok 160 (lit ''x'')" by (simp add: text_ok_lit)
  ultimately show ?thesis using demo_time honest_chain_verifies[of _ _ _ _ _ _ "lit ''x''" "lit ''2026-01-01T00:00:00Z''" None] by fastforce
qed

text \<open>
  C21 (authorization_not_transferable). One binding authorizes one plan, receipt and approval: if it verifies
  for two chains, the plans mean the same and receipts and approvals are equal, or one of three named pairs of
  payloads is a SHA-256 collision.
\<close>

theorem authorization_not_transferable:
  assumes "verify_authorization env plan receipt approval binding policy c = (Inr (AuthorizationSuccess b), c')"
    and "verify_authorization env' plan' receipt' approval' binding policy' d = (Inr (AuthorizationSuccess b'), d')"
    and "plan_hashable plan" "plan_hashable plan'" "approval_record_valid approval" "approval_record_valid approval'"
  shows "same_plan plan plan' \<and> receipt = receipt' \<and> approval = approval' \<or>
    sha256_collision (payload_of (plan_projection plan) ANALYSIS_PLAN_HASH_DOMAIN)
                     (payload_of (plan_projection plan') ANALYSIS_PLAN_HASH_DOMAIN) \<or>
    sha256_collision (payload_of (validation_receipt_dump receipt) VALIDATION_RECEIPT_HASH_DOMAIN)
                     (payload_of (validation_receipt_dump receipt') VALIDATION_RECEIPT_HASH_DOMAIN) \<or>
    sha256_collision (payload_of (approval_record_dump approval) MANUAL_APPROVAL_HASH_DOMAIN)
                     (payload_of (approval_record_dump approval') MANUAL_APPROVAL_HASH_DOMAIN)"
proof -
  have 1: "chain_bound env plan receipt approval binding policy"
    and 2: "chain_bound env' plan' receipt' approval' binding policy'"
    using assms(1,2) verify_authorization_success by blast+
  have "canonical_hash (plan_projection plan) ANALYSIS_PLAN_HASH_DOMAIN =
      canonical_hash (plan_projection plan') ANALYSIS_PLAN_HASH_DOMAIN"
    using 1 2 by (simp add: chain_bound_def plan_hash_def)
  moreover have "canonical_hash (validation_receipt_dump receipt) VALIDATION_RECEIPT_HASH_DOMAIN =
      canonical_hash (validation_receipt_dump receipt') VALIDATION_RECEIPT_HASH_DOMAIN"
    "validation_receipt_valid receipt" "validation_receipt_valid receipt'"
    using 1 2 by (simp_all add: chain_bound_def receipt_hash_def receipt_for_def)
  moreover have "canonical_hash (approval_record_dump approval) MANUAL_APPROVAL_HASH_DOMAIN =
      canonical_hash (approval_record_dump approval') MANUAL_APPROVAL_HASH_DOMAIN"
    using 1 2 by (simp add: chain_bound_def approval_hash_def)
  ultimately show ?thesis
    using plan.hash_binding[OF assms(3,4)] receipt.hash_binding approval.hash_binding[OF assms(5,6)] by blast
qed

theorem authorization_not_transferable_witness:
  "\<exists>plan receipt approval binding c.
     verify_authorization demo_env plan receipt approval binding demo_policy Map.empty = (Inr (AuthorizationSuccess binding), c) \<and>
     (same_plan plan plan \<or> sha256_collision (payload_of (plan_projection plan) ANALYSIS_PLAN_HASH_DOMAIN)
                                             (payload_of (plan_projection plan) ANALYSIS_PLAN_HASH_DOMAIN) \<or>
      sha256_collision (payload_of (validation_receipt_dump receipt) VALIDATION_RECEIPT_HASH_DOMAIN)
                       (payload_of (validation_receipt_dump receipt) VALIDATION_RECEIPT_HASH_DOMAIN) \<or>
      sha256_collision (payload_of (approval_record_dump approval) MANUAL_APPROVAL_HASH_DOMAIN)
                       (payload_of (approval_record_dump approval) MANUAL_APPROVAL_HASH_DOMAIN))"
proof -
  obtain plan receipt approval binding c where
    v: "verify_authorization demo_env plan receipt approval binding demo_policy Map.empty = (Inr (AuthorizationSuccess binding), c)"
    and p: "plan_hashable plan" and r: "approval_record_valid approval"
    using demo_chain by blast
  show ?thesis using authorization_not_transferable[OF v v p p r r] v by blast
qed

end
