(* ===== verification/Ports.thy ===== *)
theory Ports
  imports Hashed
begin

text \<open>
  \<^verbatim>\<open>protocol/ports.py\<close>: the closed vocabulary of semantic ports, their comparison, and the extraction of a
  port from a component model together with the shape its generated JSON Schema has.

  A Pydantic model is \<open>port_model\<close>: the \<^verbatim>\<open>json_schema_extra\<close> of its fields, its generated schema, and the reading
  of raw metadata into the nine enumerated fields. A schema may refer to itself through \<^verbatim>\<open>$defs\<close>, and then the
  walks of the code never end; the walks here take fuel and answer \<open>None\<close> when it is exhausted, and
  \<open>walk_fuel\<close> shows that more fuel never changes an answer.
\<close>

section \<open>Vocabulary\<close>

datatype port_direction = PD_INPUT | PD_OUTPUT

fun port_direction_value :: "port_direction \<Rightarrow> string" where
  "port_direction_value PD_INPUT = ''input''"
| "port_direction_value PD_OUTPUT = ''output''"

datatype port_concept =
    PC_PRICE_SERIES | PC_PRICE_ADJUSTMENT_KIND | PC_PERIODIC_RETURN_SERIES | PC_RETURN_CONVENTION
  | PC_ANNUALIZATION_FACTOR | PC_PERIODIC_VOLATILITY | PC_ANNUALIZED_VOLATILITY
  | PC_REBASED_PRICE_INDEX_SERIES | PC_DRAWDOWN_SERIES | PC_MAXIMUM_DRAWDOWN

fun port_concept_value :: "port_concept \<Rightarrow> string" where
  "port_concept_value PC_PRICE_SERIES = ''price_series''"
| "port_concept_value PC_PRICE_ADJUSTMENT_KIND = ''price_adjustment_kind''"
| "port_concept_value PC_PERIODIC_RETURN_SERIES = ''periodic_return_series''"
| "port_concept_value PC_RETURN_CONVENTION = ''return_convention''"
| "port_concept_value PC_ANNUALIZATION_FACTOR = ''annualization_factor''"
| "port_concept_value PC_PERIODIC_VOLATILITY = ''periodic_volatility''"
| "port_concept_value PC_ANNUALIZED_VOLATILITY = ''annualized_volatility''"
| "port_concept_value PC_REBASED_PRICE_INDEX_SERIES = ''rebased_price_index_series''"
| "port_concept_value PC_DRAWDOWN_SERIES = ''drawdown_series''"
| "port_concept_value PC_MAXIMUM_DRAWDOWN = ''maximum_drawdown''"

datatype port_unit = PU_PRICE | PU_DECIMAL | PU_UNITLESS | PU_VOLATILITY

fun port_unit_value :: "port_unit \<Rightarrow> string" where
  "port_unit_value PU_PRICE = ''price''"
| "port_unit_value PU_DECIMAL = ''decimal''"
| "port_unit_value PU_UNITLESS = ''unitless''"
| "port_unit_value PU_VOLATILITY = ''volatility''"

datatype port_shape = PS_SCALAR | PS_ORDERED_SERIES

fun port_shape_value :: "port_shape \<Rightarrow> string" where
  "port_shape_value PS_SCALAR = ''scalar''"
| "port_shape_value PS_ORDERED_SERIES = ''ordered_series''"

datatype port_cardinality = PK_EXACTLY_ONE | PK_ONE_OR_MORE

fun port_cardinality_value :: "port_cardinality \<Rightarrow> string" where
  "port_cardinality_value PK_EXACTLY_ONE = ''exactly_one''"
| "port_cardinality_value PK_ONE_OR_MORE = ''one_or_more''"

datatype port_convention =
    PV_ORDERED_POSITIVE_PRICES | PV_ADJUSTED_OR_UNADJUSTED_PRICE_KIND | PV_SIMPLE_PERIODIC_RETURN
  | PV_LOG_PERIODIC_RETURN | PV_EXPLICIT_PERIODS_PER_YEAR_FACTOR | PV_SAMPLE_STANDARD_DEVIATION
  | PV_SAMPLE_STANDARD_DEVIATION_ANNUALIZED | PV_EXPLICIT_BASE_OBSERVATION_REBASING | PV_RUNNING_PEAK_DRAWDOWN
  | PV_ROLLING_SAMPLE_STANDARD_DEVIATION | PV_ROLLING_SAMPLE_STANDARD_DEVIATION_ANNUALIZED

fun port_convention_value :: "port_convention \<Rightarrow> string" where
  "port_convention_value PV_ORDERED_POSITIVE_PRICES = ''ordered_positive_prices''"
| "port_convention_value PV_ADJUSTED_OR_UNADJUSTED_PRICE_KIND = ''adjusted_or_unadjusted_price_kind''"
| "port_convention_value PV_SIMPLE_PERIODIC_RETURN = ''simple_periodic_return''"
| "port_convention_value PV_LOG_PERIODIC_RETURN = ''log_periodic_return''"
| "port_convention_value PV_EXPLICIT_PERIODS_PER_YEAR_FACTOR = ''explicit_periods_per_year_factor''"
| "port_convention_value PV_SAMPLE_STANDARD_DEVIATION = ''sample_standard_deviation_n_minus_1''"
| "port_convention_value PV_SAMPLE_STANDARD_DEVIATION_ANNUALIZED =
     ''sample_standard_deviation_n_minus_1_square_root_annualization''"
| "port_convention_value PV_EXPLICIT_BASE_OBSERVATION_REBASING = ''explicit_base_observation_rebasing''"
| "port_convention_value PV_RUNNING_PEAK_DRAWDOWN = ''running_peak_drawdown''"
| "port_convention_value PV_ROLLING_SAMPLE_STANDARD_DEVIATION = ''rolling_sample_standard_deviation_n_minus_1''"
| "port_convention_value PV_ROLLING_SAMPLE_STANDARD_DEVIATION_ANNUALIZED =
     ''rolling_sample_standard_deviation_n_minus_1_square_root_annualization''"

datatype port_ordering = PO_NOT_APPLICABLE | PO_PRESERVE_SOURCE_ORDER

fun port_ordering_value :: "port_ordering \<Rightarrow> string" where
  "port_ordering_value PO_NOT_APPLICABLE = ''not_applicable''"
| "port_ordering_value PO_PRESERVE_SOURCE_ORDER = ''preserve_source_order''"

datatype port_frequency = PF_NOT_APPLICABLE | PF_INHERITED | PF_MONTHLY | PF_ANNUAL

fun port_frequency_value :: "port_frequency \<Rightarrow> string" where
  "port_frequency_value PF_NOT_APPLICABLE = ''not_applicable''"
| "port_frequency_value PF_INHERITED = ''inherited''"
| "port_frequency_value PF_MONTHLY = ''monthly''"
| "port_frequency_value PF_ANNUAL = ''annual''"

datatype port_provenance = PP_NOT_REQUIRED | PP_SOURCE_BOUND | PP_COMPONENT_BOUND | PP_SOURCE_OR_COMPONENT_BOUND

fun port_provenance_value :: "port_provenance \<Rightarrow> string" where
  "port_provenance_value PP_NOT_REQUIRED = ''not_required''"
| "port_provenance_value PP_SOURCE_BOUND = ''source_bound''"
| "port_provenance_value PP_COMPONENT_BOUND = ''component_bound''"
| "port_provenance_value PP_SOURCE_OR_COMPONENT_BOUND = ''source_or_component_bound''"

datatype port_dimension =
    D_CONCEPT | D_UNIT | D_SHAPE | D_CARDINALITY | D_CONVENTION | D_ORDERING | D_FREQUENCY | D_PROVENANCE

fun port_dimension_value :: "port_dimension \<Rightarrow> string" where
  "port_dimension_value D_CONCEPT = ''concept''"
| "port_dimension_value D_UNIT = ''unit''"
| "port_dimension_value D_SHAPE = ''shape''"
| "port_dimension_value D_CARDINALITY = ''cardinality''"
| "port_dimension_value D_CONVENTION = ''convention''"
| "port_dimension_value D_ORDERING = ''ordering''"
| "port_dimension_value D_FREQUENCY = ''frequency''"
| "port_dimension_value D_PROVENANCE = ''provenance_requirement''"

definition DIMENSIONS :: "port_dimension list" where
  "DIMENSIONS = [D_CONCEPT, D_UNIT, D_SHAPE, D_CARDINALITY, D_CONVENTION, D_ORDERING, D_FREQUENCY, D_PROVENANCE]"

fun VALUES_BY_DIMENSION :: "port_dimension \<Rightarrow> string list" where
  "VALUES_BY_DIMENSION D_CONCEPT = map port_concept_value
     [PC_PRICE_SERIES, PC_PRICE_ADJUSTMENT_KIND, PC_PERIODIC_RETURN_SERIES, PC_RETURN_CONVENTION,
      PC_ANNUALIZATION_FACTOR, PC_PERIODIC_VOLATILITY, PC_ANNUALIZED_VOLATILITY,
      PC_REBASED_PRICE_INDEX_SERIES, PC_DRAWDOWN_SERIES, PC_MAXIMUM_DRAWDOWN]"
| "VALUES_BY_DIMENSION D_UNIT = map port_unit_value [PU_PRICE, PU_DECIMAL, PU_UNITLESS, PU_VOLATILITY]"
| "VALUES_BY_DIMENSION D_SHAPE = map port_shape_value [PS_SCALAR, PS_ORDERED_SERIES]"
| "VALUES_BY_DIMENSION D_CARDINALITY = map port_cardinality_value [PK_EXACTLY_ONE, PK_ONE_OR_MORE]"
| "VALUES_BY_DIMENSION D_CONVENTION = map port_convention_value
     [PV_ORDERED_POSITIVE_PRICES, PV_ADJUSTED_OR_UNADJUSTED_PRICE_KIND, PV_SIMPLE_PERIODIC_RETURN,
      PV_LOG_PERIODIC_RETURN, PV_EXPLICIT_PERIODS_PER_YEAR_FACTOR, PV_SAMPLE_STANDARD_DEVIATION,
      PV_SAMPLE_STANDARD_DEVIATION_ANNUALIZED, PV_EXPLICIT_BASE_OBSERVATION_REBASING, PV_RUNNING_PEAK_DRAWDOWN,
      PV_ROLLING_SAMPLE_STANDARD_DEVIATION, PV_ROLLING_SAMPLE_STANDARD_DEVIATION_ANNUALIZED]"
| "VALUES_BY_DIMENSION D_ORDERING = map port_ordering_value [PO_NOT_APPLICABLE, PO_PRESERVE_SOURCE_ORDER]"
| "VALUES_BY_DIMENSION D_FREQUENCY =
     map port_frequency_value [PF_NOT_APPLICABLE, PF_INHERITED, PF_MONTHLY, PF_ANNUAL]"
| "VALUES_BY_DIMENSION D_PROVENANCE = map port_provenance_value
     [PP_NOT_REQUIRED, PP_SOURCE_BOUND, PP_COMPONENT_BOUND, PP_SOURCE_OR_COMPONENT_BOUND]"

section \<open>Ports and their comparison\<close>

record semantic_port =
  sp_direction :: port_direction
  sp_concept :: port_concept
  sp_unit :: port_unit
  sp_shape :: port_shape
  sp_cardinality :: port_cardinality
  sp_convention :: port_convention
  sp_ordering :: port_ordering
  sp_frequency :: port_frequency
  sp_provenance :: port_provenance

definition expected_cardinality :: "port_shape \<Rightarrow> port_cardinality" where
  "expected_cardinality s = (if s = PS_SCALAR then PK_EXACTLY_ONE else PK_ONE_OR_MORE)"

definition validate_shape_cardinality :: "semantic_port \<Rightarrow> py_exc + semantic_port" where
  "validate_shape_cardinality p =
     (if sp_cardinality p \<noteq> expected_cardinality (sp_shape p)
      then Inl (ValueError (lit (port_shape_value (sp_shape p) @ '' semantic port requires '' @
             port_cardinality_value (expected_cardinality (sp_shape p)) @ '' cardinality'')))
      else Inr p)"

definition semantic_port_valid :: "semantic_port \<Rightarrow> bool" where
  "semantic_port_valid p \<longleftrightarrow> is_ok (validate_shape_cardinality p)"

definition semantic_port_dump :: "semantic_port \<Rightarrow> pyval" where
  "semantic_port_dump p =
     jobj [(''direction'', jstr (port_direction_value (sp_direction p))),
           (''concept'', jstr (port_concept_value (sp_concept p))), (''unit'', jstr (port_unit_value (sp_unit p))),
           (''shape'', jstr (port_shape_value (sp_shape p))),
           (''cardinality'', jstr (port_cardinality_value (sp_cardinality p))),
           (''convention'', jstr (port_convention_value (sp_convention p))),
           (''ordering'', jstr (port_ordering_value (sp_ordering p))),
           (''frequency'', jstr (port_frequency_value (sp_frequency p))),
           (''provenance_requirement'', jstr (port_provenance_value (sp_provenance p)))]"

fun port_value :: "port_dimension \<Rightarrow> semantic_port \<Rightarrow> string" where
  "port_value D_CONCEPT p = port_concept_value (sp_concept p)"
| "port_value D_UNIT p = port_unit_value (sp_unit p)"
| "port_value D_SHAPE p = port_shape_value (sp_shape p)"
| "port_value D_CARDINALITY p = port_cardinality_value (sp_cardinality p)"
| "port_value D_CONVENTION p = port_convention_value (sp_convention p)"
| "port_value D_ORDERING p = port_ordering_value (sp_ordering p)"
| "port_value D_FREQUENCY p = port_frequency_value (sp_frequency p)"
| "port_value D_PROVENANCE p = port_provenance_value (sp_provenance p)"

record port_difference =
  pd_dimension :: port_dimension
  pd_producer_value :: string
  pd_consumer_value :: string

definition validate_dimension_values :: "port_difference \<Rightarrow> py_exc + port_difference" where
  "validate_dimension_values d =
     (if pd_producer_value d \<notin> set (VALUES_BY_DIMENSION (pd_dimension d))
      then Inl (ValueError (lit ''producer value does not belong to the declared dimension''))
      else if pd_consumer_value d \<notin> set (VALUES_BY_DIMENSION (pd_dimension d))
      then Inl (ValueError (lit ''consumer value does not belong to the declared dimension''))
      else if pd_producer_value d = pd_consumer_value d
      then Inl (ValueError (lit ''a semantic-port difference must contain distinct values''))
      else Inr d)"

definition provenance_is_compatible :: "port_provenance \<Rightarrow> port_provenance \<Rightarrow> bool" where
  "provenance_is_compatible producer consumer =
     (if consumer = PP_NOT_REQUIRED then True
      else if consumer = PP_SOURCE_OR_COMPONENT_BOUND
      then producer \<in> {PP_SOURCE_BOUND, PP_COMPONENT_BOUND, PP_SOURCE_OR_COMPONENT_BOUND}
      else producer = consumer)"

definition dimension_compatible :: "semantic_port \<Rightarrow> semantic_port \<Rightarrow> port_dimension \<Rightarrow> bool" where
  "dimension_compatible producer consumer d =
     (if d = D_PROVENANCE then provenance_is_compatible (sp_provenance producer) (sp_provenance consumer)
      else port_value d producer = port_value d consumer)"

definition differences :: "semantic_port \<Rightarrow> semantic_port \<Rightarrow> py_exc + port_difference list" where
  "differences producer consumer =
     mapE (\<lambda>d. validate_dimension_values
              \<lparr>pd_dimension = d, pd_producer_value = port_value d producer, pd_consumer_value = port_value d consumer\<rparr>)
       (filter (\<lambda>d. \<not> dimension_compatible producer consumer d) DIMENSIONS)"

record port_compatibility =
  pc_producer :: semantic_port
  pc_consumer :: semantic_port
  pc_compatible :: bool
  pc_differences :: "port_difference list"

definition validate_result :: "port_compatibility \<Rightarrow> py_exc + port_compatibility" where
  "validate_result c =
     (if sp_direction (pc_producer c) \<noteq> PD_OUTPUT
      then Inl (ValueError (lit ''producer semantic port must have output direction''))
      else if sp_direction (pc_consumer c) \<noteq> PD_INPUT
      then Inl (ValueError (lit ''consumer semantic port must have input direction''))
      else bindE (differences (pc_producer c) (pc_consumer c)) (\<lambda>expected.
      if pc_differences c \<noteq> expected \<or> pc_compatible c \<noteq> (expected = [])
      then Inl (ValueError (lit ''compatibility result does not match its semantic ports''))
      else Inr c))"

section \<open>Schemas\<close>

type_synonym schema = "(pykey \<times> pyval) list"

text \<open>The target of a local \<^verbatim>\<open>$ref\<close>, when there is one.\<close>

definition ref_target :: "schema \<Rightarrow> schema \<Rightarrow> schema option" where
  "ref_target schema root =
     (case dict_get schema ''$ref'' of
        Some (PStr ref) \<Rightarrow>
          if starts_with (lit ''#/$defs/'') ref
          then (case dict_get root ''$defs'' of
                  Some (PDict defs) \<Rightarrow>
                    (case map_of defs (KStr (drop (length ''#/$defs/'') ref)) of
                       Some (PDict target) \<Rightarrow> Some target
                     | _ \<Rightarrow> None)
                | _ \<Rightarrow> None)
          else None
      | _ \<Rightarrow> None)"

definition alternatives :: "schema \<Rightarrow> schema list option" where
  "alternatives schema =
     (case (case dict_get schema ''anyOf'' of None \<Rightarrow> dict_get schema ''oneOf'' | a \<Rightarrow> a) of
        Some (PList items) \<Rightarrow> Some (List.map_filter (\<lambda>i. case i of PDict s \<Rightarrow> Some s | _ \<Rightarrow> None) items)
      | _ \<Rightarrow> None)"

definition declared_types :: "schema \<Rightarrow> pystr list" where
  "declared_types schema =
     (case dict_get schema ''type'' of
        Some (PStr t) \<Rightarrow> [t]
      | Some (PList ts) \<Rightarrow>
          if list_all (\<lambda>t. case t of PStr _ \<Rightarrow> True | _ \<Rightarrow> False) ts
          then List.map_filter (\<lambda>t. case t of PStr s \<Rightarrow> Some s | _ \<Rightarrow> None) ts else []
      | _ \<Rightarrow> [])"

definition scalar_constant :: "pyval \<Rightarrow> bool" where
  "scalar_constant v = (case v of PNone \<Rightarrow> True | PBool _ \<Rightarrow> True | PInt _ \<Rightarrow> True | PFloat _ \<Rightarrow> True | PStr _ \<Rightarrow> True | _ \<Rightarrow> False)"

definition leaf_shapes :: "schema \<Rightarrow> port_shape set" where
  "leaf_shapes schema =
     (let declared = set (declared_types schema) - {lit ''null''};
          constants = (case dict_get schema ''enum'' of
                         None \<Rightarrow> PList [case dict_get schema ''const'' of None \<Rightarrow> PNone | Some c \<Rightarrow> c]
                       | Some e \<Rightarrow> e);
          implied = (if declared = {} \<and> (dict_get schema ''enum'' \<noteq> None \<or> dict_get schema ''const'' \<noteq> None) \<and>
                        (case constants of PList vs \<Rightarrow> list_all scalar_constant vs | _ \<Rightarrow> False)
                     then {lit ''scalar''} else declared)
      in (if implied \<inter> {lit ''boolean'', lit ''integer'', lit ''number'', lit ''string'', lit ''scalar''} \<noteq> {}
          then {PS_SCALAR} else {}) \<union>
         (if lit ''array'' \<in> implied \<and> dict_get schema ''uniqueItems'' \<noteq> Some (PBool True)
          then {PS_ORDERED_SERIES} else {}))"

definition leaf_minimums :: "schema \<Rightarrow> int option list" where
  "leaf_minimums schema =
     (if lit ''array'' \<notin> set (declared_types schema) then []
      else [case dict_get schema ''minItems'' of Some (PInt n) \<Rightarrow> Some n | _ \<Rightarrow> None])"

text \<open>The one place where a reference is followed but the walk also looks at the schema itself.\<close>

definition leaf_allows_null :: "schema \<Rightarrow> bool" where
  "leaf_allows_null schema =
     (dict_get schema ''type'' = Some (PStr (lit ''null'')) \<or>
      (case dict_get schema ''type'' of Some (PList ts) \<Rightarrow> PStr (lit ''null'') \<in> set ts | _ \<Rightarrow> False) \<or>
      dict_get schema ''const'' = Some PNone \<or>
      (case dict_get schema ''enum'' of Some (PList vs) \<Rightarrow> PNone \<in> set vs | _ \<Rightarrow> False))"

text \<open>All answers of a list of walks, or \<open>None\<close> when one of them does not end.\<close>

fun sequence_opt :: "'a option list \<Rightarrow> 'a list option" where
  "sequence_opt [] = Some []"
| "sequence_opt (x # xs) =
     (case x of None \<Rightarrow> None | Some a \<Rightarrow> (case sequence_opt xs of None \<Rightarrow> None | Some as \<Rightarrow> Some (a # as)))"

fun schema_shapes :: "nat \<Rightarrow> schema \<Rightarrow> schema \<Rightarrow> port_shape set option" where
  "schema_shapes 0 schema root = None"
| "schema_shapes (Suc n) schema root =
     (case ref_target schema root of
        Some target \<Rightarrow> schema_shapes n target root
      | None \<Rightarrow>
          (case alternatives schema of
             Some items \<Rightarrow> map_option (\<lambda>ss. \<Union> (set ss)) (sequence_opt (map (\<lambda>s. schema_shapes n s root) items))
           | None \<Rightarrow> Some (leaf_shapes schema)))"

fun array_minimum_items :: "nat \<Rightarrow> schema \<Rightarrow> schema \<Rightarrow> int option list option" where
  "array_minimum_items 0 schema root = None"
| "array_minimum_items (Suc n) schema root =
     (case ref_target schema root of
        Some target \<Rightarrow> array_minimum_items n target root
      | None \<Rightarrow>
          (case alternatives schema of
             Some items \<Rightarrow> map_option concat (sequence_opt (map (\<lambda>s. array_minimum_items n s root) items))
           | None \<Rightarrow> Some (leaf_minimums schema)))"

text \<open>\<^verbatim>\<open>any\<close> stops at the first alternative that allows null.\<close>

fun any_opt :: "bool option list \<Rightarrow> bool option" where
  "any_opt [] = Some False"
| "any_opt (x # xs) = (case x of None \<Rightarrow> None | Some True \<Rightarrow> Some True | Some False \<Rightarrow> any_opt xs)"

fun schema_allows_null :: "nat \<Rightarrow> schema \<Rightarrow> schema \<Rightarrow> bool option" where
  "schema_allows_null 0 schema root = None"
| "schema_allows_null (Suc n) schema root =
     any_opt
       [case ref_target schema root of None \<Rightarrow> Some False | Some target \<Rightarrow> schema_allows_null n target root,
        case alternatives schema of
          None \<Rightarrow> Some False
        | Some items \<Rightarrow> any_opt (map (\<lambda>s. schema_allows_null n s root) items),
        Some (leaf_allows_null schema)]"

section \<open>Extraction\<close>

datatype field_extra = NoExtra | ExtraNotMapping | ExtraMapping "(pykey \<times> pyval) list"

record port_model =
  pm_name :: pystr
  pm_fields :: "pystr \<Rightarrow> field_extra option"
  pm_schema :: schema
  pm_parse_port :: "pyval \<Rightarrow> semantic_port option"

datatype port_issue =
    NotAField | MissingMetadata | MetadataNotMapping | SiblingMetadata | InvalidMetadata | WrongDirection
  | NoSchemaProperty | Nullable | NoMinimum | AmbiguousShape | ShapeContradiction | CardinalityContradiction

text \<open>\<open>Endless\<close>: a walk over a cyclic schema, which the code ends with a \<^verbatim>\<open>RecursionError\<close>.\<close>

datatype port_exc =
    SemanticPortError port_issue
  | IncompatiblePortsError port_compatibility
  | PortValidation py_exc
  | Endless

definition PORT_SCHEMA_KEY :: string where
  "PORT_SCHEMA_KEY = ''x-defined-quant-port''"

definition walked :: "'a option \<Rightarrow> port_exc + 'a" where
  "walked r = (case r of None \<Rightarrow> Inl Endless | Some a \<Rightarrow> Inr a)"

definition field_shape_and_cardinality ::
  "nat \<Rightarrow> port_model \<Rightarrow> pystr \<Rightarrow> port_exc + port_shape \<times> port_cardinality" where
  "field_shape_and_cardinality fuel m field_name =
     (case (case dict_get (pm_schema m) ''properties'' of
              Some (PDict properties) \<Rightarrow> map_of properties (KStr field_name)
            | _ \<Rightarrow> None) of
        Some (PDict field_schema) \<Rightarrow>
          bindE (walked (schema_allows_null fuel field_schema (pm_schema m))) (\<lambda>nullable.
          if nullable then Inl (SemanticPortError Nullable)
          else bindE (walked (schema_shapes fuel field_schema (pm_schema m))) (\<lambda>shapes.
          if shapes = {PS_ORDERED_SERIES}
          then bindE (walked (array_minimum_items fuel field_schema (pm_schema m))) (\<lambda>minimums.
               if minimums = [] \<or> list_ex (\<lambda>m. case m of None \<Rightarrow> True | Some n \<Rightarrow> n < 1) minimums
               then Inl (SemanticPortError NoMinimum)
               else Inr (PS_ORDERED_SERIES, PK_ONE_OR_MORE))
          else if shapes = {PS_SCALAR} then Inr (PS_SCALAR, PK_EXACTLY_ONE)
          else Inl (SemanticPortError AmbiguousShape)))
      | _ \<Rightarrow> Inl (SemanticPortError NoSchemaProperty))"

definition extract_semantic_port ::
  "nat \<Rightarrow> port_model \<Rightarrow> pystr \<Rightarrow> port_direction \<Rightarrow> port_exc + semantic_port" where
  "extract_semantic_port fuel m field_name expected_direction =
     (case pm_fields m field_name of
        None \<Rightarrow> Inl (SemanticPortError NotAField)
      | Some NoExtra \<Rightarrow> Inl (SemanticPortError MissingMetadata)
      | Some ExtraNotMapping \<Rightarrow> Inl (SemanticPortError MetadataNotMapping)
      | Some (ExtraMapping metadata) \<Rightarrow>
          (case dict_get metadata PORT_SCHEMA_KEY of
             None \<Rightarrow> Inl (SemanticPortError MissingMetadata)
           | Some raw \<Rightarrow>
               if fst ` set metadata \<noteq> {KStr (lit PORT_SCHEMA_KEY)} then Inl (SemanticPortError SiblingMetadata)
               else (case pm_parse_port m raw of
                       None \<Rightarrow> Inl (SemanticPortError InvalidMetadata)
                     | Some port \<Rightarrow>
                         if \<not> semantic_port_valid port then Inl (SemanticPortError InvalidMetadata)
                         else if sp_direction port \<noteq> expected_direction then Inl (SemanticPortError WrongDirection)
                         else bindE (field_shape_and_cardinality fuel m field_name) (\<lambda>(shape, cardinality).
                         if sp_shape port \<noteq> shape then Inl (SemanticPortError ShapeContradiction)
                         else if sp_cardinality port \<noteq> cardinality then Inl (SemanticPortError CardinalityContradiction)
                         else Inr port))))"

definition port_validation :: "py_exc + 'a \<Rightarrow> port_exc + 'a" where
  "port_validation r = (case r of Inl e \<Rightarrow> Inl (PortValidation e) | Inr a \<Rightarrow> Inr a)"

definition compare_semantic_ports ::
  "nat \<Rightarrow> port_model \<Rightarrow> pystr \<Rightarrow> port_model \<Rightarrow> pystr \<Rightarrow> port_exc + port_compatibility" where
  "compare_semantic_ports fuel producer_model producer_field consumer_model consumer_field =
     bindE (extract_semantic_port fuel producer_model producer_field PD_OUTPUT) (\<lambda>producer.
     bindE (extract_semantic_port fuel consumer_model consumer_field PD_INPUT) (\<lambda>consumer.
     bindE (port_validation (differences producer consumer)) (\<lambda>ds.
     port_validation (validate_result
       \<lparr>pc_producer = producer, pc_consumer = consumer, pc_compatible = (ds = []), pc_differences = ds\<rparr>))))"

definition require_compatible_ports ::
  "nat \<Rightarrow> port_model \<Rightarrow> pystr \<Rightarrow> port_model \<Rightarrow> pystr \<Rightarrow> port_exc + port_compatibility" where
  "require_compatible_ports fuel producer_model producer_field consumer_model consumer_field =
     bindE (compare_semantic_ports fuel producer_model producer_field consumer_model consumer_field) (\<lambda>c.
     if \<not> pc_compatible c then Inl (IncompatiblePortsError c) else Inr c)"

text \<open>\<^verbatim>\<open>semantic_port_metadata\<close> on a complete port, and on the nine keyword dimensions.\<close>

definition semantic_port_metadata :: "semantic_port \<Rightarrow> (pykey \<times> pyval) list" where
  "semantic_port_metadata port = [(KStr (lit PORT_SCHEMA_KEY), semantic_port_dump port)]"

section \<open>Comparison\<close>

lemma port_value_listed: "port_value d p \<in> set (VALUES_BY_DIMENSION d)"
proof (cases d)
  case D_CONCEPT
  then show ?thesis by (cases "sp_concept p") simp_all
next
  case D_UNIT
  then show ?thesis by (cases "sp_unit p") simp_all
next
  case D_SHAPE
  then show ?thesis by (cases "sp_shape p") simp_all
next
  case D_CARDINALITY
  then show ?thesis by (cases "sp_cardinality p") simp_all
next
  case D_CONVENTION
  then show ?thesis by (cases "sp_convention p") simp_all
next
  case D_ORDERING
  then show ?thesis by (cases "sp_ordering p") simp_all
next
  case D_FREQUENCY
  then show ?thesis by (cases "sp_frequency p") simp_all
next
  case D_PROVENANCE
  then show ?thesis by (cases "sp_provenance p") simp_all
qed

lemma incompatible_values_differ:
  "\<not> dimension_compatible p c d \<Longrightarrow> port_value d p \<noteq> port_value d c"
  by (cases "sp_provenance p"; cases "sp_provenance c")
    (auto simp: dimension_compatible_def provenance_is_compatible_def split: if_splits)

text \<open>Building the difference records never fails.\<close>

definition difference_at :: "semantic_port \<Rightarrow> semantic_port \<Rightarrow> port_dimension \<Rightarrow> port_difference" where
  "difference_at p c d =
     \<lparr>pd_dimension = d, pd_producer_value = port_value d p, pd_consumer_value = port_value d c\<rparr>"

lemma differences_total:
  "differences p c = Inr (map (difference_at p c) (filter (\<lambda>d. \<not> dimension_compatible p c d) DIMENSIONS))"
  unfolding differences_def
  by (intro mapE_Inr_map)
    (auto simp: validate_dimension_values_def difference_at_def port_value_listed incompatible_values_differ)

lemma all_dimensions: "d \<in> set DIMENSIONS"
  by (cases d) (simp_all add: DIMENSIONS_def)

definition feeds :: "semantic_port \<Rightarrow> semantic_port \<Rightarrow> bool" where
  "feeds p c \<longleftrightarrow> (\<forall>d. dimension_compatible p c d)"

lemma differences_empty_iff: "differences p c = Inr [] \<longleftrightarrow> feeds p c"
  using all_dimensions by (auto simp: differences_total feeds_def filter_empty_conv)

lemma provenance_transitive:
  "provenance_is_compatible a b \<Longrightarrow> provenance_is_compatible b c \<Longrightarrow> provenance_is_compatible a c"
  by (auto simp: provenance_is_compatible_def split: if_splits)

lemma feeds_refl: "feeds p p"
  by (cases "sp_provenance p") (simp_all add: feeds_def dimension_compatible_def provenance_is_compatible_def)

lemma feeds_trans: "feeds p q \<Longrightarrow> feeds q r \<Longrightarrow> feeds p r"
  unfolding feeds_def dimension_compatible_def by (metis provenance_transitive)

section \<open>Walks\<close>

lemma sequence_opt_mono:
  assumes "\<And>s x. s \<in> set items \<Longrightarrow> f s = Some x \<Longrightarrow> g s = Some x" "sequence_opt (map f items) = Some ys"
  shows "sequence_opt (map g items) = Some ys"
  using assms by (induction items arbitrary: ys) (auto split: option.splits)

lemma any_opt_mono:
  assumes "list_all2 (\<lambda>x y. \<forall>b. x = Some b \<longrightarrow> y = Some b) xs ys" "any_opt xs = Some b"
  shows "any_opt ys = Some b"
  using assms by (induction xs ys rule: list_all2_induct) (auto split: option.splits bool.splits)

text \<open>More fuel never changes an answer.\<close>

lemma walk_fuel_Suc:
  "schema_shapes n s r = Some x \<Longrightarrow> schema_shapes (Suc n) s r = Some x"
  "array_minimum_items n s r = Some ms \<Longrightarrow> array_minimum_items (Suc n) s r = Some ms"
  "schema_allows_null n s r = Some b \<Longrightarrow> schema_allows_null (Suc n) s r = Some b"
proof (induction n arbitrary: s x ms b)
  case (Suc n)
  {
    case 1
    then show ?case using Suc.IH(1) sequence_opt_mono[of _ "\<lambda>s. schema_shapes n s r" "\<lambda>s. schema_shapes (Suc n) s r"]
      by (subst schema_shapes.simps) (fastforce split: option.splits simp del: schema_shapes.simps(2) simp: schema_shapes.simps(2)[of n s])
  next
    case 2
    then show ?case using Suc.IH(2) sequence_opt_mono[of _ "\<lambda>s. array_minimum_items n s r" "\<lambda>s. array_minimum_items (Suc n) s r"]
      by (subst array_minimum_items.simps) (fastforce split: option.splits simp del: array_minimum_items.simps(2) simp: array_minimum_items.simps(2)[of n s])
  next
    case 3
    have alts: "any_opt (map (\<lambda>s. schema_allows_null (Suc n) s r) items) = Some c"
      if "any_opt (map (\<lambda>s. schema_allows_null n s r) items) = Some c" for items c
      using Suc.IH(3) by (intro any_opt_mono[OF _ that]) (auto simp: list_all2_conv_all_nth simp del: schema_allows_null.simps)
    have "list_all2 (\<lambda>x y. \<forall>b. x = Some b \<longrightarrow> y = Some b)
      [case ref_target s r of None \<Rightarrow> Some False | Some t \<Rightarrow> schema_allows_null n t r,
       case alternatives s of None \<Rightarrow> Some False | Some items \<Rightarrow> any_opt (map (\<lambda>s. schema_allows_null n s r) items),
       Some (leaf_allows_null s)]
      [case ref_target s r of None \<Rightarrow> Some False | Some t \<Rightarrow> schema_allows_null (Suc n) t r,
       case alternatives s of None \<Rightarrow> Some False | Some items \<Rightarrow> any_opt (map (\<lambda>s. schema_allows_null (Suc n) s r) items),
       Some (leaf_allows_null s)]"
      using Suc.IH(3) alts by (auto split: option.splits simp del: schema_allows_null.simps any_opt.simps)
    then show ?case using 3
      unfolding schema_allows_null.simps(2)[of n s r] schema_allows_null.simps(2)[of "Suc n" s r] by (rule any_opt_mono)
  }
qed simp_all

lemma walk_fuel:
  assumes "n \<le> m"
  shows "schema_shapes n s r = Some x \<Longrightarrow> schema_shapes m s r = Some x"
    "array_minimum_items n s r = Some ms \<Longrightarrow> array_minimum_items m s r = Some ms"
    "schema_allows_null n s r = Some b \<Longrightarrow> schema_allows_null m s r = Some b"
proof -
  obtain k where m: "m = k + n" using assms le_Suc_ex by (metis add.commute)
  show "schema_shapes n s r = Some x \<Longrightarrow> schema_shapes m s r = Some x"
    unfolding m by (induction k) (auto intro: walk_fuel_Suc(1) simp del: schema_shapes.simps)
  show "array_minimum_items n s r = Some ms \<Longrightarrow> array_minimum_items m s r = Some ms"
    unfolding m by (induction k) (auto intro: walk_fuel_Suc(2) simp del: array_minimum_items.simps)
  show "schema_allows_null n s r = Some b \<Longrightarrow> schema_allows_null m s r = Some b"
    unfolding m by (induction k) (auto intro: walk_fuel_Suc(3) simp del: schema_allows_null.simps)
qed

text \<open>A schema whose references and alternatives descend is walked to the end.\<close>

definition descends :: "schema \<Rightarrow> (schema \<Rightarrow> nat) \<Rightarrow> bool" where
  "descends root rank \<longleftrightarrow>
     (\<forall>s t. ref_target s root = Some t \<longrightarrow> rank t < rank s) \<and>
     (\<forall>s items t. alternatives s = Some items \<longrightarrow> t \<in> set items \<longrightarrow> rank t < rank s)"

lemma any_opt_total: "\<forall>x \<in> set xs. x \<noteq> None \<Longrightarrow> any_opt xs \<noteq> None"
  by (induction xs) (auto split: bool.splits)

lemma sequence_opt_total: "\<forall>x \<in> set xs. x \<noteq> None \<Longrightarrow> sequence_opt xs \<noteq> None"
  by (induction xs) auto

lemma walks_end:
  assumes "descends root rank"
  shows "rank s < n \<Longrightarrow> schema_shapes n s root \<noteq> None \<and> array_minimum_items n s root \<noteq> None \<and> schema_allows_null n s root \<noteq> None"
proof (induction n arbitrary: s)
  case (Suc n)
  have step: "schema_shapes n t root \<noteq> None \<and> array_minimum_items n t root \<noteq> None \<and> schema_allows_null n t root \<noteq> None"
    if "rank t < rank s" for t
    using Suc that by simp
  have ref: "rank t < rank s" if "ref_target s root = Some t" for t using assms that by (auto simp: descends_def)
  have alt: "rank t < rank s" if "alternatives s = Some items" "t \<in> set items" for t items
    using assms that by (auto simp: descends_def)
  have items: "sequence_opt (map (\<lambda>s. schema_shapes n s root) items) \<noteq> None"
    "sequence_opt (map (\<lambda>s. array_minimum_items n s root) items) \<noteq> None" if "alternatives s = Some items" for items
  proof -
    have "\<forall>t \<in> set items. schema_shapes n t root \<noteq> None \<and> array_minimum_items n t root \<noteq> None"
      using alt[OF that] step by blast
    then show "sequence_opt (map (\<lambda>s. schema_shapes n s root) items) \<noteq> None"
      "sequence_opt (map (\<lambda>s. array_minimum_items n s root) items) \<noteq> None"
      by (intro sequence_opt_total; simp)+
  qed
  have "schema_shapes (Suc n) s root \<noteq> None" using ref step items(1) by (auto split: option.splits)
  moreover have "array_minimum_items (Suc n) s root \<noteq> None" using ref step items(2) by (auto split: option.splits)
  moreover have "schema_allows_null (Suc n) s root \<noteq> None"
  proof -
    have "any_opt (map (\<lambda>s. schema_allows_null n s root) items) \<noteq> None" if "alternatives s = Some items" for items
      using alt[OF that] step by (intro any_opt_total) auto
    then show ?thesis unfolding schema_allows_null.simps
      using ref step by (intro any_opt_total) (auto split: option.splits)
  qed
  ultimately show ?case by blast
qed simp

text \<open>Alternatives always descend: only references can make a walk endless.\<close>

definition schema_rank :: "schema \<Rightarrow> nat" where
  "schema_rank s = size (PDict s)"

lemma size_member: "v \<in> set vs \<Longrightarrow> size v < size (PList vs)" "(k, v) \<in> set kvs \<Longrightarrow> size v < size (PDict kvs)"
proof -
  show "v \<in> set vs \<Longrightarrow> size v < size (PList vs)" by (induction vs) auto
  show "(k, v) \<in> set kvs \<Longrightarrow> size v < size (PDict kvs)" by (induction kvs) auto
qed

lemma dict_items_mem: "t \<in> set (List.map_filter (\<lambda>i. case i of PDict s \<Rightarrow> Some s | _ \<Rightarrow> None) vs) \<longleftrightarrow> PDict t \<in> set vs"
  by (induction vs) (auto simp: List.map_filter_simps split: pyval.splits option.splits)

lemma alternative_rank: "alternatives s = Some items \<Longrightarrow> t \<in> set items \<Longrightarrow> schema_rank t < schema_rank s"
proof -
  assume "alternatives s = Some items" "t \<in> set items"
  then obtain k vs where "dict_get s k = Some (PList vs)" "PDict t \<in> set vs"
    unfolding alternatives_def using dict_items_mem by (fastforce split: option.splits pyval.splits)
  then have "(KStr (lit k), PList vs) \<in> set s" "PDict t \<in> set vs" by (auto simp: dict_get_def dest: map_of_SomeD)
  then show ?thesis using size_member less_trans unfolding schema_rank_def by blast
qed

section \<open>What an extracted port promises\<close>

definition field_schema :: "port_model \<Rightarrow> pystr \<Rightarrow> schema option" where
  "field_schema m f =
     (case dict_get (pm_schema m) ''properties'' of
        Some (PDict ps) \<Rightarrow> (case map_of ps (KStr f) of Some (PDict fs) \<Rightarrow> Some fs | _ \<Rightarrow> None)
      | _ \<Rightarrow> None)"

text \<open>The schema of a field that a port may be attached to, and the shape it has.\<close>

definition schema_carries :: "nat \<Rightarrow> port_model \<Rightarrow> schema \<Rightarrow> port_shape \<Rightarrow> bool" where
  "schema_carries fuel m fs shape \<longleftrightarrow>
     schema_allows_null fuel fs (pm_schema m) = Some False \<and> schema_shapes fuel fs (pm_schema m) = Some {shape} \<and>
     (shape = PS_ORDERED_SERIES \<longrightarrow>
        (\<exists>ms. array_minimum_items fuel fs (pm_schema m) = Some ms \<and> ms \<noteq> [] \<and> (\<forall>x \<in> set ms. \<exists>n \<ge> 1. x = Some n)))"

lemma walked_Inr [simp]: "walked r = Inr a \<longleftrightarrow> r = Some a"
  by (cases r) (auto simp: walked_def)

lemma minimums_ok:
  "list_ex (\<lambda>m. case m of None \<Rightarrow> True | Some n \<Rightarrow> n < 1) ms \<longleftrightarrow> \<not> (\<forall>x \<in> set ms. \<exists>n \<ge> (1::int). x = Some n)"
proof -
  have "(case m of None \<Rightarrow> True | Some n \<Rightarrow> n < 1) \<longleftrightarrow> \<not> (\<exists>n \<ge> (1::int). m = Some n)" for m
    by (cases m) auto
  then show ?thesis by (auto simp: list_ex_iff)
qed

lemma field_shape_iff:
  "field_shape_and_cardinality fuel m f = Inr (sh, k) \<longleftrightarrow>
     k = expected_cardinality sh \<and> (\<exists>fs. field_schema m f = Some fs \<and> schema_carries fuel m fs sh)"
proof (cases "field_schema m f")
  case None
  then show ?thesis
    by (auto simp: field_shape_and_cardinality_def field_schema_def split: option.splits pyval.splits)
next
  case (Some fs)
  then have "field_shape_and_cardinality fuel m f =
      bindE (walked (schema_allows_null fuel fs (pm_schema m))) (\<lambda>nullable.
          if nullable then Inl (SemanticPortError Nullable)
          else bindE (walked (schema_shapes fuel fs (pm_schema m))) (\<lambda>shapes.
          if shapes = {PS_ORDERED_SERIES}
          then bindE (walked (array_minimum_items fuel fs (pm_schema m))) (\<lambda>minimums.
               if minimums = [] \<or> list_ex (\<lambda>m. case m of None \<Rightarrow> True | Some n \<Rightarrow> n < 1) minimums
               then Inl (SemanticPortError NoMinimum)
               else Inr (PS_ORDERED_SERIES, PK_ONE_OR_MORE))
          else if shapes = {PS_SCALAR} then Inr (PS_SCALAR, PK_EXACTLY_ONE)
          else Inl (SemanticPortError AmbiguousShape)))"
    by (auto simp: field_shape_and_cardinality_def field_schema_def split: option.splits pyval.splits)
  then show ?thesis unfolding minimums_ok using Some
    by (cases sh) (auto simp: bindE_Inr_iff schema_carries_def expected_cardinality_def split: if_splits)
qed

lemma extract_facts:
  assumes "extract_semantic_port fuel m f dir = Inr p"
  shows "sp_direction p = dir \<and> sp_cardinality p = expected_cardinality (sp_shape p) \<and>
    (\<exists>fs. field_schema m f = Some fs \<and> schema_carries fuel m fs (sp_shape p)) \<and>
    (\<exists>md raw. pm_fields m f = Some (ExtraMapping md) \<and> fst ` set md = {KStr (lit PORT_SCHEMA_KEY)} \<and>
       dict_get md PORT_SCHEMA_KEY = Some raw \<and> pm_parse_port m raw = Some p)"
proof -
  obtain md where md: "pm_fields m f = Some (ExtraMapping md)"
    using assms by (auto simp: extract_semantic_port_def split: option.splits field_extra.splits)
  obtain raw where raw: "dict_get md PORT_SCHEMA_KEY = Some raw"
    using assms md by (auto simp: extract_semantic_port_def split: option.splits)
  have keys: "fst ` set md = {KStr (lit PORT_SCHEMA_KEY)}"
    by (rule ccontr) (use assms md raw in \<open>simp add: extract_semantic_port_def\<close>)
  obtain q where q: "pm_parse_port m raw = Some q"
    using assms md raw keys by (auto simp: extract_semantic_port_def split: option.splits)
  obtain sh k where "field_shape_and_cardinality fuel m f = Inr (sh, k)" "sp_shape p = sh" "sp_cardinality p = k"
    "sp_direction p = dir" "q = p"
    using assms md raw keys q by (auto simp: extract_semantic_port_def bindE_Inr_iff split: if_splits)
  then show ?thesis using field_shape_iff md raw keys q by blast
qed

section \<open>Two models\<close>

definition demo_port :: "port_direction \<Rightarrow> port_provenance \<Rightarrow> semantic_port" where
  "demo_port dir prov =
     \<lparr>sp_direction = dir, sp_concept = PC_PRICE_SERIES, sp_unit = PU_PRICE, sp_shape = PS_ORDERED_SERIES,
      sp_cardinality = PK_ONE_OR_MORE, sp_convention = PV_ORDERED_POSITIVE_PRICES,
      sp_ordering = PO_PRESERVE_SOURCE_ORDER, sp_frequency = PF_INHERITED, sp_provenance = prov\<rparr>"

definition demo_field_schema :: schema where
  "demo_field_schema = [(KStr (lit ''type''), jstr ''array''), (KStr (lit ''minItems''), PInt 1)]"

definition demo_model :: "port_direction \<Rightarrow> port_provenance \<Rightarrow> port_model" where
  "demo_model dir prov =
     \<lparr>pm_name = lit ''M'', pm_fields = (\<lambda>f. Some (ExtraMapping (semantic_port_metadata (demo_port dir prov)))),
      pm_schema = [(KStr (lit ''properties''), PDict [(KStr (lit ''x''), PDict demo_field_schema)])],
      pm_parse_port = (\<lambda>_. Some (demo_port dir prov))\<rparr>"

lemma demo_extract: "extract_semantic_port (Suc n) (demo_model dir prov) (lit ''x'') dir = Inr (demo_port dir prov)"
proof -
  have leaf: "ref_target demo_field_schema root = None" "alternatives demo_field_schema = None"
    "leaf_shapes demo_field_schema = {PS_ORDERED_SERIES}" "leaf_minimums demo_field_schema = [Some 1]"
    "\<not> leaf_allows_null demo_field_schema" for root
    by (simp_all add: demo_field_schema_def ref_target_def alternatives_def leaf_shapes_def leaf_minimums_def
        leaf_allows_null_def declared_types_def dict_get_def jstr_def)
  have "field_schema (demo_model dir prov) (lit ''x'') = Some demo_field_schema"
    by (simp add: field_schema_def demo_model_def dict_get_def)
  then have "field_shape_and_cardinality (Suc n) (demo_model dir prov) (lit ''x'') = Inr (PS_ORDERED_SERIES, PK_ONE_OR_MORE)"
    unfolding field_shape_iff by (simp add: schema_carries_def leaf expected_cardinality_def)
  then show ?thesis
    by (simp add: extract_semantic_port_def)
      (simp add: demo_model_def semantic_port_metadata_def dict_get_def semantic_port_valid_def
        validate_shape_cardinality_def demo_port_def expected_cardinality_def)
qed

section \<open>Properties\<close>

text \<open>
  C23 (port_comparison_exact). Once both ports are extracted the comparison never fails: it reports exactly the
  incompatible dimensions, in the declared order with both values, it is compatible exactly if the producer
  feeds the consumer in every dimension, and only then does \<^verbatim>\<open>require_compatible_ports\<close> return it.
\<close>

theorem port_comparison_exact:
  assumes "extract_semantic_port fuel pm pf PD_OUTPUT = Inr p" "extract_semantic_port fuel cm cf PD_INPUT = Inr c"
  defines "result \<equiv> \<lparr>pc_producer = p, pc_consumer = c, pc_compatible = feeds p c,
    pc_differences = map (difference_at p c) (filter (\<lambda>d. \<not> dimension_compatible p c d) DIMENSIONS)\<rparr>"
  shows "compare_semantic_ports fuel pm pf cm cf = Inr result \<and>
    require_compatible_ports fuel pm pf cm cf = (if feeds p c then Inr result else Inl (IncompatiblePortsError result))"
proof -
  have "(filter (\<lambda>d. \<not> dimension_compatible p c d) DIMENSIONS = []) = feeds p c"
    using differences_empty_iff by (simp add: differences_total)
  moreover have "sp_direction p = PD_OUTPUT" "sp_direction c = PD_INPUT" using assms(1,2) extract_facts by blast+
  ultimately have "compare_semantic_ports fuel pm pf cm cf = Inr result"
    using assms by (simp add: compare_semantic_ports_def port_validation_def differences_total validate_result_def)
  then show ?thesis by (simp add: require_compatible_ports_def result_def)
qed

theorem port_comparison_exact_witness:
  "(\<exists>r. require_compatible_ports 1 (demo_model PD_OUTPUT PP_SOURCE_BOUND) (lit ''x'')
          (demo_model PD_INPUT PP_SOURCE_OR_COMPONENT_BOUND) (lit ''x'') = Inr r) \<and>
   (\<exists>r. require_compatible_ports 1 (demo_model PD_OUTPUT PP_NOT_REQUIRED) (lit ''x'')
          (demo_model PD_INPUT PP_SOURCE_BOUND) (lit ''x'') = Inl (IncompatiblePortsError r))"
proof -
  have one: "extract_semantic_port 1 (demo_model dir prov) (lit ''x'') dir = Inr (demo_port dir prov)" for dir prov
    using demo_extract[of 0] by simp
  have "feeds (demo_port PD_OUTPUT PP_SOURCE_BOUND) (demo_port PD_INPUT PP_SOURCE_OR_COMPONENT_BOUND)"
    unfolding feeds_def
  proof
    show "dimension_compatible (demo_port PD_OUTPUT PP_SOURCE_BOUND) (demo_port PD_INPUT PP_SOURCE_OR_COMPONENT_BOUND) d" for d
      by (cases d) (simp_all add: dimension_compatible_def provenance_is_compatible_def demo_port_def)
  qed
  moreover have "\<not> dimension_compatible (demo_port PD_OUTPUT PP_NOT_REQUIRED) (demo_port PD_INPUT PP_SOURCE_BOUND) D_PROVENANCE"
    by (simp add: dimension_compatible_def provenance_is_compatible_def demo_port_def)
  ultimately show ?thesis
    using port_comparison_exact[OF one one, of PP_SOURCE_BOUND PP_SOURCE_OR_COMPONENT_BOUND]
      port_comparison_exact[OF one one, of PP_NOT_REQUIRED PP_SOURCE_BOUND]
    by (auto simp: feeds_def)
qed

text \<open>
  A port extracted from a field is the sole metadata of that field, has the
  requested direction, and agrees with the field's generated schema: not nullable, of exactly the declared shape,
  and non-empty when it is a series.
\<close>

theorem extracted_port_matches_schema:
  assumes "extract_semantic_port fuel m f dir = Inr p"
  shows "sp_direction p = dir \<and> sp_cardinality p = expected_cardinality (sp_shape p) \<and>
    (\<exists>fs. field_schema m f = Some fs \<and> schema_carries fuel m fs (sp_shape p)) \<and>
    (\<exists>md raw. pm_fields m f = Some (ExtraMapping md) \<and> fst ` set md = {KStr (lit PORT_SCHEMA_KEY)} \<and>
       dict_get md PORT_SCHEMA_KEY = Some raw \<and> pm_parse_port m raw = Some p)"
  using assms by (rule extract_facts)

theorem extracted_port_matches_schema_witness:
  "\<exists>fs. field_schema (demo_model PD_OUTPUT PP_SOURCE_BOUND) (lit ''x'') = Some fs \<and>
     schema_carries (Suc 0) (demo_model PD_OUTPUT PP_SOURCE_BOUND) fs PS_ORDERED_SERIES"
  using extracted_port_matches_schema[OF demo_extract[of 0 PD_OUTPUT PP_SOURCE_BOUND]] by (simp add: demo_port_def)

text \<open>
  The three schema walks end on every schema whose references and alternatives descend,
  and no answer depends on how much fuel is left.
\<close>

theorem schema_walks_end:
  assumes "descends root rank" "rank s < n" "n \<le> m"
  shows "\<exists>shapes ms b. schema_shapes n s root = Some shapes \<and> schema_shapes m s root = Some shapes \<and>
    array_minimum_items n s root = Some ms \<and> array_minimum_items m s root = Some ms \<and>
    schema_allows_null n s root = Some b \<and> schema_allows_null m s root = Some b"
proof -
  obtain shapes ms b where "schema_shapes n s root = Some shapes" "array_minimum_items n s root = Some ms"
    "schema_allows_null n s root = Some b"
    using walks_end[OF assms(1,2)] by blast
  then show ?thesis using walk_fuel[OF assms(3)] by blast
qed

theorem schema_walks_end_witness:
  "\<exists>shapes. schema_shapes 9 demo_field_schema [] = Some shapes"
proof -
  have "ref_target s [] = None" for s
    by (auto simp: ref_target_def dict_get_def split: option.splits pyval.splits)
  then have "descends [] schema_rank" using alternative_rank by (auto simp: descends_def)
  then show ?thesis using schema_walks_end[of "[]" schema_rank demo_field_schema 9 9]
    by (auto simp: schema_rank_def demo_field_schema_def jstr_def lit_def)
qed

end
