(* ===== verification/Data_Records.thy ===== *)
theory Data_Records
  imports Ports Json_Text
begin

text \<open>
  \<^verbatim>\<open>shared/data_records.py\<close>: content references, the normalized table of a dataset, the dataset record that binds
  it, and the operation record that binds a published bundle; with their validators, their closed hash
  projections and their digests. The JSON text layer of the module is in \<open>Json_Text\<close>.
\<close>

section \<open>Limits and text\<close>

definition MAX_DATASET_ROWS :: nat where "MAX_DATASET_ROWS = 40000"

definition MAX_DATASET_COLUMNS :: nat where "MAX_DATASET_COLUMNS = 128"

definition MAX_CELL_BYTES :: nat where "MAX_CELL_BYTES = 64 * 1024"

definition MAX_LITERAL_FIELDS :: nat where "MAX_LITERAL_FIELDS = 64"

definition MAX_LITERAL_BYTES :: nat where "MAX_LITERAL_BYTES = 64 * 1024"

definition MAX_LITERALS_BYTES :: nat where "MAX_LITERALS_BYTES = 512 * 1024"

definition MAX_OPERATION_MEMBER_BYTES :: nat where "MAX_OPERATION_MEMBER_BYTES = 128 * 1024 * 1024"

definition MAX_OPERATION_ARTIFACTS :: nat where "MAX_OPERATION_ARTIFACTS = 128"

definition MAX_RECORD_BYTES :: nat where "MAX_RECORD_BYTES = 2 * 1024 * 1024"

abbreviation value_error :: "string \<Rightarrow> py_exc + 'a" where
  "value_error m \<equiv> Inl (ValueError (lit m))"

definition utf8_bytes :: "string \<Rightarrow> nat \<Rightarrow> nat \<Rightarrow> pystr \<Rightarrow> py_exc + bytes" where
  "utf8_bytes name minimum maximum s =
     (case utf8_encode s of
        None \<Rightarrow> value_error (name @ '' cannot contain lone Unicode surrogates'')
      | Some encoded \<Rightarrow>
          if \<not> (minimum \<le> length encoded \<and> length encoded \<le> maximum)
          then Inl (ValueError (lit (name @ '' must contain '') @ nat_repr minimum @ lit ''..'' @ nat_repr maximum @
                 lit '' UTF-8 bytes''))
          else Inr encoded)"

definition utf8_within :: "nat \<Rightarrow> nat \<Rightarrow> pystr \<Rightarrow> bool" where
  "utf8_within minimum maximum s \<longleftrightarrow> is_ok (utf8_bytes ''text'' minimum maximum s)"

definition validate_semver :: "pystr \<Rightarrow> py_exc + pystr" where
  "validate_semver v =
     bindE (utf8_bytes ''version'' 1 128 v) (\<lambda>_.
     if \<not> fullmatch SEMVER_PATTERN v then value_error ''version must be a canonical semantic version'' else Inr v)"

definition validate_sha256 :: "pystr \<Rightarrow> py_exc + pystr" where
  "validate_sha256 v =
     (if \<not> fullmatch SHA256_PATTERN v then value_error ''digest must contain 64 lowercase hexadecimal characters''
      else Inr v)"

definition require_integer_one :: "string \<Rightarrow> pyval \<Rightarrow> py_exc + pyval" where
  "require_integer_one name v = (if v \<noteq> PInt 1 then value_error (name @ '' must be the integer 1'') else Inr v)"

section \<open>References\<close>

datatype reference_kind = DatasetKind | OperationKind

fun reference_prefix :: "reference_kind \<Rightarrow> string" where
  "reference_prefix DatasetKind = ''dqds:v''"
| "reference_prefix OperationKind = ''dqop:v''"

definition REFERENCE_PATTERN :: "reference_kind \<Rightarrow> rx" where
  "REFERENCE_PATTERN k = Cats [Str (reference_prefix k), Between 1 3 (Cls is_digit), Chr 58, Times 64 (Cls is_hex)]"

record parsed_reference =
  pr_kind :: reference_kind
  pr_version_token :: pystr
  pr_digest :: pystr

text \<open>The groups of the pattern by position: the prefix has six characters, the digest is the last 64.\<close>

definition parse_reference :: "reference_kind \<Rightarrow> pystr \<Rightarrow> py_exc + parsed_reference" where
  "parse_reference k s =
     (if \<not> fullmatch (REFERENCE_PATTERN k) s
      then value_error (if k = DatasetKind then ''invalid dataset reference'' else ''invalid operation reference'')
      else Inr \<lparr>pr_kind = k, pr_version_token = take (length s - 71) (drop 6 s), pr_digest = drop (length s - 64) s\<rparr>)"

definition make_reference :: "reference_kind \<Rightarrow> pystr \<Rightarrow> py_exc + pystr" where
  "make_reference k digest = bindE (validate_sha256 digest) (\<lambda>d. Inr (lit (reference_prefix k @ ''1:'') @ d))"

abbreviation "dataset_reference \<equiv> make_reference DatasetKind"

abbreviation "operation_reference \<equiv> make_reference OperationKind"

section \<open>Timestamps\<close>

definition CANONICAL_TIMESTAMP_PATTERN :: rx where
  "CANONICAL_TIMESTAMP_PATTERN =
     (let d = Cls unicode_digit in
      Cats [Times 4 d, Chr 45, Times 2 d, Chr 45, Times 2 d, Chr 84, Times 2 d, Chr 58, Times 2 d, Chr 58, Times 2 d,
            Opt (Cats [Chr 46, AtMost 5 d, Cls (\<lambda>c. 49 \<le> c \<and> c \<le> 57)]), Chr 90])"

text \<open>\<^verbatim>\<open>datetime.fromisoformat\<close> on a text of that shape with a zero offset: ASCII digits and a date that exists.\<close>

definition iso_instant :: "pystr \<Rightarrow> bool" where
  "iso_instant s \<longleftrightarrow>
     list_all (\<lambda>c. c < 128) s \<and> 1 \<le> field_at 0 4 s \<and> 1 \<le> field_at 5 2 s \<and> field_at 5 2 s \<le> 12 \<and>
     1 \<le> field_at 8 2 s \<and> field_at 8 2 s \<le> days_in_month (field_at 0 4 s) (field_at 5 2 s) \<and>
     field_at 11 2 s \<le> 23 \<and> field_at 14 2 s \<le> 59 \<and> field_at 17 2 s \<le> 59"

definition validate_canonical_timestamp :: "pystr \<Rightarrow> py_exc + unit" where
  "validate_canonical_timestamp s =
     (if \<not> fullmatch CANONICAL_TIMESTAMP_PATTERN s then value_error ''timestamp is not in canonical UTC form''
      else if \<not> iso_instant s then value_error ''timestamp is not a valid Gregorian UTC instant''
      else Inr ())"

section \<open>Payload tables\<close>

datatype data_type = T_NUMBER | T_INTEGER | T_STRING | T_BOOLEAN | T_TIMESTAMP

fun data_type_value :: "data_type \<Rightarrow> string" where
  "data_type_value T_NUMBER = ''number''"
| "data_type_value T_INTEGER = ''integer''"
| "data_type_value T_STRING = ''string''"
| "data_type_value T_BOOLEAN = ''boolean''"
| "data_type_value T_TIMESTAMP = ''timestamp''"

definition integer_cell :: "int \<Rightarrow> string \<Rightarrow> py_exc + unit" where
  "integer_cell i message = (if \<bar>i\<bar> > MAX_SAFE_INTEGER then value_error message else Inr ())"

definition number_cell :: "float64 \<Rightarrow> py_exc + unit" where
  "number_cell x =
     (if \<not> f64_finite x then value_error ''number cell must be finite''
      else if f64_is_integer x \<and> \<bar>f64_units x\<bar> > MAX_SAFE_INTEGER * f64_one
      then value_error ''integer-valued number cell exceeds the canonical safe range''
      else Inr ())"

definition typed_cell :: "data_type \<Rightarrow> pyval \<Rightarrow> py_exc + unit" where
  "typed_cell t v =
     (case t of
        T_BOOLEAN \<Rightarrow>
          (case v of PBool _ \<Rightarrow> Inr () | _ \<Rightarrow> value_error ''boolean column contains a non-boolean cell'')
      | T_INTEGER \<Rightarrow>
          (case v of
             PInt i \<Rightarrow> integer_cell i ''integer cell exceeds the canonical safe range''
           | _ \<Rightarrow> value_error ''integer column contains a non-integer cell'')
      | T_NUMBER \<Rightarrow>
          (case v of
             PInt i \<Rightarrow> integer_cell i ''number cell exceeds the canonical safe range''
           | PFloat x \<Rightarrow> number_cell x
           | _ \<Rightarrow> value_error ''number column contains a non-number cell'')
      | T_STRING \<Rightarrow>
          (case v of PStr _ \<Rightarrow> Inr () | _ \<Rightarrow> value_error ''string column contains a non-string cell'')
      | T_TIMESTAMP \<Rightarrow>
          (case v of
             PStr s \<Rightarrow> validate_canonical_timestamp s
           | _ \<Rightarrow> value_error ''timestamp column contains a non-string cell''))"

definition validate_cell :: "data_type \<Rightarrow> pyval \<Rightarrow> py_exc + unit" where
  "validate_cell t v =
     (if v = PNone then Inr ()
      else case v of
        PList _ \<Rightarrow> value_error ''dataset payload cells must be scalar''
      | PDict _ \<Rightarrow> value_error ''dataset payload cells must be scalar''
      | PStr s \<Rightarrow> bindE (utf8_bytes ''dataset cell'' 0 MAX_CELL_BYTES s) (\<lambda>_. typed_cell t v)
      | _ \<Rightarrow> typed_cell t v)"

record payload_column =
  py_field_id :: pystr
  py_data_type :: data_type

record dataset_payload =
  dp_columns :: "payload_column list"
  dp_rows :: "pyval list list"

definition payload_column_dump :: "payload_column \<Rightarrow> pyval" where
  "payload_column_dump c = jobj [(''field_id'', PStr (py_field_id c)), (''data_type'', jstr (data_type_value (py_data_type c)))]"

definition payload_projection :: "dataset_payload \<Rightarrow> pyval" where
  "payload_projection p =
     jobj [(''schema_version'', PInt 1), (''serialization'', jstr ''dq-table-v1''),
           (''columns'', PList (map payload_column_dump (dp_columns p))), (''rows'', PList (map PList (dp_rows p)))]"

definition validate_row :: "payload_column list \<Rightarrow> pyval list \<Rightarrow> py_exc + unit" where
  "validate_row columns row =
     (if length row \<noteq> length columns then value_error ''every payload row must have the declared width''
      else bindE (mapE (\<lambda>(v, c). validate_cell (py_data_type c) v) (zip row columns)) (\<lambda>_. Inr ()))"

definition validate_table :: "dataset_payload \<Rightarrow> py_exc + dataset_payload" where
  "validate_table p =
     (let field_ids = map py_field_id (dp_columns p) in
      if card (set field_ids) \<noteq> length field_ids then value_error ''payload field IDs must be unique''
      else bindE (mapE (validate_row (dp_columns p)) (dp_rows p)) (\<lambda>_.
           bindE (canonical_json_bytes (payload_projection p)) (\<lambda>_. Inr p)))"

definition dataset_payload_valid :: "dataset_payload \<Rightarrow> bool" where
  "dataset_payload_valid p \<longleftrightarrow>
     dp_columns p \<noteq> [] \<and> length (dp_columns p) \<le> MAX_DATASET_COLUMNS \<and>
     list_all (\<lambda>c. pattern_ok SAFE_ID_PATTERN (py_field_id c)) (dp_columns p) \<and>
     dp_rows p \<noteq> [] \<and> length (dp_rows p) \<le> MAX_DATASET_ROWS \<and>
     list_all (list_all json_value) (dp_rows p) \<and> is_ok (validate_table p)"

definition DATASET_PAYLOAD_HASH_DOMAIN :: pystr where
  "DATASET_PAYLOAD_HASH_DOMAIN = lit ''mcp.dataset.payload.v1''"

definition payload_digest :: "dataset_payload \<Rightarrow> py_exc + pystr" where
  "payload_digest p = canonical_hash (payload_projection p) DATASET_PAYLOAD_HASH_DOMAIN"

section \<open>Dataset records\<close>

text \<open>The provenance of a stored dataset has the fields of \<open>caller_provenance\<close>, with bounds in UTF-8 bytes.\<close>

definition dataset_provenance_valid :: "caller_provenance \<Rightarrow> bool" where
  "dataset_provenance_valid p \<longleftrightarrow>
     utf8_within 1 240 (p_label p) \<and>
     length (p_references p) \<le> 50 \<and> list_all (utf8_within 1 500) (p_references p) \<and>
     pred_option (pattern_ok SHA256_PATTERN) (content_sha256 p) \<and>
     length (assumptions p) \<le> 50 \<and> list_all (utf8_within 1 500) (assumptions p)"

definition present :: "string \<Rightarrow> ('a \<Rightarrow> pyval) \<Rightarrow> 'a option \<Rightarrow> (string \<times> pyval) list" where
  "present k f x = (case x of None \<Rightarrow> [] | Some a \<Rightarrow> [(k, f a)])"

definition dataset_provenance_projection :: "caller_provenance \<Rightarrow> pyval" where
  "dataset_provenance_projection p =
     jobj ([(''source_kind'', jstr (source_kind_value (source_kind p))),
            (''interpretation_method'', jstr (interpretation_method_value (interpretation_method p))),
            (''verification_status'', jstr (provenance_status_value (verification_status p))),
            (''label'', PStr (p_label p)), (''references'', PList (map PStr (p_references p)))] @
           present ''content_sha256'' PStr (content_sha256 p) @
           [(''assumptions'', PList (map PStr (assumptions p)))])"

datatype external_preprocessing = NoneDeclared | UnknownPreprocessing | ReceiptSupplied pystr pystr

fun external_preprocessing_valid :: "external_preprocessing \<Rightarrow> bool" where
  "external_preprocessing_valid (ReceiptSupplied schema_id sha) = (pattern_ok SAFE_ID_PATTERN schema_id \<and> pattern_ok SHA256_PATTERN sha)"
| "external_preprocessing_valid _ = True"

fun external_preprocessing_dump :: "external_preprocessing \<Rightarrow> pyval" where
  "external_preprocessing_dump NoneDeclared = jobj [(''status'', jstr ''none_declared'')]"
| "external_preprocessing_dump UnknownPreprocessing = jobj [(''status'', jstr ''unknown'')]"
| "external_preprocessing_dump (ReceiptSupplied schema_id sha) =
     jobj [(''status'', jstr ''receipt_supplied''),
           (''receipt'', jobj [(''schema_id'', PStr schema_id), (''sha256'', PStr sha)])]"

datatype csv_delimiter = Comma | Semicolon | Tab

fun csv_delimiter_value :: "csv_delimiter \<Rightarrow> pystr" where
  "csv_delimiter_value Comma = [44]"
| "csv_delimiter_value Semicolon = [59]"
| "csv_delimiter_value Tab = [9]"

datatype record_source =
    InlineRows (source_provenance: caller_provenance)
  | InlineJson (source_provenance: caller_provenance)
  | LocalCsv csv_delimiter (source_provenance: caller_provenance)
  | LocalJson (source_provenance: caller_provenance)

fun record_source_projection :: "record_source \<Rightarrow> pyval" where
  "record_source_projection (InlineRows p) =
     jobj [(''kind'', jstr ''inline_rows''), (''provenance'', dataset_provenance_projection p)]"
| "record_source_projection (InlineJson p) =
     jobj [(''kind'', jstr ''inline_json''), (''provenance'', dataset_provenance_projection p)]"
| "record_source_projection (LocalCsv d p) =
     jobj [(''kind'', jstr ''local_file''), (''format'', jstr ''csv''),
           (''csv'', jobj [(''delimiter'', PStr (csv_delimiter_value d)), (''header'', PBool True)]),
           (''provenance'', dataset_provenance_projection p)]"
| "record_source_projection (LocalJson p) =
     jobj [(''kind'', jstr ''local_file''), (''format'', jstr ''json''), (''provenance'', dataset_provenance_projection p)]"

datatype frequency = DAILY | WEEKLY | MONTHLY | QUARTERLY | ANNUAL | IRREGULAR

fun frequency_value :: "frequency \<Rightarrow> string" where
  "frequency_value DAILY = ''daily''"
| "frequency_value WEEKLY = ''weekly''"
| "frequency_value MONTHLY = ''monthly''"
| "frequency_value QUARTERLY = ''quarterly''"
| "frequency_value ANNUAL = ''annual''"
| "frequency_value IRREGULAR = ''irregular''"

datatype price_kind = ADJUSTED | UNADJUSTED

fun price_kind_value :: "price_kind \<Rightarrow> string" where
  "price_kind_value ADJUSTED = ''adjusted''"
| "price_kind_value UNADJUSTED = ''unadjusted''"

record dataset_semantics =
  sem_instrument :: "(pystr \<times> pystr) option"
  sem_currency :: "pystr option"
  sem_frequency :: "frequency option"
  sem_timezone :: "pystr option"
  sem_price_kind :: "price_kind option"
  sem_adjustment_policy :: "pystr option"
  sem_distribution_policy :: "pystr option"
  sem_calendar :: "pystr option"
  sem_partial_period_policy :: "pystr option"

definition dataset_semantics_valid :: "dataset_semantics \<Rightarrow> bool" where
  "dataset_semantics_valid s \<longleftrightarrow>
     pred_option (\<lambda>(ns, sym). utf8_within 1 64 ns \<and> utf8_within 1 128 sym) (sem_instrument s) \<and>
     pred_option (utf8_within 1 32) (sem_currency s) \<and> pred_option (utf8_within 1 128) (sem_timezone s) \<and>
     pred_option (utf8_within 1 240) (sem_adjustment_policy s) \<and>
     pred_option (utf8_within 1 240) (sem_distribution_policy s) \<and>
     pred_option (utf8_within 1 240) (sem_calendar s) \<and> pred_option (utf8_within 1 240) (sem_partial_period_policy s)"

definition dataset_semantics_projection :: "dataset_semantics \<Rightarrow> pyval" where
  "dataset_semantics_projection s =
     jobj (present ''instrument'' (\<lambda>(ns, sym). jobj [(''namespace'', PStr ns), (''symbol'', PStr sym)]) (sem_instrument s) @
           present ''currency'' PStr (sem_currency s) @
           present ''frequency'' (\<lambda>f. jstr (frequency_value f)) (sem_frequency s) @
           present ''timezone'' PStr (sem_timezone s) @
           [(''ordering'', jstr ''preserve_source_order'')] @
           present ''price_kind'' (\<lambda>k. jstr (price_kind_value k)) (sem_price_kind s) @
           present ''adjustment_policy'' PStr (sem_adjustment_policy s) @
           present ''distribution_policy'' PStr (sem_distribution_policy s) @
           present ''calendar'' PStr (sem_calendar s) @
           present ''partial_period_policy'' PStr (sem_partial_period_policy s))"

datatype column_role = R_VALUE | R_TIMESTAMP | R_INSTRUMENT | R_LABEL | R_OTHER

fun column_role_value :: "column_role \<Rightarrow> string" where
  "column_role_value R_VALUE = ''value''"
| "column_role_value R_TIMESTAMP = ''timestamp''"
| "column_role_value R_INSTRUMENT = ''instrument''"
| "column_role_value R_LABEL = ''label''"
| "column_role_value R_OTHER = ''other''"

record record_column =
  rc_source_name :: pystr
  rc_field_id :: pystr
  rc_data_type :: data_type
  rc_role :: column_role
  rc_semantic_port :: "semantic_port option"

definition validate_column :: "record_column \<Rightarrow> py_exc + record_column" where
  "validate_column c =
     (if rc_role c = R_TIMESTAMP \<and> rc_data_type c \<noteq> T_TIMESTAMP
      then value_error ''a timestamp-role column must use timestamp data''
      else if pred_option (\<lambda>p. sp_direction p = PD_OUTPUT) (rc_semantic_port c) then Inr c
      else value_error ''dataset semantic ports must have output direction'')"

definition record_column_valid :: "record_column \<Rightarrow> bool" where
  "record_column_valid c \<longleftrightarrow>
     utf8_within 1 240 (rc_source_name c) \<and> pattern_ok SAFE_ID_PATTERN (rc_field_id c) \<and>
     pred_option semantic_port_valid (rc_semantic_port c) \<and> is_ok (validate_column c)"

definition record_column_projection :: "record_column \<Rightarrow> pyval" where
  "record_column_projection c =
     jobj [(''source_name'', PStr (rc_source_name c)), (''field_id'', PStr (rc_field_id c)),
           (''data_type'', jstr (data_type_value (rc_data_type c))), (''role'', jstr (column_role_value (rc_role c))),
           (''semantic_port'', jopt semantic_port_dump (rc_semantic_port c))]"

datatype normalization_event_code =
    JSON_MISSING_FIELD_TO_NULL | CSV_EMPTY_FIELD_TO_NULL | CSV_NUMBER_PARSED | CSV_INTEGER_PARSED
  | CSV_BOOLEAN_PARSED | TIMESTAMP_TO_CANONICAL_UTC

fun event_code_value :: "normalization_event_code \<Rightarrow> string" where
  "event_code_value JSON_MISSING_FIELD_TO_NULL = ''json_missing_field_to_null''"
| "event_code_value CSV_EMPTY_FIELD_TO_NULL = ''csv_empty_field_to_null''"
| "event_code_value CSV_NUMBER_PARSED = ''csv_number_parsed''"
| "event_code_value CSV_INTEGER_PARSED = ''csv_integer_parsed''"
| "event_code_value CSV_BOOLEAN_PARSED = ''csv_boolean_parsed''"
| "event_code_value TIMESTAMP_TO_CANONICAL_UTC = ''timestamp_to_canonical_utc''"

record normalization_event =
  ne_code :: normalization_event_code
  ne_field_id :: pystr
  ne_count :: int

definition normalization_event_valid :: "normalization_event \<Rightarrow> bool" where
  "normalization_event_valid e \<longleftrightarrow>
     pattern_ok SAFE_ID_PATTERN (ne_field_id e) \<and> 1 \<le> ne_count e \<and> ne_count e \<le> int MAX_DATASET_ROWS"

definition normalization_event_dump :: "normalization_event \<Rightarrow> pyval" where
  "normalization_event_dump e =
     jobj [(''code'', jstr (event_code_value (ne_code e))), (''field_id'', PStr (ne_field_id e)), (''count'', PInt (ne_count e))]"

record dataset_finding =
  df_code :: pystr
  df_message :: pystr
  df_count :: int

definition dataset_finding_dump :: "dataset_finding \<Rightarrow> pyval" where
  "dataset_finding_dump f =
     jobj [(''code'', PStr (df_code f)), (''severity'', jstr ''warning''), (''message'', PStr (df_message f)),
           (''count'', PInt (df_count f))]"

record dataset_record =
  dr_payload_sha256 :: pystr
  dr_raw_source_sha256 :: pystr
  dr_source :: record_source
  dr_external_preprocessing :: external_preprocessing
  dr_columns :: "record_column list"
  dr_semantics :: dataset_semantics
  dr_row_count :: int
  dr_column_count :: int
  dr_observation_bounds :: "(pystr \<times> pystr) option"
  dr_normalization_events :: "normalization_event list"
  dr_findings :: "dataset_finding list"
  dr_normalizer :: runner_identity

fun csv_event :: "normalization_event_code \<Rightarrow> bool" where
  "csv_event c = starts_with (lit ''csv_'') (lit (event_code_value c))"

definition csv_source :: "record_source \<Rightarrow> bool" where
  "csv_source s = (case s of LocalCsv _ _ \<Rightarrow> True | _ \<Rightarrow> False)"

fun event_type :: "normalization_event_code \<Rightarrow> data_type option" where
  "event_type CSV_NUMBER_PARSED = Some T_NUMBER"
| "event_type CSV_INTEGER_PARSED = Some T_INTEGER"
| "event_type CSV_BOOLEAN_PARSED = Some T_BOOLEAN"
| "event_type _ = None"

text \<open>One event against its column; a later column of the same id would win, but ids are unique by then.\<close>

definition validate_event :: "dataset_record \<Rightarrow> normalization_event \<Rightarrow> py_exc + unit" where
  "validate_event r e =
     (case map_of (rev (map (\<lambda>c. (rc_field_id c, c)) (dr_columns r))) (ne_field_id e) of
        None \<Rightarrow> value_error ''normalization event does not match the dataset''
      | Some column \<Rightarrow>
          if ne_count e > dr_row_count r then value_error ''normalization event does not match the dataset''
          else if ne_code e = JSON_MISSING_FIELD_TO_NULL \<and> csv_source (dr_source r)
          then value_error ''JSON missing-field events require a JSON/object source''
          else if csv_event (ne_code e) \<and> \<not> csv_source (dr_source r)
          then value_error ''CSV normalization events require a CSV source''
          else if event_type (ne_code e) \<noteq> None \<and> event_type (ne_code e) \<noteq> Some (rc_data_type column)
          then value_error ''CSV parsing event does not match its column type''
          else if ne_code e = CSV_EMPTY_FIELD_TO_NULL \<and> rc_data_type column = T_STRING
          then value_error ''empty CSV strings are not converted to null''
          else if ne_code e = TIMESTAMP_TO_CANONICAL_UTC \<and> rc_data_type column \<noteq> T_TIMESTAMP
          then value_error ''timestamp event requires a timestamp column''
          else Inr ())"

definition event_key :: "normalization_event \<Rightarrow> pystr \<times> pystr" where
  "event_key e = (lit (event_code_value (ne_code e)), ne_field_id e)"

text \<open>Codes and ids are ASCII, so their UTF-8 order is the order of the characters.\<close>

definition event_order :: "pystr \<times> pystr \<Rightarrow> pystr \<times> pystr \<Rightarrow> bool" where
  "event_order a b \<longleftrightarrow> fst a < fst b \<or> fst a = fst b \<and> snd a \<le> snd b"

definition validate_record :: "dataset_record \<Rightarrow> py_exc + dataset_record" where
  "validate_record r =
     (let field_ids = map rc_field_id (dr_columns r);
          source_names = map rc_source_name (dr_columns r);
          timestamp_columns = filter (\<lambda>c. rc_role c = R_TIMESTAMP) (dr_columns r);
          event_keys = map event_key (dr_normalization_events r) in
      if dr_column_count r \<noteq> int (length (dr_columns r)) then value_error ''column_count does not match dataset columns''
      else if card (set field_ids) \<noteq> length field_ids \<or> card (set source_names) \<noteq> length source_names
      then value_error ''dataset record column identifiers must be unique''
      else if length timestamp_columns > 1 then value_error ''a dataset may have at most one timestamp-role column''
      else if timestamp_columns = [] \<and> dr_observation_bounds r \<noteq> None
      then value_error ''observation bounds require a timestamp-role column''
      else if card (set event_keys) \<noteq> length event_keys
      then value_error ''normalization events must be unique by code and field ID''
      else if \<not> sorted_wrt event_order event_keys
      then value_error ''normalization events must use canonical UTF-8 ordering''
      else bindE (mapE (validate_event r) (dr_normalization_events r)) (\<lambda>_.
      if dr_findings r \<noteq> []
      then value_error ''dataset findings require a separately frozen code and message vocabulary''
      else if content_sha256 (source_provenance (dr_source r)) \<noteq> None \<and>
              content_sha256 (source_provenance (dr_source r)) \<noteq> Some (dr_raw_source_sha256 r)
      then value_error ''provenance content digest does not match the accepted source''
      else bindE (validate_semver (ri_version (dr_normalizer r))) (\<lambda>_. Inr r)))"

definition dataset_record_valid :: "dataset_record \<Rightarrow> bool" where
  "dataset_record_valid r \<longleftrightarrow>
     pattern_ok SHA256_PATTERN (dr_payload_sha256 r) \<and> pattern_ok SHA256_PATTERN (dr_raw_source_sha256 r) \<and>
     dataset_provenance_valid (source_provenance (dr_source r)) \<and>
     external_preprocessing_valid (dr_external_preprocessing r) \<and>
     dr_columns r \<noteq> [] \<and> length (dr_columns r) \<le> MAX_DATASET_COLUMNS \<and> list_all record_column_valid (dr_columns r) \<and>
     dataset_semantics_valid (dr_semantics r) \<and>
     1 \<le> dr_row_count r \<and> dr_row_count r \<le> int MAX_DATASET_ROWS \<and>
     1 \<le> dr_column_count r \<and> dr_column_count r \<le> int MAX_DATASET_COLUMNS \<and>
     pred_option (\<lambda>(a, b). is_ok (validate_canonical_timestamp a) \<and> is_ok (validate_canonical_timestamp b))
       (dr_observation_bounds r) \<and>
     length (dr_normalization_events r) \<le> 768 \<and> list_all normalization_event_valid (dr_normalization_events r) \<and>
     length (dr_findings r) \<le> 50 \<and> runner_identity_valid (dr_normalizer r) \<and> is_ok (validate_record r)"

definition dataset_record_projection :: "dataset_record \<Rightarrow> pyval" where
  "dataset_record_projection r =
     jobj [(''host_schema_version'', PInt 1), (''record_kind'', jstr ''dataset''),
           (''payload'', jobj [(''serialization'', jstr ''dq-table-v1''), (''sha256'', PStr (dr_payload_sha256 r))]),
           (''raw_source_sha256'', PStr (dr_raw_source_sha256 r)),
           (''source'', record_source_projection (dr_source r)),
           (''external_preprocessing'', external_preprocessing_dump (dr_external_preprocessing r)),
           (''columns'', PList (map record_column_projection (dr_columns r))),
           (''semantics'', dataset_semantics_projection (dr_semantics r)),
           (''row_count'', PInt (dr_row_count r)), (''column_count'', PInt (dr_column_count r)),
           (''observation_bounds'', jopt (\<lambda>(a, b). jobj [(''first'', PStr a), (''last'', PStr b)]) (dr_observation_bounds r)),
           (''normalization_events'', PList (map normalization_event_dump (dr_normalization_events r))),
           (''findings'', PList (map dataset_finding_dump (dr_findings r))),
           (''normalizer'', runner_identity_dump (dr_normalizer r))]"

definition DATASET_RECORD_HASH_DOMAIN :: pystr where
  "DATASET_RECORD_HASH_DOMAIN = lit ''mcp.dataset.v1''"

definition dataset_record_digest :: "dataset_record \<Rightarrow> py_exc + pystr" where
  "dataset_record_digest r = canonical_hash (dataset_record_projection r) DATASET_RECORD_HASH_DOMAIN"

definition dataset_record_reference :: "dataset_record \<Rightarrow> py_exc + pystr" where
  "dataset_record_reference r = bindE (dataset_record_digest r) dataset_reference"

text \<open>The observations of the timestamp column, in row order, without the missing ones.\<close>

definition observations :: "nat \<Rightarrow> dataset_payload \<Rightarrow> pyval list" where
  "observations i p = filter (\<lambda>v. v \<noteq> PNone) (map (\<lambda>row. row ! i) (dp_rows p))"

definition validate_bounds :: "dataset_record \<Rightarrow> dataset_payload \<Rightarrow> py_exc + dataset_record" where
  "validate_bounds r p =
     (case filter (\<lambda>(i, c). rc_role c = R_TIMESTAMP) (enumerate 0 (dr_columns r)) of
        [] \<Rightarrow>
          if dr_observation_bounds r \<noteq> None
          then value_error ''dataset without timestamp role cannot have observation bounds'' else Inr r
      | (i, c) # _ \<Rightarrow>
          (let strings = List.map_filter (\<lambda>v. case v of PStr s \<Rightarrow> Some s | _ \<Rightarrow> None) (observations i p) in
           if observations i p = [] \<or> length strings \<noteq> length (observations i p)
           then value_error ''timestamp-role column has no valid observations''
           else bindE (validate_canonical_timestamp (hd strings)) (\<lambda>_.
                bindE (validate_canonical_timestamp (last strings)) (\<lambda>_.
                if dr_observation_bounds r \<noteq> Some (hd strings, last strings)
                then value_error ''dataset observation bounds do not match its payload'' else Inr r))))"

definition validate_payload :: "dataset_record \<Rightarrow> dataset_payload \<Rightarrow> py_exc + dataset_record" where
  "validate_payload r p =
     bindE (payload_digest p) (\<lambda>d.
     if d \<noteq> dr_payload_sha256 r then value_error ''dataset payload digest does not match its record''
     else if int (length (dp_rows p)) \<noteq> dr_row_count r \<or> int (length (dp_columns p)) \<noteq> dr_column_count r
     then value_error ''dataset payload dimensions do not match its record''
     else if map (\<lambda>c. (py_field_id c, py_data_type c)) (dp_columns p) \<noteq> map (\<lambda>c. (rc_field_id c, rc_data_type c)) (dr_columns r)
     then value_error ''dataset payload columns do not match its record''
     else validate_bounds r p)"

end
