(* ===== verification/Operation_Record.thy ===== *)
theory Operation_Record
  imports Data_Records "HOL-Library.Product_Lexorder"
begin

text \<open>
  \<^verbatim>\<open>shared/data_records.py\<close>, the operation half: the members of a published bundle, the binding of its input to
  literals and a source, and the immutable operation record with its validator, projection and digest.
\<close>

section \<open>Members\<close>

datatype member_kind = NORMALIZED_INPUT | RESULT | ARTIFACT

fun member_kind_value :: "member_kind \<Rightarrow> string" where
  "member_kind_value NORMALIZED_INPUT = ''normalized_input''"
| "member_kind_value RESULT = ''result''"
| "member_kind_value ARTIFACT = ''artifact''"

fun member_kind_rank :: "member_kind \<Rightarrow> nat" where
  "member_kind_rank NORMALIZED_INPUT = 0"
| "member_kind_rank RESULT = 1"
| "member_kind_rank ARTIFACT = 2"

record operation_member =
  me_kind :: member_kind
  me_path :: pystr
  me_sha256 :: pystr
  me_size_bytes :: int

definition operation_member_valid :: "operation_member \<Rightarrow> bool" where
  "operation_member_valid m \<longleftrightarrow>
     relative_member_path_valid (me_path m) \<and> pattern_ok SHA256_PATTERN (me_sha256 m) \<and>
     0 \<le> me_size_bytes m \<and> me_size_bytes m \<le> int MAX_OPERATION_MEMBER_BYTES"

definition operation_member_dump :: "operation_member \<Rightarrow> pyval" where
  "operation_member_dump m =
     jobj [(''kind'', jstr (member_kind_value (me_kind m))), (''path'', PStr (me_path m)),
           (''sha256'', PStr (me_sha256 m)), (''size_bytes'', PInt (me_size_bytes m))]"

text \<open>\<^verbatim>\<open>str.encode\<close> of a text a validated model holds: it has no lone surrogate, so the encoding exists.\<close>

definition encoded :: "pystr \<Rightarrow> bytes" where
  "encoded s = (case utf8_encode s of None \<Rightarrow> [] | Some b \<Rightarrow> b)"

definition member_key :: "operation_member \<Rightarrow> nat \<times> bytes" where
  "member_key m = (member_kind_rank (me_kind m), encoded (me_path m))"

section \<open>Bindings\<close>

record field_mapping =
  fm_source_field :: pystr
  fm_input_field :: pystr

definition field_mapping_valid :: "field_mapping \<Rightarrow> bool" where
  "field_mapping_valid m \<longleftrightarrow> utf8_within 1 240 (fm_source_field m) \<and> utf8_within 1 240 (fm_input_field m)"

definition field_mapping_dump :: "field_mapping \<Rightarrow> pyval" where
  "field_mapping_dump m = jobj [(''source_field'', PStr (fm_source_field m)), (''input_field'', PStr (fm_input_field m))]"

definition validate_mappings :: "field_mapping list \<Rightarrow> py_exc + unit" where
  "validate_mappings mappings =
     (let sources = map fm_source_field mappings; targets = map fm_input_field mappings in
      if card (set sources) \<noteq> length sources \<or> card (set targets) \<noteq> length targets
      then value_error ''source mappings must be unique by source and target field'' else Inr ())"

record binding_source =
  bs_kind :: reference_kind
  bs_ref :: pystr
  bs_mappings :: "field_mapping list"

definition validate_source :: "binding_source \<Rightarrow> py_exc + binding_source" where
  "validate_source s =
     bindE (parse_reference (bs_kind s) (bs_ref s)) (\<lambda>parsed.
     if pr_version_token parsed \<noteq> lit ''1''
     then value_error (if bs_kind s = DatasetKind then ''dataset operation binding requires a v1 reference''
            else ''operation binding requires a v1 reference'')
     else bindE (validate_mappings (bs_mappings s)) (\<lambda>_. Inr s))"

definition binding_source_valid :: "binding_source \<Rightarrow> bool" where
  "binding_source_valid s \<longleftrightarrow>
     scalar_str (bs_ref s) \<and> bs_mappings s \<noteq> [] \<and> length (bs_mappings s) \<le> 128 \<and>
     list_all field_mapping_valid (bs_mappings s) \<and> is_ok (validate_source s)"

definition binding_source_dump :: "binding_source \<Rightarrow> pyval" where
  "binding_source_dump s =
     jobj [(''kind'', jstr (if bs_kind s = DatasetKind then ''dataset'' else ''operation'')), (''ref'', PStr (bs_ref s)),
           (''mappings'', PList (map field_mapping_dump (bs_mappings s)))]"

record operation_binding =
  ob_literals :: "(pykey \<times> pyval) list"
  ob_source :: "binding_source option"

definition literal_key :: "pykey \<Rightarrow> pystr" where
  "literal_key k = (case key_str k of None \<Rightarrow> [] | Some s \<Rightarrow> s)"

definition validate_literal :: "pykey \<times> pyval \<Rightarrow> py_exc + unit" where
  "validate_literal kv =
     bindE (utf8_bytes ''literal input field'' 1 240 (literal_key (fst kv))) (\<lambda>_.
     bindE (canonical_json_bytes (snd kv)) (\<lambda>b.
     if length b > MAX_LITERAL_BYTES then value_error ''operation literal exceeds its canonical byte limit'' else Inr ()))"

definition overlapping :: "operation_binding \<Rightarrow> bool" where
  "overlapping b \<longleftrightarrow>
     (case ob_source b of
        None \<Rightarrow> False
      | Some s \<Rightarrow> set (map fm_input_field (bs_mappings s)) \<inter> set (map (literal_key \<circ> fst) (ob_literals b)) \<noteq> {})"

definition validate_operation_binding :: "operation_binding \<Rightarrow> py_exc + operation_binding" where
  "validate_operation_binding b =
     (if length (ob_literals b) > MAX_LITERAL_FIELDS then value_error ''operation binding contains too many literal fields''
      else bindE (mapE validate_literal (ob_literals b)) (\<lambda>_.
           bindE (canonical_json_bytes (PDict (ob_literals b))) (\<lambda>bytes.
           if length bytes > MAX_LITERALS_BYTES then value_error ''operation literals exceed their canonical byte limit''
           else if overlapping b then value_error ''source mappings cannot overlap literal input fields''
           else Inr b)))"

definition operation_binding_valid :: "operation_binding \<Rightarrow> bool" where
  "operation_binding_valid b \<longleftrightarrow>
     json_value (PDict (ob_literals b)) \<and> pred_option binding_source_valid (ob_source b) \<and>
     is_ok (validate_operation_binding b)"

definition operation_binding_projection :: "operation_binding \<Rightarrow> pyval" where
  "operation_binding_projection b =
     jobj ((''literals'', PDict (ob_literals b)) # present ''source'' binding_source_dump (ob_source b))"

section \<open>Operation records\<close>

definition port_difference_dump :: "port_difference \<Rightarrow> pyval" where
  "port_difference_dump d =
     jobj [(''dimension'', jstr (port_dimension_value (pd_dimension d))), (''producer_value'', jstr (pd_producer_value d)),
           (''consumer_value'', jstr (pd_consumer_value d))]"

definition port_compatibility_dump :: "port_compatibility \<Rightarrow> pyval" where
  "port_compatibility_dump c =
     jobj [(''producer'', semantic_port_dump (pc_producer c)), (''consumer'', semantic_port_dump (pc_consumer c)),
           (''compatible'', PBool (pc_compatible c)),
           (''differences'', PList (map port_difference_dump (pc_differences c)))]"

definition port_compatibility_valid :: "port_compatibility \<Rightarrow> bool" where
  "port_compatibility_valid c \<longleftrightarrow>
     semantic_port_valid (pc_producer c) \<and> semantic_port_valid (pc_consumer c) \<and>
     list_all (\<lambda>d. is_ok (validate_dimension_values d)) (pc_differences c) \<and> is_ok (validate_result c)"

record operation_record =
  rec_protocol_version :: pystr
  rec_component :: component_ref
  rec_operation_hash :: pystr
  rec_manifest_sha256 :: pystr
  rec_members :: "operation_member list"
  rec_runner :: runner_identity
  rec_renderers :: "runner_identity list"
  rec_binding :: operation_binding
  rec_compatibility :: "port_compatibility list"

definition renderer_key :: "runner_identity \<Rightarrow> bytes \<times> bytes" where
  "renderer_key r = (encoded (ri_name r), encoded (ri_version r))"

definition operation_source :: "operation_binding \<Rightarrow> binding_source option" where
  "operation_source b =
     (case ob_source b of None \<Rightarrow> None | Some s \<Rightarrow> if bs_kind s = OperationKind then Some s else None)"

definition validate_compatibility :: "operation_record \<Rightarrow> py_exc + operation_record" where
  "validate_compatibility r =
     (case operation_source (rec_binding r) of
        Some s \<Rightarrow>
          if rec_protocol_version r \<noteq> lit ''0.5.0'' then value_error ''operation-source bindings require protocol 0.5.0''
          else if length (rec_compatibility r) \<noteq> length (bs_mappings s)
          then value_error ''operation-source compatibility must match mapping order'' else Inr r
      | None \<Rightarrow>
          if rec_compatibility r \<noteq> [] then value_error ''dataset and literal bindings require empty compatibility''
          else Inr r)"

definition validate_versions :: "operation_record \<Rightarrow> py_exc + operation_record" where
  "validate_versions r =
     bindE (utf8_bytes ''component ID'' 1 240 (cr_id (rec_component r))) (\<lambda>_.
     bindE (validate_semver (cr_version (rec_component r))) (\<lambda>_.
     bindE (validate_semver (ri_version (rec_runner r))) (\<lambda>_.
     bindE (mapE (\<lambda>q. validate_semver (ri_version q)) (rec_renderers r)) (\<lambda>_.
     validate_compatibility r))))"

definition validate_operation_record :: "operation_record \<Rightarrow> py_exc + operation_record" where
  "validate_operation_record r =
     (let kinds = map me_kind (rec_members r);
          renderer_keys = map (\<lambda>q. (ri_name q, ri_version q)) (rec_renderers r) in
      if count_list kinds NORMALIZED_INPUT \<noteq> 1 \<or> count_list kinds RESULT \<noteq> 1
      then value_error ''operation record requires exactly one input and result member''
      else if count_list kinds ARTIFACT > MAX_OPERATION_ARTIFACTS
      then value_error ''operation record contains too many artifacts''
      else bindE (mapE portable_member_key (map me_path (rec_members r))) (\<lambda>portable_keys.
      bindE (portable_member_key (lit ''manifest.json'')) (\<lambda>manifest_key.
      if card (set portable_keys) \<noteq> length portable_keys \<or> manifest_key \<in> set portable_keys
      then value_error ''operation member paths must be unique''
      else if rec_members r \<noteq> sort_key member_key (rec_members r)
      then value_error ''operation members are not canonically ordered''
      else if card (set renderer_keys) \<noteq> length renderer_keys
      then value_error ''operation renderer identities must be unique''
      else if rec_renderers r \<noteq> sort_key renderer_key (rec_renderers r)
      then value_error ''operation renderer identities are not canonically ordered''
      else validate_versions r)))"

definition operation_record_valid :: "operation_record \<Rightarrow> bool" where
  "operation_record_valid r \<longleftrightarrow>
     rec_protocol_version r \<in> set SUPPORTED_PROTOCOL_VERSIONS \<and> component_ref_valid (rec_component r) \<and>
     pattern_ok SHA256_PATTERN (rec_operation_hash r) \<and> pattern_ok SHA256_PATTERN (rec_manifest_sha256 r) \<and>
     2 \<le> length (rec_members r) \<and> length (rec_members r) \<le> 130 \<and> list_all operation_member_valid (rec_members r) \<and>
     runner_identity_valid (rec_runner r) \<and>
     length (rec_renderers r) \<le> 128 \<and> list_all runner_identity_valid (rec_renderers r) \<and>
     operation_binding_valid (rec_binding r) \<and>
     length (rec_compatibility r) \<le> 128 \<and> list_all port_compatibility_valid (rec_compatibility r) \<and>
     is_ok (validate_operation_record r)"

definition operation_record_projection :: "operation_record \<Rightarrow> pyval" where
  "operation_record_projection r =
     jobj [(''host_schema_version'', PInt 1), (''record_kind'', jstr ''operation''), (''host_binding_version'', PInt 1),
           (''execution_mode'', jstr ''unmanaged''), (''protocol_version'', PStr (rec_protocol_version r)),
           (''component'', component_ref_dump (rec_component r)), (''operation_hash'', PStr (rec_operation_hash r)),
           (''manifest_sha256'', PStr (rec_manifest_sha256 r)),
           (''members'', PList (map operation_member_dump (rec_members r))),
           (''runner'', runner_identity_dump (rec_runner r)),
           (''renderers'', PList (map runner_identity_dump (rec_renderers r))),
           (''binding'', operation_binding_projection (rec_binding r)),
           (''compatibility'', PList (map port_compatibility_dump (rec_compatibility r)))]"

definition OPERATION_RECORD_HASH_DOMAIN :: pystr where
  "OPERATION_RECORD_HASH_DOMAIN = lit ''mcp.operation.v1''"

definition operation_record_digest :: "operation_record \<Rightarrow> py_exc + pystr" where
  "operation_record_digest r = canonical_hash (operation_record_projection r) OPERATION_RECORD_HASH_DOMAIN"

definition operation_record_reference :: "operation_record \<Rightarrow> py_exc + pystr" where
  "operation_record_reference r = bindE (operation_record_digest r) operation_reference"

end
