(* ===== verification/Json_Documents.thy ===== *)
theory Json_Documents
  imports Json_Text
begin

text \<open>
  What is printed reads back: the compact document of a JSON value is accepted by the strict reader and gives the
  value with its members in printed order, the scanner never exhausts its fuel, and whatever the strict reader
  accepts is a canonical JSON value. The law of the float text is \<open>float_codec\<close>.
\<close>

section \<open>Documents scan back, member by member\<close>

definition float_codec :: "(float64 \<Rightarrow> pystr) \<Rightarrow> (pystr \<Rightarrow> float64) \<Rightarrow> bool" where
  "float_codec fr pf \<longleftrightarrow> (\<forall>x. f64_finite x \<longrightarrow> float_text (fr x) \<and> pf (fr x) = x)"

lemma sort_key_apsnd: "sort_key fst (map (\<lambda>x. (f x, g (h x))) xs) = map (apsnd g) (sort_key fst (map (\<lambda>x. (f x, h x)) xs))"
proof (induction xs)
  case (Cons x xs)
  have "insort_key fst (f x, g (h x)) (map (apsnd g) ys) = map (apsnd g) (insort_key fst (f x, h x) ys)" for ys
    by (induction ys) auto
  then show ?case using Cons by simp
qed simp

lemma distinct_map_sort_key: "distinct (map f (sort_key g xs)) \<longleftrightarrow> distinct (map f xs)"
  unfolding distinct_map by simp

definition number_head :: "nat \<Rightarrow> bool" where
  "number_head c \<longleftrightarrow> c = 45 \<or> is_digit c"

lemma float_text_head: "float_text t \<Longrightarrow> \<exists>c cs. t = c # cs \<and> number_head c"
proof -
  assume "float_text t"
  then have "scan_number t \<noteq> None" by (simp add: float_text_def)
  then show ?thesis
    by (cases t) (auto simp: scan_number_def sign_part_def integer_part_def number_head_def is_digit_def
        split: prod.splits option.splits if_splits)
qed

lemma int_repr_head: "\<exists>c cs. int_repr i = c # cs \<and> number_head c"
  using nat_repr_head by (fastforce simp: int_repr_def number_head_def)

lemma starts_lit_Cons: "starts_lit (a # w) (c # s) \<longleftrightarrow> c = of_char a \<and> starts_lit w s"
  by (auto simp: starts_lit_def starts_with_def lit_def)

lemma scan_value_number:
  assumes "number_head c"
  shows "scan_value pf (Suc n) (c # s) = scan_number_or_constant pf (c # s)"
  using assms by (auto simp: scan_value.simps starts_lit_Cons number_head_def is_digit_def)

lemma json_dumps_head:
  assumes "float_codec fr pf" "json_value v" "json_readable v"
  shows "\<exists>c cs. json_dumps fr v = c # cs \<and> \<not> is_json_space c \<and> c \<noteq> 93 \<and> c < 128"
proof (cases v)
  case (PFloat x)
  then have "float_text (fr x)" using assms by (simp add: float_codec_def)
  then show ?thesis using PFloat float_text_head by (fastforce simp: number_head_def is_digit_def is_json_space_def)
next
  case (PInt i)
  then show ?thesis using int_repr_head[of i] by (fastforce simp: number_head_def is_digit_def is_json_space_def)
qed (use assms in \<open>auto simp: lit_def is_json_space_def json_quote_def\<close>)

lemma skip_ws_head [simp]: "\<not> is_json_space c \<Longrightarrow> skip_ws (c # s) = c # s"
  by (simp add: skip_ws_def)

lemma skip_ws_simps [simp]:
  "skip_ws [] = []" "skip_ws (34 # s) = 34 # s" "skip_ws (44 # s) = 44 # s" "skip_ws (58 # s) = 58 # s"
  "skip_ws (93 # s) = 93 # s" "skip_ws (125 # s) = 125 # s" "skip_ws (10 # s) = skip_ws s"
  by (simp_all add: skip_ws_def is_json_space_def)

definition scans_back :: "(float64 \<Rightarrow> pystr) \<Rightarrow> (pystr \<Rightarrow> float64) \<Rightarrow> pyval \<Rightarrow> bool" where
  "scans_back fr pf v \<longleftrightarrow>
     (\<forall>n r. length (json_dumps fr v) \<le> n \<longrightarrow> stops r \<longrightarrow>
        scan_value pf n (json_dumps fr v @ r) = Inr (json_sorted v, r)) \<and>
     (\<exists>c cs. json_dumps fr v = c # cs \<and> \<not> is_json_space c \<and> c \<noteq> 93 \<and> c < 128)"

lemma scans_back_skip: "scans_back fr pf v \<Longrightarrow> skip_ws (json_dumps fr v @ s) = json_dumps fr v @ s"
  by (auto simp: scans_back_def)

lemma scans_backI:
  assumes "\<And>n r. stops r \<Longrightarrow> scan_value pf (Suc n) (json_dumps fr v @ r) = Inr (json_sorted v, r)"
    "\<exists>c cs. json_dumps fr v = c # cs \<and> \<not> is_json_space c \<and> c \<noteq> 93 \<and> c < 128"
  shows "scans_back fr pf v"
  unfolding scans_back_def using assms by (metis Suc_le_D length_Cons)

lemma scan_elements_back:
  assumes "vs \<noteq> []" "\<forall>v \<in> set vs. scans_back fr pf v" "length (str_join [44] (map (json_dumps fr) vs)) < n"
  shows "scan_elements pf n acc (str_join [44] (map (json_dumps fr) vs) @ 93 # r) = Inr (PList (acc @ map json_sorted vs), r)"
  using assms
proof (induction vs arbitrary: n acc)
  case (Cons v vs)
  obtain m where n: "n = Suc m" using Cons.prems(3) by (cases n) auto
  have v: "scans_back fr pf v" using Cons.prems by simp
  show ?case
  proof (cases vs)
    case Nil
    then have "length (json_dumps fr v) \<le> m" using Cons.prems(3) n by simp
    then have "scan_value pf m (json_dumps fr v @ 93 # r) = Inr (json_sorted v, 93 # r)"
      using v by (simp add: scans_back_def)
    then show ?thesis using Nil n by (simp add: scan_elements.simps)
  next
    case (Cons w ws)
    let ?rest = "str_join [44] (map (json_dumps fr) vs)"
    have joined: "str_join [44] (map (json_dumps fr) (v # vs)) = json_dumps fr v @ 44 # ?rest" using Cons by simp
    have len: "length (json_dumps fr v) \<le> m" "length ?rest < m" using Cons.prems(3) n unfolding joined by auto
    have "scan_value pf m (json_dumps fr v @ 44 # ?rest @ 93 # r) = Inr (json_sorted v, 44 # ?rest @ 93 # r)"
      using v len(1) by (simp add: scans_back_def)
    moreover have "skip_ws (?rest @ 93 # r) = ?rest @ 93 # r"
    proof -
      have "scans_back fr pf w" using Cons.prems Cons by simp
      then obtain c cs where "json_dumps fr w = c # cs" "\<not> is_json_space c" by (auto simp: scans_back_def)
      then show ?thesis using Cons by (cases ws) simp_all
    qed
    moreover have "scan_elements pf m (acc @ [json_sorted v]) (?rest @ 93 # r) =
        Inr (PList ((acc @ [json_sorted v]) @ map json_sorted vs), r)"
      using Cons.IH[OF _ _ len(2)] Cons.prems Cons by simp
    ultimately show ?thesis unfolding joined n by (simp add: scan_elements.simps)
  qed
qed simp

definition member_text :: "(float64 \<Rightarrow> pystr) \<Rightarrow> pystr \<times> pyval \<Rightarrow> pystr" where
  "member_text fr kv = concat (map encode_char (fst kv)) @ 34 # 58 # json_dumps fr (snd kv)"

lemma scan_members_back:
  assumes "ps \<noteq> []" "\<forall>kv \<in> set ps. scans_back fr pf (snd kv)"
    "length (str_join [44] (map (\<lambda>kv. 34 # member_text fr kv) ps)) \<le> n"
  shows "scan_members pf n acc (tl (str_join [44] (map (\<lambda>kv. 34 # member_text fr kv) ps)) @ 125 # r) =
    close_object (acc @ map (apsnd json_sorted) ps) r"
  using assms
proof (induction ps arbitrary: n acc)
  case (Cons kv ps)
  obtain k v where kv: "kv = (k, v)" by (cases kv)
  obtain m where n: "n = Suc m" using Cons.prems(3) by (cases n; cases ps) auto
  have v: "scans_back fr pf v" using Cons.prems kv by simp
  note scanned = scans_back_skip[OF v] scan_quoted
  show ?case
  proof (cases ps)
    case Nil
    then have "length (json_dumps fr v) \<le> m" using Cons.prems(3) n kv by (simp add: member_text_def)
    then have "scan_value pf m (json_dumps fr v @ 125 # r) = Inr (json_sorted v, 125 # r)"
      using v by (simp add: scans_back_def)
    then show ?thesis using Nil n kv by (simp add: scan_members.simps member_text_def scanned)
  next
    case (Cons w ws)
    let ?rest = "str_join [44] (map (\<lambda>kv. 34 # member_text fr kv) ps)"
    have joined: "str_join [44] (map (\<lambda>kv. 34 # member_text fr kv) (kv # ps)) = 34 # member_text fr kv @ 44 # ?rest"
      using Cons by simp
    have head: "?rest = 34 # tl ?rest" using Cons by (cases ws) simp_all
    have len: "length (json_dumps fr v) \<le> m" "length ?rest \<le> m"
      using Cons.prems(3) n kv unfolding joined by (auto simp: member_text_def)
    have "scan_value pf m (json_dumps fr v @ 44 # ?rest @ 125 # r) = Inr (json_sorted v, 44 # ?rest @ 125 # r)"
      using v len(1) by (simp add: scans_back_def)
    moreover have "skip_ws (?rest @ 125 # r) = 34 # tl ?rest @ 125 # r" by (subst head) simp
    moreover have "scan_members pf m (acc @ [(k, json_sorted v)]) (tl ?rest @ 125 # r) =
        close_object ((acc @ [(k, json_sorted v)]) @ map (apsnd json_sorted) ps) r"
      using Cons.IH[OF _ _ len(2)] Cons.prems Cons by simp
    ultimately show ?thesis unfolding joined unfolding n kv by (simp add: scan_members.simps member_text_def scanned)
  qed
qed simp

lemma reject_duplicate_keys_distinct:
  "distinct (map fst (acc @ ps)) \<Longrightarrow> reject_duplicate_keys acc ps = Inr (acc @ ps)"
proof (induction acc ps rule: reject_duplicate_keys.induct)
  case (2 result key val pairs)
  then have "map_of result key = None" by (auto simp: map_of_eq_None_iff)
  then show ?case using 2 by simp
qed simp

lemma json_dumps_PDict:
  "json_dumps fr (PDict kvs) = 123 # str_join [44] (map (\<lambda>kv. 34 # member_text fr kv)
     (sort_key fst (map (\<lambda>kv. (the (key_str (fst kv)), snd kv)) kvs))) @ [125]"
  using sort_key_apsnd[of "\<lambda>kv. the (key_str (fst kv))" "json_dumps fr" snd kvs]
  by (simp add: lit_def member_text_def json_quote_def comp_def case_prod_beta)

lemma json_sorted_PDict:
  "json_sorted (PDict kvs) = PDict (map (\<lambda>(k, v). (KStr k, v)) (map (apsnd json_sorted)
     (sort_key fst (map (\<lambda>kv. (the (key_str (fst kv)), snd kv)) kvs))))"
  using sort_key_apsnd[of "\<lambda>kv. the (key_str (fst kv))" json_sorted snd kvs] by simp

lemma scans_back_PDict:
  assumes "\<forall>kv \<in> set kvs. scans_back fr pf (snd kv)" "json_value (PDict kvs)"
  shows "scans_back fr pf (PDict kvs)"
proof -
  define ps where "ps = sort_key fst (map (\<lambda>kv. (the (key_str (fst kv)), snd kv)) kvs)"
  have mem: "\<forall>kv \<in> set ps. scans_back fr pf (snd kv)" using assms(1) by (auto simp: ps_def)
  have "map fst kvs = map KStr (map (\<lambda>kv. the (key_str (fst kv))) kvs)"
  proof -
    have "fst kv = KStr (the (key_str (fst kv)))" if "kv \<in> set kvs" for kv
      using assms(2) that by (cases "fst kv") (auto simp: list_all_iff)
    then show ?thesis by simp
  qed
  then have "distinct (map (\<lambda>kv. the (key_str (fst kv))) kvs)"
    using assms(2) by (metis distinct_map json_value.simps(7))
  then have "distinct (map fst (map (\<lambda>kv. (the (key_str (fst kv)), snd kv)) kvs))" by (simp add: comp_def)
  then have "distinct (map fst ps)" unfolding ps_def distinct_map_sort_key .
  then have "distinct (map fst (map (apsnd json_sorted) ps))" by (simp add: comp_def)
  then have closed: "close_object (map (apsnd json_sorted) ps) r = Inr (json_sorted (PDict kvs), r)" for r
    using reject_duplicate_keys_distinct[of "[]"] unfolding json_sorted_PDict close_object_def ps_def by simp
  have "scan_value pf n (json_dumps fr (PDict kvs) @ r) = Inr (json_sorted (PDict kvs), r)"
    if le: "length (json_dumps fr (PDict kvs)) \<le> n" for n r
  proof -
    let ?t = "str_join [44] (map (\<lambda>kv. 34 # member_text fr kv) ps)"
    have d: "json_dumps fr (PDict kvs) = 123 # ?t @ [125]" unfolding json_dumps_PDict ps_def ..
    obtain m where n: "n = Suc m" "length ?t \<le> m" using le unfolding d by (cases n) auto
    show ?thesis
    proof (cases "ps = []")
      case True
      then show ?thesis using closed[of r] unfolding d n by (simp add: scan_value.simps)
    next
      case False
      then have head: "?t = 34 # tl ?t" by (cases ps; cases "tl ps") simp_all
      have "skip_ws (?t @ 125 # r) = 34 # tl ?t @ 125 # r" by (subst head) simp
      then show ?thesis using scan_members_back[OF False mem n(2), of "[]" r] closed[of r]
        unfolding d n by (simp add: scan_value.simps)
    qed
  qed
  moreover have "\<exists>c cs. json_dumps fr (PDict kvs) = c # cs \<and> \<not> is_json_space c \<and> c \<noteq> 93 \<and> c < 128"
    unfolding json_dumps_PDict by (simp add: is_json_space_def)
  ultimately show ?thesis by (simp add: scans_back_def)
qed

lemma scans_back_PList:
  assumes "\<forall>v \<in> set vs. scans_back fr pf v"
  shows "scans_back fr pf (PList vs)"
proof -
  have "scan_value pf n (json_dumps fr (PList vs) @ r) = Inr (json_sorted (PList vs), r)"
    if le: "length (json_dumps fr (PList vs)) \<le> n" for n r
  proof -
    let ?t = "str_join [44] (map (json_dumps fr) vs)"
    have d: "json_dumps fr (PList vs) = 91 # ?t @ [93]" by (simp add: lit_def)
    obtain m where n: "n = Suc m" "length ?t < m" using le unfolding d by (cases n) auto
    show ?thesis
    proof (cases vs)
      case Nil
      then show ?thesis unfolding d n by (simp add: scan_value.simps)
    next
      case (Cons w ws)
      obtain c cs where c: "json_dumps fr w = c # cs" "\<not> is_json_space c" "c \<noteq> 93"
        using assms Cons by (auto simp: scans_back_def)
      then obtain cs' where "?t @ 93 # r = c # cs'" using Cons by (cases ws) simp_all
      then have "scan_value pf n (json_dumps fr (PList vs) @ r) = scan_elements pf m [] (?t @ 93 # r)"
        using c unfolding d n by (simp add: scan_value.simps)
      then show ?thesis using scan_elements_back[OF _ assms n(2), of "[]" r] Cons by simp
    qed
  qed
  then show ?thesis by (auto simp: scans_back_def lit_def is_json_space_def)
qed

text \<open>The compact text of a JSON value scans back to the value, its members in printed order.\<close>

lemma json_dumps_scans_back:
  assumes "float_codec fr pf"
  shows "json_value v \<Longrightarrow> json_readable v \<Longrightarrow> scans_back fr pf v"
proof (induction v rule: json_value.induct)
  case (3 i)
  have "scan_value pf (Suc n) (int_repr i @ r) = Inr (PInt i, r)" if "stops r" for n r
  proof -
    obtain c cs where c: "int_repr i = c # cs" "number_head c" using int_repr_head by blast
    have "filter is_digit (int_repr i) = nat_repr (nat \<bar>i\<bar>)"
      using nat_repr_digits by (auto simp: int_repr_def is_digit_def filter_id_conv)
    then have "scan_number_or_constant pf (int_repr i @ r) = Inr (PInt i, r)"
      using 3 scan_int_repr[OF that] by (simp add: scan_number_or_constant_def int_of_text_repr)
    then show ?thesis using c scan_value_number by simp
  qed
  then show ?case using json_dumps_head[OF assms 3] by (intro scans_backI) simp_all
next
  case (4 x)
  then have x: "float_text (fr x)" "pf (fr x) = x" using assms by (simp_all add: float_codec_def)
  have "scan_value pf (Suc n) (fr x @ r) = Inr (PFloat x, r)" if "stops r" for n r
  proof -
    obtain c cs where c: "fr x = c # cs" "number_head c" using float_text_head x by blast
    have "scan_number (fr x @ r) = Some (fr x, True, r)" using scan_number_stops[OF _ that, of "fr x" "fr x" True "[]"] x
      by (simp add: float_text_def)
    then have "scan_number_or_constant pf (fr x @ r) = Inr (PFloat x, r)" using x by (simp add: scan_number_or_constant_def)
    then show ?thesis using c scan_value_number by simp
  qed
  then show ?case using json_dumps_head[OF assms 4] by (intro scans_backI) simp_all
next
  case (5 s)
  have "scan_value pf (Suc n) (json_quote s @ r) = Inr (PStr s, r)" for n r
    by (simp add: json_quote_def scan_value.simps scan_quoted)
  then show ?case using json_dumps_head[OF assms 5] by (intro scans_backI) simp_all
next
  case (6 vs)
  then show ?case using scans_back_PList by (fastforce simp: list_all_iff)
next
  case (7 kvs)
  then show ?case using scans_back_PDict by (fastforce simp: list_all_iff)
qed (auto intro!: scans_backI simp: lit_def scan_value.simps starts_lit_def starts_with_def is_json_space_def)

section \<open>The scanner never runs out of fuel\<close>

lemma length_skip_ws: "length (skip_ws s) \<le> length s"
  by (simp add: skip_ws_def length_dropWhile_le)

lemma push_char_Some: "push_char c x = Some (s, r) \<longleftrightarrow> (\<exists>t. x = Some (t, r) \<and> s = c # t)"
  by (cases x) auto

lemma scan_string_shorter: "scan_string s = Some (t, r) \<Longrightarrow> length r < length s"
proof (induction "length s" arbitrary: s t r rule: less_induct)
  case less
  obtain c cs where s: "s = c # cs" using less.prems by (cases s) (auto simp: scan_string.simps)
  have "length r < length s"
    if "push_char d (scan_string u) = Some (t, r)" "length u < length s" for d u
    using that less.hyps less_trans by (fastforce simp: push_char_Some)
  then show ?case using less.prems unfolding s scan_string.simps(2)
    by (auto split: if_splits list.splits option.splits)
qed

lemma scan_number_shorter: "scan_number s = Some (t, b, r) \<Longrightarrow> length r < length s"
proof -
  assume n: "scan_number s = Some (t, b, r)"
  have drop: "length (dropWhile p xs) \<le> length xs" for p and xs :: pystr by (rule length_dropWhile_le)
  obtain w x where w: "integer_part (snd (sign_part (\<lambda>c. c = 45) s)) = Some (w, x)"
    and r: "r = snd (exponent_part (snd (fraction_part x)))"
    using n by (auto simp: scan_number_def split: prod.splits option.splits)
  have "length x < length (snd (sign_part (\<lambda>c. c = 45) s))"
    using w drop by (auto simp: integer_part_def less_Suc_eq_le split: list.splits if_splits)
  moreover have "length (snd (sign_part p u)) \<le> length u" for p u by (auto simp: sign_part_def split: list.splits)
  moreover have "length (snd (fraction_part u)) \<le> length u" for u
    using drop by (auto simp: fraction_part_def split: list.splits intro: le_SucI)
  moreover have "length (snd (exponent_part u)) \<le> length u" for u
    using drop by (auto simp: exponent_part_def sign_part_def split: list.splits intro: le_SucI)
  ultimately show ?thesis using r le_trans by (metis le_less_trans less_le_trans)
qed

lemma scan_number_or_constant_shorter: "scan_number_or_constant pf s = Inr (v, r) \<Longrightarrow> length r < length s"
  by (auto simp: scan_number_or_constant_def split: option.splits if_splits prod.splits dest: scan_number_shorter)

lemma close_object_Inr: "close_object ps r = Inr (v, r') \<Longrightarrow> r' = r"
  by (auto simp: close_object_def bindE_Inr_iff)

lemma skip_ws_Cons: "skip_ws s = d # r \<Longrightarrow> length r < length s"
  using length_skip_ws[of s] by simp

lemma scan_members_Inr:
  assumes "scan_members pf (Suc n) ps s = Inr (v, r)"
  obtains k r1 r2 w r3 e r4 where "scan_string s = Some (k, r1)" "skip_ws r1 = 58 # r2"
    "scan_value pf n (skip_ws r2) = Inr (w, r3)" "skip_ws r3 = e # r4"
    "r = r4 \<or> (\<exists>r5 qs. skip_ws r4 = 34 # r5 \<and> scan_members pf n qs r5 = Inr (v, r))"
proof -
  obtain k r1 where k: "scan_string s = Some (k, r1)" using assms by (auto simp: scan_members.simps split: option.splits)
  obtain r2 where r2: "skip_ws r1 = 58 # r2"
    using assms k by (cases "skip_ws r1") (auto simp: scan_members.simps split: if_splits)
  obtain w r3 where w: "scan_value pf n (skip_ws r2) = Inr (w, r3)"
    using assms k r2 by (auto simp: scan_members.simps bindE_Inr_iff)
  obtain e r4 where e: "skip_ws r3 = e # r4" using assms k r2 w by (cases "skip_ws r3") (auto simp: scan_members.simps)
  have "r = r4 \<or> (\<exists>r5 qs. skip_ws r4 = 34 # r5 \<and> scan_members pf n qs r5 = Inr (v, r))"
    using assms k r2 w e by (cases "skip_ws r4") (auto simp: scan_members.simps split: if_splits dest: close_object_Inr)
  then show ?thesis using that k r2 w e by blast
qed

lemma scan_elements_Inr:
  assumes "scan_elements pf (Suc n) vs s = Inr (v, r)"
  obtains w r1 e r2 where "scan_value pf n s = Inr (w, r1)" "skip_ws r1 = e # r2"
    "r = r2 \<or> (\<exists>ws. scan_elements pf n ws (skip_ws r2) = Inr (v, r))"
proof -
  obtain w r1 where w: "scan_value pf n s = Inr (w, r1)" using assms by (auto simp: scan_elements.simps bindE_Inr_iff)
  obtain e r2 where e: "skip_ws r1 = e # r2" using assms w by (cases "skip_ws r1") (auto simp: scan_elements.simps)
  have "r = r2 \<or> (\<exists>ws. scan_elements pf n ws (skip_ws r2) = Inr (v, r))"
    using assms w e by (auto simp: scan_elements.simps split: if_splits)
  then show ?thesis using that w e by blast
qed

lemma scan_value_Inr:
  assumes "scan_value pf (Suc n) s = Inr (v, r)"
  obtains c cs where "s = c # cs"
    "(\<exists>t. scan_string cs = Some (t, r)) \<or> (\<exists>d. skip_ws cs = d # r) \<or>
     (\<exists>d u. skip_ws cs = d # u \<and> (scan_members pf n [] u = Inr (v, r) \<or> scan_elements pf n [] (d # u) = Inr (v, r))) \<or>
     (\<exists>k. r = drop (Suc k) s) \<or> scan_number_or_constant pf s = Inr (v, r)"
proof (cases s)
  case (Cons c cs)
  have "drop 4 s = drop (Suc 3) s" "drop 5 s = drop (Suc 4) s" by simp_all
  then show ?thesis using assms Cons
    by (intro that[OF Cons])
     (auto simp: scan_value.simps split: option.splits list.splits if_splits dest: close_object_Inr)
qed (use assms in \<open>simp add: scan_value.simps\<close>)

lemma scan_shorter:
  "scan_value pf n s = Inr (v, r) \<Longrightarrow> length r < length s"
  "scan_members pf n ps s = Inr (v, r) \<Longrightarrow> length r < length s"
  "scan_elements pf n vs s = Inr (v, r) \<Longrightarrow> length r < length s"
proof (induction n arbitrary: s ps vs v r)
  case (Suc n)
  {
    case 1
    then show ?case
    proof (rule scan_value_Inr)
      fix c cs
      assume s: "s = c # cs" and
        "(\<exists>t. scan_string cs = Some (t, r)) \<or> (\<exists>d. skip_ws cs = d # r) \<or>
         (\<exists>d u. skip_ws cs = d # u \<and> (scan_members pf n [] u = Inr (v, r) \<or> scan_elements pf n [] (d # u) = Inr (v, r))) \<or>
         (\<exists>k. r = drop (Suc k) s) \<or> scan_number_or_constant pf s = Inr (v, r)"
      then show ?thesis
        using scan_string_shorter[of cs _ r] skip_ws_Cons[of cs] length_skip_ws[of cs] Suc.IH(2)[of "[]" _ v r]
          Suc.IH(3)[of "[]" _ v r] scan_number_or_constant_shorter
        by (elim disjE exE conjE; fastforce)
    qed
  next
    case 2
    then show ?case
    proof (rule scan_members_Inr)
      fix k r1 r2 w r3 e r4
      assume "scan_string s = Some (k, r1)" "skip_ws r1 = 58 # r2" "scan_value pf n (skip_ws r2) = Inr (w, r3)"
        "skip_ws r3 = e # r4" and
        last: "r = r4 \<or> (\<exists>r5 qs. skip_ws r4 = 34 # r5 \<and> scan_members pf n qs r5 = Inr (v, r))"
      then have "length r1 < length s" "length r2 < length r1" "length r3 < length (skip_ws r2)" "length r4 < length r3"
        using scan_string_shorter skip_ws_Cons Suc.IH(1) by blast+
      then have "length r4 < length s" using length_skip_ws[of r2] by linarith
      moreover have "length r \<le> length r4" using last skip_ws_Cons[of r4] Suc.IH(2)[of _ _ v r] by fastforce
      ultimately show ?thesis by simp
    qed
  next
    case 3
    then show ?case
    proof (rule scan_elements_Inr)
      fix w r1 e r2
      assume "scan_value pf n s = Inr (w, r1)" "skip_ws r1 = e # r2"
        and last: "r = r2 \<or> (\<exists>ws. scan_elements pf n ws (skip_ws r2) = Inr (v, r))"
      then have "length r1 < length s" "length r2 < length r1" using skip_ws_Cons Suc.IH(1) by blast+
      moreover have "length r \<le> length r2" using last length_skip_ws[of r2] Suc.IH(3)[of _ "skip_ws r2" v r] by fastforce
      ultimately show ?thesis by simp
    qed
  }
qed (simp_all add: scan_value.simps scan_members.simps scan_elements.simps)

lemma reject_duplicate_keys_fuel: "reject_duplicate_keys acc ps \<noteq> Inl OutOfFuel"
  by (induction acc ps rule: reject_duplicate_keys.induct) auto

lemma leaf_fuel: "close_object ps r \<noteq> Inl OutOfFuel" "scan_number_or_constant pf s \<noteq> Inl OutOfFuel"
  using reject_duplicate_keys_fuel
  by (auto simp: close_object_def bindE_Inl_iff scan_number_or_constant_def split: option.splits)

lemma scan_fuel:
  "2 * length s < n \<Longrightarrow> scan_value pf n s \<noteq> Inl OutOfFuel"
  "2 * length s < n \<Longrightarrow> scan_members pf n ps s \<noteq> Inl OutOfFuel"
  "Suc (2 * length s) < n \<Longrightarrow> scan_elements pf n vs s \<noteq> Inl OutOfFuel"
proof (induction n arbitrary: s ps vs)
  case (Suc n)
  {
    case 1
    show ?case
    proof (cases s)
      case (Cons c cs)
      have cs: "Suc (2 * length cs) < n" using 1 Cons by simp
      have "scan_members pf n [] u \<noteq> Inl OutOfFuel" "scan_elements pf n [] (d # u) \<noteq> Inl OutOfFuel"
        if "skip_ws cs = d # u" for d u
      proof -
        have "length (d # u) \<le> length cs" using length_skip_ws[of cs] that by simp
        then show "scan_members pf n [] u \<noteq> Inl OutOfFuel" "scan_elements pf n [] (d # u) \<noteq> Inl OutOfFuel"
          using cs by (auto intro!: Suc.IH(2,3))
      qed
      then show ?thesis using leaf_fuel Cons
        by (auto simp: scan_value.simps split: option.splits list.splits)
    qed (simp add: scan_value.simps)
  next
    case 2
    show ?case
    proof (cases "scan_string s")
      case k: (Some kr)
      obtain k r1 where kr: "kr = (k, r1)" by (cases kr)
      have r1: "length r1 < length s" using scan_string_shorter[of s k r1] k kr by simp
      show ?thesis
      proof (cases "skip_ws r1")
        case (Cons d r2)
        have r2: "2 * length (skip_ws r2) < n" using skip_ws_Cons[OF Cons] length_skip_ws[of r2] r1 2 by linarith
        then have scanned: "scan_value pf n (skip_ws r2) \<noteq> Inl OutOfFuel" using Suc.IH(1) by blast
        have "scan_members pf n qs r5 \<noteq> Inl OutOfFuel"
          if "scan_value pf n (skip_ws r2) = Inr (v, r3)" "skip_ws r3 = e # r4" "skip_ws r4 = q # r5" for qs v r3 e r4 q r5
          using scan_shorter(1)[OF that(1)] skip_ws_Cons[OF that(2)] skip_ws_Cons[OF that(3)] r2 Suc.IH(2) by simp
        then show ?thesis using k kr Cons scanned leaf_fuel
          by (auto simp: scan_members.simps bindE_Inl_iff split: list.splits)
      qed (use k kr in \<open>simp add: scan_members.simps\<close>)
    qed (simp add: scan_members.simps)
  next
    case 3
    have s: "2 * length s < n" using 3 by simp
    have "scan_elements pf n ws (skip_ws r2) \<noteq> Inl OutOfFuel"
      if "scan_value pf n s = Inr (v, r1)" "skip_ws r1 = e # r2" for ws v r1 e r2
      using scan_shorter(1)[OF that(1)] skip_ws_Cons[OF that(2)] length_skip_ws[of r2] s by (auto intro!: Suc.IH(3))
    then show ?case using Suc.IH(1)[OF s] by (auto simp: scan_elements.simps bindE_Inl_iff split: list.splits)
  }
qed simp_all

section \<open>Strict documents read back\<close>

lemma json_dumps_sorted: "json_value v \<Longrightarrow> json_dumps fr (json_sorted v) = json_dumps fr v"
proof (induction v rule: json_value.induct)
  case (7 kvs)
  let ?ks = "map (\<lambda>kv. (the (key_str (fst kv)), snd kv)) kvs"
  have ih: "json_dumps fr (json_sorted v) = json_dumps fr v" if "(k, v) \<in> set (sort_key fst ?ks)" for k v
    using 7 that by (auto simp: list_all_iff)
  have "sort_key fst (map (\<lambda>kv. (the (key_str (fst kv)), snd kv)) (map (\<lambda>(k, v). (KStr k, v)) (map (apsnd json_sorted) (sort_key fst ?ks)))) =
      map (apsnd json_sorted) (sort_key fst ?ks)"
  proof -
    have "map (\<lambda>kv. (the (key_str (fst kv)), snd kv)) (map (\<lambda>(k, v). (KStr k, v)) xs) = xs" for xs :: "(pystr \<times> pyval) list"
      by (induction xs) auto
    moreover have "sorted (map fst (map (apsnd json_sorted) (sort_key fst ?ks)))" by (simp add: comp_def)
    ultimately show ?thesis using sort_key_id_if_sorted by metis
  qed
  moreover have "map (\<lambda>kv. 34 # member_text fr kv) (map (apsnd json_sorted) (sort_key fst ?ks)) =
      map (\<lambda>kv. 34 # member_text fr kv) (sort_key fst ?ks)"
    using ih by (auto simp: member_text_def)
  ultimately show ?case unfolding json_sorted_PDict json_dumps_PDict by metis
qed (simp_all add: list_all_iff cong: map_cong)

lemma length_nat_repr: "n < 10 ^ k \<Longrightarrow> 0 < k \<Longrightarrow> length (nat_repr n) \<le> k"
proof (induction n arbitrary: k rule: nat_repr.induct)
  case (1 n)
  show ?case
  proof (cases "n < 10")
    case False
    then obtain j where k: "k = Suc j" "0 < j" using 1 by (cases k; cases "k - 1") auto
    then have "n div 10 < 10 ^ j" using 1 by auto
    then show ?thesis using False 1 k by (simp add: nat_repr.simps[of n])
  qed (use 1 in \<open>simp add: nat_repr.simps[of n]\<close>)
qed

lemma canonical_readable: "json_value v \<Longrightarrow> canonical_ok v \<Longrightarrow> json_readable v"
proof (induction v rule: json_value.induct)
  case (3 i)
  then have "nat \<bar>i\<bar> < 10 ^ 16" by (simp add: MAX_SAFE_INTEGER_def)
  then show ?case using length_nat_repr[of "nat \<bar>i\<bar>" 16] by (simp add: MAX_INT_DIGITS_def)
qed (auto simp: list_all_iff)

fun json_plain :: "pyval \<Rightarrow> bool" where
  "json_plain (PList xs) = list_all json_plain xs"
| "json_plain (PDict kvs) =
     (distinct (map fst kvs) \<and> list_all (\<lambda>kv. key_str (fst kv) \<noteq> None \<and> json_plain (snd kv)) kvs)"
| "json_plain (PTuple _) = False"
| "json_plain (PSet _) = False"
| "json_plain (PEnum _) = False"
| "json_plain (PModel _) = False"
| "json_plain (PProj _ _) = False"
| "json_plain (POther _) = False"
| "json_plain _ = True"

lemma reject_duplicate_keys_Inr:
  "reject_duplicate_keys acc ps = Inr d \<Longrightarrow> distinct (map fst acc) \<Longrightarrow> d = acc @ ps \<and> distinct (map fst d)"
proof (induction acc ps rule: reject_duplicate_keys.induct)
  case (2 result key val pairs)
  then have "map_of result key = None" "reject_duplicate_keys (result @ [(key, val)]) pairs = Inr d"
    by (metis reject_duplicate_keys.simps(2) sum.distinct(1))+
  moreover have "distinct (map fst (result @ [(key, val)]))"
    using 2 \<open>map_of result key = None\<close> by (simp add: map_of_eq_None_iff)
  ultimately have "d = (result @ [(key, val)]) @ pairs \<and> distinct (map fst d)" using 2 by blast
  then show ?case by (metis append.assoc append_Cons append_Nil)
qed simp

lemma close_object_plain:
  assumes "close_object ps r = Inr (v, r')" "\<forall>kv \<in> set ps. json_plain (snd kv)"
  shows "json_plain v"
proof -
  have "distinct (map fst ps)" "v = PDict (map (\<lambda>(k, v). (KStr k, v)) ps)"
    using assms(1) reject_duplicate_keys_Inr[of "[]" ps] by (auto simp: close_object_def bindE_Inr_iff)
  moreover have "map fst (map (\<lambda>(k, v). (KStr k, v)) ps) = map KStr (map fst ps)" for ps :: "(pystr \<times> pyval) list"
    by (induction ps) auto
  ultimately show ?thesis using assms(2) by (auto simp: distinct_map list_all_iff inj_on_def)
qed

lemma scan_plain:
  "scan_value pf n s = Inr (v, r) \<Longrightarrow> json_plain v"
  "scan_members pf n ps s = Inr (v, r) \<Longrightarrow> \<forall>kv \<in> set ps. json_plain (snd kv) \<Longrightarrow> json_plain v"
  "scan_elements pf n vs s = Inr (v, r) \<Longrightarrow> \<forall>w \<in> set vs. json_plain w \<Longrightarrow> json_plain v"
proof (induction n arbitrary: s ps vs v r)
  case (Suc n)
  {
    case 1
    have "json_plain w" if "scan_number_or_constant pf s = Inr (w, u)" for w u
      using that by (auto simp: scan_number_or_constant_def split: option.splits if_splits)
    then show ?case using 1 Suc.IH(2)[of "[]"] Suc.IH(3)[of "[]"] close_object_plain[of "[]"]
      by (auto simp: scan_value.simps split: option.splits list.splits if_splits)
  next
    case 2
    obtain k r1 where k: "scan_string s = Some (k, r1)" using 2 by (auto simp: scan_members.simps split: option.splits)
    obtain r2 where r2: "skip_ws r1 = 58 # r2"
      using 2 k by (cases "skip_ws r1") (auto simp: scan_members.simps split: if_splits)
    obtain w r3 where w: "scan_value pf n (skip_ws r2) = Inr (w, r3)"
      using 2 k r2 by (auto simp: scan_members.simps bindE_Inr_iff)
    then have "\<forall>kv \<in> set (ps @ [(k, w)]). json_plain (snd kv)" using 2 Suc.IH(1) by auto
    moreover have "(\<exists>u. close_object (ps @ [(k, w)]) u = Inr (v, r)) \<or> (\<exists>u. scan_members pf n (ps @ [(k, w)]) u = Inr (v, r))"
      using 2 k r2 w by (auto simp: scan_members.simps split: list.splits if_splits)
    ultimately show ?case using close_object_plain Suc.IH(2) by blast
  next
    case 3
    obtain w r1 where w: "scan_value pf n s = Inr (w, r1)" using 3 by (auto simp: scan_elements.simps bindE_Inr_iff)
    then have "\<forall>x \<in> set (vs @ [w]). json_plain x" using 3 Suc.IH(1) by auto
    moreover have "v = PList (vs @ [w]) \<or> (\<exists>u. scan_elements pf n (vs @ [w]) u = Inr (v, r))"
      using 3 w by (auto simp: scan_elements.simps split: list.splits if_splits)
    ultimately show ?case using Suc.IH(3) by (auto simp: list_all_iff)
  }
qed (simp_all add: scan_value.simps scan_members.simps scan_elements.simps)

lemma plain_canonical_value: "json_plain v \<Longrightarrow> canonical_ok v \<Longrightarrow> json_value v"
  by (induction v rule: json_value.induct) (auto simp: list_all_iff split: pykey.splits)

lemma strict_json_loads_value:
  assumes "strict_json_loads pf m b = Inr v"
  shows "json_value v \<and> canonical_ok v \<and> json_readable v"
proof -
  obtain t where t: "json_loads pf t = Inr v" and c: "canonical_ok v"
    using assms is_ok_canonical_json_bytes
    by (auto simp: strict_json_loads_def bindE_Inr_iff is_ok_iff split: option.splits if_splits sum.splits)
  then have "json_plain v" using scan_plain(1) by (auto simp: json_loads_def bindE_Inr_iff split: if_splits)
  then show ?thesis using c plain_canonical_value canonical_readable by blast
qed

lemma canonical_sorted: "json_value v \<Longrightarrow> canonical_ok v \<Longrightarrow> canonical_ok (json_sorted v) \<and> dumpable (json_sorted v)"
proof (induction v rule: json_value.induct)
  case (7 kvs)
  then show ?case by (auto simp: list_all_iff split: pykey.splits) 
qed (auto simp: list_all_iff)

lemma json_loads_dumps:
  assumes "float_codec fr pf" "json_value v" "json_readable v"
  shows "json_loads pf (json_dumps fr v @ [10]) = Inr (json_sorted v)"
proof -
  have b: "scans_back fr pf v" using json_dumps_scans_back assms by blast
  then have "scan_value pf (Suc (2 * length (json_dumps fr v @ [10]))) (json_dumps fr v @ [10]) = Inr (json_sorted v, [10])"
    by (simp add: scans_back_def)
  then show ?thesis using scans_back_skip[OF b] by (simp add: json_loads_def)
qed

lemma cas_document_back:
  assumes "float_codec fr pf" "json_value v" "cas_json_bytes fr v = Inr b" "length b \<le> m"
  shows "strict_cas_json_loads fr pf m b = Inr (json_sorted v)"
proof -
  have c: "canonical_ok v" "utf8_encode (json_dumps fr v @ [10]) = Some b"
    using assms(3) is_ok_canonical_json_bytes
    by (auto simp: cas_json_bytes_def document_bytes_def bindE_Inr_iff is_ok_iff valid_utf8_Inr_iff split: if_splits)
  have s: "canonical_ok (json_sorted v)" "dumpable (json_sorted v)" using canonical_sorted assms(2) c(1) by blast+
  then obtain cb where cb: "canonical_json_bytes (json_sorted v) = Inr cb" using is_ok_canonical_json_bytes[of "json_sorted v"] by (auto simp: is_ok_iff)
  obtain d cs where d: "json_dumps fr v = d # cs" "d < 128"
    using json_dumps_head assms(1,2) canonical_readable c(1) by blast
  have "json_loads pf (json_dumps fr v @ [10]) = Inr (json_sorted v)"
    using json_loads_dumps assms(1,2) canonical_readable c(1) by blast
  moreover have "\<not> starts_with [0xFEFF] (json_dumps fr v @ [10])" using d by (simp add: starts_with_def)
  ultimately have "strict_json_loads pf (Some m) b = Inr (json_sorted v)"
    using utf8_decode_encode[OF c(2)] assms(4) cb by (simp add: strict_json_loads_def)
  moreover have "cas_json_bytes fr (json_sorted v) = Inr b"
    using cb s c(2) json_dumps_sorted[OF assms(2)] by (simp add: cas_json_bytes_def document_bytes_def valid_utf8_Inr_iff)
  ultimately show ?thesis by (simp add: strict_cas_json_loads_def)
qed

lemma denote_sorted: "json_value v \<Longrightarrow> denote (json_sorted v) = denote v"
proof (induction v rule: json_value.induct)
  case (7 kvs)
  let ?ks = "map (\<lambda>kv. (the (key_str (fst kv)), snd kv)) kvs"
  let ?ds = "map (apsnd denote) ?ks"
  have keys: "map fst kvs = map KStr (map fst ?ks)"
  proof -
    have "fst kv = KStr (the (key_str (fst kv)))" if "kv \<in> set kvs" for kv
      using 7 that by (cases "fst kv") (auto simp: list_all_iff)
    then show ?thesis by simp
  qed
  have "distinct (map fst kvs)" using 7 by simp
  then have dist: "distinct (map fst ?ks)" unfolding keys by (simp only: distinct_map)
  have ih: "denote (json_sorted v) = denote v" if "(k, v) \<in> set (sort_key fst ?ks)" for k v
    using 7 that by (auto simp: list_all_iff)
  have printed: "map (\<lambda>(k, v). (the (key_str k), denote v)) (map (\<lambda>(k, v). (KStr k, v)) (map (apsnd json_sorted) (sort_key fst ?ks))) =
      map (apsnd denote) (sort_key fst ?ks)"
    using ih by auto
  have "map_of (map (apsnd denote) (sort_key fst ?ks)) = map_of ?ds"
  proof -
    have "map fst (map (apsnd denote) xs) = map fst xs" for xs :: "(pystr \<times> pyval) list" by simp
    then have "distinct (map fst (map (apsnd denote) (sort_key fst ?ks)))" "distinct (map fst ?ds)"
      using dist distinct_map_sort_key by metis+
    moreover have "set (map (apsnd denote) (sort_key fst ?ks)) = set ?ds" unfolding set_map set_sort ..
    ultimately show ?thesis using map_of_inject_set by blast
  qed
  then have same: "fmap_of_list (map (apsnd denote) (sort_key fst ?ks)) = fmap_of_list ?ds"
    by (intro fmap_ext) (simp only: fmlookup_of_list)
  have read: "map (\<lambda>(k, v). (the (key_str k), denote v)) kvs = ?ds" by (auto simp: comp_def)
  show ?case unfolding json_sorted_PDict denote.simps printed read same ..
qed (auto simp: list_all_iff)

section \<open>A float codec\<close>

text \<open>One pair of functions with the law the round trip asks for: the bit pattern in decimal, then a zero fraction.\<close>

definition demo_float_repr :: "float64 \<Rightarrow> pystr" where
  "demo_float_repr x = nat_repr (unat x) @ [46, 48]"

definition demo_parse_float :: "pystr \<Rightarrow> float64" where
  "demo_parse_float t = of_nat (digits_value (takeWhile is_digit t))"

lemma demo_float_codec: "float_codec demo_float_repr demo_parse_float"
proof -
  have "float_text (demo_float_repr x) \<and> demo_parse_float (demo_float_repr x) = x" for x
  proof -
    obtain c cs where c: "nat_repr (unat x) = c # cs" "is_digit c" "c = 48 \<longrightarrow> cs = []" using nat_repr_head by blast
    have d: "\<forall>e \<in> set (nat_repr (unat x)). is_digit e" using nat_repr_digits by blast
    have span: "takeWhile is_digit (nat_repr (unat x) @ [46, 48]) = nat_repr (unat x)"
      "dropWhile is_digit (nat_repr (unat x) @ [46, 48]) = [46, 48]"
      using d by (simp_all add: takeWhile_append2 dropWhile_append2 is_digit_def)
    have "integer_part (nat_repr (unat x) @ [46, 48]) = Some (nat_repr (unat x), [46, 48])"
      using c span by (auto simp: integer_part_def)
    moreover have "sign_part (\<lambda>c. c = 45) (nat_repr (unat x) @ [46, 48]) = ([], nat_repr (unat x) @ [46, 48])"
      using c sign_part_digit by simp
    ultimately have "float_text (demo_float_repr x)"
      by (simp add: float_text_def demo_float_repr_def scan_number_def fraction_part_def exponent_part_def is_digit_def)
    then show ?thesis using span by (simp add: demo_parse_float_def demo_float_repr_def digits_value_nat_repr)
  qed
  then show ?thesis by (simp add: float_codec_def)
qed

section \<open>Properties\<close>

text \<open>
  C22 (cas_document_round_trip). The compact document of a canonical JSON value is accepted by the strict reader
  and reads back as that value, its object members in printed order; the meaning the digests bind is unchanged.
\<close>

theorem cas_document_round_trip:
  assumes "float_codec fr pf" "json_value v" "cas_json_bytes fr v = Inr b" "length b \<le> m"
  shows "strict_cas_json_loads fr pf m b = Inr (json_sorted v) \<and> denote (json_sorted v) = denote v"
  using cas_document_back[OF assms] denote_sorted[OF assms(2)] by blast

theorem cas_document_round_trip_witness:
  "\<exists>b. cas_json_bytes demo_float_repr (jobj [(''b'', PInt 7), (''a'', PList [PBool True, PNone])]) = Inr b \<and>
     strict_cas_json_loads demo_float_repr demo_parse_float (length b) b =
       Inr (json_sorted (jobj [(''b'', PInt 7), (''a'', PList [PBool True, PNone])]))"
proof -
  let ?v = "jobj [(''b'', PInt 7), (''a'', PList [PBool True, PNone])]"
  have v: "json_value ?v" "canonical_ok ?v" "dumpable ?v" by (simp_all add: jobj_def MAX_SAFE_INTEGER_def)
  then obtain cb where "canonical_json_bytes ?v = Inr cb" using is_ok_canonical_json_bytes[of ?v] by (auto simp: is_ok_iff)
  moreover have "json_dumps demo_float_repr ?v = lit (''{'' @ CHR 0x22 # ''a'' @ CHR 0x22 # '':[true,null],'' @
      CHR 0x22 # ''b'' @ CHR 0x22 # '':7}'')"
    by (simp add: jobj_def lit_def json_quote_def encode_char_def short_escape_def SHORT_ESCAPES_def int_repr_def nat_repr.simps)
  then have "scalar_str (json_dumps demo_float_repr ?v @ [10])" using scalar_lit
    by (simp add: is_scalar_def is_surrogate_def)
  ultimately obtain b where "cas_json_bytes demo_float_repr ?v = Inr b"
    using v by (auto simp: cas_json_bytes_def document_bytes_def valid_utf8_def scalar_str_iff)
  then show ?thesis using cas_document_round_trip[OF demo_float_codec v(1) _ order_refl] by blast
qed

text \<open>The fuel is enough for every text.\<close>

lemma scanner_total: "json_loads pf s \<noteq> Inl OutOfFuel"
proof -
  have "2 * length (skip_ws s) < Suc (2 * length s)" using length_skip_ws[of s] by simp
  then show ?thesis using scan_fuel(1) by (auto simp: json_loads_def bindE_Inl_iff split: if_splits)
qed

text \<open>
  Whatever the strict reader accepts is a JSON value with unique string keys, finite
  numbers within the safe range and no lone surrogate.
\<close>

theorem strict_json_values:
  assumes "strict_json_loads pf m b = Inr v"
  shows "json_value v \<and> canonical_ok v"
  using strict_json_loads_value[OF assms] by blast

theorem strict_json_values_witness:
  "json_value (PList []) \<and> strict_json_loads (\<lambda>_. 0) None [91, 93] = Inr (PList [])"
proof -
  have "scan_value (\<lambda>_. 0) (Suc n) [91, 93] = Inr (PList [], [])" for n by (simp add: scan_value.simps)
  then have "scan_value (\<lambda>_. 0) 5 [91, 93] = Inr (PList [], [])" by (metis eval_nat_numeral(3))
  then have "json_loads (\<lambda>_. 0) [91, 93] = Inr (PList [])"
    by (simp add: json_loads_def is_json_space_def)
  moreover have "utf8_decode [91, 93] = Some [91, 93]" by code_simp
  moreover have "is_ok (canonical_json_bytes (PList []))" by (simp add: is_ok_canonical_json_bytes)
  ultimately have "strict_json_loads (\<lambda>_. 0) None [91, 93] = Inr (PList [])"
    by (auto simp: strict_json_loads_def starts_with_def is_ok_iff)
  then show ?thesis using strict_json_values by blast
qed

end
