(* ===== verification/Record_Identity.thy ===== *)
theory Record_Identity
  imports Operation_Record Managed Json_Documents
begin

text \<open>
  What the digests of the stored records are worth. The payload, the dataset record and the operation record
  are interpretations of \<open>hashed_record\<close>, so a content reference identifies what it names up to SHA-256
  collisions; a payload that validates is rectangular and typed; references round trip.
\<close>

section \<open>Objects with optional fields\<close>

lemma map_of_jobj:
  "map_of (map (\<lambda>(k, v). (the (key_str k), denote v)) (map (\<lambda>(k, v). (KStr (lit k), v)) xs)) (lit k) =
     map_option denote (map_of xs k)"
  by (induction xs) auto

lemma denote_jobj_lookup:
  "denote (jobj xs) = denote (jobj ys) \<Longrightarrow> map_option denote (map_of xs k) = map_option denote (map_of ys k)"
  unfolding jobj_def denote.simps cval.inject
  by (drule arg_cong[of _ _ "\<lambda>m. fmlookup m (lit k)"]) (simp only: fmlookup_of_list map_of_jobj)

lemma map_fst_present [simp]: "map fst (present k f x) = (if x = None then [] else [k])"
  by (cases x) (simp_all add: present_def)

lemma map_of_present [simp]: "map_of (present k f x) j = (if j = k then map_option f x else None)"
  by (cases x) (simp_all add: present_def)

lemma map_add_present [simp]:
  "(m ++ map_of (present k f x)) j = (if j = k \<and> x \<noteq> None then map_option f x else m j)"
  by (cases x) (auto simp: present_def)

lemma set_present: "kv \<in> set (present k f x) \<longleftrightarrow> (\<exists>a. x = Some a \<and> kv = (k, f a))"
  by (cases x) (auto simp: present_def)

lemma map_option_inj: "(\<And>a b. f a = f b \<longleftrightarrow> a = b) \<Longrightarrow> map_option f x = map_option f y \<longleftrightarrow> x = y"
  by (cases x; cases y) auto

lemma denote_option:
  "(\<And>a b. denote (f a) = denote (f b) \<longleftrightarrow> a = b) \<Longrightarrow>
     map_option denote (map_option f x) = map_option denote (map_option f y) \<longleftrightarrow> x = y"
  by (cases x; cases y) auto

lemma distinct_fields:
  "k \<notin> fst ` set xs \<Longrightarrow> distinct (map fst xs) \<Longrightarrow> distinct (map fst (present k f x @ xs))"
  "k \<notin> fst ` set xs \<Longrightarrow> distinct (map fst xs) \<Longrightarrow> distinct (map fst ([(k, v)] @ xs))"
  "distinct (map fst (present k f x))"
  "k \<noteq> j \<Longrightarrow> k \<notin> fst ` set xs \<Longrightarrow> k \<notin> fst ` set (present j f x @ xs)"
  "k \<noteq> j \<Longrightarrow> k \<notin> fst ` set xs \<Longrightarrow> k \<notin> fst ` set ([(j, v)] @ xs)"
  "k \<noteq> j \<Longrightarrow> k \<notin> fst ` set (present j f x)"
  by (cases x; auto simp: present_def)+

section \<open>Values of the closed vocabularies\<close>

lemma record_values_inj [simp]:
  "data_type_value a = data_type_value b \<longleftrightarrow> a = b"
  "frequency_value f = frequency_value g \<longleftrightarrow> f = g"
  "price_kind_value p = price_kind_value q \<longleftrightarrow> p = q"
  "column_role_value r = column_role_value s \<longleftrightarrow> r = s"
  "event_code_value d = event_code_value e \<longleftrightarrow> d = e"
  "csv_delimiter_value x = csv_delimiter_value y \<longleftrightarrow> x = y"
  "member_kind_value m = member_kind_value n \<longleftrightarrow> m = n"
  by ((cases a; cases b; simp), (cases f; cases g; simp), (cases p; cases q; simp), (cases r; cases s; simp),
      (cases d; cases e; simp), (cases x; cases y; simp), (cases m; cases n; simp))

lemma port_values_inj [simp]:
  "port_direction_value a = port_direction_value b \<longleftrightarrow> a = b"
  "port_unit_value c = port_unit_value d \<longleftrightarrow> c = d"
  "port_shape_value e = port_shape_value f \<longleftrightarrow> e = f"
  "port_cardinality_value g = port_cardinality_value h \<longleftrightarrow> g = h"
  "port_ordering_value i = port_ordering_value j \<longleftrightarrow> i = j"
  "port_frequency_value k = port_frequency_value l \<longleftrightarrow> k = l"
  "port_provenance_value m = port_provenance_value n \<longleftrightarrow> m = n"
  by ((cases a; cases b; simp), (cases c; cases d; simp), (cases e; cases f; simp), (cases g; cases h; simp),
      (cases i; cases j; simp), (cases k; cases l; simp), (cases m; cases n; simp))

lemma port_concept_value_inj [simp]: "port_concept_value a = port_concept_value b \<longleftrightarrow> a = b"
  by (cases a; cases b) simp_all

lemma port_convention_value_inj [simp]: "port_convention_value a = port_convention_value b \<longleftrightarrow> a = b"
  by (cases a; cases b) simp_all

lemma port_dimension_value_inj [simp]: "port_dimension_value a = port_dimension_value b \<longleftrightarrow> a = b"
  by (cases a; cases b) simp_all

lemma utf8_bytes_Inr:
  "utf8_bytes name lo hi s = Inr b \<longleftrightarrow> utf8_encode s = Some b \<and> lo \<le> length b \<and> length b \<le> hi"
  by (auto simp: utf8_bytes_def split: option.splits)

lemma utf8_within_iff: "utf8_within lo hi s \<longleftrightarrow> (\<exists>b. utf8_encode s = Some b \<and> lo \<le> length b \<and> length b \<le> hi)"
  by (simp add: utf8_within_def is_ok_iff utf8_bytes_Inr)

lemma utf8_within_scalar: "utf8_within lo hi s \<Longrightarrow> scalar_str s"
  using utf8_encode_Some_iff[of s] by (auto simp: utf8_within_iff scalar_str_def list_all_iff)

lemmas record_scalar_dests = scalar_dests utf8_within_scalar

section \<open>Parts of a record\<close>

lemma semantic_port_dump_laws:
  "wf_py (semantic_port_dump p)" "canonical_ok (semantic_port_dump p)"
  "denote (semantic_port_dump p) = denote (semantic_port_dump q) \<longleftrightarrow> p = q"
  by (auto simp: semantic_port_dump_def denote_jobj_iff)

lemma dataset_provenance_laws:
  "wf_py (dataset_provenance_projection p)"
  "dataset_provenance_valid p \<Longrightarrow> canonical_ok (dataset_provenance_projection p)"
  "denote (dataset_provenance_projection p) = denote (dataset_provenance_projection q) \<longleftrightarrow> p = q"
proof -
  show "wf_py (dataset_provenance_projection p)"
    by (auto simp: dataset_provenance_projection_def set_present list_all_iff)
  show "dataset_provenance_valid p \<Longrightarrow> canonical_ok (dataset_provenance_projection p)"
    by (auto simp: dataset_provenance_projection_def dataset_provenance_valid_def set_present list_all_iff record_scalar_dests)
  show "denote (dataset_provenance_projection p) = denote (dataset_provenance_projection q) \<longleftrightarrow> p = q" (is "?L \<longleftrightarrow> _")
  proof
    assume L: ?L
    note look = denote_jobj_lookup[OF L[unfolded dataset_provenance_projection_def]]
    have "denote (jstr (source_kind_value (source_kind p))) = denote (jstr (source_kind_value (source_kind q)))"
      using look[of "''source_kind''"] by simp
    moreover have "interpretation_method p = interpretation_method q" using look[of "''interpretation_method''"] by simp
    moreover have "verification_status p = verification_status q" using look[of "''verification_status''"] by simp
    moreover have "p_label p = p_label q" using look[of "''label''"] by simp
    moreover have "p_references p = p_references q" using look[of "''references''"] by simp
    moreover have "content_sha256 p = content_sha256 q"
      using look[of "''content_sha256''"] by (cases "content_sha256 p"; cases "content_sha256 q") simp_all
    moreover have "assumptions p = assumptions q" using look[of "''assumptions''"] by simp
    ultimately show "p = q" by simp
  qed simp
qed

lemma external_preprocessing_laws:
  "wf_py (external_preprocessing_dump e)"
  "external_preprocessing_valid e \<Longrightarrow> canonical_ok (external_preprocessing_dump e)"
  "denote (external_preprocessing_dump e) = denote (external_preprocessing_dump e') \<longleftrightarrow> e = e'"
proof -
  show "wf_py (external_preprocessing_dump e)" by (cases e) auto
  show "external_preprocessing_valid e \<Longrightarrow> canonical_ok (external_preprocessing_dump e)"
    by (cases e) (auto simp: record_scalar_dests)
  show "denote (external_preprocessing_dump e) = denote (external_preprocessing_dump e') \<longleftrightarrow> e = e'"
    (is "?L \<longleftrightarrow> _")
  proof
    assume ?L
    then show "e = e'"
      by (cases e; cases e') (auto simp: denote_jobj_iff dest!: denote_jobj_lookup[of _ _ "''status''"])
  qed simp
qed

lemma record_source_laws:
  "wf_py (record_source_projection s)"
  "dataset_provenance_valid (source_provenance s) \<Longrightarrow> canonical_ok (record_source_projection s)"
  "denote (record_source_projection s) = denote (record_source_projection t) \<longleftrightarrow> s = t"
proof -
  show "wf_py (record_source_projection s)" by (cases s) (auto simp: dataset_provenance_laws)
  have "scalar_str (csv_delimiter_value d)" for d
    by (cases d) (simp_all add: scalar_str_def is_scalar_def is_surrogate_def)
  then show "dataset_provenance_valid (source_provenance s) \<Longrightarrow> canonical_ok (record_source_projection s)"
    by (cases s) (auto simp: dataset_provenance_laws)
  show "denote (record_source_projection s) = denote (record_source_projection t) \<longleftrightarrow> s = t" (is "?L \<longleftrightarrow> _")
  proof
    assume ?L
    then show "s = t"
      by (cases s; cases t)
        (auto simp: denote_jobj_iff dataset_provenance_laws dest: denote_jobj_lookup[of _ _ "''kind''"]
          denote_jobj_lookup[of _ _ "''format''"])
  qed simp
qed

lemma dataset_semantics_laws:
  "wf_py (dataset_semantics_projection s)"
  "dataset_semantics_valid s \<Longrightarrow> canonical_ok (dataset_semantics_projection s)"
  "denote (dataset_semantics_projection s) = denote (dataset_semantics_projection t) \<longleftrightarrow> s = t"
proof -
  show "wf_py (dataset_semantics_projection s)"
    unfolding dataset_semantics_projection_def wf_jobj
    by (intro conjI distinct_fields) (auto simp: set_present)
  show "dataset_semantics_valid s \<Longrightarrow> canonical_ok (dataset_semantics_projection s)"
    by (auto simp: dataset_semantics_projection_def dataset_semantics_valid_def set_present record_scalar_dests)
  show "denote (dataset_semantics_projection s) = denote (dataset_semantics_projection t) \<longleftrightarrow> s = t" (is "?L \<longleftrightarrow> _")
  proof
    assume L: ?L
    note look = denote_jobj_lookup[OF L[unfolded dataset_semantics_projection_def]]
    have "sem_currency s = sem_currency t"
      using look[of "''currency''"] by (cases "sem_currency s"; cases "sem_currency t") simp_all
    moreover have "sem_instrument s = sem_instrument t"
      using look[of "''instrument''"] by (cases "sem_instrument s"; cases "sem_instrument t") (auto simp: denote_jobj_iff)
    moreover have "sem_frequency s = sem_frequency t"
      using look[of "''frequency''"] by (cases "sem_frequency s"; cases "sem_frequency t") simp_all
    moreover have "sem_timezone s = sem_timezone t"
      using look[of "''timezone''"] by (cases "sem_timezone s"; cases "sem_timezone t") simp_all
    moreover have "sem_price_kind s = sem_price_kind t"
      using look[of "''price_kind''"] by (cases "sem_price_kind s"; cases "sem_price_kind t") simp_all
    moreover have "sem_adjustment_policy s = sem_adjustment_policy t"
      using look[of "''adjustment_policy''"] by (cases "sem_adjustment_policy s"; cases "sem_adjustment_policy t") simp_all
    moreover have "sem_distribution_policy s = sem_distribution_policy t"
      using look[of "''distribution_policy''"] by (cases "sem_distribution_policy s"; cases "sem_distribution_policy t") simp_all
    moreover have "sem_calendar s = sem_calendar t"
      using look[of "''calendar''"] by (cases "sem_calendar s"; cases "sem_calendar t") simp_all
    moreover have "sem_partial_period_policy s = sem_partial_period_policy t"
      using look[of "''partial_period_policy''"]
      by (cases "sem_partial_period_policy s"; cases "sem_partial_period_policy t") simp_all
    ultimately show "s = t" by simp
  qed simp
qed

lemma denote_jopt_inj:
  assumes "\<And>a b. denote (f a) = denote (f b) \<longleftrightarrow> a = b" "\<And>a. denote (f a) \<noteq> CNull"
  shows "denote (jopt f x) = denote (jopt f y) \<longleftrightarrow> x = y"
  using assms(1) assms(2) assms(2)[symmetric] by (cases x; cases y) auto

lemma denote_jobj_not_none [simp]: "denote (jobj xs) \<noteq> CNull"
  by (simp add: jobj_def)

lemma record_column_laws:
  "wf_py (record_column_projection c)"
  "record_column_valid c \<Longrightarrow> canonical_ok (record_column_projection c)"
  "denote (record_column_projection c) = denote (record_column_projection d) \<longleftrightarrow> c = d"
proof -
  show "wf_py (record_column_projection c)"
    by (auto simp: record_column_projection_def wf_jopt semantic_port_dump_laws)
  show "record_column_valid c \<Longrightarrow> canonical_ok (record_column_projection c)"
    by (auto simp: record_column_projection_def record_column_valid_def canonical_jopt semantic_port_dump_laws record_scalar_dests)
  have "denote (semantic_port_dump p) \<noteq> CNull" for p by (simp add: semantic_port_dump_def)
  then have "denote (jopt semantic_port_dump x) = denote (jopt semantic_port_dump y) \<longleftrightarrow> x = y" for x y
    by (intro denote_jopt_inj semantic_port_dump_laws)
  then show "denote (record_column_projection c) = denote (record_column_projection d) \<longleftrightarrow> c = d"
    by (cases c; cases d) (simp add: record_column_projection_def denote_jobj_iff)
qed

lemma normalization_event_laws:
  "wf_py (normalization_event_dump e)"
  "normalization_event_valid e \<Longrightarrow> canonical_ok (normalization_event_dump e)"
  "normalization_event_valid e \<Longrightarrow> normalization_event_valid f \<Longrightarrow>
     denote (normalization_event_dump e) = denote (normalization_event_dump f) \<longleftrightarrow> e = f"
proof -
  show "wf_py (normalization_event_dump e)" by (simp add: normalization_event_dump_def)
  show "normalization_event_valid e \<Longrightarrow> canonical_ok (normalization_event_dump e)"
    by (auto simp: normalization_event_dump_def normalization_event_valid_def record_scalar_dests MAX_SAFE_INTEGER_def MAX_DATASET_ROWS_def)
  assume v: "normalization_event_valid e" "normalization_event_valid f"
  then have "denote (PInt (ne_count e)) = denote (PInt (ne_count f)) \<longleftrightarrow> ne_count e = ne_count f"
    by (intro denote_PInt_iff) (auto simp: normalization_event_valid_def MAX_SAFE_INTEGER_def MAX_DATASET_ROWS_def)
  then show "denote (normalization_event_dump e) = denote (normalization_event_dump f) \<longleftrightarrow> e = f"
    by (cases e; cases f) (simp add: normalization_event_dump_def denote_jobj_iff del: denote.simps(3))
qed

lemma denote_PList_inj_on:
  assumes "\<And>x y. x \<in> set xs \<Longrightarrow> y \<in> set ys \<Longrightarrow> denote (f x) = denote (f y) \<longleftrightarrow> x = y"
  shows "denote (PList (map f xs)) = denote (PList (map f ys)) \<longleftrightarrow> xs = ys"
proof -
  have "list_all2 (\<lambda>x y. denote (f x) = denote (f y)) xs ys \<longleftrightarrow> list_all2 (=) xs ys"
    using assms by (auto simp: list_all2_conv_all_nth)
  then show ?thesis unfolding denote_PList_map by (simp add: list.rel_eq)
qed

section \<open>Payloads\<close>

definition same_payload :: "dataset_payload \<Rightarrow> dataset_payload \<Rightarrow> bool" where
  "same_payload p q \<longleftrightarrow> dp_columns p = dp_columns q \<and> map (map denote) (dp_rows p) = map (map denote) (dp_rows q)"

lemma payload_column_laws:
  "wf_py (payload_column_dump c)" "pattern_ok SAFE_ID_PATTERN (py_field_id c) \<Longrightarrow> canonical_ok (payload_column_dump c)"
  "denote (payload_column_dump c) = denote (payload_column_dump d) \<longleftrightarrow> c = d"
  by (simp_all add: payload_column_dump_def record_scalar_dests) (cases c; cases d; simp add: denote_jobj_iff)

lemma validate_table_canonical: "validate_table p = Inr q \<Longrightarrow> q = p \<and> canonical_ok (payload_projection p)"
  using is_ok_canonical_json_bytes[of "payload_projection p"]
  by (auto simp: validate_table_def Let_def bindE_Inr_iff is_ok_iff split: if_splits)

interpretation payload: hashed_record payload_projection DATASET_PAYLOAD_HASH_DOMAIN dataset_payload_valid same_payload
proof
  show "domain_ok DATASET_PAYLOAD_HASH_DOMAIN" by code_simp
  show "wf_py (payload_projection p)" if "dataset_payload_valid p" for p
    using that json_value_wf
    by (auto simp: payload_projection_def dataset_payload_valid_def payload_column_laws list_all_iff)
  show "canonical_ok (payload_projection p)" if "dataset_payload_valid p" for p
    using that validate_table_canonical by (auto simp: dataset_payload_valid_def is_ok_iff)
  show "denote (payload_projection p) = denote (payload_projection q) \<longleftrightarrow> same_payload p q" for p q
  proof -
    have "denote (PList (map PList xs)) = denote (PList (map PList ys)) \<longleftrightarrow> map (map denote) xs = map (map denote) ys" for xs ys
      unfolding denote_PList_map by (auto simp: list_all2_conv_all_nth list_eq_iff_nth_eq)
    then show ?thesis
      by (simp add: payload_projection_def denote_jobj_iff same_payload_def denote_PList_inj[OF payload_column_laws(3)]
          del: denote.simps(6))
  qed
qed

section \<open>Dataset records\<close>

lemma jopt_bounds_laws:
  fixes x y :: "(pystr \<times> pystr) option"
  defines "f \<equiv> \<lambda>(a, b). jobj [(''first'', PStr a), (''last'', PStr b)]"
  shows "wf_py (jopt f x)"
    "pred_option (\<lambda>(a, b). scalar_str a \<and> scalar_str b) x \<Longrightarrow> canonical_ok (jopt f x)"
    "denote (jopt f x) = denote (jopt f y) \<longleftrightarrow> x = y"
proof -
  show "wf_py (jopt f x)" by (auto simp: wf_jopt f_def)
  show "pred_option (\<lambda>(a, b). scalar_str a \<and> scalar_str b) x \<Longrightarrow> canonical_ok (jopt f x)"
    by (auto simp: canonical_jopt f_def)
  show "denote (jopt f x) = denote (jopt f y) \<longleftrightarrow> x = y"
    by (rule denote_jopt_inj) (auto simp: f_def denote_jobj_iff)
qed

lemma timestamp_scalar: "is_ok (validate_canonical_timestamp s) \<Longrightarrow> scalar_str s"
  by (auto simp: validate_canonical_timestamp_def iso_instant_def scalar_str_def list_all_iff is_scalar_ascii split: if_splits)

lemma validate_record_findings: "is_ok (validate_record r) \<Longrightarrow> dr_findings r = []"
  by (auto simp: validate_record_def Let_def is_ok_bindE split: if_splits)

lemma dataset_record_int_bounds:
  "dataset_record_valid r \<Longrightarrow> \<bar>dr_row_count r\<bar> \<le> MAX_SAFE_INTEGER \<and> \<bar>dr_column_count r\<bar> \<le> MAX_SAFE_INTEGER"
  by (simp add: dataset_record_valid_def MAX_DATASET_ROWS_def MAX_DATASET_COLUMNS_def MAX_SAFE_INTEGER_def)

lemma dataset_record_laws:
  "dataset_record_valid r \<Longrightarrow> wf_py (dataset_record_projection r)"
  "dataset_record_valid r \<Longrightarrow> canonical_ok (dataset_record_projection r)"
proof -
  assume v: "dataset_record_valid r"
  have none: "dr_findings r = []" using v by (simp add: dataset_record_valid_def validate_record_findings)
  show "wf_py (dataset_record_projection r)"
    using v none
    by (simp add: dataset_record_projection_def record_source_laws external_preprocessing_laws record_column_laws
        dataset_semantics_laws jopt_bounds_laws normalization_event_laws runner_identity_dump_laws list_all_iff)
  have "pred_option (\<lambda>(a, b). scalar_str a \<and> scalar_str b) (dr_observation_bounds r)"
    using v by (cases "dr_observation_bounds r") (auto simp: dataset_record_valid_def timestamp_scalar)
  moreover have "list_all record_column_valid (dr_columns r)" "list_all normalization_event_valid (dr_normalization_events r)"
    "pattern_ok SHA256_PATTERN (dr_payload_sha256 r)" "pattern_ok SHA256_PATTERN (dr_raw_source_sha256 r)"
    "dataset_provenance_valid (source_provenance (dr_source r))" "external_preprocessing_valid (dr_external_preprocessing r)"
    "dataset_semantics_valid (dr_semantics r)" "runner_identity_valid (dr_normalizer r)"
    using v by (simp_all add: dataset_record_valid_def)
  ultimately show "canonical_ok (dataset_record_projection r)"
    using dataset_record_int_bounds[OF v] none
    by (simp add: dataset_record_projection_def record_source_laws external_preprocessing_laws record_column_laws
        dataset_semantics_laws jopt_bounds_laws normalization_event_laws runner_identity_dump_laws list_all_iff
        record_scalar_dests MAX_SAFE_INTEGER_def)
qed

lemma dataset_record_denote:
  assumes "dataset_record_valid r" "dataset_record_valid s"
  shows "denote (dataset_record_projection r) = denote (dataset_record_projection s) \<longleftrightarrow> r = s"
proof -
  have none: "dr_findings r = []" "dr_findings s = []"
    using assms by (simp_all add: dataset_record_valid_def validate_record_findings)
  have counts: "denote (PInt (dr_row_count r)) = denote (PInt (dr_row_count s)) \<longleftrightarrow> dr_row_count r = dr_row_count s"
    "denote (PInt (dr_column_count r)) = denote (PInt (dr_column_count s)) \<longleftrightarrow> dr_column_count r = dr_column_count s"
    using assms[THEN dataset_record_int_bounds] by (simp_all add: denote_PInt_iff del: denote.simps)
  have events: "denote (PList (map normalization_event_dump (dr_normalization_events r))) =
      denote (PList (map normalization_event_dump (dr_normalization_events s))) \<longleftrightarrow>
      dr_normalization_events r = dr_normalization_events s"
    using assms by (intro denote_PList_inj_on normalization_event_laws) (auto simp: dataset_record_valid_def list_all_iff)
  have sha: "denote (jobj [(''serialization'', jstr ''dq-table-v1''), (''sha256'', PStr a)]) =
      denote (jobj [(''serialization'', jstr ''dq-table-v1''), (''sha256'', PStr b)]) \<longleftrightarrow> a = b" for a b
    by (simp add: denote_jobj_iff)
  have "denote (dataset_record_projection r) = denote (dataset_record_projection s) \<longleftrightarrow>
    dr_payload_sha256 r = dr_payload_sha256 s \<and> dr_raw_source_sha256 r = dr_raw_source_sha256 s \<and> dr_source r = dr_source s \<and>
    dr_external_preprocessing r = dr_external_preprocessing s \<and> dr_columns r = dr_columns s \<and>
    dr_semantics r = dr_semantics s \<and> dr_row_count r = dr_row_count s \<and> dr_column_count r = dr_column_count s \<and>
    dr_observation_bounds r = dr_observation_bounds s \<and> dr_normalization_events r = dr_normalization_events s \<and>
    dr_normalizer r = dr_normalizer s"
    by (simp add: dataset_record_projection_def denote_jobj_iff record_source_laws external_preprocessing_laws
        denote_PList_inj[OF record_column_laws(3)] dataset_semantics_laws jopt_bounds_laws runner_identity_dump_laws
        counts events sha none del: denote.simps(3,6))
  also have "\<dots> \<longleftrightarrow> r = s" using none by (cases r; cases s) auto
  finally show ?thesis .
qed

interpretation stored_dataset: hashed_record dataset_record_projection DATASET_RECORD_HASH_DOMAIN dataset_record_valid "(=)"
proof
  show "domain_ok DATASET_RECORD_HASH_DOMAIN" by code_simp
qed (simp_all add: dataset_record_laws dataset_record_denote)

section \<open>Operation records\<close>

text \<open>No protocol version the package supports admits an operation source, so no valid record has one.\<close>

lemma operation_record_no_operation_source:
  assumes "operation_record_valid r"
  shows "operation_source (rec_binding r) = None" "rec_compatibility r = []"
proof -
  have "is_ok (validate_compatibility r)"
    using assms by (auto simp: operation_record_valid_def validate_operation_record_def validate_versions_def Let_def
        is_ok_bindE split: if_splits)
  moreover have "rec_protocol_version r \<noteq> lit ''0.5.0''"
    using assms by (auto simp: operation_record_valid_def SUPPORTED_PROTOCOL_VERSIONS_def PROTOCOL_VERSION_def)
  ultimately show "operation_source (rec_binding r) = None" "rec_compatibility r = []"
    by (auto simp: validate_compatibility_def split: option.splits if_splits)
qed

lemma operation_member_laws:
  "wf_py (operation_member_dump m)"
  "operation_member_valid m \<Longrightarrow> canonical_ok (operation_member_dump m)"
  "operation_member_valid m \<Longrightarrow> operation_member_valid n \<Longrightarrow>
     denote (operation_member_dump m) = denote (operation_member_dump n) \<longleftrightarrow> m = n"
proof -
  show "wf_py (operation_member_dump m)" by (simp add: operation_member_dump_def)
  have "scalar_str p" if "relative_member_path_valid p" for p
  proof -
    obtain k where "portable_member_key p = Inr k"
      using \<open>relative_member_path_valid p\<close> by (auto simp: relative_member_path_valid_def relative_member_path_def is_ok_bindE)
    then have "\<forall>c \<in> set p. c < 128" 
      using portable_path_ascii[of p] by (auto simp: portable_member_key_iff portable_path_def portable_segment_lang list_all_iff)
    then show ?thesis by (auto simp: scalar_str_def list_all_iff intro!: is_scalar_ascii)
  qed
  then show "operation_member_valid m \<Longrightarrow> canonical_ok (operation_member_dump m)"
    by (auto simp: operation_member_dump_def operation_member_valid_def record_scalar_dests
        MAX_OPERATION_MEMBER_BYTES_def MAX_SAFE_INTEGER_def)
  assume v: "operation_member_valid m" "operation_member_valid n"
  then have "denote (PInt (me_size_bytes m)) = denote (PInt (me_size_bytes n)) \<longleftrightarrow> me_size_bytes m = me_size_bytes n"
    by (intro denote_PInt_iff) (auto simp: operation_member_valid_def MAX_OPERATION_MEMBER_BYTES_def MAX_SAFE_INTEGER_def)
  then show "denote (operation_member_dump m) = denote (operation_member_dump n) \<longleftrightarrow> m = n"
    by (cases m; cases n) (simp add: operation_member_dump_def denote_jobj_iff del: denote.simps(3))
qed

lemma field_mapping_laws:
  "wf_py (field_mapping_dump m)" "field_mapping_valid m \<Longrightarrow> canonical_ok (field_mapping_dump m)"
  "denote (field_mapping_dump m) = denote (field_mapping_dump n) \<longleftrightarrow> m = n"
proof -
  show "wf_py (field_mapping_dump m)" "field_mapping_valid m \<Longrightarrow> canonical_ok (field_mapping_dump m)"
    by (auto simp: field_mapping_dump_def field_mapping_valid_def record_scalar_dests)
  show "denote (field_mapping_dump m) = denote (field_mapping_dump n) \<longleftrightarrow> m = n"
    by (cases m; cases n) (simp add: field_mapping_dump_def denote_jobj_iff)
qed

lemma binding_source_laws:
  "wf_py (binding_source_dump b)" "binding_source_valid b \<Longrightarrow> canonical_ok (binding_source_dump b)"
  "denote (binding_source_dump b) = denote (binding_source_dump c) \<longleftrightarrow> b = c"
proof -
  show "wf_py (binding_source_dump b)" by (simp add: binding_source_dump_def field_mapping_laws list_all_iff)
  show "binding_source_valid b \<Longrightarrow> canonical_ok (binding_source_dump b)"
    by (auto simp: binding_source_dump_def binding_source_valid_def field_mapping_laws list_all_iff)
  have "(if k = DatasetKind then ''dataset'' else ''operation'') = (if l = DatasetKind then ''dataset'' else ''operation'') \<longleftrightarrow> k = l" for k l
    by (cases k; cases l) simp_all
  then show "denote (binding_source_dump b) = denote (binding_source_dump c) \<longleftrightarrow> b = c"
    by (cases b; cases c) (simp add: binding_source_dump_def denote_jobj_iff denote_PList_inj[OF field_mapping_laws(3)] del: denote.simps(6))
qed

definition same_binding :: "operation_binding \<Rightarrow> operation_binding \<Rightarrow> bool" where
  "same_binding a b \<longleftrightarrow> denote (PDict (ob_literals a)) = denote (PDict (ob_literals b)) \<and> ob_source a = ob_source b"

lemma operation_binding_laws:
  "operation_binding_valid b \<Longrightarrow> wf_py (operation_binding_projection b)"
  "operation_binding_valid b \<Longrightarrow> canonical_ok (operation_binding_projection b)"
  "denote (operation_binding_projection b) = denote (operation_binding_projection c) \<longleftrightarrow> same_binding b c"
proof -
  show "wf_py (operation_binding_projection b)" if "operation_binding_valid b"
    using that json_value_wf[of "PDict (ob_literals b)"]
    by (auto simp: operation_binding_projection_def operation_binding_valid_def set_present binding_source_laws
        simp del: wf_py.simps(4) json_value.simps)
  show "canonical_ok (operation_binding_projection b)" if "operation_binding_valid b"
  proof -
    have "canonical_ok (PDict (ob_literals b))"
      using that unfolding is_ok_canonical_json_bytes[symmetric]
      by (auto simp: operation_binding_valid_def validate_operation_binding_def is_ok_bindE split: if_splits)
    then show ?thesis
      using that by (auto simp: operation_binding_projection_def operation_binding_valid_def set_present binding_source_laws
          simp del: canonical_ok.simps(8))
  qed
  show "denote (operation_binding_projection b) = denote (operation_binding_projection c) \<longleftrightarrow> same_binding b c" (is "?L \<longleftrightarrow> _")
  proof
    assume ?L
    note look = denote_jobj_lookup[OF this[unfolded operation_binding_projection_def]]
    have "ob_source b = ob_source c"
      using look[of "''source''"] by (cases "ob_source b"; cases "ob_source c") (auto simp: binding_source_laws)
    then show "same_binding b c" using look[of "''literals''"] by (simp add: same_binding_def del: denote.simps)
  next
    assume "same_binding b c"
    then show ?L by (simp add: operation_binding_projection_def same_binding_def denote_jobj_iff del: denote.simps)
  qed
qed

definition same_operation :: "operation_record \<Rightarrow> operation_record \<Rightarrow> bool" where
  "same_operation r s \<longleftrightarrow>
     same_binding (rec_binding r) (rec_binding s) \<and> r\<lparr>rec_binding := rec_binding s\<rparr> = s"

lemma operation_record_laws:
  assumes "operation_record_valid r"
  shows "wf_py (operation_record_projection r)" "canonical_ok (operation_record_projection r)"
proof -
  have none: "rec_compatibility r = []" using assms by (rule operation_record_no_operation_source)
  have v: "list_all operation_member_valid (rec_members r)"
    "list_all runner_identity_valid (rec_renderers r)" "operation_binding_valid (rec_binding r)"
    "component_ref_valid (rec_component r)" "runner_identity_valid (rec_runner r)"
    "pattern_ok SHA256_PATTERN (rec_operation_hash r)" "pattern_ok SHA256_PATTERN (rec_manifest_sha256 r)"
    "rec_protocol_version r \<in> set SUPPORTED_PROTOCOL_VERSIONS"
    using assms unfolding operation_record_valid_def by blast+
  show "wf_py (operation_record_projection r)"
    using v none by (simp add: operation_record_projection_def component_ref_dump_laws operation_member_laws
        runner_identity_dump_laws operation_binding_laws list_all_iff)
  have "scalar_str (rec_protocol_version r)"
    using v(8) by (auto simp: SUPPORTED_PROTOCOL_VERSIONS_def PROTOCOL_VERSION_def)
  then show "canonical_ok (operation_record_projection r)"
    using v none by (auto simp: operation_record_projection_def component_ref_dump_laws operation_member_laws
        runner_identity_dump_laws operation_binding_laws list_all_iff record_scalar_dests MAX_SAFE_INTEGER_def)
qed

lemma operation_record_denote:
  assumes "operation_record_valid r" "operation_record_valid s"
  shows "denote (operation_record_projection r) = denote (operation_record_projection s) \<longleftrightarrow> same_operation r s"
proof -
  have none: "rec_compatibility r = []" "rec_compatibility s = []"
    using assms by (simp_all add: operation_record_no_operation_source)
  have members: "denote (PList (map operation_member_dump (rec_members r))) =
      denote (PList (map operation_member_dump (rec_members s))) \<longleftrightarrow> rec_members r = rec_members s"
    using assms by (intro denote_PList_inj_on operation_member_laws) (auto simp: operation_record_valid_def list_all_iff)
  have "denote (operation_record_projection r) = denote (operation_record_projection s) \<longleftrightarrow>
    rec_protocol_version r = rec_protocol_version s \<and> rec_component r = rec_component s \<and>
    rec_operation_hash r = rec_operation_hash s \<and> rec_manifest_sha256 r = rec_manifest_sha256 s \<and>
    rec_members r = rec_members s \<and> rec_runner r = rec_runner s \<and> rec_renderers r = rec_renderers s \<and>
    same_binding (rec_binding r) (rec_binding s)"
    by (simp add: operation_record_projection_def denote_jobj_iff component_ref_dump_laws members runner_identity_dump_laws
        denote_PList_inj[OF runner_identity_dump_laws(3)] operation_binding_laws none del: denote.simps(6))
  also have "\<dots> \<longleftrightarrow> same_operation r s" using none by (cases r; cases s) (auto simp: same_operation_def)
  finally show ?thesis .
qed

interpretation stored_operation: hashed_record operation_record_projection OPERATION_RECORD_HASH_DOMAIN
  operation_record_valid same_operation
proof
  show "domain_ok OPERATION_RECORD_HASH_DOMAIN" by code_simp
qed (simp_all add: operation_record_laws operation_record_denote)

section \<open>References\<close>

lemma make_reference_Inr:
  "make_reference k d = Inr s \<longleftrightarrow> length d = 64 \<and> (\<forall>c \<in> set d. is_hex c) \<and> s = lit (reference_prefix k @ ''1:'') @ d"
  by (auto simp: make_reference_def validate_sha256_def SHA256_PATTERN_def fullmatch_iff bindE_Inr_iff)

lemma reference_language:
  "fullmatch (REFERENCE_PATTERN k) s \<longleftrightarrow>
     (\<exists>v d. s = lit (reference_prefix k) @ v @ 58 # d \<and> 1 \<le> length v \<and> length v \<le> 3 \<and> (\<forall>c \<in> set v. is_digit c) \<and>
        length d = 64 \<and> (\<forall>c \<in> set d. is_hex c))"
proof -
  have version: "v \<in> lang (Between 1 3 (Cls is_digit)) \<longleftrightarrow> 1 \<le> length v \<and> length v \<le> 3 \<and> (\<forall>c \<in> set v. is_digit c)" for v
  proof
    assume "v \<in> lang (Between 1 3 (Cls is_digit))"
    then show "1 \<le> length v \<and> length v \<le> 3 \<and> (\<forall>c \<in> set v. is_digit c)" by (fastforce simp: Between_def)
  next
    assume "1 \<le> length v \<and> length v \<le> 3 \<and> (\<forall>c \<in> set v. is_digit c)"
    then obtain a w where "v = [a] @ w" "length w \<le> 2" "is_digit a" "\<forall>c \<in> set w. is_digit c" by (cases v) auto
    then show "v \<in> lang (Between 1 3 (Cls is_digit))"
      unfolding Between_def lang.simps by (intro CollectI exI[of _ "[a]"] exI[of _ w]) simp
  qed
  show ?thesis
    unfolding REFERENCE_PATTERN_def fullmatch_iff Cats.simps
    using version by (fastforce simp del: One_nat_def)
qed

lemma length_reference_prefix [simp]: "length (reference_prefix k) = 6"
  by (cases k) simp_all

lemma parse_reference_Inr:
  "parse_reference k s = Inr p \<longleftrightarrow>
     (\<exists>v d. s = lit (reference_prefix k) @ v @ 58 # d \<and> 1 \<le> length v \<and> length v \<le> 3 \<and> (\<forall>c \<in> set v. is_digit c) \<and>
        length d = 64 \<and> (\<forall>c \<in> set d. is_hex c) \<and> p = \<lparr>pr_kind = k, pr_version_token = v, pr_digest = d\<rparr>)"
proof -
  have "take (length s - 71) (drop 6 s) = v \<and> drop (length s - 64) s = d"
    if "s = lit (reference_prefix k) @ v @ 58 # d" "length d = 64" for v d
    using that by simp
  then show ?thesis unfolding parse_reference_def by (auto simp: reference_language split: if_splits)
qed

lemma reference_prefix_other: "lit (reference_prefix j) @ x = lit (reference_prefix k) @ y \<Longrightarrow> j = k"
  by (cases j; cases k) (simp_all add: lit_def)

lemma reference_iff:
  "make_reference k d = Inr s \<longleftrightarrow> parse_reference k s = Inr \<lparr>pr_kind = k, pr_version_token = lit ''1'', pr_digest = d\<rparr>"
  by (auto simp: make_reference_Inr parse_reference_Inr lit_def is_digit_def)

section \<open>Typed tables\<close>

fun cell_typed :: "data_type \<Rightarrow> pyval \<Rightarrow> bool" where
  "cell_typed T_BOOLEAN v = (\<exists>b. v = PBool b)"
| "cell_typed T_INTEGER v = (\<exists>i. v = PInt i \<and> \<bar>i\<bar> \<le> MAX_SAFE_INTEGER)"
| "cell_typed T_NUMBER v =
     ((\<exists>i. v = PInt i \<and> \<bar>i\<bar> \<le> MAX_SAFE_INTEGER) \<or>
      (\<exists>x. v = PFloat x \<and> f64_finite x \<and> (f64_is_integer x \<longrightarrow> \<bar>f64_units x\<bar> \<le> MAX_SAFE_INTEGER * f64_one)))"
| "cell_typed T_STRING v = (\<exists>s. v = PStr s \<and> utf8_within 0 MAX_CELL_BYTES s)"
| "cell_typed T_TIMESTAMP v =
     (\<exists>s. v = PStr s \<and> utf8_within 0 MAX_CELL_BYTES s \<and> is_ok (validate_canonical_timestamp s))"

definition row_typed :: "payload_column list \<Rightarrow> pyval list \<Rightarrow> bool" where
  "row_typed columns row \<longleftrightarrow> list_all2 (\<lambda>v c. v = PNone \<or> cell_typed (py_data_type c) v) row columns"

lemma utf8_within_name: "is_ok (utf8_bytes name lo hi s) \<longleftrightarrow> utf8_within lo hi s"
  by (simp add: utf8_within_iff is_ok_iff utf8_bytes_Inr)

lemma typed_cell_iff: "is_ok (validate_cell t v) \<longleftrightarrow> v = PNone \<or> cell_typed t v"
proof -
  have str: "is_ok (bindE (utf8_bytes n lo hi s) (\<lambda>_. f)) \<longleftrightarrow> utf8_within lo hi s \<and> is_ok f" for n lo hi s and f :: "py_exc + unit"
    unfolding utf8_within_name[of n, symmetric] by (cases "utf8_bytes n lo hi s") simp_all
  show ?thesis
    by (cases t; cases v)
      (simp_all add: validate_cell_def typed_cell_def integer_cell_def number_cell_def str linorder_not_le not_less)
qed

lemma validate_row_iff: "is_ok (validate_row cs row) \<longleftrightarrow> row_typed cs row"
proof -
  have "is_ok (mapE (\<lambda>(v, c). validate_cell (py_data_type c) v) (zip row cs)) \<longleftrightarrow>
      (\<forall>(v, c) \<in> set (zip row cs). v = PNone \<or> cell_typed (py_data_type c) v)"
    by (auto simp: is_ok_mapE typed_cell_iff)
  then show ?thesis
    by (auto simp: validate_row_def row_typed_def list_all2_iff is_ok_bindE) (auto simp: is_ok_iff)
qed

lemma typed_canonical: "v = PNone \<or> cell_typed t v \<Longrightarrow> canonical_ok v"
  by (cases t) (auto simp: utf8_within_scalar)

lemma validate_table_iff:
  assumes "list_all (\<lambda>c. pattern_ok SAFE_ID_PATTERN (py_field_id c)) (dp_columns p)"
  shows "validate_table p = Inr q \<longleftrightarrow>
    q = p \<and> distinct (map py_field_id (dp_columns p)) \<and> (\<forall>row \<in> set (dp_rows p). row_typed (dp_columns p) row)"
proof -
  have "canonical_ok (payload_projection p)" if typed: "\<forall>row \<in> set (dp_rows p). row_typed (dp_columns p) row"
  proof -
    have "canonical_ok v" if mem: "row \<in> set (dp_rows p)" "v \<in> set row" for row v
    proof -
      obtain i where i: "i < length row" "v = row ! i" using mem(2) by (metis in_set_conv_nth)
      then have "v = PNone \<or> cell_typed (py_data_type (dp_columns p ! i)) v"
        using typed mem(1) by (auto simp: row_typed_def list_all2_conv_all_nth)
      then show ?thesis by (rule typed_canonical)
    qed
    then show ?thesis
      using assms by (simp add: payload_projection_def payload_column_laws list_all_iff MAX_SAFE_INTEGER_def)
  qed
  then have bytes: "is_ok (canonical_json_bytes (payload_projection p))" if "\<forall>row \<in> set (dp_rows p). row_typed (dp_columns p) row"
    using that by (simp add: is_ok_canonical_json_bytes)
  have rows: "is_ok (mapE (validate_row (dp_columns p)) (dp_rows p)) \<longleftrightarrow> (\<forall>row \<in> set (dp_rows p). row_typed (dp_columns p) row)"
    by (simp add: is_ok_mapE validate_row_iff)
  have "validate_table p = Inr q \<longleftrightarrow> q = p \<and> distinct (map py_field_id (dp_columns p)) \<and>
      is_ok (mapE (validate_row (dp_columns p)) (dp_rows p)) \<and> is_ok (canonical_json_bytes (payload_projection p))"
    unfolding validate_table_def Let_def card_set_eq_length by (auto simp: bindE_Inr_iff is_ok_iff)
  then show ?thesis using rows bytes by blast
qed

section \<open>Properties\<close>

text \<open>
  A content reference and its digest determine each other: building a version-1
  reference from a digest and parsing it back are inverse, for datasets and operations alike, and a reference of
  one kind never parses as the other kind.
\<close>

theorem reference_round_trip:
  "(make_reference k d = Inr s \<longleftrightarrow> parse_reference k s = Inr \<lparr>pr_kind = k, pr_version_token = lit ''1'', pr_digest = d\<rparr>) \<and>
   (is_ok (parse_reference j s) \<longrightarrow> is_ok (parse_reference k s) \<longrightarrow> j = k)"
  using reference_iff reference_prefix_other by (auto simp: is_ok_iff parse_reference_Inr)

theorem reference_round_trip_witness:
  "is_ok (parse_reference DatasetKind (lit ''dqds:v1:'' @ replicate 64 97)) \<and>
   \<not> is_ok (parse_reference OperationKind (lit ''dqds:v1:'' @ replicate 64 97))"
proof -
  have "make_reference DatasetKind (replicate 64 97) = Inr (lit ''dqds:v1:'' @ replicate 64 97)"
    by (simp add: make_reference_Inr is_hex_def)
  then have "is_ok (parse_reference DatasetKind (lit ''dqds:v1:'' @ replicate 64 97))"
    using reference_round_trip[of DatasetKind "replicate 64 97" _ DatasetKind] by simp
  then show ?thesis
    using reference_round_trip[of DatasetKind "replicate 64 97" "lit ''dqds:v1:'' @ replicate 64 97" OperationKind] by auto
qed

text \<open>
  On columns with well-formed ids, table validation accepts exactly the tables
  with distinct field ids whose rows have one cell per column, each cell missing or of the declared type and within
  the canonical bounds; the final canonical-bytes check never rejects such a table.
\<close>

theorem payload_validation_exact:
  assumes "list_all (\<lambda>c. pattern_ok SAFE_ID_PATTERN (py_field_id c)) (dp_columns p)"
  shows "validate_table p = Inr q \<longleftrightarrow>
    q = p \<and> distinct (map py_field_id (dp_columns p)) \<and> (\<forall>row \<in> set (dp_rows p). row_typed (dp_columns p) row)"
  by (rule validate_table_iff[OF assms])

definition demo_payload :: dataset_payload where
  "demo_payload = \<lparr>dp_columns = [\<lparr>py_field_id = lit ''x'', py_data_type = T_NUMBER\<rparr>], dp_rows = [[PInt 7], [PNone]]\<rparr>"

lemma demo_id: "pattern_ok SAFE_ID_PATTERN (lit ''x'')"
  by (simp add: safe_id_ok_iff lit_def is_lower_def id_tail_char_def)

theorem payload_validation_exact_witness:
  "validate_table demo_payload = Inr demo_payload \<and>
   \<not> is_ok (validate_table (demo_payload\<lparr>dp_rows := [[PBool True]]\<rparr>))"
proof -
  let ?bad = "demo_payload\<lparr>dp_rows := [[PBool True]]\<rparr>"
  have ids: "list_all (\<lambda>c. pattern_ok SAFE_ID_PATTERN (py_field_id c)) (dp_columns demo_payload)"
    "list_all (\<lambda>c. pattern_ok SAFE_ID_PATTERN (py_field_id c)) (dp_columns ?bad)"
    using demo_id by (simp_all add: demo_payload_def)
  have "validate_table demo_payload = Inr demo_payload"
    unfolding payload_validation_exact[OF ids(1)] by (simp add: demo_payload_def row_typed_def MAX_SAFE_INTEGER_def)
  moreover have "validate_table ?bad \<noteq> Inr q" for q
    unfolding payload_validation_exact[OF ids(2)] by (simp add: demo_payload_def row_typed_def)
  ultimately show ?thesis by (auto simp: is_ok_iff)
qed

lemma dataset_reference_binds:
  assumes "dataset_record_valid r" "dataset_record_valid s" "dataset_payload_valid p" "dataset_payload_valid q"
    and "validate_payload r p = Inr r" "validate_payload s q = Inr s"
  shows "(\<exists>d. dataset_record_reference r = Inr (lit ''dqds:v1:'' @ d)) \<and>
    (dataset_record_reference r = dataset_record_reference s \<longrightarrow>
       r = s \<and> same_payload p q \<or>
       sha256_collision (payload_of (dataset_record_projection r) DATASET_RECORD_HASH_DOMAIN)
         (payload_of (dataset_record_projection s) DATASET_RECORD_HASH_DOMAIN) \<or>
       sha256_collision (payload_of (payload_projection p) DATASET_PAYLOAD_HASH_DOMAIN)
         (payload_of (payload_projection q) DATASET_PAYLOAD_HASH_DOMAIN))"
proof (intro conjI impI)
  have ref: "\<exists>d. dataset_record_digest x = Inr d \<and> dataset_record_reference x = Inr (lit ''dqds:v1:'' @ d)"
    if x: "dataset_record_valid x" for x
  proof -
    obtain d where d: "dataset_record_digest x = Inr d"
      using stored_dataset.hash_total[OF x] by (auto simp: dataset_record_digest_def)
    then have "length d = 64 \<and> (\<forall>c \<in> set d. is_hex c)"
      unfolding dataset_record_digest_def by (rule stored_dataset.hash_hex)
    then show ?thesis using d by (auto simp: dataset_record_reference_def make_reference_Inr)
  qed
  then show "\<exists>d. dataset_record_reference r = Inr (lit ''dqds:v1:'' @ d)" using assms(1) by blast
  assume "dataset_record_reference r = dataset_record_reference s"
  then have "dataset_record_digest r = dataset_record_digest s" using ref[OF assms(1)] ref[OF assms(2)] by auto
  then have "r = s \<or> sha256_collision (payload_of (dataset_record_projection r) DATASET_RECORD_HASH_DOMAIN)
      (payload_of (dataset_record_projection s) DATASET_RECORD_HASH_DOMAIN)"
    unfolding dataset_record_digest_def by (rule stored_dataset.hash_binding[OF assms(1,2)])
  moreover have "same_payload p q \<or> sha256_collision (payload_of (payload_projection p) DATASET_PAYLOAD_HASH_DOMAIN)
      (payload_of (payload_projection q) DATASET_PAYLOAD_HASH_DOMAIN)" if "r = s"
  proof (rule payload.hash_binding[OF assms(3,4)])
    have "payload_digest p = Inr (dr_payload_sha256 r)" "payload_digest q = Inr (dr_payload_sha256 s)"
      using assms(5,6) by (auto simp: validate_payload_def bindE_Inr_iff split: if_splits)
    then show "canonical_hash (payload_projection p) DATASET_PAYLOAD_HASH_DOMAIN =
        canonical_hash (payload_projection q) DATASET_PAYLOAD_HASH_DOMAIN"
      using that by (simp add: payload_digest_def)
  qed
  ultimately show "r = s \<and> same_payload p q \<or>
       sha256_collision (payload_of (dataset_record_projection r) DATASET_RECORD_HASH_DOMAIN)
         (payload_of (dataset_record_projection s) DATASET_RECORD_HASH_DOMAIN) \<or>
       sha256_collision (payload_of (payload_projection p) DATASET_PAYLOAD_HASH_DOMAIN)
         (payload_of (payload_projection q) DATASET_PAYLOAD_HASH_DOMAIN)" by blast
qed

text \<open>
  C24 (dataset_reference_identifies): A dataset reference identifies the record and the table behind it: every
  valid record has a reference of the dataset kind, and two valid records with the same reference are equal, as are
  the values of any payloads they accept, unless two different inputs collide under SHA-256.
\<close>

theorem dataset_reference_identifies:
  assumes "dataset_record_valid r" "dataset_record_valid s" "dataset_payload_valid p" "dataset_payload_valid q"
    and "validate_payload r p = Inr r" "validate_payload s q = Inr s"
  shows "(\<exists>d. dataset_record_reference r = Inr (lit ''dqds:v1:'' @ d)) \<and>
    (dataset_record_reference r = dataset_record_reference s \<longrightarrow>
       r = s \<and> same_payload p q \<or>
       sha256_collision (payload_of (dataset_record_projection r) DATASET_RECORD_HASH_DOMAIN)
         (payload_of (dataset_record_projection s) DATASET_RECORD_HASH_DOMAIN) \<or>
       sha256_collision (payload_of (payload_projection p) DATASET_PAYLOAD_HASH_DOMAIN)
         (payload_of (payload_projection q) DATASET_PAYLOAD_HASH_DOMAIN))"
  using dataset_reference_binds[OF assms] .

definition demo_dataset :: "pystr \<Rightarrow> dataset_record" where
  "demo_dataset h =
     \<lparr>dr_payload_sha256 = h, dr_raw_source_sha256 = h,
      dr_source = InlineRows
        \<lparr>source_kind = SYNTHETIC, interpretation_method = CALLER_STRUCTURED, verification_status = PS_UNVERIFIED,
         p_label = lit ''l'', p_references = [], content_sha256 = None, assumptions = []\<rparr>,
      dr_external_preprocessing = UnknownPreprocessing,
      dr_columns = [\<lparr>rc_source_name = lit ''X'', rc_field_id = lit ''x'', rc_data_type = T_NUMBER, rc_role = R_VALUE,
        rc_semantic_port = None\<rparr>],
      dr_semantics = \<lparr>sem_instrument = None, sem_currency = None, sem_frequency = None, sem_timezone = None,
        sem_price_kind = None, sem_adjustment_policy = None, sem_distribution_policy = None, sem_calendar = None,
        sem_partial_period_policy = None\<rparr>,
      dr_row_count = 2, dr_column_count = 1, dr_observation_bounds = None, dr_normalization_events = [], dr_findings = [],
      dr_normalizer = \<lparr>ri_name = lit ''x'', ri_version = lit ''1.0.0''\<rparr>\<rparr>"

lemma utf8_within_lit:
  assumes "\<forall>c \<in> set (lit s). c < 128"
  shows "utf8_within lo hi (lit s) \<longleftrightarrow> lo \<le> length s \<and> length s \<le> hi"
proof -
  have "utf8_encode t = Some (map byte_of t)" if "\<forall>c \<in> set t. c < 128" for t
    using that by (induction t) (auto simp: utf8_char_def)
  then show ?thesis using assms by (simp add: utf8_within_iff)
qed

lemma demo_payload_valid: "dataset_payload_valid demo_payload"
  using validate_table_iff[of demo_payload demo_payload] demo_id
  by (simp add: dataset_payload_valid_def demo_payload_def row_typed_def MAX_SAFE_INTEGER_def MAX_DATASET_COLUMNS_def
      MAX_DATASET_ROWS_def is_ok_iff)

lemma demo_semver: "validate_semver (lit ''1.0.0'') = Inr (lit ''1.0.0'')" "pattern_ok SEMVER_PATTERN (lit ''1.0.0'')"
proof -
  have m: "fullmatch SEMVER_PATTERN (lit ''1.0.0'')" by (simp add: semver_match)
  then show "pattern_ok SEMVER_PATTERN (lit ''1.0.0'')" by (simp add: pattern_ok_def)
  have "is_ok (utf8_bytes ''version'' 1 128 (lit ''1.0.0''))" unfolding utf8_within_name
    by (subst utf8_within_lit) (simp_all add: lit_def)
  then show "validate_semver (lit ''1.0.0'') = Inr (lit ''1.0.0'')"
    using m by (auto simp: validate_semver_def is_ok_iff)
qed

lemma demo_dataset_valid:
  assumes "pattern_ok SHA256_PATTERN h"
  shows "dataset_record_valid (demo_dataset h)"
proof -
  have "utf8_within 1 240 (lit ''l'')" "utf8_within 1 240 (lit ''X'')"
    by (subst utf8_within_lit; simp add: lit_def)+
  then show ?thesis
    using assms demo_id demo_semver
    by (simp add: dataset_record_valid_def demo_dataset_def dataset_provenance_valid_def record_column_valid_def
        validate_column_def dataset_semantics_valid_def runner_identity_valid_def validate_record_def MAX_DATASET_COLUMNS_def
        MAX_DATASET_ROWS_def Let_def)
qed

lemma demo_dataset_accepts:
  assumes "payload_digest demo_payload = Inr h"
  shows "validate_payload (demo_dataset h) demo_payload = Inr (demo_dataset h)"
  using assms by (simp add: validate_payload_def demo_dataset_def demo_payload_def validate_bounds_def)

lemma demo_digest: "\<exists>h. payload_digest demo_payload = Inr h \<and> pattern_ok SHA256_PATTERN h"
  using payload.hash_total[OF demo_payload_valid] payload.hash_hex unfolding payload_digest_def sha256_ok_iff by blast

theorem dataset_reference_identifies_witness:
  "\<exists>h d. payload_digest demo_payload = Inr h \<and> validate_payload (demo_dataset h) demo_payload = Inr (demo_dataset h) \<and>
     dataset_record_reference (demo_dataset h) = Inr (lit ''dqds:v1:'' @ d)"
proof -
  obtain h where h: "payload_digest demo_payload = Inr h" "pattern_ok SHA256_PATTERN h" using demo_digest by blast
  note v = demo_dataset_valid[OF h(2)] and a = demo_dataset_accepts[OF h(1)]
  show ?thesis
    using dataset_reference_identifies[OF v v demo_payload_valid demo_payload_valid a a] h(1) a by blast
qed

end
