(* ===== verification/Host_Failures.thy ===== *)
theory Host_Failures
  imports Record_Identity
begin

text \<open>
  \<^verbatim>\<open>shared/host_failures.py\<close>: the closed vocabulary of host failures with their fixed messages and retry policy, the
  closed schema of the details each code may carry, the success and failure envelopes, and the projection of a
  runner's operation error to a host failure, which must never let text of the component through.
\<close>

section \<open>Vocabulary\<close>

datatype host_outcome = HO_NEEDS_INFORMATION | HO_REFUSED | HO_FAILED

datatype host_failure_code =
    HF_INVALID_TOOL_REQUEST | HF_UNSUPPORTED_HOST_SCHEMA | HF_UNSUPPORTED_PROTOCOL_VERSION | HF_UNSUPPORTED_REFERENCE_VERSION
  | HF_COMPONENT_NOT_FOUND | HF_COMPONENT_IDENTITY_MISMATCH | HF_MISSING_CONVENTION | HF_INCOMPATIBLE_PORTS
  | HF_UNSUPPORTED_BINDING | HF_MULTIPLE_NON_LITERAL_SOURCES | HF_INVALID_DATASET | HF_UNSUPPORTED_DATA_FORMAT
  | HF_INPUT_ROOT_DENIED | HF_UNSAFE_INPUT_PATH | HF_INPUT_LIMIT_EXCEEDED | HF_INVALID_FIELD_MAPPING
  | HF_REFERENCE_NOT_FOUND | HF_REFERENCE_SCOPE_DENIED | HF_RECORD_CORRUPT | HF_CACHE_FULL
  | HF_RECORD_PUBLICATION_FAILED | HF_WORKER_TIMEOUT | HF_WORKER_CANCELLED | HF_WORKER_CRASHED
  | HF_WORKER_CAPACITY | HF_WORKER_RESOURCE_LIMIT | HF_COMPONENT_REFUSED | HF_COMPONENT_FAILED
  | HF_INVALID_COMPONENT_INPUT | HF_OUTPUT_VALIDATION_FAILED | HF_COMPONENT_CONTRACT_ERROR | HF_ARTIFACT_PUBLICATION_FAILED
  | HF_RESULT_LIMIT_EXCEEDED | HF_ARTIFACT_NOT_FOUND | HF_INTERNAL_FAILURE

fun host_code_value :: "host_failure_code \<Rightarrow> string" where
  "host_code_value HF_INVALID_TOOL_REQUEST = ''invalid_tool_request''"
| "host_code_value HF_UNSUPPORTED_HOST_SCHEMA = ''unsupported_host_schema''"
| "host_code_value HF_UNSUPPORTED_PROTOCOL_VERSION = ''unsupported_protocol_version''"
| "host_code_value HF_UNSUPPORTED_REFERENCE_VERSION = ''unsupported_reference_version''"
| "host_code_value HF_COMPONENT_NOT_FOUND = ''component_not_found''"
| "host_code_value HF_COMPONENT_IDENTITY_MISMATCH = ''component_identity_mismatch''"
| "host_code_value HF_MISSING_CONVENTION = ''missing_convention''"
| "host_code_value HF_INCOMPATIBLE_PORTS = ''incompatible_ports''"
| "host_code_value HF_UNSUPPORTED_BINDING = ''unsupported_binding''"
| "host_code_value HF_MULTIPLE_NON_LITERAL_SOURCES = ''multiple_non_literal_sources''"
| "host_code_value HF_INVALID_DATASET = ''invalid_dataset''"
| "host_code_value HF_UNSUPPORTED_DATA_FORMAT = ''unsupported_data_format''"
| "host_code_value HF_INPUT_ROOT_DENIED = ''input_root_denied''"
| "host_code_value HF_UNSAFE_INPUT_PATH = ''unsafe_input_path''"
| "host_code_value HF_INPUT_LIMIT_EXCEEDED = ''input_limit_exceeded''"
| "host_code_value HF_INVALID_FIELD_MAPPING = ''invalid_field_mapping''"
| "host_code_value HF_REFERENCE_NOT_FOUND = ''reference_not_found''"
| "host_code_value HF_REFERENCE_SCOPE_DENIED = ''reference_scope_denied''"
| "host_code_value HF_RECORD_CORRUPT = ''record_corrupt''"
| "host_code_value HF_CACHE_FULL = ''cache_full''"
| "host_code_value HF_RECORD_PUBLICATION_FAILED = ''record_publication_failed''"
| "host_code_value HF_WORKER_TIMEOUT = ''worker_timeout''"
| "host_code_value HF_WORKER_CANCELLED = ''worker_cancelled''"
| "host_code_value HF_WORKER_CRASHED = ''worker_crashed''"
| "host_code_value HF_WORKER_CAPACITY = ''worker_capacity''"
| "host_code_value HF_WORKER_RESOURCE_LIMIT = ''worker_resource_limit''"
| "host_code_value HF_COMPONENT_REFUSED = ''component_refused''"
| "host_code_value HF_COMPONENT_FAILED = ''component_failed''"
| "host_code_value HF_INVALID_COMPONENT_INPUT = ''invalid_component_input''"
| "host_code_value HF_OUTPUT_VALIDATION_FAILED = ''output_validation_failed''"
| "host_code_value HF_COMPONENT_CONTRACT_ERROR = ''component_contract_error''"
| "host_code_value HF_ARTIFACT_PUBLICATION_FAILED = ''artifact_publication_failed''"
| "host_code_value HF_RESULT_LIMIT_EXCEEDED = ''result_limit_exceeded''"
| "host_code_value HF_ARTIFACT_NOT_FOUND = ''artifact_not_found''"
| "host_code_value HF_INTERNAL_FAILURE = ''internal_failure''"

datatype trust_label =
    TL_CONTRACT_METADATA_ONLY | TL_INSTALLED_SUBJECT_INSPECTED | TL_UNVERIFIED_CALLER_DATA
  | TL_STRUCTURAL_COMPATIBILITY_ONLY | TL_UNMANAGED_EXECUTION | TL_NO_VERIFIED_RESULT

fun TRUST_STATEMENTS :: "trust_label \<Rightarrow> pystr" where
  "TRUST_STATEMENTS TL_CONTRACT_METADATA_ONLY =
     lit ''Contract-only catalog metadata; no component was imported or executed.''"
| "TRUST_STATEMENTS TL_INSTALLED_SUBJECT_INSPECTED =
     lit ''Installed component identity and schema were inspected; no calculation was executed.''"
| "TRUST_STATEMENTS TL_UNVERIFIED_CALLER_DATA =
     lit ''Registered caller-supplied data is unverified and unauthenticated.''"
| "TRUST_STATEMENTS TL_STRUCTURAL_COMPATIBILITY_ONLY =
     lit ''Semantic-port compatibility is structural only; it neither transfers data nor authorizes execution.''"
| "TRUST_STATEMENTS TL_UNMANAGED_EXECUTION =
     lit ''Unsigned host-reconciled record for an unmanaged local operation; digests bind its request, selected subject, result, and declared artifact bytes. Data authenticity, financial approval, correctness, and independent execution are not attested.''"
| "TRUST_STATEMENTS TL_NO_VERIFIED_RESULT =
     lit ''No dataset, component result, or digest-checked artifact was returned.''"

record host_failure_spec =
  sp_outcome :: host_outcome
  sp_message :: pystr
  sp_retry_allowed :: bool
  sp_retry_condition :: pystr

fun spec :: "host_outcome \<Rightarrow> pystr \<Rightarrow> bool \<Rightarrow> pystr \<Rightarrow> host_failure_spec" where
  "spec outcome message retry condition =
     \<lparr>sp_outcome = outcome, sp_message = message, sp_retry_allowed = retry, sp_retry_condition = condition\<rparr>"

fun HOST_FAILURE_SPECS :: "host_failure_code \<Rightarrow> host_failure_spec" where
  "HOST_FAILURE_SPECS HF_INVALID_TOOL_REQUEST = spec HO_REFUSED
     (lit ''The request does not satisfy the closed tool schema.'') False
     (lit ''Correct the request before submitting a new call.'')"
| "HOST_FAILURE_SPECS HF_UNSUPPORTED_HOST_SCHEMA = spec HO_REFUSED
     (lit ''The requested host schema version is not supported.'') False
     (lit ''Use a host schema version declared by this server.'')"
| "HOST_FAILURE_SPECS HF_UNSUPPORTED_PROTOCOL_VERSION = spec HO_REFUSED
     (lit ''The requested Defined Quant protocol version is not supported.'') False
     (lit ''Use a protocol version declared compatible by the installed release.'')"
| "HOST_FAILURE_SPECS HF_UNSUPPORTED_REFERENCE_VERSION = spec HO_REFUSED
     (lit ''The requested content-addressed reference version is not supported.'') False
     (lit ''Use a reference version declared by this server.'')"
| "HOST_FAILURE_SPECS HF_COMPONENT_NOT_FOUND = spec HO_FAILED
     (lit ''The requested component is not available in the active catalog.'') False
     (lit ''Search the active catalog and submit an available component ID.'')"
| "HOST_FAILURE_SPECS HF_COMPONENT_IDENTITY_MISMATCH = spec HO_REFUSED
     (lit ''The requested component ID, version, or subject hash does not match the verified installed identity.'') False
     (lit ''Inspect the component again and submit the exact returned identity.'')"
| "HOST_FAILURE_SPECS HF_MISSING_CONVENTION = spec HO_NEEDS_INFORMATION
     (lit ''An answer-changing financial convention must be supplied explicitly.'') False
     (lit ''Obtain the missing convention from the user before submitting a new call.'')"
| "HOST_FAILURE_SPECS HF_INCOMPATIBLE_PORTS = spec HO_REFUSED
     (lit ''The selected output and input semantic ports are not compatible.'') False
     (lit ''Select a compatible component field mapping before submitting a new call.'')"
| "HOST_FAILURE_SPECS HF_UNSUPPORTED_BINDING = spec HO_REFUSED
     (lit ''The requested data binding form is not supported by this host version.'') False
     (lit ''Use a literal or one supported immutable source record.'')"
| "HOST_FAILURE_SPECS HF_MULTIPLE_NON_LITERAL_SOURCES = spec HO_REFUSED
     (lit ''An operation may use at most one non-literal source record.'') False
     (lit ''Use one dataset or one upstream operation source before submitting a new call.'')"
| "HOST_FAILURE_SPECS HF_INVALID_DATASET = spec HO_REFUSED
     (lit ''The supplied data does not satisfy the closed dataset contract.'') False
     (lit ''Correct and register the dataset again.'')"
| "HOST_FAILURE_SPECS HF_UNSUPPORTED_DATA_FORMAT = spec HO_REFUSED
     (lit ''The supplied data format is not supported.'') False
     (lit ''Use one of the explicitly supported inline, JSON, or CSV forms.'')"
| "HOST_FAILURE_SPECS HF_INPUT_ROOT_DENIED = spec HO_REFUSED
     (lit ''Local file access is not permitted by the configured input roots.'') False
     (lit ''Use inline data or restart the server with an explicitly configured root.'')"
| "HOST_FAILURE_SPECS HF_UNSAFE_INPUT_PATH = spec HO_REFUSED
     (lit ''The local input path failed closed path and file-type checks.'') False
     (lit ''Use a regular non-symlink file beneath a configured root.'')"
| "HOST_FAILURE_SPECS HF_INPUT_LIMIT_EXCEEDED = spec HO_REFUSED
     (lit ''The request or dataset exceeds a configured byte or count limit.'') False
     (lit ''Reduce the request, file, row, column, or cell size before submitting a new call.'')"
| "HOST_FAILURE_SPECS HF_INVALID_FIELD_MAPPING = spec HO_REFUSED
     (lit ''The requested source-to-input field mapping is invalid.'') False
     (lit ''Correct the explicit field mapping before submitting a new call.'')"
| "HOST_FAILURE_SPECS HF_REFERENCE_NOT_FOUND = spec HO_FAILED
     (lit ''The requested immutable reference does not exist in the active session.'') False
     (lit ''Register the dataset or execute the operation again to obtain an active reference.'')"
| "HOST_FAILURE_SPECS HF_REFERENCE_SCOPE_DENIED = spec HO_REFUSED
     (lit ''The requested immutable reference is not available to the active session scope.'') False
     (lit ''Use a reference issued within the active session and authorized scope.'')"
| "HOST_FAILURE_SPECS HF_RECORD_CORRUPT = spec HO_FAILED
     (lit ''The immutable stored record failed schema or digest verification and was refused.'') False
     (lit ''Do not reuse the record; terminate the affected session and create a new record.'')"
| "HOST_FAILURE_SPECS HF_CACHE_FULL = spec HO_FAILED
     (lit ''The session storage quota cannot accept another immutable record.'') True
     (lit ''Retry only in a new session or after an operator increases the configured quota.'')"
| "HOST_FAILURE_SPECS HF_RECORD_PUBLICATION_FAILED = spec HO_FAILED
     (lit ''The immutable host record could not be published safely.'') True
     (lit ''Retry only after the host storage condition has been resolved.'')"
| "HOST_FAILURE_SPECS HF_WORKER_TIMEOUT = spec HO_FAILED
     (lit ''The bounded worker exceeded its wall-clock execution limit.'') True
     (lit ''Retry only after reducing the workload.'')"
| "HOST_FAILURE_SPECS HF_WORKER_CANCELLED = spec HO_FAILED
     (lit ''The bounded worker operation was cancelled and its process tree was terminated.'') True
     (lit ''Retry only when the caller explicitly requests a new execution.'')"
| "HOST_FAILURE_SPECS HF_WORKER_CRASHED = spec HO_FAILED
     (lit ''The bounded worker exited without a valid typed response.'') True
     (lit ''Retry at most once after the host replaces the failed worker.'')"
| "HOST_FAILURE_SPECS HF_WORKER_CAPACITY = spec HO_FAILED
     (lit ''The bounded worker concurrency limit is currently occupied.'') True
     (lit ''Retry only after another worker request has completed.'')"
| "HOST_FAILURE_SPECS HF_WORKER_RESOURCE_LIMIT = spec HO_FAILED
     (lit ''The bounded worker exceeded its configured memory or captured-output resource limit.'') False
     (lit ''Reduce the workload before submitting a new call.'')"
| "HOST_FAILURE_SPECS HF_COMPONENT_REFUSED = spec HO_REFUSED
     (lit ''The component refused the requested calculation within its declared scope.'') False
     (lit ''Change the unsupported request or choose another component before submitting a new call.'')"
| "HOST_FAILURE_SPECS HF_COMPONENT_FAILED = spec HO_FAILED
     (lit ''The component failed outside its supported refusal protocol.'') False
     (lit ''Do not retry the unchanged request against the same installed component identity.'')"
| "HOST_FAILURE_SPECS HF_INVALID_COMPONENT_INPUT = spec HO_REFUSED
     (lit ''The resolved input does not satisfy the component'' @ [39] @ lit ''s canonical input model.'') False
     (lit ''Correct the component input before submitting a new call.'')"
| "HOST_FAILURE_SPECS HF_OUTPUT_VALIDATION_FAILED = spec HO_FAILED
     (lit ''The component output failed its canonical output model or identity checks.'') False
     (lit ''Do not retry until the installed component implementation is corrected or replaced.'')"
| "HOST_FAILURE_SPECS HF_COMPONENT_CONTRACT_ERROR = spec HO_FAILED
     (lit ''The installed component or its declarative contract failed integrity checks.'') False
     (lit ''Do not retry until the installed catalog or component is corrected.'')"
| "HOST_FAILURE_SPECS HF_ARTIFACT_PUBLICATION_FAILED = spec HO_FAILED
     (lit ''The operation output or declared artifact could not be published safely.'') False
     (lit ''Do not retry automatically; an operator must resolve the host publication condition.'')"
| "HOST_FAILURE_SPECS HF_RESULT_LIMIT_EXCEEDED = spec HO_REFUSED
     (lit ''The requested response, page, operation output, or artifact exceeds a configured limit.'') False
     (lit ''Request a smaller bounded page or reduce the operation output before submitting a new call.'')"
| "HOST_FAILURE_SPECS HF_ARTIFACT_NOT_FOUND = spec HO_FAILED
     (lit ''The requested artifact is not declared by the validated operation manifest.'') False
     (lit ''Use an artifact identifier declared by the validated operation response.'')"
| "HOST_FAILURE_SPECS HF_INTERNAL_FAILURE = spec HO_FAILED
     (lit ''The host failed internally without a safe domain-specific outcome.'') False
     (lit ''Do not retry automatically; report the stable host code to the operator.'')"

section \<open>Detail values\<close>

type_synonym details = "(pykey \<times> pyval) list"

definition INPUT_LIMIT_NAMES :: "string list" where
  "INPUT_LIMIT_NAMES =
     [''tool_arguments_bytes'', ''inline_json_source_bytes'', ''local_file_bytes'', ''normalized_dataset_payload_bytes'',
      ''worker_request_bytes'', ''dataset_rows'', ''dataset_columns'', ''decoded_cell_bytes'']"

definition RESULT_LIMIT_NAMES :: "string list" where
  "RESULT_LIMIT_NAMES =
     [''search_response_bytes'', ''structured_tool_response_bytes'', ''dataset_preview_page_bytes'', ''result_page_bytes'',
      ''message_page_bytes'', ''artifact_decoded_bytes'', ''resource_response_frame_bytes'',
      ''normalized_result_member_bytes'', ''result_top_level_fields'', ''operation_artifacts'', ''operation_bundle_bytes'',
      ''worker_control_response_bytes'']"

definition utf8_size :: "pystr \<Rightarrow> nat option" where
  "utf8_size s = map_option length (utf8_encode s)"

definition field_name :: "pyval \<Rightarrow> bool" where
  "field_name v =
     (case v of PStr s \<Rightarrow> (case utf8_size s of None \<Rightarrow> False | Some n \<Rightarrow> 1 \<le> n \<and> n \<le> 240) | _ \<Rightarrow> False)"

definition isascii :: "pystr \<Rightarrow> bool" where
  "isascii s \<longleftrightarrow> list_all (\<lambda>c. c < 128) s"

definition component_id :: "pyval \<Rightarrow> bool" where
  "component_id v =
     (case v of
        PStr s \<Rightarrow> isascii s \<and> 1 \<le> length s \<and> length s \<le> 240 \<and> fullmatch COMPONENT_ID_PATTERN s
      | _ \<Rightarrow> False)"

definition safe_id :: "pyval \<Rightarrow> bool" where
  "safe_id v = (case v of PStr s \<Rightarrow> isascii s \<and> fullmatch SAFE_ID_PATTERN s | _ \<Rightarrow> False)"

definition safe_integer :: "int \<Rightarrow> pyval \<Rightarrow> bool" where
  "safe_integer minimum v = (case v of PInt i \<Rightarrow> minimum \<le> i \<and> i \<le> MAX_SAFE_INTEGER | _ \<Rightarrow> False)"

definition REFERENCE_VERSION :: rx where
  "REFERENCE_VERSION = Cat (Chr 118) (Between 1 3 (Cls is_digit))"

definition exact_keys :: "details \<Rightarrow> string list \<Rightarrow> string list \<Rightarrow> bool" where
  "exact_keys d required optional \<longleftrightarrow>
     list_all (\<lambda>k. KStr (lit k) \<in> set (map fst d)) required \<and>
     list_all (\<lambda>k. k \<in> set (map (\<lambda>k. KStr (lit k)) (required @ optional))) (map fst d)"

text \<open>A \<^verbatim>\<open>Sequence\<close> that is not a string.\<close>

definition sequence_items :: "pyval \<Rightarrow> pyval list option" where
  "sequence_items v = (case v of PList xs \<Rightarrow> Some xs | PTuple xs \<Rightarrow> Some xs | _ \<Rightarrow> None)"

definition string_array :: "(pyval \<Rightarrow> bool) \<Rightarrow> nat \<Rightarrow> pyval \<Rightarrow> bool" where
  "string_array predicate maximum v =
     (case sequence_items v of None \<Rightarrow> False | Some items \<Rightarrow> length items \<le> maximum \<and> list_all predicate items)"

definition detail :: "details \<Rightarrow> string \<Rightarrow> pyval" where
  "detail d k = (case dict_get d k of None \<Rightarrow> PNone | Some v \<Rightarrow> v)"

text \<open>What \<^verbatim>\<open>PortDifference.model_validate\<close> accepts of a JSON value.\<close>

definition port_difference_ok :: "pyval \<Rightarrow> bool" where
  "port_difference_ok v =
     (case v of
        PDict kvs \<Rightarrow>
          exact_keys kvs [''dimension'', ''producer_value'', ''consumer_value''] [] \<and>
          list_ex (\<lambda>d. detail kvs ''dimension'' = jstr (port_dimension_value d) \<and>
            list_ex (\<lambda>a. detail kvs ''producer_value'' = jstr a \<and>
              list_ex (\<lambda>b. detail kvs ''consumer_value'' = jstr b \<and>
                is_ok (validate_dimension_values \<lparr>pd_dimension = d, pd_producer_value = a, pd_consumer_value = b\<rparr>))
                (VALUES_BY_DIMENSION d)) (VALUES_BY_DIMENSION d)) DIMENSIONS
      | _ \<Rightarrow> False)"

text \<open>A string is a sequence as well; none of its characters is a difference, so only the empty one passes.\<close>

definition port_differences_ok :: "pyval \<Rightarrow> bool" where
  "port_differences_ok v =
     (case v of
        PStr s \<Rightarrow> s = []
      | _ \<Rightarrow> (case sequence_items v of None \<Rightarrow> False | Some items \<Rightarrow> length items \<le> 8 \<and> list_all port_difference_ok items))"

section \<open>The closed schema of the details\<close>

definition BARE_CODES :: "host_failure_code list" where
  "BARE_CODES =
     [HF_UNSUPPORTED_BINDING, HF_MULTIPLE_NON_LITERAL_SOURCES, HF_UNSUPPORTED_DATA_FORMAT, HF_INPUT_ROOT_DENIED,
      HF_UNSAFE_INPUT_PATH, HF_REFERENCE_NOT_FOUND, HF_REFERENCE_SCOPE_DENIED, HF_RECORD_CORRUPT, HF_CACHE_FULL,
      HF_RECORD_PUBLICATION_FAILED, HF_WORKER_TIMEOUT, HF_WORKER_CANCELLED, HF_WORKER_CRASHED, HF_WORKER_CAPACITY,
      HF_WORKER_RESOURCE_LIMIT, HF_ARTIFACT_PUBLICATION_FAILED, HF_INTERNAL_FAILURE]"

definition FIELD_CODES :: "host_failure_code list" where
  "FIELD_CODES = [HF_INVALID_TOOL_REQUEST, HF_MISSING_CONVENTION, HF_INVALID_FIELD_MAPPING, HF_INVALID_COMPONENT_INPUT]"

definition COMPONENT_CODES :: "host_failure_code list" where
  "COMPONENT_CODES =
     [HF_COMPONENT_NOT_FOUND, HF_COMPONENT_IDENTITY_MISMATCH, HF_COMPONENT_REFUSED, HF_COMPONENT_FAILED,
      HF_OUTPUT_VALIDATION_FAILED]"

definition limit_details :: "string list \<Rightarrow> details \<Rightarrow> bool" where
  "limit_details names d \<longleftrightarrow>
     exact_keys d [''limit_name'', ''maximum'', ''actual''] [] \<and>
     detail d ''limit_name'' \<in> set (map jstr names) \<and>
     safe_integer 0 (detail d ''maximum'') \<and> safe_integer 0 (detail d ''actual'')"

definition failure_details_valid :: "host_failure_code \<Rightarrow> details \<Rightarrow> bool" where
  "failure_details_valid code d =
     (if code \<in> set BARE_CODES then d = []
      else if code \<in> set FIELD_CODES
      then exact_keys d [''fields''] [] \<and> string_array field_name 32 (detail d ''fields'')
      else if code = HF_UNSUPPORTED_HOST_SCHEMA
      then exact_keys d [''requested_version''] [] \<and> safe_integer (- MAX_SAFE_INTEGER) (detail d ''requested_version'')
      else if code = HF_UNSUPPORTED_PROTOCOL_VERSION
      then exact_keys d [''requested_version''] [] \<and>
           (case detail d ''requested_version'' of
              PStr s \<Rightarrow> (case utf8_size s of None \<Rightarrow> False | Some n \<Rightarrow> n \<le> 128) | _ \<Rightarrow> False)
      else if code = HF_UNSUPPORTED_REFERENCE_VERSION
      then exact_keys d [''requested_version''] [] \<and>
           (case detail d ''requested_version'' of PStr s \<Rightarrow> isascii s \<and> fullmatch REFERENCE_VERSION s | _ \<Rightarrow> False)
      else if code \<in> set COMPONENT_CODES
      then exact_keys d [''component_id''] [] \<and> component_id (detail d ''component_id'')
      else if code = HF_COMPONENT_CONTRACT_ERROR
      then exact_keys d [] [''component_id''] \<and>
           (dict_get d ''component_id'' = None \<or> component_id (detail d ''component_id''))
      else if code = HF_INVALID_DATASET
      then exact_keys d [''finding_codes''] [] \<and> string_array safe_id 32 (detail d ''finding_codes'')
      else if code = HF_INPUT_LIMIT_EXCEEDED then limit_details INPUT_LIMIT_NAMES d
      else if code = HF_RESULT_LIMIT_EXCEEDED then limit_details RESULT_LIMIT_NAMES d
      else if code = HF_ARTIFACT_NOT_FOUND
      then exact_keys d [''artifact_id''] [] \<and> safe_id (detail d ''artifact_id'')
      else exact_keys d [''differences''] [] \<and> port_differences_ok (detail d ''differences''))"

definition validate_failure_details :: "host_failure_code \<Rightarrow> details \<Rightarrow> py_exc + unit" where
  "validate_failure_details code d =
     (if failure_details_valid code d then Inr ()
      else value_error (''details do not satisfy the closed schema for '' @ host_code_value code))"

section \<open>Envelopes\<close>

record trust =
  tr_label :: trust_label
  tr_statement :: pystr

definition validate_statement :: "trust \<Rightarrow> py_exc + trust" where
  "validate_statement t =
     (if tr_statement t \<noteq> TRUST_STATEMENTS (tr_label t) then value_error ''trust statement does not match its fixed label''
      else Inr t)"

definition make_trust :: "trust \<Rightarrow> py_exc + trust" where
  "make_trust t = (if \<not> text_ok 500 (tr_statement t) then value_error ''statement length'' else validate_statement t)"

record host_error =
  he_code :: host_failure_code
  he_message :: pystr
  he_retry_allowed :: bool
  he_details :: details

definition validate_fixed_fields :: "host_error \<Rightarrow> py_exc + host_error" where
  "validate_fixed_fields e =
     (let s = HOST_FAILURE_SPECS (he_code e) in
      if he_message e \<noteq> sp_message s \<or> he_retry_allowed e \<noteq> sp_retry_allowed s
      then value_error ''host error presentation does not match its fixed code''
      else bindE (validate_failure_details (he_code e) (he_details e)) (\<lambda>_. Inr e))"

definition make_host_error :: "host_error \<Rightarrow> py_exc + host_error" where
  "make_host_error e =
     (if \<not> text_ok 500 (he_message e) then value_error ''message length''
      else if \<not> json_value (PDict (he_details e)) then value_error ''details are not JSON''
      else validate_fixed_fields e)"

record failure_envelope =
  hf_outcome :: host_outcome
  hf_error :: host_error
  hf_trust :: trust

definition validate_outcome :: "failure_envelope \<Rightarrow> py_exc + failure_envelope" where
  "validate_outcome f =
     (if hf_outcome f \<noteq> sp_outcome (HOST_FAILURE_SPECS (he_code (hf_error f)))
      then value_error ''host outcome does not match its fixed code'' else Inr f)"

definition host_failure_valid :: "failure_envelope \<Rightarrow> bool" where
  "host_failure_valid f \<longleftrightarrow>
     is_ok (make_host_error (hf_error f)) \<and> is_ok (make_trust (hf_trust f)) \<and> is_ok (validate_outcome f)"

record success_envelope =
  hs_data :: details
  hs_trust :: trust

definition trust_notice :: "trust_label \<Rightarrow> py_exc + trust" where
  "trust_notice label = make_trust \<lparr>tr_label = label, tr_statement = TRUST_STATEMENTS label\<rparr>"

definition host_success :: "details \<Rightarrow> trust_label \<Rightarrow> py_exc + success_envelope" where
  "host_success data label =
     bindE (trust_notice label) (\<lambda>t.
     if \<not> json_value (PDict data) then value_error ''data is not JSON'' else Inr \<lparr>hs_data = data, hs_trust = t\<rparr>)"

fun trust_label_value :: "trust_label \<Rightarrow> string" where
  "trust_label_value TL_CONTRACT_METADATA_ONLY = ''contract_metadata_only''"
| "trust_label_value TL_INSTALLED_SUBJECT_INSPECTED = ''installed_subject_inspected''"
| "trust_label_value TL_UNVERIFIED_CALLER_DATA = ''unverified_caller_data''"
| "trust_label_value TL_STRUCTURAL_COMPATIBILITY_ONLY = ''structural_compatibility_only''"
| "trust_label_value TL_UNMANAGED_EXECUTION = ''unmanaged_execution''"
| "trust_label_value TL_NO_VERIFIED_RESULT = ''no_verified_result''"

definition trust_dump :: "trust \<Rightarrow> pyval" where
  "trust_dump t = jobj [(''label'', jstr (trust_label_value (tr_label t))), (''statement'', PStr (tr_statement t))]"

definition host_success_dump :: "success_envelope \<Rightarrow> pyval" where
  "host_success_dump s =
     jobj [(''host_schema_version'', PInt 1), (''outcome'', jstr ''ok''), (''data'', PDict (hs_data s)),
           (''trust'', trust_dump (hs_trust s))]"

definition HOST_SUCCESS_TEXT :: string where
  "HOST_SUCCESS_TEXT = ''Defined Quant host outcome: ok; use structuredContent.''"

definition tool_success_result_projection :: "details \<Rightarrow> trust_label \<Rightarrow> py_exc + pyval" where
  "tool_success_result_projection data label =
     bindE (host_success data label) (\<lambda>envelope.
     Inr (jobj [(''content'', PList [jobj [(''type'', jstr ''text''), (''text'', jstr HOST_SUCCESS_TEXT)]]),
                (''structuredContent'', host_success_dump envelope), (''isError'', PBool False)]))"

definition host_failure :: "host_failure_code \<Rightarrow> details \<Rightarrow> trust_label \<Rightarrow> py_exc + failure_envelope" where
  "host_failure code d label =
     (let s = HOST_FAILURE_SPECS code in
      bindE (make_host_error
        \<lparr>he_code = code, he_message = sp_message s, he_retry_allowed = sp_retry_allowed s, he_details = d\<rparr>) (\<lambda>e.
      bindE (trust_notice label) (\<lambda>t.
      validate_outcome \<lparr>hf_outcome = sp_outcome s, hf_error = e, hf_trust = t\<rparr>)))"

section \<open>Projection of operation errors\<close>

fun OPERATION_ERROR_DEFAULT_CODES :: "operation_error_code \<Rightarrow> host_failure_code" where
  "OPERATION_ERROR_DEFAULT_CODES INVALID_OPERATION_REQUEST = HF_INVALID_TOOL_REQUEST"
| "OPERATION_ERROR_DEFAULT_CODES INVALID_JSON = HF_INVALID_TOOL_REQUEST"
| "OPERATION_ERROR_DEFAULT_CODES COMPONENT_NOT_FOUND = HF_COMPONENT_NOT_FOUND"
| "OPERATION_ERROR_DEFAULT_CODES COMPONENT_IDENTITY_MISMATCH = HF_COMPONENT_IDENTITY_MISMATCH"
| "OPERATION_ERROR_DEFAULT_CODES INVALID_COMPONENT_INPUT = HF_INVALID_COMPONENT_INPUT"
| "OPERATION_ERROR_DEFAULT_CODES COMPONENT_REFUSED = HF_COMPONENT_REFUSED"
| "OPERATION_ERROR_DEFAULT_CODES COMPONENT_EXECUTION_FAILED = HF_COMPONENT_FAILED"
| "OPERATION_ERROR_DEFAULT_CODES OUTPUT_VALIDATION_FAILED = HF_OUTPUT_VALIDATION_FAILED"
| "OPERATION_ERROR_DEFAULT_CODES COMPONENT_CONTRACT_ERROR = HF_COMPONENT_CONTRACT_ERROR"
| "OPERATION_ERROR_DEFAULT_CODES INVALID_OUTPUT_DIRECTORY = HF_ARTIFACT_PUBLICATION_FAILED"
| "OPERATION_ERROR_DEFAULT_CODES OUTPUT_EXISTS = HF_ARTIFACT_PUBLICATION_FAILED"
| "OPERATION_ERROR_DEFAULT_CODES ARTIFACT_WRITE_FAILED = HF_ARTIFACT_PUBLICATION_FAILED"
| "OPERATION_ERROR_DEFAULT_CODES OPERATION_FAILED = HF_INTERNAL_FAILURE"

text \<open>The collection of input fields is a string, an iterable collection, or something Python cannot iterate.\<close>

definition field_names :: "pyval list \<Rightarrow> pystr list" where
  "field_names items = List.map_filter (\<lambda>v. case v of PStr s \<Rightarrow> if field_name v then Some s else None | _ \<Rightarrow> None) items"

definition verified_fields :: "pyval \<Rightarrow> py_exc + pystr list" where
  "verified_fields values =
     (case values of
        PStr _ \<Rightarrow> Inr []
      | PList items \<Rightarrow> Inr (field_names items)
      | PTuple items \<Rightarrow> Inr (field_names items)
      | PSet items \<Rightarrow> Inr (field_names items)
      | PDict kvs \<Rightarrow> Inr (field_names (List.map_filter (\<lambda>kv. map_option PStr (key_str (fst kv))) kvs))
      | _ \<Rightarrow> Inl (TypeError (lit ''object is not iterable'')))"

fun project_loop :: "pystr list \<Rightarrow> pystr list \<Rightarrow> pyval list \<Rightarrow> pystr list" where
  "project_loop verified projected [] = projected"
| "project_loop verified projected (v # vs) =
     (case v of
        PStr s \<Rightarrow>
          if s \<notin> set verified \<or> s \<in> set projected then project_loop verified projected vs
          else if length (projected @ [s]) = 32 then projected @ [s]
          else project_loop verified (projected @ [s]) vs
      | _ \<Rightarrow> project_loop verified projected vs)"

definition project_fields :: "pyval \<Rightarrow> pystr list \<Rightarrow> pystr list" where
  "project_fields values verified =
     (case sequence_items values of None \<Rightarrow> [] | Some items \<Rightarrow> project_loop verified [] items)"

definition location_head :: "pyval \<Rightarrow> pyval option" where
  "location_head raw_error =
     (case raw_error of
        PDict kvs \<Rightarrow>
          (case sequence_items (detail kvs ''loc'') of Some (first # _) \<Rightarrow> Some first | _ \<Rightarrow> None)
      | _ \<Rightarrow> None)"

definition component_input_fields :: "operation_error \<Rightarrow> pystr list \<Rightarrow> pystr list" where
  "component_input_fields e verified =
     (case detail (oe_details e) ''errors'' of
        PList raw_errors \<Rightarrow> project_fields (PList (List.map_filter location_head raw_errors)) verified
      | _ \<Rightarrow> [])"

definition question_fields :: "pyval list \<Rightarrow> pyval list" where
  "question_fields questions = List.map_filter (\<lambda>q. case q of PDict kvs \<Rightarrow> Some (detail kvs ''field'') | _ \<Rightarrow> None) questions"

definition missing_convention_fields :: "operation_error \<Rightarrow> pystr list \<Rightarrow> pystr list" where
  "missing_convention_fields e verified =
     (case detail (oe_details e) ''component_error'' of
        PDict component_error \<Rightarrow>
          if detail component_error ''code'' \<noteq> jstr ''ambiguous_input'' then []
          else (case detail component_error ''details'' of
                  PDict component_details \<Rightarrow>
                    (case detail component_details ''questions'' of
                       PList questions \<Rightarrow> project_fields (PList (question_fields questions)) verified
                     | _ \<Rightarrow> [])
                | _ \<Rightarrow> [])
      | _ \<Rightarrow> [])"

definition project_component_id :: "operation_error \<Rightarrow> operation_request option \<Rightarrow> pystr option" where
  "project_component_id e request =
     find (\<lambda>i. component_id (PStr i))
       ((case request of None \<Rightarrow> [] | Some r \<Rightarrow> [cr_id (or_component r)]) @
        (case oe_component e of None \<Rightarrow> [] | Some c \<Rightarrow> [cr_id c]))"

abbreviation plain_failure :: "host_failure_code \<Rightarrow> details \<Rightarrow> py_exc + failure_envelope" where
  "plain_failure code d \<equiv> host_failure code d TL_NO_VERIFIED_RESULT"

definition fields_detail :: "pystr list \<Rightarrow> details" where
  "fields_detail names = [(KStr (lit ''fields''), PList (map PStr names))]"

definition component_detail :: "pystr \<Rightarrow> details" where
  "component_detail i = [(KStr (lit ''component_id''), PStr i)]"

definition project_error :: "operation_error \<Rightarrow> operation_request option \<Rightarrow> pyval \<Rightarrow> py_exc + failure_envelope" where
  "project_error e request input_fields =
     (let code = OPERATION_ERROR_DEFAULT_CODES (oe_code e) in
      bindE (verified_fields input_fields) (\<lambda>verified.
      if oe_code e \<in> {INVALID_OPERATION_REQUEST, INVALID_JSON} then plain_failure code (fields_detail [])
      else if oe_code e = INVALID_COMPONENT_INPUT
      then plain_failure code (fields_detail (component_input_fields e verified))
      else if oe_code e = COMPONENT_REFUSED \<and> missing_convention_fields e verified \<noteq> []
      then plain_failure HF_MISSING_CONVENTION (fields_detail (missing_convention_fields e verified))
      else if oe_code e \<in> {COMPONENT_NOT_FOUND, COMPONENT_IDENTITY_MISMATCH, COMPONENT_REFUSED,
                              COMPONENT_EXECUTION_FAILED, OUTPUT_VALIDATION_FAILED}
      then (case project_component_id e request of
              None \<Rightarrow> plain_failure HF_INTERNAL_FAILURE []
            | Some i \<Rightarrow> plain_failure code (component_detail i))
      else if oe_code e = COMPONENT_CONTRACT_ERROR
      then plain_failure code (case project_component_id e request of None \<Rightarrow> [] | Some i \<Rightarrow> component_detail i)
      else plain_failure code []))"

definition map_operation_error :: "operation_error \<Rightarrow> operation_request option \<Rightarrow> pyval \<Rightarrow> py_exc + failure_envelope" where
  "map_operation_error e request input_fields =
     (case project_error e request input_fields of
        Inr f \<Rightarrow> Inr f
      | Inl _ \<Rightarrow> plain_failure HF_INTERNAL_FAILURE [])"

section \<open>Envelopes are always well formed\<close>

declare HOST_FAILURE_SPECS.simps [simp del] TRUST_STATEMENTS.simps [simp del]

lemma text_ok_literal: "text_ok n (lit s) \<longleftrightarrow> s \<noteq> [] \<and> length s \<le> n"
  using scalar_lit[of s] by (cases s) (auto simp: text_ok_def simp del: scalar_lit)

lemma scalar_append [simp]: "scalar_str (s @ t) \<longleftrightarrow> scalar_str s \<and> scalar_str t"
  by (simp add: scalar_str_def)

lemma fixed_message_ok: "text_ok 500 (sp_message (HOST_FAILURE_SPECS c))"
proof -
  have char: "list_all is_scalar (lit s)" for s using scalar_lit[of s] by (simp add: scalar_str_def)
  show ?thesis
    by (cases c) (simp_all add: HOST_FAILURE_SPECS.simps text_ok_literal, simp_all add: text_ok_def scalar_str_def char, simp add: is_scalar_def is_surrogate_def)
qed

lemma fixed_statement_ok: "text_ok 500 (TRUST_STATEMENTS l)"
  by (cases l) (simp_all add: TRUST_STATEMENTS.simps text_ok_literal)

lemma trust_notice_total [simp]: "trust_notice l = Inr \<lparr>tr_label = l, tr_statement = TRUST_STATEMENTS l\<rparr>"
  by (simp add: trust_notice_def make_trust_def validate_statement_def fixed_statement_ok)

definition failure_of :: "host_failure_code \<Rightarrow> details \<Rightarrow> trust_label \<Rightarrow> failure_envelope" where
  "failure_of code d label =
     (let s = HOST_FAILURE_SPECS code in
      \<lparr>hf_outcome = sp_outcome s,
       hf_error = \<lparr>he_code = code, he_message = sp_message s, he_retry_allowed = sp_retry_allowed s, he_details = d\<rparr>,
       hf_trust = \<lparr>tr_label = label, tr_statement = TRUST_STATEMENTS label\<rparr>\<rparr>)"

lemma failure_of_fields [simp]:
  "he_code (hf_error (failure_of c d l)) = c" "he_details (hf_error (failure_of c d l)) = d"
  "tr_label (hf_trust (failure_of c d l)) = l"
  by (simp_all add: failure_of_def Let_def)

lemma host_failure_iff:
  "host_failure code d label = Inr f \<longleftrightarrow>
     json_value (PDict d) \<and> failure_details_valid code d \<and> f = failure_of code d label"
  by (auto simp: host_failure_def Let_def make_host_error_def fixed_message_ok validate_fixed_fields_def
      validate_failure_details_def validate_outcome_def failure_of_def simp del: json_value.simps split: if_splits)

lemma failure_of_valid:
  "json_value (PDict d) \<Longrightarrow> failure_details_valid code d \<Longrightarrow> host_failure_valid (failure_of code d label)"
  by (simp add: host_failure_valid_def failure_of_def Let_def make_host_error_def fixed_message_ok validate_fixed_fields_def
      validate_failure_details_def make_trust_def validate_statement_def fixed_statement_ok validate_outcome_def
      del: json_value.simps)

lemma detail_single [simp]: "detail [(KStr (lit k), v)] k = v"
  by (simp add: detail_def dict_get_def)

lemma exact_keys_single [simp]: "exact_keys [(KStr (lit k), v)] [k] []"
  by (simp add: exact_keys_def)

lemma field_name_scalar: "field_name (PStr s) \<Longrightarrow> scalar_str s"
  using utf8_encode_Some_iff[of s] by (auto simp: field_name_def utf8_size_def scalar_str_def list_all_iff split: option.splits)

lemma component_id_scalar: "component_id (PStr s) \<Longrightarrow> scalar_str s"
  by (auto simp: component_id_def isascii_def scalar_str_def list_all_iff intro!: is_scalar_ascii)

lemma fields_detail_valid:
  assumes "code \<in> set FIELD_CODES" "\<forall>n \<in> set names. field_name (PStr n)" "length names \<le> 32"
  shows "json_value (PDict (fields_detail names)) \<and> failure_details_valid code (fields_detail names)"
  using assms field_name_scalar
  by (auto simp: FIELD_CODES_def failure_details_valid_def BARE_CODES_def fields_detail_def string_array_def
      sequence_items_def list_all_iff)

lemma component_detail_valid:
  assumes "code \<in> insert HF_COMPONENT_CONTRACT_ERROR (set COMPONENT_CODES)" "component_id (PStr i)"
  shows "json_value (PDict (component_detail i)) \<and> failure_details_valid code (component_detail i)"
proof -
  have "exact_keys (component_detail i) [] [''component_id'']" "exact_keys (component_detail i) [''component_id''] []"
    by (simp_all add: component_detail_def exact_keys_def)
  moreover have "detail (component_detail i) ''component_id'' = PStr i" by (simp add: component_detail_def)
  moreover have "json_value (PDict (component_detail i))"
    using assms(2) component_id_scalar by (simp add: component_detail_def)
  ultimately show ?thesis
    using assms
    by (auto simp: COMPONENT_CODES_def failure_details_valid_def BARE_CODES_def FIELD_CODES_def simp del: json_value.simps)
qed

lemma bare_detail_valid: "code \<in> insert HF_COMPONENT_CONTRACT_ERROR (set BARE_CODES) \<Longrightarrow> failure_details_valid code []"
  by (auto simp: failure_details_valid_def BARE_CODES_def FIELD_CODES_def COMPONENT_CODES_def exact_keys_def dict_get_def)

section \<open>What the projection lets through\<close>

lemma project_loop_facts:
  assumes "set projected \<subseteq> set verified" "distinct projected" "length projected < 32"
  shows "set (project_loop verified projected vs) \<subseteq> set verified \<and> distinct (project_loop verified projected vs) \<and>
    length (project_loop verified projected vs) \<le> 32"
  using assms by (induction verified projected vs rule: project_loop.induct) (auto split: pyval.splits)

lemma project_fields_facts:
  "set (project_fields v verified) \<subseteq> set verified \<and> distinct (project_fields v verified) \<and>
   length (project_fields v verified) \<le> 32"
  using project_loop_facts[of "[]" verified] by (auto simp: project_fields_def split: option.splits)

lemma component_input_fields_facts:
  "set (component_input_fields e verified) \<subseteq> set verified \<and> distinct (component_input_fields e verified) \<and>
   length (component_input_fields e verified) \<le> 32"
  using project_fields_facts by (simp add: component_input_fields_def split: pyval.split)

lemma missing_convention_fields_facts:
  "set (missing_convention_fields e verified) \<subseteq> set verified \<and> distinct (missing_convention_fields e verified) \<and>
   length (missing_convention_fields e verified) \<le> 32"
proof -
  have "missing_convention_fields e verified = [] \<or> (\<exists>v. missing_convention_fields e verified = project_fields v verified)"
    by (auto simp: missing_convention_fields_def split: pyval.split)
  then show ?thesis using project_fields_facts[of _ verified] by (elim disjE exE) simp_all
qed

lemma field_names_ok: "n \<in> set (field_names items) \<Longrightarrow> field_name (PStr n)"
  by (induction items) (auto simp: field_names_def List.map_filter_simps split: pyval.splits if_splits)

lemma verified_fields_names: "verified_fields v = Inr names \<Longrightarrow> n \<in> set names \<Longrightarrow> field_name (PStr n)"
  using field_names_ok by (cases v) (auto simp: verified_fields_def)

lemma project_component_id_Some:
  "project_component_id e request = Some i \<Longrightarrow>
     component_id (PStr i) \<and> (i \<in> (\<lambda>r. cr_id (or_component r)) ` set_option request \<or> i \<in> cr_id ` set_option (oe_component e))"
  by (auto simp: project_component_id_def split: option.splits if_splits)

text \<open>The code an error of the runner is reported under.\<close>

definition reported_code :: "operation_error \<Rightarrow> operation_request option \<Rightarrow> pystr list \<Rightarrow> host_failure_code" where
  "reported_code e request verified =
     (if oe_code e = COMPONENT_REFUSED \<and> missing_convention_fields e verified \<noteq> [] then HF_MISSING_CONVENTION
      else if oe_code e \<in> {COMPONENT_NOT_FOUND, COMPONENT_IDENTITY_MISMATCH, COMPONENT_REFUSED,
                             COMPONENT_EXECUTION_FAILED, OUTPUT_VALIDATION_FAILED} \<and> project_component_id e request = None
      then HF_INTERNAL_FAILURE
      else OPERATION_ERROR_DEFAULT_CODES (oe_code e))"

text \<open>The details it is reported with: nothing, verified field names, or the identity of the selected component.\<close>

definition disclosable :: "operation_error \<Rightarrow> operation_request option \<Rightarrow> pystr list \<Rightarrow> details \<Rightarrow> bool" where
  "disclosable e request verified d \<longleftrightarrow>
     d = [] \<or>
     (\<exists>names. d = fields_detail names \<and> set names \<subseteq> set verified \<and> distinct names \<and> length names \<le> 32) \<or>
     (\<exists>i. d = component_detail i \<and> component_id (PStr i) \<and>
        (i \<in> (\<lambda>r. cr_id (or_component r)) ` set_option request \<or> i \<in> cr_id ` set_option (oe_component e)))"

lemma plain_failure_ok:
  "json_value (PDict d) \<and> failure_details_valid code d \<Longrightarrow> plain_failure code d = Inr (failure_of code d TL_NO_VERIFIED_RESULT)"
  by (simp add: host_failure_iff del: json_value.simps)

lemma project_error_exact:
  assumes v: "verified_fields fs = Inr verified"
  shows "\<exists>d. project_error e request fs = Inr (failure_of (reported_code e request verified) d TL_NO_VERIFIED_RESULT) \<and>
    json_value (PDict d) \<and> failure_details_valid (reported_code e request verified) d \<and> disclosable e request verified d"
proof -
  have ok: ?thesis if "project_error e request fs = plain_failure (reported_code e request verified) d"
    "json_value (PDict d) \<and> failure_details_valid (reported_code e request verified) d" "disclosable e request verified d" for d
    using that plain_failure_ok by auto
  have names: "\<forall>n \<in> set verified. field_name (PStr n)" using verified_fields_names[OF v] by blast
  note facts = component_input_fields_facts[of e verified] missing_convention_fields_facts[of e verified]
  have fields: "json_value (PDict (fields_detail ns)) \<and> failure_details_valid c (fields_detail ns)"
    "disclosable e request verified (fields_detail ns)"
    if "set ns \<subseteq> set verified \<and> distinct ns \<and> length ns \<le> 32" "c \<in> set FIELD_CODES" for ns c
    using that fields_detail_valid[of c ns] names by (auto simp: disclosable_def simp del: json_value.simps)
  have bare: "json_value (PDict [])" "disclosable e request verified []" by (simp_all add: disclosable_def)
  have comp: "json_value (PDict (component_detail i)) \<and> failure_details_valid c (component_detail i)"
    "disclosable e request verified (component_detail i)"
    if "project_component_id e request = Some i" "c \<in> insert HF_COMPONENT_CONTRACT_ERROR (set COMPONENT_CODES)" for i c
    using that component_detail_valid[of c i] project_component_id_Some[of e request i]
    by (auto simp: disclosable_def simp del: json_value.simps)
  have component: ?thesis
    if "oe_code e \<in> {COMPONENT_NOT_FOUND, COMPONENT_IDENTITY_MISMATCH, COMPONENT_EXECUTION_FAILED, OUTPUT_VALIDATION_FAILED}"
  proof (rule ok[of "case project_component_id e request of None \<Rightarrow> [] | Some i \<Rightarrow> component_detail i"])
    have "OPERATION_ERROR_DEFAULT_CODES (oe_code e) \<in> set COMPONENT_CODES" using that by (auto simp: COMPONENT_CODES_def)
    then show "json_value (PDict (case project_component_id e request of None \<Rightarrow> [] | Some i \<Rightarrow> component_detail i)) \<and>
        failure_details_valid (reported_code e request verified)
          (case project_component_id e request of None \<Rightarrow> [] | Some i \<Rightarrow> component_detail i)"
      using that comp(1) bare bare_detail_valid[of HF_INTERNAL_FAILURE]
      by (cases "project_component_id e request") (auto simp: reported_code_def BARE_CODES_def simp del: json_value.simps)
  qed (use that comp(2)[of _ HF_COMPONENT_CONTRACT_ERROR] bare in \<open>auto simp: project_error_def v reported_code_def split: option.split\<close>)
  have bare_only: ?thesis if "oe_code e \<in> {INVALID_OUTPUT_DIRECTORY, OUTPUT_EXISTS, ARTIFACT_WRITE_FAILED, OPERATION_FAILED}"
  proof (rule ok[of "[]"])
    have code: "reported_code e request verified = OPERATION_ERROR_DEFAULT_CODES (oe_code e)"
      using that by (auto simp: reported_code_def)
    also have "\<dots> \<in> set BARE_CODES" using that by (auto simp: BARE_CODES_def)
    finally show "json_value (PDict []) \<and> failure_details_valid (reported_code e request verified) []"
      using bare_detail_valid by simp
    show "project_error e request fs = plain_failure (reported_code e request verified) []"
      unfolding code using that by (auto simp: project_error_def v)
  qed (rule bare)
  show ?thesis
  proof (cases "oe_code e")
    case INVALID_OPERATION_REQUEST
    then show ?thesis using fields[of "[]" HF_INVALID_TOOL_REQUEST]
      by (intro ok[of "fields_detail []"]) (simp_all add: project_error_def v reported_code_def FIELD_CODES_def del: json_value.simps)
  next
    case INVALID_JSON
    then show ?thesis using fields[of "[]" HF_INVALID_TOOL_REQUEST]
      by (intro ok[of "fields_detail []"]) (simp_all add: project_error_def v reported_code_def FIELD_CODES_def del: json_value.simps)
  next
    case INVALID_COMPONENT_INPUT
    then show ?thesis using fields[OF facts(1), of HF_INVALID_COMPONENT_INPUT]
      by (intro ok[of "fields_detail (component_input_fields e verified)"])
        (simp_all add: project_error_def v reported_code_def FIELD_CODES_def del: json_value.simps)
  next
    case COMPONENT_CONTRACT_ERROR
    then show ?thesis using comp[of _ HF_COMPONENT_CONTRACT_ERROR] bare bare_detail_valid[of HF_COMPONENT_CONTRACT_ERROR]
      by (intro ok[of "case project_component_id e request of None \<Rightarrow> [] | Some i \<Rightarrow> component_detail i"])
        (simp_all add: project_error_def v reported_code_def del: json_value.simps split: option.split)
  next
    case COMPONENT_REFUSED
    show ?thesis
    proof (cases "missing_convention_fields e verified = []")
      case False
      with COMPONENT_REFUSED show ?thesis using fields[OF facts(2), of HF_MISSING_CONVENTION]
        by (intro ok[of "fields_detail (missing_convention_fields e verified)"])
          (simp_all add: project_error_def v reported_code_def FIELD_CODES_def del: json_value.simps)
    next
      case True
      with COMPONENT_REFUSED show ?thesis
        using comp[of _ HF_COMPONENT_REFUSED] bare bare_detail_valid[of HF_INTERNAL_FAILURE]
        by (intro ok[of "case project_component_id e request of None \<Rightarrow> [] | Some i \<Rightarrow> component_detail i"])
          (simp_all add: project_error_def v reported_code_def COMPONENT_CODES_def BARE_CODES_def del: json_value.simps split: option.split)
    qed
  qed (use component bare_only in \<open>simp_all add: reported_code_def\<close>)
qed

section \<open>Properties\<close>


text \<open>
  C26 (operation_error_classified): When the collection of input fields can be read, the projection never falls
  into its catch-all: the failure carries exactly the reported code, which is the default code of the error except
  for a refusal with a missing convention and for a component error without a usable component id.
\<close>

theorem operation_error_classified:
  assumes "verified_fields fs = Inr verified"
  shows "map_operation_error e request fs = project_error e request fs \<and>
    (\<exists>f. project_error e request fs = Inr f \<and> he_code (hf_error f) = reported_code e request verified)"
  using project_error_exact[OF assms, of e request] by (auto simp: map_operation_error_def)

theorem operation_error_classified_witness:
  "(\<exists>f. map_operation_error
      \<lparr>oe_code = COMPONENT_REFUSED, oe_message = lit ''x'', oe_component = None,
       oe_details = [(KStr (lit ''component_error''), PDict [(KStr (lit ''code''), jstr ''ambiguous_input''),
         (KStr (lit ''details''), PDict [(KStr (lit ''questions''), PList [PDict [(KStr (lit ''field''), jstr ''rate'')]])])])]\<rparr>
      None (PList [jstr ''rate'']) = Inr f \<and> he_code (hf_error f) = HF_MISSING_CONVENTION)"
proof -
  let ?e = "\<lparr>oe_code = COMPONENT_REFUSED, oe_message = lit ''x'', oe_component = None,
       oe_details = [(KStr (lit ''component_error''), PDict [(KStr (lit ''code''), jstr ''ambiguous_input''),
         (KStr (lit ''details''), PDict [(KStr (lit ''questions''), PList [PDict [(KStr (lit ''field''), jstr ''rate'')]])])])]\<rparr>"
  have v: "verified_fields (PList [jstr ''rate'']) = Inr [lit ''rate'']" by code_simp
  have "missing_convention_fields ?e [lit ''rate''] = [lit ''rate'']" by code_simp
  then have "reported_code ?e None [lit ''rate''] = HF_MISSING_CONVENTION" by (simp add: reported_code_def)
  then show ?thesis using operation_error_classified[OF v, of ?e None] by auto
qed

text \<open>
  An empty string is accepted in place of the list of port differences: \<^verbatim>\<open>str\<close> is a \<^verbatim>\<open>Sequence\<close>, and unlike
  \<^verbatim>\<open>_string_array\<close> the branch for incompatible ports does not exclude it.
\<close>

lemma empty_differences_string:
  "host_failure HF_INCOMPATIBLE_PORTS [(KStr (lit ''differences''), PStr [])] TL_NO_VERIFIED_RESULT =
     Inr (failure_of HF_INCOMPATIBLE_PORTS [(KStr (lit ''differences''), PStr [])] TL_NO_VERIFIED_RESULT)"
  using scalar_lit[of "[]"]
  by (simp add: host_failure_iff failure_details_valid_def BARE_CODES_def FIELD_CODES_def COMPONENT_CODES_def
      port_differences_ok_def)

end
