(* ===== verification/Json_Pretty.thy ===== *)
theory Json_Pretty
  imports Json_Documents
begin

text \<open>
  The indented documents read back as well: \<^verbatim>\<open>pretty_json_bytes\<close> writes what \<^verbatim>\<open>strict_json_loads\<close> accepts. The
  scanning lemmas are about texts and the values they read as, with any white space between the tokens.
\<close>

section \<open>Texts with white space\<close>

definition all_space :: "pystr \<Rightarrow> bool" where
  "all_space w \<longleftrightarrow> list_all is_json_space w"

lemma skip_ws_spaces [simp]: "all_space w \<Longrightarrow> skip_ws (w @ s) = skip_ws s"
  by (simp add: all_space_def skip_ws_def list_all_iff dropWhile_append2)

lemma all_space_indent [simp]: "all_space (indent_line d)" "all_space [32]" "all_space []"
  by (simp_all add: all_space_def indent_line_def is_json_space_def list_all_iff)

lemma stops_indent [simp]: "stops (indent_line d @ s)"
  by (simp add: indent_line_def)

definition reads_as :: "(pystr \<Rightarrow> float64) \<Rightarrow> pystr \<Rightarrow> pyval \<Rightarrow> bool" where
  "reads_as pf t v \<longleftrightarrow>
     (\<forall>n r. length t \<le> n \<longrightarrow> stops r \<longrightarrow> scan_value pf n (t @ r) = Inr (v, r)) \<and>
     (\<exists>c cs. t = c # cs \<and> \<not> is_json_space c \<and> c \<noteq> 93 \<and> c < 128)"

lemma reads_as_scan: "reads_as pf t v \<Longrightarrow> length t \<le> n \<Longrightarrow> stops r \<Longrightarrow> scan_value pf n (t @ r) = Inr (v, r)"
  by (simp add: reads_as_def)

lemma reads_as_skip: "reads_as pf t v \<Longrightarrow> skip_ws (t @ s) = t @ s"
  by (auto simp: reads_as_def)

lemma reads_as_scans_back: "scans_back fr pf v \<Longrightarrow> reads_as pf (json_dumps fr v) (json_sorted v)"
  by (simp add: scans_back_def reads_as_def)

lemma elements_read:
  assumes "list_all2 (reads_as pf) ts vs" "ts \<noteq> []" "length (str_join (44 # w) ts) < n"
    "all_space w" "all_space e" "stops (e @ 93 # r)"
  shows "scan_elements pf n acc (str_join (44 # w) ts @ e @ 93 # r) = Inr (PList (acc @ vs), r)"
  using assms(1-3)
proof (induction ts vs arbitrary: n acc rule: list_all2_induct)
  case (Cons t ts v vs)
  obtain m where n: "n = Suc m" using Cons.prems(2) by (cases n) auto
  show ?case
  proof (cases ts)
    case Nil
    then have "vs = []" using Cons.hyps(2) by simp
    moreover have "scan_value pf m (t @ e @ 93 # r) = Inr (v, e @ 93 # r)"
      using reads_as_scan[OF Cons.hyps(1) _ assms(6)] Cons.prems(2) Nil n by simp
    ultimately show ?thesis using Nil n assms(5) by (simp add: scan_elements.simps)
  next
    case (Cons u us)
    let ?rest = "str_join (44 # w) ts @ e @ 93 # r"
    have joined: "str_join (44 # w) (t # ts) = t @ 44 # w @ str_join (44 # w) ts" using Cons by simp
    have len: "length t \<le> m" "length (str_join (44 # w) ts) < m" using Cons.prems(2) n unfolding joined by auto
    obtain v' where "reads_as pf u v'" using Cons.hyps(2) Cons by (auto simp: list_all2_Cons1)
    then have "skip_ws ?rest = ?rest" using Cons reads_as_skip by (cases us) auto
    moreover have "scan_value pf m (t @ 44 # w @ ?rest) = Inr (v, 44 # w @ ?rest)"
      using reads_as_scan[OF Cons.hyps(1) len(1)] by simp
    moreover have "scan_elements pf m (acc @ [v]) ?rest = Inr (PList ((acc @ [v]) @ vs), r)"
      using Cons.IH[OF _ len(2)] Cons by simp
    ultimately show ?thesis unfolding joined n using assms(4) by (simp add: scan_elements.simps)
  qed
qed simp

text \<open>A member: its quoted key without the opening quote, a colon, white space, and the text of its value.\<close>

definition member_reads :: "(pystr \<Rightarrow> float64) \<Rightarrow> pystr \<Rightarrow> pystr \<Rightarrow> pystr \<times> pyval \<Rightarrow> bool" where
  "member_reads pf s t kv \<longleftrightarrow>
     (\<exists>u. t = 34 # concat (map encode_char (fst kv)) @ 34 # 58 # s @ u \<and> reads_as pf u (snd kv))"

lemma members_read:
  assumes "list_all2 (member_reads pf s) ts kvs" "ts \<noteq> []" "length (str_join (44 # w) ts) \<le> n"
    "all_space s" "all_space w" "all_space e" "stops (e @ 125 # r)"
  shows "scan_members pf n acc (tl (str_join (44 # w) ts) @ e @ 125 # r) = close_object (acc @ kvs) r"
  using assms(1-3)
proof (induction ts kvs arbitrary: n acc rule: list_all2_induct)
  case (Cons t ts kv kvs)
  obtain u where u: "t = 34 # concat (map encode_char (fst kv)) @ 34 # 58 # s @ u" "reads_as pf u (snd kv)"
    using Cons.hyps(1) by (auto simp: member_reads_def)
  obtain m where n: "n = Suc m" using Cons.prems(2) u(1) by (cases n; cases ts) auto
  note scanned = reads_as_skip[OF u(2)] scan_quoted assms(4)
  show ?case
  proof (cases ts)
    case Nil
    then have "kvs = []" using Cons.hyps(2) by simp
    moreover have "scan_value pf m (u @ e @ 125 # r) = Inr (snd kv, e @ 125 # r)"
      using reads_as_scan[OF u(2) _ assms(7)] Cons.prems(2) Nil n u(1) by simp
    ultimately show ?thesis using Nil n u(1) assms(6) by (simp add: scan_members.simps scanned)
  next
    case (Cons t' ts')
    let ?rest = "str_join (44 # w) ts @ e @ 125 # r"
    have joined: "str_join (44 # w) (t # ts) = t @ 44 # w @ str_join (44 # w) ts" using Cons by simp
    have len: "length u \<le> m" "length (str_join (44 # w) ts) \<le> m" using Cons.prems(2) n u(1) unfolding joined by auto
    obtain kv' where "member_reads pf s t' kv'" using Cons.hyps(2) Cons by (auto simp: list_all2_Cons1)
    then have head: "str_join (44 # w) ts = 34 # tl (str_join (44 # w) ts)"
      using Cons by (cases ts') (auto simp: member_reads_def)
    have "skip_ws ?rest = 34 # tl (str_join (44 # w) ts) @ e @ 125 # r" by (subst head) simp
    moreover have "scan_value pf m (u @ 44 # w @ ?rest) = Inr (snd kv, 44 # w @ ?rest)"
      using reads_as_scan[OF u(2) len(1)] by simp
    moreover have "scan_members pf m (acc @ [kv]) (tl (str_join (44 # w) ts) @ e @ 125 # r) =
        close_object ((acc @ [kv]) @ kvs) r"
      using Cons.IH[OF _ len(2)] Cons by simp
    ultimately show ?thesis unfolding joined unfolding n u(1) using assms(5) by (simp add: scan_members.simps scanned)
  qed
qed simp

section \<open>The indented text\<close>

lemma bracketed_list_reads:
  assumes "list_all2 (reads_as pf) ts vs"
  shows "reads_as pf (bracketed 91 93 d ts) (PList vs)"
proof (cases "ts = []")
  case True
  have "scan_value pf n (91 # 93 # r) = Inr (PList [], r)" if "2 \<le> n" for n r
    using that by (cases n) (simp_all add: scan_value.simps)
  then show ?thesis using True assms by (simp add: reads_as_def bracketed_def is_json_space_def)
next
  case False
  let ?t = "str_join (44 # indent_line (Suc d)) ts"
  have b: "bracketed 91 93 d ts = 91 # indent_line (Suc d) @ ?t @ indent_line d @ [93]"
    using False by (simp add: bracketed_def)
  obtain t ts' where t: "ts = t # ts'" using False by (cases ts) auto
  then obtain v where v: "reads_as pf t v" using assms by (auto simp: list_all2_Cons1)
  then obtain c cs where c: "t = c # cs" "\<not> is_json_space c" "c \<noteq> 93" by (auto simp: reads_as_def)
  have "scan_value pf n (bracketed 91 93 d ts @ r) = Inr (PList vs, r)" if le: "length (bracketed 91 93 d ts) \<le> n" for n r
  proof -
    obtain m where n: "n = Suc m" "length ?t < m" using le unfolding b by (cases n) (auto simp: indent_line_def)
    obtain cs' where "?t @ indent_line d @ 93 # r = c # cs'" using t c by (cases ts') simp_all
    then have "scan_value pf n (bracketed 91 93 d ts @ r) = scan_elements pf m [] (?t @ indent_line d @ 93 # r)"
      using c unfolding b n by (simp add: scan_value.simps)
    then show ?thesis using elements_read[OF assms False n(2), of "indent_line d" r "[]"] by simp
  qed
  then show ?thesis unfolding reads_as_def b by (simp add: is_json_space_def)
qed

lemma bracketed_object_reads:
  assumes "list_all2 (member_reads pf [32]) ts kvs" "distinct (map fst kvs)"
  shows "reads_as pf (bracketed 123 125 d ts) (PDict (map (\<lambda>(k, v). (KStr k, v)) kvs))"
proof -
  have closed: "close_object kvs r = Inr (PDict (map (\<lambda>(k, v). (KStr k, v)) kvs), r)" for r
    using reject_duplicate_keys_distinct[of "[]"] assms(2) by (simp add: close_object_def)
  show ?thesis
  proof (cases "ts = []")
    case True
    then have "kvs = []" using assms(1) by simp
    have "scan_value pf n (123 # 125 # r) = close_object [] r" if "2 \<le> n" for n r
      using that by (cases n) (simp_all add: scan_value.simps)
    then show ?thesis using True closed \<open>kvs = []\<close> by (simp add: reads_as_def bracketed_def is_json_space_def)
  next
    case False
    let ?t = "str_join (44 # indent_line (Suc d)) ts"
    have b: "bracketed 123 125 d ts = 123 # indent_line (Suc d) @ ?t @ indent_line d @ [125]"
      using False by (simp add: bracketed_def)
    obtain t ts' where t: "ts = t # ts'" using False by (cases ts) auto
    then obtain kv where "member_reads pf [32] t kv" using assms(1) by (auto simp: list_all2_Cons1)
    then have head: "?t = 34 # tl ?t" using t by (cases ts') (auto simp: member_reads_def)
    have "scan_value pf n (bracketed 123 125 d ts @ r) = close_object kvs r" if le: "length (bracketed 123 125 d ts) \<le> n" for n r
    proof -
      obtain m where n: "n = Suc m" "length ?t \<le> m" using le unfolding b by (cases n) (auto simp: indent_line_def)
      have "skip_ws (?t @ indent_line d @ 125 # r) = 34 # tl ?t @ indent_line d @ 125 # r" by (subst head) simp
      then show ?thesis using members_read[OF assms(1) False n(2), of "indent_line d" r "[]"]
        unfolding b n by (simp add: scan_value.simps)
    qed
    then show ?thesis unfolding reads_as_def b using closed by (simp add: is_json_space_def)
  qed
qed

lemma json_pretty_PDict:
  "json_pretty fr d (PDict kvs) = bracketed 123 125 d (map (\<lambda>kv. json_quote (fst kv) @ 58 # 32 # json_pretty fr (Suc d) (snd kv))
     (sort_key fst (map (\<lambda>kv. (the (key_str (fst kv)), snd kv)) kvs)))"
  using sort_key_apsnd[of "\<lambda>kv. the (key_str (fst kv))" "json_pretty fr (Suc d)" snd kvs]
  by (simp add: lit_def comp_def case_prod_beta)

lemma pretty_leaf:
  assumes "float_codec fr pf" "json_value v" "json_readable v" "json_pretty fr d v = json_dumps fr v"
  shows "reads_as pf (json_pretty fr d v) (json_sorted v)"
  using reads_as_scans_back[OF json_dumps_scans_back] assms by simp

lemma json_pretty_reads:
  assumes "float_codec fr pf"
  shows "json_value v \<Longrightarrow> json_readable v \<Longrightarrow> reads_as pf (json_pretty fr d v) (json_sorted v)"
proof (induction v arbitrary: d rule: json_value.induct)
  case (6 vs)
  then have "list_all2 (reads_as pf) (map (json_pretty fr (Suc d)) vs) (map json_sorted vs)"
    by (simp add: list_all2_conv_all_nth list_all_length)
  then show ?case using bracketed_list_reads by simp
next
  case (7 kvs)
  let ?ps = "sort_key fst (map (\<lambda>kv. (the (key_str (fst kv)), snd kv)) kvs)"
  have ih: "reads_as pf (json_pretty fr (Suc d) (snd kv)) (json_sorted (snd kv))" if "kv \<in> set ?ps" for kv
    using 7 that by (auto simp: list_all_iff)
  have keys: "map fst kvs = map KStr (map fst (map (\<lambda>kv. (the (key_str (fst kv)), snd kv)) kvs))"
  proof -
    have "fst kv = KStr (the (key_str (fst kv)))" if "kv \<in> set kvs" for kv
      using 7 that by (cases "fst kv") (auto simp: list_all_iff)
    then show ?thesis by simp
  qed
  have "distinct (map fst kvs)" using 7(2) by simp
  then have "distinct (map fst (map (\<lambda>kv. (the (key_str (fst kv)), snd kv)) kvs))" 
    unfolding keys by (rule distinct_map[THEN iffD1, THEN conjunct1])
  then have "distinct (map fst ?ps)" unfolding distinct_map_sort_key .
  then have dist: "distinct (map fst (map (apsnd json_sorted) ?ps))" by (simp add: comp_def)
  have "member_reads pf [32] (json_quote (fst kv) @ 58 # 32 # json_pretty fr (Suc d) (snd kv)) (apsnd json_sorted kv)"
    if "kv \<in> set ?ps" for kv
    using ih[OF that] by (simp add: member_reads_def json_quote_def)
  then have "list_all2 (member_reads pf [32]) (map (\<lambda>kv. json_quote (fst kv) @ 58 # 32 # json_pretty fr (Suc d) (snd kv)) ?ps)
      (map (apsnd json_sorted) ?ps)"
    unfolding list_all2_map1 list_all2_map2 by (intro list.rel_refl_strong)
  from bracketed_object_reads[OF this dist] show ?case unfolding json_pretty_PDict json_sorted_PDict .
qed ((rule pretty_leaf[OF assms]; simp)+)

lemma pretty_document_back:
  assumes "float_codec fr pf" "json_value v" "pretty_json_bytes fr v = Inr b"
  shows "strict_json_loads pf None b = Inr (json_sorted v)"
proof -
  have c: "canonical_ok v" "utf8_encode (json_pretty fr 0 v @ [10]) = Some b"
    using assms(3) is_ok_canonical_json_bytes
    by (auto simp: pretty_json_bytes_def document_bytes_def bindE_Inr_iff is_ok_iff valid_utf8_Inr_iff split: if_splits)
  have r: "reads_as pf (json_pretty fr 0 v) (json_sorted v)"
    using json_pretty_reads assms(1,2) canonical_readable c(1) by blast
  have "json_loads pf (json_pretty fr 0 v @ [10]) = Inr (json_sorted v)"
    using reads_as_skip[OF r, of "[10]"] reads_as_scan[OF r, of "Suc (2 * length (json_pretty fr 0 v @ [10]))" "[10]"]
    by (simp add: json_loads_def)
  moreover have "\<not> starts_with [0xFEFF] (json_pretty fr 0 v @ [10])" using r by (auto simp: reads_as_def starts_with_def)
  moreover have "is_ok (canonical_json_bytes (json_sorted v))"
    using canonical_sorted assms(2) c(1) is_ok_canonical_json_bytes by blast
  ultimately show ?thesis using utf8_decode_encode[OF c(2)] by (auto simp: strict_json_loads_def is_ok_iff)
qed

end
