(* ===== verification/Record_Documents.thy ===== *)
theory Record_Documents
  imports Record_Identity Json_Pretty
begin

text \<open>
  Records as documents: the projections of valid payloads, dataset records, operation records and manifests are
  canonical JSON values, so both document writers accept them and the strict readers give them back. The locale
  \<open>documented\<close> states what a record has to provide for that and proves the laws once.
\<close>

section \<open>The shape of projections\<close>

fun json_shaped :: "pyval \<Rightarrow> bool" where
  "json_shaped (PList xs) = list_all json_shaped xs"
| "json_shaped (PDict kvs) = list_all (\<lambda>kv. json_shaped (snd kv)) kvs"
| "json_shaped (PTuple _) = False"
| "json_shaped (PSet _) = False"
| "json_shaped (PEnum _) = False"
| "json_shaped (PModel _) = False"
| "json_shaped (PProj _ _) = False"
| "json_shaped (POther _) = False"
| "json_shaped _ = True"

lemma shaped_jobj [simp]: "json_shaped (jobj xs) \<longleftrightarrow> (\<forall>kv \<in> set xs. json_shaped (snd kv))"
  by (force simp: jobj_def list_all_iff)

lemma shaped_leaves [simp]: "json_shaped (jstr s)" "json_shaped (jopt f x) \<longleftrightarrow> (\<forall>a. x = Some a \<longrightarrow> json_shaped (f a))"
  by (auto simp: jstr_def jopt_def split: option.splits)

lemma json_value_shaped: "json_value v \<Longrightarrow> json_shaped v"
  by (induction v rule: json_value.induct) (auto simp: list_all_iff)

lemma shaped_json_value: "json_shaped v \<Longrightarrow> wf_py v \<Longrightarrow> canonical_ok v \<Longrightarrow> json_value v"
  by (induction v rule: json_value.induct) (auto simp: list_all_iff split: pykey.splits)

lemma shaped_records [simp]:
  "json_shaped (component_ref_dump a)" "json_shaped (runner_identity_dump b)" "json_shaped (operation_member_dump c)"
  "json_shaped (binding_source_dump d)" "json_shaped (semantic_port_dump e)" "json_shaped (caller_provenance_dump f)"
  "json_shaped (dataset_provenance_projection f)" "json_shaped (dataset_semantics_projection g)"
  "json_shaped (record_column_projection h)" "json_shaped (normalization_event_dump i)" "json_shaped (dataset_finding_dump j)"
  by (auto simp: component_ref_dump_def runner_identity_dump_def operation_member_dump_def binding_source_dump_def
      field_mapping_dump_def list_all_iff semantic_port_dump_def caller_provenance_dump_def dataset_provenance_projection_def
      dataset_semantics_projection_def record_column_projection_def normalization_event_dump_def dataset_finding_dump_def
      set_present)

lemma shaped_sources [simp]: "json_shaped (record_source_projection s)" "json_shaped (external_preprocessing_dump p)"
  by (cases s; simp) (cases p; simp)

lemma payload_json: "dataset_payload_valid p \<Longrightarrow> json_value (payload_projection p)"
  using payload.project_wf payload.project_canonical json_value_shaped
  by (intro shaped_json_value) (auto simp: payload_projection_def payload_column_dump_def list_all_iff dataset_payload_valid_def)

lemma dataset_json: "dataset_record_valid r \<Longrightarrow> json_value (dataset_record_projection r)"
  using dataset_record_laws by (intro shaped_json_value) (auto simp: dataset_record_projection_def list_all_iff)

lemma operation_json:
  assumes "operation_record_valid r"
  shows "json_value (operation_record_projection r)"
proof -
  have "operation_binding_valid (rec_binding r)" using assms unfolding operation_record_valid_def by blast
  then have "json_value (PDict (ob_literals (rec_binding r)))" unfolding operation_binding_valid_def by blast
  moreover have "rec_compatibility r = []" using assms by (rule operation_record_no_operation_source(2))
  ultimately have "json_shaped (operation_record_projection r)"
    using json_value_shaped[of "PDict (ob_literals (rec_binding r))"]
    by (auto simp: operation_record_projection_def operation_binding_projection_def list_all_iff set_present simp del: json_value.simps json_shaped.simps(2))
  then show ?thesis using operation_record_laws[OF assms] shaped_json_value by blast
qed

section \<open>Every valid record has a document\<close>

lemma sign_part_chars: "sign_part p s = (a, b) \<Longrightarrow> \<forall>c. p c \<longrightarrow> c < 128 \<Longrightarrow> \<forall>c \<in> set a. c < 128"
  by (cases s) (auto simp: sign_part_def split: if_splits)

lemma digit_ascii: "is_digit c \<Longrightarrow> c < 128"
  by (simp add: is_digit_def)

lemma takeWhile_digits_ascii: "c \<in> set (takeWhile is_digit s) \<Longrightarrow> c < 128"
  by (drule set_takeWhileD) (simp add: digit_ascii)

lemma float_text_scalar:
  assumes "float_text t"
  shows "scalar_str t"
proof -
  have whole: "\<forall>c \<in> set w. c < 128" if "integer_part s = Some (w, x)" for s w x
    using that by (cases s) (auto simp: integer_part_def is_digit_def takeWhile_digits_ascii dest: set_takeWhileD split: if_splits)
  have frac: "\<forall>c \<in> set (fst (fraction_part s)). c < 128" for s
    by (cases s) (auto simp: fraction_part_def takeWhile_digits_ascii)
  have expo: "\<forall>c \<in> set (fst (exponent_part s)). c < 128" for s
  proof (cases s)
    case (Cons d ds)
    obtain sg r where sg: "sign_part (\<lambda>d. d = 45 \<or> d = 43) ds = (sg, r)" by fastforce
    have "\<forall>c \<in> set sg. c < 128" using sign_part_chars[OF sg] by auto
    then show ?thesis using Cons sg by (auto simp: exponent_part_def takeWhile_digits_ascii)
  qed (simp add: exponent_part_def)
  obtain sg s1 where sg: "sign_part (\<lambda>c. c = 45) t = (sg, s1)" by fastforce
  have "\<forall>c \<in> set sg. c < 128" using sign_part_chars[OF sg] by auto
  moreover obtain w s2 where w: "integer_part s1 = Some (w, s2)"
    using assms sg by (auto simp: float_text_def scan_number_def split: option.splits)
  moreover have "t = sg @ w @ fst (fraction_part s2) @ fst (exponent_part (snd (fraction_part s2)))"
    using assms sg w by (auto simp: float_text_def scan_number_def split: prod.splits)
  ultimately have "\<forall>c \<in> set t. c < 128" using whole frac expo by (metis Un_iff set_append)
  then show ?thesis by (auto simp: scalar_str_def list_all_iff is_scalar_def is_surrogate_def)
qed

lemma scalar_append_iff: "scalar_str (s @ t) \<longleftrightarrow> scalar_str s \<and> scalar_str t"
  by (simp add: scalar_str_def)

lemma scalar_quote: "scalar_str s \<Longrightarrow> scalar_str (json_quote s)"
  by (simp add: json_quote_def scalar_append_iff scalar_encode_chars is_scalar_ascii)

lemma scalar_int_repr: "scalar_str (int_repr i)"
  using nat_repr_digits digit_ascii by (fastforce simp: int_repr_def scalar_str_def list_all_iff intro: is_scalar_ascii)

lemma scalar_indent: "scalar_str (indent_line d)"
  by (simp add: indent_line_def scalar_str_def list_all_iff is_scalar_ascii)

lemma scalar_bracketed:
  "is_scalar l \<Longrightarrow> is_scalar r \<Longrightarrow> \<forall>t \<in> set ts. scalar_str t \<Longrightarrow> scalar_str (bracketed l r d ts)"
  by (simp add: bracketed_def scalar_append_iff scalar_indent scalar_str_join is_scalar_ascii)

lemma scalar_json_dumps:
  assumes "float_codec fr pf"
  shows "json_value v \<Longrightarrow> canonical_ok v \<Longrightarrow> scalar_str (json_dumps fr v)"
proof (induction v rule: json_value.induct)
  case (4 x)
  then show ?case using assms float_text_scalar by (simp add: float_codec_def)
next
  case (6 vs)
  then show ?case by (auto simp: scalar_append_iff list_all_iff intro!: scalar_str_join)
next
  case (7 kvs)
  then have "scalar_str (json_dumps fr (snd kv))" "scalar_str (the (key_str (fst kv)))" if "kv \<in> set kvs" for kv
    using that by (auto simp: list_all_iff split: pykey.splits)
  then show ?case by (auto simp: scalar_append_iff scalar_quote intro!: scalar_str_join)
qed (simp_all add: scalar_int_repr scalar_quote)

lemma scalar_json_pretty:
  assumes "float_codec fr pf"
  shows "json_value v \<Longrightarrow> canonical_ok v \<Longrightarrow> scalar_str (json_pretty fr d v)"
proof (induction v arbitrary: d rule: json_value.induct)
  case (4 x)
  then show ?case using assms float_text_scalar by (simp add: float_codec_def)
next
  case (6 vs)
  then show ?case by (auto simp: list_all_iff is_scalar_ascii intro!: scalar_bracketed)
next
  case (7 kvs)
  then have "scalar_str (json_pretty fr (Suc d) (snd kv))" "scalar_str (the (key_str (fst kv)))" if "kv \<in> set kvs" for kv
    using that by (auto simp: list_all_iff split: pykey.splits)
  then show ?case by (auto simp: scalar_append_iff scalar_quote is_scalar_ascii intro!: scalar_bracketed)
qed (simp_all add: scalar_int_repr scalar_quote)

lemma json_value_dumpable: "json_value v \<Longrightarrow> dumpable v"
  by (induction v rule: json_value.induct) (auto simp: list_all_iff)

lemma document_exists:
  assumes "json_value v" "canonical_ok v" "scalar_str t"
  shows "\<exists>b. document_bytes v t = Inr b"
proof -
  obtain c where "canonical_json_bytes v = Inr c" using assms(2) is_ok_canonical_json_bytes by (auto simp: is_ok_iff)
  moreover have "scalar_str (t @ [10])" using assms(3) by (simp add: scalar_append_iff is_scalar_ascii)
  ultimately show ?thesis using json_value_dumpable[OF assms(1)] by (auto simp: document_bytes_def valid_utf8_def scalar_str_iff)
qed

locale documented =
  fixes project :: "'a \<Rightarrow> pyval" and ok :: "'a \<Rightarrow> bool"
  assumes project_json: "ok x \<Longrightarrow> json_value (project x)"
    and project_canonical: "ok x \<Longrightarrow> canonical_ok (project x)"
begin

lemma cas_document_total:
  assumes "float_codec fr pf" "ok x"
  shows "\<exists>b. cas_json_bytes fr (project x) = Inr b"
  unfolding cas_json_bytes_def
  using document_exists project_json project_canonical scalar_json_dumps assms by blast

lemma pretty_document_total:
  assumes "float_codec fr pf" "ok x"
  shows "\<exists>b. pretty_json_bytes fr (project x) = Inr b"
  unfolding pretty_json_bytes_def
  using document_exists project_json project_canonical scalar_json_pretty assms by blast

lemma cas_document_reads_back:
  assumes "float_codec fr pf" "ok x" "cas_json_bytes fr (project x) = Inr b" "length b \<le> m"
  shows "strict_cas_json_loads fr pf m b = Inr (json_sorted (project x))"
  using cas_document_back project_json assms by blast

lemma pretty_document_reads_back:
  assumes "float_codec fr pf" "ok x" "pretty_json_bytes fr (project x) = Inr b"
  shows "strict_json_loads pf None b = Inr (json_sorted (project x))"
  using pretty_document_back project_json assms by blast

end

interpretation payload_document: documented payload_projection dataset_payload_valid
  by unfold_locales (simp_all add: payload_json payload.project_canonical)

interpretation dataset_document: documented dataset_record_projection dataset_record_valid
  by unfold_locales (simp_all add: dataset_json dataset_record_laws)

interpretation operation_document: documented operation_record_projection operation_record_valid
  by unfold_locales (simp_all add: operation_json operation_record_laws)

section \<open>How long a document can be\<close>

text \<open>A bound on the indented text of a value at a depth, which does not depend on the order of its members.\<close>

fun text_weight :: "(float64 \<Rightarrow> pystr) \<Rightarrow> nat \<Rightarrow> pyval \<Rightarrow> nat" where
  "text_weight fr d (PStr s) = 6 * length s + 2"
| "text_weight fr d (PInt i) = length (int_repr i)"
| "text_weight fr d (PFloat x) = length (fr x)"
| "text_weight fr d (PList vs) = 4 * d + 6 + sum_list (map (\<lambda>v. text_weight fr (Suc d) v + 2 * d + 4) vs)"
| "text_weight fr d (PDict kvs) =
     4 * d + 6 + sum_list (map (\<lambda>kv. 6 * length (the (key_str (fst kv))) + text_weight fr (Suc d) (snd kv) + 2 * d + 8) kvs)"
| "text_weight fr d _ = 5"

lemma length_str_join_le: "length (str_join sep ts) \<le> sum_list (map (\<lambda>t. length t + length sep) ts)"
proof (induction ts)
  case (Cons t ts)
  then show ?case by (cases ts) simp_all
qed simp

lemma length_bracketed_le: "length (bracketed l r d ts) \<le> 4 * d + 6 + sum_list (map (\<lambda>t. length t + (2 * d + 4)) ts)"
  using length_str_join_le[of "44 # indent_line (Suc d)" ts] by (simp add: bracketed_def indent_line_def numeral_eq_Suc)

lemma length_encode_char: "length (encode_char c) \<le> 6"
  by (cases c rule: encode_char_cases) (simp_all add: length_hexn)

lemma length_quote_le: "length (json_quote s) \<le> 6 * length s + 2"
proof -
  have "length (concat (map encode_char s)) \<le> 6 * length s"
  proof (induction s)
    case (Cons c s)
    then show ?case using length_encode_char[of c] by simp
  qed simp
  then show ?thesis by (simp add: json_quote_def)
qed

lemma sum_list_sort_key: "sum_list (map f (sort_key g xs)) = (sum_list (map f xs) :: nat)"
proof (induction xs)
  case (Cons x xs)
  have "sum_list (map f (insort_key g x ys)) = f x + sum_list (map f ys)" for ys by (induction ys) simp_all
  then show ?case using Cons by simp
qed simp

lemma json_pretty_weight: "json_value v \<Longrightarrow> length (json_pretty fr d v) \<le> text_weight fr d v"
proof (induction v arbitrary: d rule: json_value.induct)
  case (6 vs)
  then have "length (json_pretty fr (Suc d) v) + (2 * d + 4) \<le> text_weight fr (Suc d) v + 2 * d + 4" if "v \<in> set vs" for v
    using that by (simp add: list_all_iff)
  then have "sum_list (map (\<lambda>v. length (json_pretty fr (Suc d) v) + (2 * d + 4)) vs) \<le>
      sum_list (map (\<lambda>v. text_weight fr (Suc d) v + 2 * d + 4) vs)"
    by (intro sum_list_mono) simp
  then show ?case using length_bracketed_le[of 91 93 d "map (json_pretty fr (Suc d)) vs"] by (simp add: comp_def)
next
  case (7 kvs)
  let ?t = "\<lambda>kv. json_quote (fst kv) @ 58 # 32 # json_pretty fr (Suc d) (snd kv)"
  let ?ks = "map (\<lambda>kv. (the (key_str (fst kv)), snd kv)) kvs"
  have "length (?t (the (key_str (fst kv)), snd kv)) + (2 * d + 4) \<le>
      6 * length (the (key_str (fst kv))) + text_weight fr (Suc d) (snd kv) + 2 * d + 8" if "kv \<in> set kvs" for kv
  proof -
    have "json_value (snd kv)" using 7(2) that by (simp add: list_all_iff)
    then have "length (json_pretty fr (Suc d) (snd kv)) \<le> text_weight fr (Suc d) (snd kv)" using 7(1) that by blast
    then show ?thesis using length_quote_le[of "the (key_str (fst kv))"] by simp
  qed
  then have "sum_list (map (\<lambda>kv. length (?t (the (key_str (fst kv)), snd kv)) + (2 * d + 4)) kvs) \<le>
      sum_list (map (\<lambda>kv. 6 * length (the (key_str (fst kv))) + text_weight fr (Suc d) (snd kv) + 2 * d + 8) kvs)"
    by (rule sum_list_mono)
  moreover have "sum_list (map (\<lambda>t. length t + (2 * d + 4)) (map ?t (sort_key fst ?ks))) =
      sum_list (map (\<lambda>kv. length (?t (the (key_str (fst kv)), snd kv)) + (2 * d + 4)) kvs)"
    using sum_list_sort_key[of "\<lambda>kv. length (?t kv) + (2 * d + 4)" fst ?ks] by (simp add: comp_def)
  ultimately show ?case
    using length_bracketed_le[of 123 125 d "map ?t (sort_key fst ?ks)"] unfolding json_pretty_PDict by simp
qed (use length_quote_le in \<open>simp_all add: lit_def\<close>)

lemma length_utf8_encode: "utf8_encode s = Some b \<Longrightarrow> length b \<le> 4 * length s"
proof (induction s arbitrary: b)
  case (Cons c s)
  have "length u \<le> 4" if "utf8_char c = Some u" for u using that by (auto simp: utf8_char_def split: if_splits)
  then show ?case using Cons by (force split: option.splits)
qed simp

lemma pretty_document_length:
  assumes "json_value v" "pretty_json_bytes fr v = Inr b"
  shows "length b \<le> 4 * (text_weight fr 0 v + 1)"
proof -
  have "utf8_encode (json_pretty fr 0 v @ [10]) = Some b"
    using assms(2) by (auto simp: pretty_json_bytes_def document_bytes_def bindE_Inr_iff valid_utf8_Inr_iff split: if_splits)
  then show ?thesis using length_utf8_encode json_pretty_weight[OF assms(1), of fr 0] by fastforce
qed

text \<open>The compact text is no longer.\<close>

lemma json_dumps_weight: "json_value v \<Longrightarrow> length (json_dumps fr v) \<le> text_weight fr d v"
proof (induction v arbitrary: d rule: json_value.induct)
  case (6 vs)
  have "sum_list (map (\<lambda>v. length (json_dumps fr v) + 1) vs) \<le> sum_list (map (\<lambda>v. text_weight fr (Suc d) v + 2 * d + 4) vs)"
  proof (rule sum_list_mono)
    fix v assume "v \<in> set vs"
    then have "length (json_dumps fr v) \<le> text_weight fr (Suc d) v" using 6 by (simp add: list_all_iff)
    then show "length (json_dumps fr v) + 1 \<le> text_weight fr (Suc d) v + 2 * d + 4" by simp
  qed
  then show ?case using length_str_join_le[of "lit '',''" "map (json_dumps fr) vs"] by (simp add: comp_def lit_def)
next
  case (7 kvs)
  let ?t = "\<lambda>kv. json_quote (fst kv) @ lit '':'' @ snd kv"
  let ?ks = "map (\<lambda>kv. (the (key_str (fst kv)), json_dumps fr (snd kv))) kvs"
  have "sum_list (map (\<lambda>kv. length (?t (the (key_str (fst kv)), json_dumps fr (snd kv))) + 1) kvs) \<le>
      sum_list (map (\<lambda>kv. 6 * length (the (key_str (fst kv))) + text_weight fr (Suc d) (snd kv) + 2 * d + 8) kvs)"
  proof (rule sum_list_mono)
    fix kv assume "kv \<in> set kvs"
    then have "length (json_dumps fr (snd kv)) \<le> text_weight fr (Suc d) (snd kv)" using 7 by (auto simp: list_all_iff)
    then show "length (?t (the (key_str (fst kv)), json_dumps fr (snd kv))) + 1 \<le>
        6 * length (the (key_str (fst kv))) + text_weight fr (Suc d) (snd kv) + 2 * d + 8"
      using length_quote_le[of "the (key_str (fst kv))"] by (simp add: lit_def)
  qed
  moreover have "sum_list (map (\<lambda>t. length t + 1) (map ?t (sort_key fst ?ks))) =
      sum_list (map (\<lambda>kv. length (?t (the (key_str (fst kv)), json_dumps fr (snd kv))) + 1) kvs)"
    using sum_list_sort_key[of "\<lambda>kv. length (?t kv) + 1" fst ?ks] by (simp add: comp_def)
  ultimately have "length (str_join (lit '','') (map ?t (sort_key fst ?ks))) + 6 \<le> text_weight fr d (PDict kvs)"
    using length_str_join_le[of "lit '',''" "map ?t (sort_key fst ?ks)"] by (simp add: lit_def)
  moreover have "(\<lambda>(k, t). json_quote k @ lit '':'' @ t) = ?t" by auto
  ultimately show ?case unfolding json_dumps.simps by (simp add: lit_def)
qed (use length_quote_le in \<open>simp_all add: lit_def\<close>)

lemma cas_document_length:
  assumes "json_value v" "cas_json_bytes fr v = Inr b"
  shows "length b \<le> 4 * (text_weight fr 0 v + 1)"
proof -
  have "utf8_encode (json_dumps fr v @ [10]) = Some b"
    using assms(2) by (auto simp: cas_json_bytes_def document_bytes_def bindE_Inr_iff valid_utf8_Inr_iff split: if_splits)
  then show ?thesis using length_utf8_encode json_dumps_weight[OF assms(1), of fr 0] by fastforce
qed

end
