(* ===== verification/Reconcile.thy ===== *)
theory Reconcile
  imports Host_Failures Py_Compare Record_Documents
begin

text \<open>
  \<^verbatim>\<open>shared/operation_records.py\<close>, with \<^verbatim>\<open>resolve_dataset_fields\<close> of \<^verbatim>\<open>shared/dataset_registry.py\<close>: the reconciliation of
  a published bundle with its manifest, its binding and its operation record. A bundle directory is what the host
  reads of it: its entry names, and for each name and byte limit the bytes, an overrun or a failure. The Pydantic
  parse of a manifest is a parameter, and so are \<^verbatim>\<open>float.__repr__\<close> and \<^verbatim>\<open>float\<close>.
\<close>

section \<open>Outcomes and parameters\<close>

datatype host_exc = Host host_failure_code details | Other py_exc

record codec =
  co_float_repr :: "float64 \<Rightarrow> pystr"
  co_parse_float :: "pystr \<Rightarrow> float64"
  co_parse_dataset :: "pyval \<Rightarrow> dataset_record option"
  co_parse_payload :: "pyval \<Rightarrow> dataset_payload option"
  co_parse_operation :: "pyval \<Rightarrow> operation_record option"
  co_parse_manifest :: "pyval \<Rightarrow> operation_manifest option"

text \<open>\<^verbatim>\<open>model_validate\<close>: the parse of the fields, then every validator of the model.\<close>

definition model_validate :: "(pyval \<Rightarrow> 'a option) \<Rightarrow> ('a \<Rightarrow> bool) \<Rightarrow> pyval \<Rightarrow> py_exc + 'a" where
  "model_validate parse valid v =
     (case parse v of
        None \<Rightarrow> value_error ''validation error''
      | Some a \<Rightarrow> if valid a then Inr a else value_error ''validation error'')"

definition operation_manifest_valid :: "operation_manifest \<Rightarrow> bool" where
  "operation_manifest_valid m \<longleftrightarrow> operation_manifest_fields_valid m \<and> is_ok (validate_bindings m)"

datatype member_read = ReadOk bytes | OverLimit "nat option" | ReadFailed

record bundle_dir =
  bu_names :: "pystr list option"
  bu_read :: "pystr \<Rightarrow> nat \<Rightarrow> member_read"

definition MAX_NORMALIZED_RESULT_BYTES :: nat where
  "MAX_NORMALIZED_RESULT_BYTES = 64 * 1024 * 1024"

definition MAX_ARTIFACT_BYTES :: nat where
  "MAX_ARTIFACT_BYTES = 5 * 1024 * 1024"

definition MAX_OPERATION_BUNDLE_BYTES :: nat where
  "MAX_OPERATION_BUNDLE_BYTES = 128 * 1024 * 1024"

definition MAX_RESULT_TOP_LEVEL_FIELDS :: nat where
  "MAX_RESULT_TOP_LEVEL_FIELDS = 256"

abbreviation corrupt :: "host_exc + 'a" where
  "corrupt \<equiv> Inl (Host HF_RECORD_CORRUPT [])"

abbreviation bad_mapping :: "host_exc + 'a" where
  "bad_mapping \<equiv> Inl (Host HF_INVALID_FIELD_MAPPING (fields_detail []))"

definition limit_detail :: "string \<Rightarrow> nat \<Rightarrow> nat \<Rightarrow> details" where
  "limit_detail name maximum actual =
     [(KStr (lit ''limit_name''), jstr name), (KStr (lit ''maximum''), PInt (int maximum)), (KStr (lit ''actual''), PInt (int actual))]"

definition result_limit :: "string \<Rightarrow> nat \<Rightarrow> nat \<Rightarrow> host_exc" where
  "result_limit name maximum actual = Host HF_RESULT_LIMIT_EXCEEDED (limit_detail name maximum actual)"

definition same_json :: "pyval \<Rightarrow> pyval \<Rightarrow> bool" where
  "same_json left right =
     (case (canonical_json_bytes left, canonical_json_bytes right) of (Inr a, Inr b) \<Rightarrow> a = b | _ \<Rightarrow> False)"

text \<open>A non-host exception that escapes as it is.\<close>

definition liftO :: "py_exc + 'a \<Rightarrow> host_exc + 'a" where
  "liftO r = (case r of Inl e \<Rightarrow> Inl (Other e) | Inr a \<Rightarrow> Inr a)"

text \<open>An exception turned into a corrupt record.\<close>

definition or_corrupt :: "py_exc + 'a \<Rightarrow> host_exc + 'a" where
  "or_corrupt r = (case r of Inl _ \<Rightarrow> corrupt | Inr a \<Rightarrow> Inr a)"

section \<open>Members of a bundle\<close>

definition bounded_member_bytes :: "bundle_dir \<Rightarrow> pystr \<Rightarrow> nat \<Rightarrow> string \<Rightarrow> host_exc + bytes" where
  "bounded_member_bytes b path maximum limit_name =
     (case bu_read b path maximum of
        ReadOk content \<Rightarrow> Inr content
      | OverLimit actual \<Rightarrow>
          Inl (result_limit limit_name maximum (case actual of None \<Rightarrow> maximum + 1 | Some n \<Rightarrow> n))
      | ReadFailed \<Rightarrow> corrupt)"

definition file_digest_dump :: "file_digest \<Rightarrow> pyval" where
  "file_digest_dump f = jobj [(''path'', PStr (fd_path f)), (''sha256'', PStr (fd_sha256 f))]"

definition svg_artifact_dump :: "svg_artifact \<Rightarrow> pyval" where
  "svg_artifact_dump a =
     jobj [(''kind'', jstr ''svg''), (''media_type'', jstr ''image/svg+xml''), (''path'', PStr (sa_path a)),
           (''visualization_id'', PStr (sa_visualization_id a)), (''title'', PStr (sa_title a)),
           (''alt_text'', PStr (sa_alt_text a)), (''visualization_hash'', PStr (sa_visualization_hash a)),
           (''sha256'', PStr (sa_sha256 a)), (''renderer'', PStr (sa_renderer a)),
           (''renderer_version'', PStr (sa_renderer_version a))]"

definition operation_manifest_dump :: "operation_manifest \<Rightarrow> pyval" where
  "operation_manifest_dump m =
     jobj [(''schema_version'', PInt 1), (''protocol_version'', PStr (om_protocol_version m)),
           (''canonicalization_id'', PStr (om_canonicalization_id m)), (''execution_mode'', jstr ''unmanaged''),
           (''operation_hash'', PStr (om_operation_hash m)), (''request'', operation_request_dump (om_request m)),
           (''component'', component_ref_dump (om_component m)), (''runner'', runner_identity_dump (om_runner m)),
           (''input'', file_digest_dump (om_input m)), (''result'', file_digest_dump (om_result m)),
           (''artifacts'', PList (map svg_artifact_dump (om_artifacts m)))]"

definition parsed_manifest :: "codec \<Rightarrow> bytes \<Rightarrow> py_exc + operation_manifest" where
  "parsed_manifest c content =
     bindE (strict_json_loads (co_parse_float c) None content) (model_validate (co_parse_manifest c) operation_manifest_valid)"

definition manifest_bytes :: "codec \<Rightarrow> operation_manifest \<Rightarrow> bytes \<Rightarrow> host_exc + bytes" where
  "manifest_bytes c manifest content =
     bindE (liftO (pretty_json_bytes (co_float_repr c) (operation_manifest_dump manifest))) (\<lambda>expected.
     if content \<noteq> expected then corrupt
     else bindE (or_corrupt (parsed_manifest c content)) (\<lambda>parsed.
     if \<not> py_eq (operation_manifest_dump parsed) (operation_manifest_dump manifest) then corrupt else Inr content))"

definition load_result :: "codec \<Rightarrow> bytes \<Rightarrow> host_exc + (pykey \<times> pyval) list" where
  "load_result c content =
     (if length content > MAX_NORMALIZED_RESULT_BYTES
      then Inl (result_limit ''normalized_result_member_bytes'' MAX_NORMALIZED_RESULT_BYTES (length content))
      else bindE (or_corrupt (strict_json_loads (co_parse_float c) None content)) (\<lambda>v.
        case v of
          PDict kvs \<Rightarrow>
            if length kvs > MAX_RESULT_TOP_LEVEL_FIELDS
            then Inl (result_limit ''result_top_level_fields'' MAX_RESULT_TOP_LEVEL_FIELDS (length kvs))
            else Inr kvs
        | _ \<Rightarrow> corrupt))"

section \<open>Bindings\<close>

fun resolve_loop ::
  "dataset_payload \<Rightarrow> field_mapping list \<Rightarrow> pystr list \<Rightarrow> (pykey \<times> pyval) list \<Rightarrow> bool \<Rightarrow> (pykey \<times> pyval) list option" where
  "resolve_loop p [] seen_source output invalid = (if invalid then None else Some output)"
| "resolve_loop p (m # ms) seen_source output invalid =
     (case map_of (rev (zip (map py_field_id (dp_columns p)) [0..<length (dp_columns p)])) (fm_source_field m) of
        None \<Rightarrow> resolve_loop p ms seen_source output True
      | Some i \<Rightarrow>
          if fm_source_field m \<in> set seen_source \<or> KStr (fm_input_field m) \<in> set (map fst output)
          then resolve_loop p ms seen_source output True
          else resolve_loop p ms (fm_source_field m # seen_source)
                 (output @ [(KStr (fm_input_field m), PList (map (\<lambda>row. row ! i) (dp_rows p)))]) invalid)"

definition resolve_dataset_fields ::
  "dataset_payload \<Rightarrow> field_mapping list \<Rightarrow> (pykey \<times> pyval) list \<Rightarrow> host_exc + (pykey \<times> pyval) list" where
  "resolve_dataset_fields p mappings literals =
     (case resolve_loop p mappings [] literals False of None \<Rightarrow> bad_mapping | Some output \<Rightarrow> Inr output)"

definition resolved_input ::
  "operation_binding \<Rightarrow> operation_manifest \<Rightarrow> dataset_record option \<Rightarrow> dataset_payload option \<Rightarrow> host_exc + (pykey \<times> pyval) list" where
  "resolved_input b m dataset_record dataset_payload =
     (case ob_source b of
        None \<Rightarrow>
          if dataset_record \<noteq> None \<or> dataset_payload \<noteq> None then bad_mapping else Inr (ob_literals b)
      | Some source \<Rightarrow>
          if bs_kind source = OperationKind then Inl (Host HF_UNSUPPORTED_BINDING [])
          else (case (dataset_record, dataset_payload) of
                  (Some r, Some p) \<Rightarrow>
                    bindE (liftO (dataset_record_reference r)) (\<lambda>ref.
                    if bs_ref source \<noteq> ref then corrupt
                    else bindE (or_corrupt (validate_payload r p)) (\<lambda>_.
                    bindE (case resolve_dataset_fields p (bs_mappings source) (ob_literals b) of
                             Inl _ \<Rightarrow> bad_mapping | Inr a \<Rightarrow> Inr a) (\<lambda>resolved.
                    if \<not> same_json (caller_provenance_dump (source_provenance (dr_source r)))
                           (caller_provenance_dump (or_provenance (om_request m)))
                    then corrupt else Inr resolved)))
                | _ \<Rightarrow> Inl (Host HF_INTERNAL_FAILURE [])))"

definition validate_binding ::
  "operation_binding \<Rightarrow> operation_manifest \<Rightarrow> dataset_record option \<Rightarrow> dataset_payload option \<Rightarrow> host_exc + unit" where
  "validate_binding b m dataset_record dataset_payload =
     bindE (resolved_input b m dataset_record dataset_payload) (\<lambda>resolved.
     if \<not> same_json (PDict resolved) (PDict (or_input (om_request m))) then bad_mapping else Inr ())"

section \<open>Derivation\<close>

fun member_maximum :: "member_kind \<Rightarrow> nat" where
  "member_maximum RESULT = MAX_NORMALIZED_RESULT_BYTES"
| "member_maximum ARTIFACT = MAX_ARTIFACT_BYTES"
| "member_maximum NORMALIZED_INPUT = MAX_OPERATION_BUNDLE_BYTES"

fun member_limit_name :: "member_kind \<Rightarrow> string" where
  "member_limit_name RESULT = ''normalized_result_member_bytes''"
| "member_limit_name ARTIFACT = ''artifact_decoded_bytes''"
| "member_limit_name NORMALIZED_INPUT = ''operation_bundle_bytes''"

definition declared_members :: "operation_manifest \<Rightarrow> (member_kind \<times> pystr \<times> pystr) list" where
  "declared_members m =
     (NORMALIZED_INPUT, fd_path (om_input m), fd_sha256 (om_input m)) #
     (RESULT, fd_path (om_result m), fd_sha256 (om_result m)) #
     map (\<lambda>a. (ARTIFACT, sa_path a, sa_sha256 a)) (om_artifacts m)"

definition derive_member :: "bundle_dir \<Rightarrow> member_kind \<times> pystr \<times> pystr \<Rightarrow> host_exc + operation_member" where
  "derive_member b declared =
     (case declared of (kind, path, sha) \<Rightarrow>
        bindE (bounded_member_bytes b path (member_maximum kind) (member_limit_name kind)) (\<lambda>content.
        if sha256_hexdigest content \<noteq> sha then corrupt
        else let m = \<lparr>me_kind = kind, me_path = path, me_sha256 = sha, me_size_bytes = int (length content)\<rparr> in
             if operation_member_valid m then Inr m else Inl (Other (ValueError (lit ''validation error'')))))"

definition check_names :: "operation_manifest \<Rightarrow> bundle_dir \<Rightarrow> host_exc + unit" where
  "check_names m b =
     (let expected_names = lit ''manifest.json'' # member_paths m in
      bindE (or_corrupt (mapE portable_member_key expected_names)) (\<lambda>expected_keys.
      case bu_names b of
        None \<Rightarrow> corrupt
      | Some actual_names \<Rightarrow>
          bindE (or_corrupt (mapE portable_member_key actual_names)) (\<lambda>actual_keys.
          if card (set expected_keys) \<noteq> length expected_keys \<or> card (set actual_keys) \<noteq> length actual_keys \<or>
             set actual_names \<noteq> set expected_names
          then corrupt else Inr ())))"

definition record_of ::
  "operation_manifest \<Rightarrow> bytes \<Rightarrow> operation_member list \<Rightarrow> operation_binding \<Rightarrow> port_compatibility list \<Rightarrow> operation_record" where
  "record_of m content members b compatibility =
     \<lparr>rec_protocol_version = om_protocol_version m, rec_component = om_component m, rec_operation_hash = om_operation_hash m,
      rec_manifest_sha256 = sha256_hexdigest content, rec_members = sort_key member_key members, rec_runner = om_runner m,
      rec_renderers = sort_key renderer_key
        (remdups (map (\<lambda>a. \<lparr>ri_name = sa_renderer a, ri_version = sa_renderer_version a\<rparr>) (om_artifacts m))),
      rec_binding = b, rec_compatibility = compatibility\<rparr>"

definition derive_record ::
  "codec \<Rightarrow> operation_manifest \<Rightarrow> bundle_dir \<Rightarrow> operation_binding \<Rightarrow> port_compatibility list \<Rightarrow> host_exc + operation_record" where
  "derive_record c m b binding compatibility =
     (if length (om_artifacts m) > MAX_OPERATION_ARTIFACTS
      then Inl (result_limit ''operation_artifacts'' MAX_OPERATION_ARTIFACTS (length (om_artifacts m)))
      else bindE (check_names m b) (\<lambda>_.
      bindE (bounded_member_bytes b (lit ''manifest.json'') MAX_OPERATION_BUNDLE_BYTES ''operation_bundle_bytes'') (\<lambda>content.
      bindE (manifest_bytes c m content) (\<lambda>_.
      bindE (mapE (derive_member b) (declared_members m)) (\<lambda>members.
      let total = length content + nat (sum_list (map me_size_bytes members)) in
      if total > MAX_OPERATION_BUNDLE_BYTES
      then Inl (result_limit ''operation_bundle_bytes'' MAX_OPERATION_BUNDLE_BYTES total)
      else bindE (bounded_member_bytes b (fd_path (om_result m)) MAX_NORMALIZED_RESULT_BYTES
                    ''normalized_result_member_bytes'') (\<lambda>result_content.
      bindE (load_result c result_content) (\<lambda>_.
      let r = record_of m content members binding compatibility in
      if operation_record_valid r then Inr r else corrupt)))))))"

definition build_operation_record ::
  "codec \<Rightarrow> operation_manifest \<Rightarrow> bundle_dir \<Rightarrow> operation_binding \<Rightarrow> dataset_record option \<Rightarrow> dataset_payload option \<Rightarrow>
     port_compatibility list \<Rightarrow> host_exc + operation_record" where
  "build_operation_record c m b binding dataset_record dataset_payload compatibility =
     (if \<not> operation_binding_valid binding then bad_mapping
      else if compatibility \<noteq> [] \<and> operation_source binding = None then corrupt
      else bindE (validate_binding binding m dataset_record dataset_payload) (\<lambda>_.
           derive_record c m b binding compatibility))"

definition reconcile_operation_record ::
  "codec \<Rightarrow> operation_record \<Rightarrow> bundle_dir \<Rightarrow> dataset_record option \<Rightarrow> dataset_payload option \<Rightarrow> host_exc + operation_manifest" where
  "reconcile_operation_record c r b dataset_record dataset_payload =
     bindE (bounded_member_bytes b (lit ''manifest.json'') MAX_OPERATION_BUNDLE_BYTES ''operation_bundle_bytes'') (\<lambda>content.
     bindE (or_corrupt (parsed_manifest c content)) (\<lambda>m.
     bindE (validate_binding (rec_binding r) m dataset_record dataset_payload) (\<lambda>_.
     bindE (derive_record c m b (rec_binding r) (rec_compatibility r)) (\<lambda>derived.
     if \<not> py_eq (operation_record_projection derived) (operation_record_projection r) then corrupt else Inr m))))"

definition load_operation_result ::
  "codec \<Rightarrow> operation_record \<Rightarrow> bundle_dir \<Rightarrow> dataset_record option \<Rightarrow> dataset_payload option \<Rightarrow> host_exc + (pykey \<times> pyval) list" where
  "load_operation_result c r b dataset_record dataset_payload =
     bindE (reconcile_operation_record c r b dataset_record dataset_payload) (\<lambda>m.
     bindE (bounded_member_bytes b (fd_path (om_result m)) MAX_NORMALIZED_RESULT_BYTES ''normalized_result_member_bytes'')
       (load_result c))"

definition copy_member :: "operation_record \<Rightarrow> bundle_dir \<Rightarrow> pystr \<Rightarrow> host_exc + pystr \<times> bytes" where
  "copy_member r b path =
     (case map_of (rev (map (\<lambda>m. (me_path m, m)) (rec_members r))) path of
        None \<Rightarrow> Inl (Other (ValueError (lit ''KeyError'')))
      | Some m \<Rightarrow>
          bindE (bounded_member_bytes b (me_path m) (member_maximum (me_kind m)) (member_limit_name (me_kind m))) (\<lambda>content.
          if int (length content) \<noteq> me_size_bytes m \<or> sha256_hexdigest content \<noteq> me_sha256 m then corrupt
          else Inr (me_path m, content)))"

definition reconciled_bundle_bytes ::
  "codec \<Rightarrow> operation_record \<Rightarrow> bundle_dir \<Rightarrow> dataset_record option \<Rightarrow> dataset_payload option \<Rightarrow>
     host_exc + bytes \<times> (pystr \<times> bytes) list" where
  "reconciled_bundle_bytes c r b dataset_record dataset_payload =
     bindE (reconcile_operation_record c r b dataset_record dataset_payload) (\<lambda>m.
     bindE (bounded_member_bytes b (lit ''manifest.json'') MAX_OPERATION_BUNDLE_BYTES ''operation_bundle_bytes'') (\<lambda>content.
     bindE (mapE (copy_member r b) (member_paths m)) (\<lambda>members.
     let total = length content + sum_list (map (length \<circ> snd) members) in
     if total > MAX_OPERATION_BUNDLE_BYTES
     then Inl (result_limit ''operation_bundle_bytes'' MAX_OPERATION_BUNDLE_BYTES total) else Inr (content, members))))"

section \<open>Equality of projections\<close>

lemma map_of_literal_keys: "map_of (map (\<lambda>(k, v). (KStr (lit k), v)) xs) (KStr (lit k)) = map_of xs k"
  by (induction xs) auto

lemma py_eq_jobj:
  assumes "distinct (map fst xs)" "map fst xs = map fst ys"
  shows "py_eq (jobj xs) (jobj ys) \<longleftrightarrow> list_all2 (\<lambda>x y. py_eq (snd x) (snd y)) xs ys"
proof -
  have len: "length xs = length ys" using assms(2) by (metis length_map)
  have look: "map_of ys (fst (xs ! i)) = Some (snd (ys ! i))" if "i < length xs" for i
  proof -
    have "fst (xs ! i) = fst (ys ! i)" using that len assms(2) by (metis nth_map)
    moreover have "distinct (map fst ys)" using assms by simp
    ultimately show ?thesis using that len by simp
  qed
  have step: "(case case x of (k, x) \<Rightarrow> (KStr (lit k), x) of
        (k, v) \<Rightarrow> (case map_of (map (\<lambda>(k, y). (KStr (lit k), y)) ys) k of None \<Rightarrow> False | Some x \<Rightarrow> py_eq v x)) =
      (case map_of ys (fst x) of None \<Rightarrow> False | Some w \<Rightarrow> py_eq (snd x) w)" for x
    by (cases x) (simp add: map_of_literal_keys split: option.split)
  have "py_eq (jobj xs) (jobj ys) \<longleftrightarrow>
      (\<forall>x \<in> set xs. case map_of ys (fst x) of None \<Rightarrow> False | Some w \<Rightarrow> py_eq (snd x) w)"
    using len by (simp add: jobj_def list_all_iff step)
  also have "\<dots> \<longleftrightarrow> (\<forall>i < length xs. py_eq (snd (xs ! i)) (snd (ys ! i)))"
    by (auto simp: all_set_conv_all_nth look)
  finally show ?thesis using len by (simp add: list_all2_conv_all_nth)
qed

lemma py_eq_leaf [simp]:
  "py_eq (PStr s) (PStr t) \<longleftrightarrow> s = t" "py_eq (PInt i) (PInt j) \<longleftrightarrow> i = j" "py_eq (jstr a) (jstr b) \<longleftrightarrow> a = b"
  by (auto simp: num_eq_def f64_one_def jstr_def)

lemma py_eq_PList: "py_eq (PList xs) (PList ys) \<longleftrightarrow> list_all2 py_eq xs ys"
  by (simp add: list_all2_iff list_all_iff)

lemma py_eq_list_inj:
  "(\<And>x y. py_eq (f x) (f y) \<Longrightarrow> x = y) \<Longrightarrow> py_eq (PList (map f xs)) (PList (map f ys)) \<Longrightarrow> xs = ys"
  unfolding py_eq_PList list_all2_map1 list_all2_map2 by (simp add: list_all2_conv_all_nth list_eq_iff_nth_eq)

lemma py_eq_dumps:
  "py_eq (component_ref_dump a) (component_ref_dump b) \<Longrightarrow> a = b"
  "py_eq (runner_identity_dump p) (runner_identity_dump q) \<Longrightarrow> p = q"
  "py_eq (operation_member_dump m) (operation_member_dump n) \<Longrightarrow> m = n"
  by ((cases a; cases b; simp add: component_ref_dump_def py_eq_jobj del: py_eq.simps),
      (cases p; cases q; simp add: runner_identity_dump_def py_eq_jobj del: py_eq.simps),
      (cases m; cases n; simp add: operation_member_dump_def py_eq_jobj del: py_eq.simps))

lemma py_eq_operation_projection:
  assumes "py_eq (operation_record_projection r) (operation_record_projection s)"
  shows "rec_protocol_version r = rec_protocol_version s" "rec_component r = rec_component s"
    "rec_operation_hash r = rec_operation_hash s" "rec_manifest_sha256 r = rec_manifest_sha256 s"
    "rec_members r = rec_members s" "rec_runner r = rec_runner s" "rec_renderers r = rec_renderers s"
  using assms py_eq_list_inj[of operation_member_dump, OF py_eq_dumps(3)] py_eq_list_inj[of runner_identity_dump, OF py_eq_dumps(2)]
  unfolding operation_record_projection_def
  by (simp_all add: py_eq_jobj py_eq_dumps del: py_eq.simps)

lemma py_eq_refl: "json_value v \<Longrightarrow> canonical_ok v \<Longrightarrow> py_eq v v"
proof (induction v)
  case (PList xs)
  then show ?case unfolding py_eq_PList by (simp add: list_all2_conv_all_nth list_all_length)
next
  case (PDict kvs)
  have "map_of kvs k = Some v" if "(k, v) \<in> set kvs" for k v using PDict.prems that by simp
  then show ?case using PDict by (fastforce simp: list_all_iff)
qed (auto simp: num_eq_def)

section \<open>The manifest as a document\<close>

lemma operation_manifest_valid_iff: "operation_manifest_valid m \<longleftrightarrow> operation_manifest_fields_valid m \<and> manifest_bound m"
  by (auto simp: operation_manifest_valid_def is_ok_iff validate_bindings_iff)

lemma member_path_scalar: "relative_member_path_valid p \<Longrightarrow> scalar_str p"
proof -
  assume "relative_member_path_valid p"
  then obtain k where "portable_member_key p = Inr k"
    by (auto simp: relative_member_path_valid_def relative_member_path_def is_ok_bindE)
  then have "\<forall>c \<in> set p. c < 128"
    using portable_path_ascii[of p] by (auto simp: portable_member_key_iff portable_path_def portable_segment_lang list_all_iff)
  then show ?thesis by (auto simp: scalar_str_def list_all_iff is_scalar_def is_surrogate_def)
qed

lemma file_dump_laws:
  "json_shaped (file_digest_dump f)" "wf_py (file_digest_dump f)" "file_digest_valid f \<Longrightarrow> canonical_ok (file_digest_dump f)"
  "json_shaped (svg_artifact_dump a)" "wf_py (svg_artifact_dump a)" "svg_artifact_valid a \<Longrightarrow> canonical_ok (svg_artifact_dump a)"
  by (auto simp: file_digest_dump_def file_digest_valid_def svg_artifact_dump_def svg_artifact_valid_def
      record_scalar_dests member_path_scalar)

lemma request_shaped:
  assumes "operation_request_valid r"
  shows "json_shaped (operation_request_dump r)"
proof -
  have "json_value (PDict (or_input r))" using assms unfolding operation_request_valid_def by blast
  then have "json_shaped (PDict (or_input r))" by (rule json_value_shaped)
  moreover have "json_shaped (svg_artifact_request_dump a)" for a by (cases a) simp
  ultimately show ?thesis by (simp add: operation_request_dump_def del: json_shaped.simps(2))
qed

lemma supported_version_scalar: "v \<in> set SUPPORTED_PROTOCOL_VERSIONS \<Longrightarrow> scalar_str v"
  by (auto simp: SUPPORTED_PROTOCOL_VERSIONS_def PROTOCOL_VERSION_def)

interpretation manifest_document: documented operation_manifest_dump operation_manifest_valid
proof
  fix m assume "operation_manifest_valid m"
  then have v: "om_protocol_version m \<in> set SUPPORTED_PROTOCOL_VERSIONS" "om_canonicalization_id m = lit ''dq-tagged-json-v1''"
    "pattern_ok SHA256_PATTERN (om_operation_hash m)" "operation_request_valid (om_request m)"
    "component_ref_valid (om_component m)" "runner_identity_valid (om_runner m)"
    "file_digest_valid (om_input m)" "file_digest_valid (om_result m)" "list_all svg_artifact_valid (om_artifacts m)"
    unfolding operation_manifest_valid_iff operation_manifest_fields_valid_def by blast+
  show c: "canonical_ok (operation_manifest_dump m)"
    using v request.project_canonical[OF v(4)]
    by (auto simp: operation_manifest_dump_def component_ref_dump_laws runner_identity_dump_laws file_dump_laws list_all_iff
        record_scalar_dests supported_version_scalar MAX_SAFE_INTEGER_def)
  have "wf_py (operation_manifest_dump m)"
    using v request.project_wf[OF v(4)]
    by (simp add: operation_manifest_dump_def component_ref_dump_laws runner_identity_dump_laws file_dump_laws list_all_iff)
  moreover have "json_shaped (operation_manifest_dump m)"
    using v request_shaped[OF v(4)] by (simp add: operation_manifest_dump_def file_dump_laws list_all_iff)
  ultimately show "json_value (operation_manifest_dump m)" using c shaped_json_value by blast
qed

section \<open>What a successful step establishes\<close>

lemma bounded_member_bytes_Inr [simp]: "bounded_member_bytes b p n l = Inr c \<longleftrightarrow> bu_read b p n = ReadOk c"
  by (simp add: bounded_member_bytes_def split: member_read.splits)

lemma or_corrupt_Inr [simp]: "or_corrupt r = Inr a \<longleftrightarrow> r = Inr a"
  by (simp add: or_corrupt_def split: sum.splits)

lemma liftO_Inr [simp]: "liftO r = Inr a \<longleftrightarrow> r = Inr a"
  by (simp add: liftO_def split: sum.splits)

lemma model_validate_Inr: "model_validate parse valid v = Inr a \<longleftrightarrow> parse v = Some a \<and> valid a"
  by (auto simp: model_validate_def split: option.splits)

lemma parsed_manifest_valid: "parsed_manifest c content = Inr m \<Longrightarrow> operation_manifest_valid m"
  by (auto simp: parsed_manifest_def bindE_Inr_iff model_validate_Inr)

lemma manifest_bytes_Inr:
  "manifest_bytes c m content = Inr b \<longleftrightarrow>
     b = content \<and> pretty_json_bytes (co_float_repr c) (operation_manifest_dump m) = Inr content \<and>
     (\<exists>p. parsed_manifest c content = Inr p \<and> py_eq (operation_manifest_dump p) (operation_manifest_dump m))"
  by (auto simp: manifest_bytes_def bindE_Inr_iff)

text \<open>A member of the record whose bytes are in the bundle.\<close>

definition stored :: "bundle_dir \<Rightarrow> operation_member \<Rightarrow> bool" where
  "stored b m \<longleftrightarrow>
     (\<exists>content. bu_read b (me_path m) (member_maximum (me_kind m)) = ReadOk content \<and>
        sha256_hexdigest content = me_sha256 m \<and> int (length content) = me_size_bytes m)"

lemma derive_member_Inr:
  "derive_member b (k, p, s) = Inr m \<Longrightarrow> stored b m \<and> (me_kind m, me_path m, me_sha256 m) = (k, p, s) \<and> operation_member_valid m"
  by (auto simp: derive_member_def stored_def bindE_Inr_iff Let_def split: if_splits)

lemma check_names_Inr:
  "check_names m b = Inr u \<Longrightarrow> \<exists>names. bu_names b = Some names \<and> set names = insert (lit ''manifest.json'') (set (member_paths m)) \<and>
     distinct (map casefold names)"
  by (auto simp: check_names_def bindE_Inr_iff Let_def member_keys_iff card_set_eq_length split: option.splits if_splits)

lemma mapE_members:
  assumes "mapE (derive_member b) ds = Inr ms"
  shows "map (\<lambda>m. (me_kind m, me_path m, me_sha256 m)) ms = ds \<and> (\<forall>m \<in> set ms. stored b m)"
  using assms
proof (induction ds arbitrary: ms)
  case (Cons d ds)
  obtain k p s where d: "d = (k, p, s)" by (cases d)
  obtain m ms' where "derive_member b (k, p, s) = Inr m" "mapE (derive_member b) ds = Inr ms'" "ms = m # ms'"
    using Cons.prems d by (auto simp: bindE_Inr_iff)
  then show ?case using Cons.IH derive_member_Inr d by fastforce
qed simp

lemma derive_record_Inr:
  assumes "derive_record c m b binding compatibility = Inr r"
  obtains content members where
    "bu_read b (lit ''manifest.json'') MAX_OPERATION_BUNDLE_BYTES = ReadOk content"
    "manifest_bytes c m content = Inr content" "check_names m b = Inr ()"
    "mapE (derive_member b) (declared_members m) = Inr members"
    "length content + nat (sum_list (map me_size_bytes members)) \<le> MAX_OPERATION_BUNDLE_BYTES"
    "r = record_of m content members binding compatibility" "operation_record_valid r"
proof -
  obtain content members u v where s: "check_names m b = Inr ()"
    "bu_read b (lit ''manifest.json'') MAX_OPERATION_BUNDLE_BYTES = ReadOk content"
    "manifest_bytes c m content = Inr u" "mapE (derive_member b) (declared_members m) = Inr members"
    "length content + nat (sum_list (map me_size_bytes members)) \<le> MAX_OPERATION_BUNDLE_BYTES"
    "r = record_of m content members binding compatibility" "operation_record_valid r"
    using assms unfolding derive_record_def Let_def by (auto simp: bindE_Inr_iff split: if_splits)
  moreover have "u = content" using s(3) by (simp add: manifest_bytes_Inr)
  ultimately show ?thesis using that by blast
qed

lemma reconcile_Inr:
  assumes "reconcile_operation_record c r b ds dp = Inr m"
  obtains content derived where
    "bu_read b (lit ''manifest.json'') MAX_OPERATION_BUNDLE_BYTES = ReadOk content" "parsed_manifest c content = Inr m"
    "validate_binding (rec_binding r) m ds dp = Inr ()"
    "derive_record c m b (rec_binding r) (rec_compatibility r) = Inr derived"
    "py_eq (operation_record_projection derived) (operation_record_projection r)"
  using assms that unfolding reconcile_operation_record_def by (auto simp: bindE_Inr_iff split: if_splits)

text \<open>The members a record lists are the ones its manifest declares.\<close>

lemma record_of_members:
  assumes "map (\<lambda>m. (me_kind m, me_path m, me_sha256 m)) members = declared_members m"
  shows "(\<lambda>x. (me_kind x, me_path x, me_sha256 x)) ` set (rec_members (record_of m content members binding cs)) = set (declared_members m)"
  unfolding assms[symmetric] by (simp add: record_of_def)

section \<open>Reconciled bundles\<close>

lemma record_of_simps [simp]:
  "rec_binding (record_of m content members binding cs) = binding" "rec_compatibility (record_of m content members binding cs) = cs"
  "rec_manifest_sha256 (record_of m content members binding cs) = sha256_hexdigest content"
  "rec_operation_hash (record_of m content members binding cs) = om_operation_hash m"
  "rec_component (record_of m content members binding cs) = om_component m"
  "set (rec_members (record_of m content members binding cs)) = set members"
  by (simp_all add: record_of_def)

lemma reconcile_establishes:
  assumes "reconcile_operation_record c r b ds dp = Inr m"
  shows "operation_manifest_valid m"
    "\<exists>content. bu_read b (lit ''manifest.json'') MAX_OPERATION_BUNDLE_BYTES = ReadOk content \<and>
       pretty_json_bytes (co_float_repr c) (operation_manifest_dump m) = Inr content \<and>
       sha256_hexdigest content = rec_manifest_sha256 r"
    "rec_operation_hash r = om_operation_hash m" "rec_component r = om_component m"
    "\<exists>names. bu_names b = Some names \<and> distinct (map casefold names) \<and>
       set names = insert (lit ''manifest.json'') (set (member_paths m))"
    "(\<lambda>x. (me_kind x, me_path x, me_sha256 x)) ` set (rec_members r) = set (declared_members m)"
    "\<forall>x \<in> set (rec_members r). stored b x"
    "validate_binding (rec_binding r) m ds dp = Inr ()"
proof -
  obtain content derived where rec: "bu_read b (lit ''manifest.json'') MAX_OPERATION_BUNDLE_BYTES = ReadOk content"
    "parsed_manifest c content = Inr m" "validate_binding (rec_binding r) m ds dp = Inr ()"
    "derive_record c m b (rec_binding r) (rec_compatibility r) = Inr derived"
    "py_eq (operation_record_projection derived) (operation_record_projection r)"
    using reconcile_Inr[OF assms] by blast
  obtain content' members where der: "bu_read b (lit ''manifest.json'') MAX_OPERATION_BUNDLE_BYTES = ReadOk content'"
    "manifest_bytes c m content' = Inr content'" "check_names m b = Inr ()"
    "mapE (derive_member b) (declared_members m) = Inr members"
    "derived = record_of m content' members (rec_binding r) (rec_compatibility r)"
    using derive_record_Inr[OF rec(4)] by metis
  note same = py_eq_operation_projection[OF rec(5)]
  note ms = mapE_members[OF der(4)]
  show "operation_manifest_valid m" using rec(2) by (rule parsed_manifest_valid)
  show "\<exists>content. bu_read b (lit ''manifest.json'') MAX_OPERATION_BUNDLE_BYTES = ReadOk content \<and>
       pretty_json_bytes (co_float_repr c) (operation_manifest_dump m) = Inr content \<and>
       sha256_hexdigest content = rec_manifest_sha256 r"
    using der(1,2,5) same(4) by (auto simp: manifest_bytes_Inr)
  show "rec_operation_hash r = om_operation_hash m" "rec_component r = om_component m" using same(2,3) der(5) by simp_all
  show "\<exists>names. bu_names b = Some names \<and> distinct (map casefold names) \<and>
       set names = insert (lit ''manifest.json'') (set (member_paths m))"
    using check_names_Inr[OF der(3)] by blast
  have "set (rec_members r) = set members" using same(5)[symmetric] der(5) by simp
  then show "(\<lambda>x. (me_kind x, me_path x, me_sha256 x)) ` set (rec_members r) = set (declared_members m)"
    "\<forall>x \<in> set (rec_members r). stored b x"
    using ms by (metis list.set_map, blast)
  show "validate_binding (rec_binding r) m ds dp = Inr ()" by (rule rec(3))
qed

lemma copy_member_Inr:
  assumes "copy_member r b p = Inr (q, content)"
  shows "\<exists>x \<in> set (rec_members r). me_path x = p \<and> q = p \<and> sha256_hexdigest content = me_sha256 x \<and>
    int (length content) = me_size_bytes x \<and> bu_read b p (member_maximum (me_kind x)) = ReadOk content"
proof -
  obtain x where x: "map_of (rev (map (\<lambda>m. (me_path m, m)) (rec_members r))) p = Some x"
    using assms by (auto simp: copy_member_def split: option.splits)
  then have "(p, x) \<in> set (map (\<lambda>m. (me_path m, m)) (rec_members r))" by (metis map_of_SomeD set_rev)
  then have "x \<in> set (rec_members r)" "me_path x = p" by auto
  then show ?thesis using assms x by (auto simp: copy_member_def bindE_Inr_iff split: if_splits)
qed

lemma copies_of_members:
  assumes "mapE (copy_member r b) ps = Inr members"
  shows "map fst members = ps" "\<forall>(p, content) \<in> set members. \<exists>x \<in> set (rec_members r). me_path x = p \<and>
    sha256_hexdigest content = me_sha256 x \<and> int (length content) = me_size_bytes x"
proof -
  have "map fst members = ps \<and> (\<forall>(p, content) \<in> set members. \<exists>x \<in> set (rec_members r). me_path x = p \<and>
    sha256_hexdigest content = me_sha256 x \<and> int (length content) = me_size_bytes x)"
    using assms
  proof (induction ps arbitrary: members)
    case (Cons p ps)
    obtain q content rest where "copy_member r b p = Inr (q, content)" "mapE (copy_member r b) ps = Inr rest"
      "members = (q, content) # rest"
      using Cons.prems by (auto simp: bindE_Inr_iff)
    then show ?case using Cons.IH copy_member_Inr by fastforce
  qed simp
  then show "map fst members = ps" "\<forall>(p, content) \<in> set members. \<exists>x \<in> set (rec_members r). me_path x = p \<and>
    sha256_hexdigest content = me_sha256 x \<and> int (length content) = me_size_bytes x" by blast+
qed

lemma built_reconciles:
  assumes "float_codec (co_float_repr c) (co_parse_float c)" "operation_manifest_valid m"
    "co_parse_manifest c (json_sorted (operation_manifest_dump m)) = Some m"
    "build_operation_record c m b binding ds dp cs = Inr r"
  shows "reconcile_operation_record c r b ds dp = Inr m"
proof -
  have built: "validate_binding binding m ds dp = Inr ()" "derive_record c m b binding cs = Inr r"
    using assms(4) by (auto simp: build_operation_record_def bindE_Inr_iff split: if_splits)
  obtain content members where der: "bu_read b (lit ''manifest.json'') MAX_OPERATION_BUNDLE_BYTES = ReadOk content"
    "manifest_bytes c m content = Inr content" "r = record_of m content members binding cs" "operation_record_valid r"
    using derive_record_Inr[OF built(2)] by metis
  have "pretty_json_bytes (co_float_repr c) (operation_manifest_dump m) = Inr content"
    using der(2) by (simp add: manifest_bytes_Inr)
  then have "parsed_manifest c content = Inr m"
    using manifest_document.pretty_document_reads_back[OF assms(1,2)] assms(2,3)
    by (simp add: parsed_manifest_def model_validate_Inr bindE_Inr_iff)
  moreover have "py_eq (operation_record_projection r) (operation_record_projection r)"
    using operation_json operation_record_laws(2) der(4) py_eq_refl by blast
  ultimately show ?thesis using der(1,3) built by (simp add: reconcile_operation_record_def bounded_member_bytes_def or_corrupt_def)
qed

end
