(* ===== verification/Bundles.thy ===== *)
theory Bundles
  imports Reconcile
begin

text \<open>
  What reconciliation promises: a record built from a bundle reconciles with it, a bundle that reconciles is bound to
  its record byte for byte, and the bytes handed out are the recorded ones. A small bundle of three files shows that
  the hypotheses can hold.
\<close>

section \<open>A bundle that reconciles\<close>

text \<open>A directory of files, read with a byte limit.\<close>

definition bundle_of :: "(pystr \<times> bytes) list \<Rightarrow> bundle_dir" where
  "bundle_of files =
     \<lparr>bu_names = Some (map fst files),
      bu_read = (\<lambda>p maximum. case map_of files p of
        None \<Rightarrow> ReadFailed
      | Some content \<Rightarrow> if length content > maximum then OverLimit (Some (length content)) else ReadOk content)\<rparr>"

definition demo_bundle_request :: operation_request where
  "demo_bundle_request = demo_request\<lparr>or_input := []\<rparr>"

definition demo_digest_of :: pystr where
  "demo_digest_of = sha256_hexdigest [123, 125]"

definition demo_bundle_manifest :: "pystr \<Rightarrow> operation_manifest" where
  "demo_bundle_manifest h =
     \<lparr>om_protocol_version = PROTOCOL_VERSION, om_canonicalization_id = CANONICALIZATION_ID, om_operation_hash = h,
      om_request = demo_bundle_request, om_component = or_component demo_request,
      om_runner = \<lparr>ri_name = lit ''x'', ri_version = lit ''1.0.0''\<rparr>,
      om_input = \<lparr>fd_path = lit ''input.json'', fd_sha256 = demo_digest_of\<rparr>,
      om_result = \<lparr>fd_path = lit ''result.json'', fd_sha256 = demo_digest_of\<rparr>, om_artifacts = []\<rparr>"

definition demo_codec :: "operation_manifest \<Rightarrow> codec" where
  "demo_codec m =
     \<lparr>co_float_repr = demo_float_repr, co_parse_float = demo_parse_float, co_parse_dataset = (\<lambda>_. None),
      co_parse_payload = (\<lambda>_. None), co_parse_operation = (\<lambda>_. None),
      co_parse_manifest = (\<lambda>v. if v = json_sorted (operation_manifest_dump m) then Some m else None)\<rparr>"

definition demo_bundle :: "bytes \<Rightarrow> bundle_dir" where
  "demo_bundle content =
     bundle_of [(lit ''manifest.json'', content), (lit ''input.json'', [123, 125]), (lit ''result.json'', [123, 125])]"

definition demo_binding :: operation_binding where
  "demo_binding = \<lparr>ob_literals = [], ob_source = None\<rparr>"

lemma demo_digest_of_ok: "pattern_ok SHA256_PATTERN demo_digest_of" "length demo_digest_of = 64"
  using set_sha256_hexdigest by (auto simp: demo_digest_of_def sha256_ok_iff length_sha256_hexdigest)

lemma demo_paths:
  "portable_path (lit ''input.json'')" "portable_path (lit ''result.json'')" "portable_path (lit ''manifest.json'')"
proof -
  have "portable_member_key (lit ''input.json'') = Inr (casefold (lit ''input.json''))"
    "portable_member_key (lit ''result.json'') = Inr (casefold (lit ''result.json''))" by code_simp+
  then show "portable_path (lit ''input.json'')" "portable_path (lit ''result.json'')" "portable_path (lit ''manifest.json'')"
    using manifest_json_key by (simp_all add: portable_member_key_iff)
qed

lemma portable_path_valid: "portable_path p \<Longrightarrow> relative_member_path_valid p"
  using portable_path_nonempty[of p] portable_member_key_iff[of p "casefold p"] portable_segment_lang
  by (auto simp: relative_member_path_valid_def relative_member_path_def fullmatch_member_path portable_path_def Suc_le_eq)

lemma demo_empty_input: "\<exists>b. canonical_json_bytes (PDict []) = Inr b \<and> length b \<le> 100"
proof -
  have "case canonical_json_bytes (PDict []) of Inl _ \<Rightarrow> False | Inr b \<Rightarrow> length b \<le> 100" by code_simp
  then show ?thesis by (simp split: sum.splits)
qed

lemma demo_bundle_request_valid: "operation_request_valid demo_bundle_request"
proof -
  obtain b where "canonical_json_bytes (PDict []) = Inr b" using demo_empty_input by blast
  then show ?thesis using demo_request_valid
    by (auto simp: operation_request_valid_def demo_bundle_request_def validate_canonical_input_def is_ok_iff)
qed

lemma demo_bundle_hash: "\<exists>h. operation_hash demo_bundle_request = Inr h \<and> pattern_ok SHA256_PATTERN h \<and> length h = 64"
  using request.hash_total[OF demo_bundle_request_valid] request.hash_hex unfolding operation_hash_def sha256_ok_iff by blast

lemma demo_bundle_manifest_valid:
  assumes "operation_hash demo_bundle_request = Inr h" "pattern_ok SHA256_PATTERN h"
  shows "operation_manifest_valid (demo_bundle_manifest h)"
proof -
  have "component_ref_valid (or_component demo_request)" using demo_request_valid by (simp add: operation_request_valid_def)
  moreover have "casefold (lit ''input.json'') = lit ''input.json''" "casefold (lit ''result.json'') = lit ''result.json''"
    "casefold (lit ''manifest.json'') = lit ''manifest.json''" by code_simp+
  ultimately show ?thesis
    using assms demo_bundle_request_valid demo_digest_of_ok demo_paths demo_paths[THEN portable_path_valid] demo_id demo_semver(2)
    by (simp add: operation_manifest_valid_iff operation_manifest_fields_valid_def manifest_bound_def demo_bundle_manifest_def
        SUPPORTED_PROTOCOL_VERSIONS_def CANONICALIZATION_ID_def runner_identity_valid_def file_digest_valid_def member_paths_def
        demo_bundle_request_def)
qed

lemma demo_manifest_length:
  assumes "length h = 64" "json_value (operation_manifest_dump (demo_bundle_manifest h))"
    "pretty_json_bytes demo_float_repr (operation_manifest_dump (demo_bundle_manifest h)) = Inr content"
  shows "length content \<le> 1000000"
proof -
  have "text_weight fr 0 (operation_manifest_dump (demo_bundle_manifest h)) \<le> 100000" for fr
    using assms(1) demo_digest_of_ok(2)
    by (simp add: operation_manifest_dump_def demo_bundle_manifest_def jobj_def jstr_def jopt_def operation_request_dump_def demo_bundle_request_def
        demo_request_def component_ref_dump_def runner_identity_dump_def file_digest_dump_def caller_provenance_dump_def
        PROTOCOL_VERSION_def CANONICALIZATION_ID_def int_repr_def nat_repr.simps)
  from this[of demo_float_repr] show ?thesis using pretty_document_length[OF assms(2,3)] by simp
qed

lemma demo_reads:
  assumes "length content \<le> 1000000"
  shows "bu_names (demo_bundle content) = Some [lit ''manifest.json'', lit ''input.json'', lit ''result.json'']"
    "bu_read (demo_bundle content) (lit ''manifest.json'') MAX_OPERATION_BUNDLE_BYTES = ReadOk content"
    "bu_read (demo_bundle content) (lit ''input.json'') MAX_OPERATION_BUNDLE_BYTES = ReadOk [123, 125]"
    "bu_read (demo_bundle content) (lit ''result.json'') MAX_NORMALIZED_RESULT_BYTES = ReadOk [123, 125]"
  using assms by (simp_all add: demo_bundle_def bundle_of_def MAX_OPERATION_BUNDLE_BYTES_def MAX_NORMALIZED_RESULT_BYTES_def)

lemma demo_result: "load_result c [123, 125] = Inr []"
proof -
  have "scan_value pf (Suc n) [123, 125] = Inr (PDict [], [])" for pf n
    by (simp add: scan_value.simps close_object_def)
  then have "scan_value pf 5 [123, 125] = Inr (PDict [], [])" for pf by (metis eval_nat_numeral(3))
  then have "json_loads pf [123, 125] = Inr (PDict [])" for pf by (simp add: json_loads_def is_json_space_def)
  moreover have "utf8_decode [123, 125] = Some [123, 125]" by code_simp
  moreover obtain b where "canonical_json_bytes (PDict []) = Inr b" using demo_empty_input by blast
  ultimately have "strict_json_loads pf None [123, 125] = Inr (PDict [])" for pf
    by (simp add: strict_json_loads_def starts_with_def)
  then show ?thesis by (simp add: load_result_def MAX_NORMALIZED_RESULT_BYTES_def MAX_RESULT_TOP_LEVEL_FIELDS_def or_corrupt_def)
qed

definition demo_members :: "operation_member list" where
  "demo_members =
     [\<lparr>me_kind = NORMALIZED_INPUT, me_path = lit ''input.json'', me_sha256 = demo_digest_of, me_size_bytes = 2\<rparr>,
      \<lparr>me_kind = RESULT, me_path = lit ''result.json'', me_sha256 = demo_digest_of, me_size_bytes = 2\<rparr>]"

lemma demo_members_valid: "list_all operation_member_valid demo_members"
  using demo_paths[THEN portable_path_valid] demo_digest_of_ok
  by (simp add: demo_members_def operation_member_valid_def MAX_OPERATION_MEMBER_BYTES_def)

lemma demo_derive_members:
  assumes "length content \<le> 1000000"
  shows "mapE (derive_member (demo_bundle content)) (declared_members (demo_bundle_manifest h)) = Inr demo_members"
  using demo_reads[OF assms] demo_members_valid
  by (simp add: declared_members_def demo_bundle_manifest_def derive_member_def bounded_member_bytes_def demo_members_def
      demo_digest_of_def[symmetric])

lemma demo_folded: "casefold (lit ''input.json'') = lit ''input.json''" "casefold (lit ''result.json'') = lit ''result.json''"
    "casefold (lit ''manifest.json'') = lit ''manifest.json''"
  by code_simp+

lemma demo_names:
  assumes "length content \<le> 1000000"
  shows "check_names (demo_bundle_manifest h) (demo_bundle content) = Inr ()"
proof -
  have "mapE portable_member_key [lit ''manifest.json'', lit ''input.json'', lit ''result.json''] =
      Inr [lit ''manifest.json'', lit ''input.json'', lit ''result.json'']"
    using demo_paths by (simp add: member_keys_iff demo_folded del: mapE.simps)
  then show ?thesis using demo_reads(1)[OF assms]
    by (simp add: check_names_def Let_def member_paths_def demo_bundle_manifest_def or_corrupt_def card_set_eq_length
        del: mapE.simps)
qed

lemma demo_binding_valid: "operation_binding_valid demo_binding"
proof -
  obtain b where "canonical_json_bytes (PDict []) = Inr b" "length b \<le> 100" using demo_empty_input by blast
  then show ?thesis
    by (simp add: operation_binding_valid_def demo_binding_def validate_operation_binding_def MAX_LITERALS_BYTES_def overlapping_def)
qed

lemma demo_record_valid:
  assumes "operation_hash demo_bundle_request = Inr h" "pattern_ok SHA256_PATTERN h"
  shows "operation_record_valid (record_of (demo_bundle_manifest h) content demo_members demo_binding [])"
proof -
  have sorted: "sort_key member_key demo_members = demo_members"
    by (simp add: demo_members_def member_key_def)
  have "component_ref_valid (or_component demo_request)" using demo_request_valid by (simp add: operation_request_valid_def)
  moreover have "pattern_ok SHA256_PATTERN (sha256_hexdigest content)"
    using set_sha256_hexdigest by (auto simp: sha256_ok_iff length_sha256_hexdigest)
  moreover have "is_ok (validate_operation_record (record_of (demo_bundle_manifest h) content demo_members demo_binding []))"
  proof -
    have "utf8_within 1 240 (lit ''dq.market_data.log_return'')" "utf8_within 1 128 (lit ''1.2.0-rc.1'')"
      by (subst utf8_within_lit; simp add: lit_def)+
    then have "is_ok (utf8_bytes ''component ID'' 1 240 (lit ''dq.market_data.log_return''))"
      "is_ok (utf8_bytes ''version'' 1 128 (lit ''1.2.0-rc.1''))" unfolding utf8_within_name by blast+
    moreover have "fullmatch SEMVER_PATTERN (lit ''1.2.0-rc.1'')" by (simp add: semver_match)
    ultimately have v: "is_ok (validate_versions (record_of (demo_bundle_manifest h) content demo_members demo_binding []))"
      using demo_semver(1)
      by (auto simp: validate_versions_def validate_compatibility_def record_of_def demo_bundle_manifest_def demo_request_def
          operation_source_def demo_binding_def is_ok_iff validate_semver_def)
    have "mapE portable_member_key [lit ''input.json'', lit ''result.json''] = Inr [lit ''input.json'', lit ''result.json'']"
      using demo_paths by (simp add: member_keys_iff demo_folded del: mapE.simps)
    moreover have "map me_path demo_members = [lit ''input.json'', lit ''result.json'']"
      "map me_kind demo_members = [NORMALIZED_INPUT, RESULT]" by (simp_all add: demo_members_def)
    ultimately show ?thesis using v manifest_json_key
      by (simp add: validate_operation_record_def record_of_def sorted Let_def demo_folded card_set_eq_length
          demo_bundle_manifest_def del: mapE.simps)
  qed
  ultimately show ?thesis
    using assms demo_members_valid demo_binding_valid demo_id demo_semver(2)
    unfolding operation_record_valid_def
    by (simp add: record_of_def sorted demo_bundle_manifest_def runner_identity_valid_def SUPPORTED_PROTOCOL_VERSIONS_def)
      (simp add: demo_members_def)
qed

lemma demo_build:
  assumes "operation_hash demo_bundle_request = Inr h" "pattern_ok SHA256_PATTERN h"
    "pretty_json_bytes demo_float_repr (operation_manifest_dump (demo_bundle_manifest h)) = Inr content"
  shows "build_operation_record (demo_codec (demo_bundle_manifest h)) (demo_bundle_manifest h) (demo_bundle content) demo_binding
      None None [] = Inr (record_of (demo_bundle_manifest h) content demo_members demo_binding [])"
proof -
  let ?m = "demo_bundle_manifest h" and ?c = "demo_codec (demo_bundle_manifest h)"
  note valid = demo_bundle_manifest_valid[OF assms(1,2)]
  note json = manifest_document.project_json[OF valid] manifest_document.project_canonical[OF valid]
  have len: "length content \<le> 1000000" using demo_manifest_length[OF _ json(1) assms(3)] assms(2) by (simp add: sha256_ok_iff)
  have "strict_json_loads demo_parse_float None content = Inr (json_sorted (operation_manifest_dump ?m))"
    using manifest_document.pretty_document_reads_back[OF demo_float_codec valid assms(3)] .
  then have "parsed_manifest ?c content = Inr ?m"
    using valid by (simp add: parsed_manifest_def demo_codec_def model_validate_Inr bindE_Inr_iff)
  then have bytes: "manifest_bytes ?c ?m content = Inr content"
    using assms(3) py_eq_refl[OF json] by (auto simp: manifest_bytes_Inr demo_codec_def)
  obtain b where "canonical_json_bytes (PDict []) = Inr b" using demo_empty_input by blast
  then have "validate_binding demo_binding ?m None None = Inr ()"
    by (simp add: validate_binding_def resolved_input_def demo_binding_def same_json_def demo_bundle_manifest_def demo_bundle_request_def)
  moreover have "derive_record ?c ?m (demo_bundle content) demo_binding [] = Inr (record_of ?m content demo_members demo_binding [])"
  proof -
    have "om_artifacts ?m = []" "fd_path (om_result ?m) = lit ''result.json''" by (simp_all add: demo_bundle_manifest_def)
    moreover have "sum_list (map me_size_bytes demo_members) = 4" by (simp add: demo_members_def)
    ultimately show ?thesis
      using demo_reads[OF len] bytes demo_names[OF len] demo_derive_members[OF len] demo_result demo_record_valid[OF assms(1,2)] len
      by (simp add: derive_record_def bounded_member_bytes_def Let_def MAX_OPERATION_BUNDLE_BYTES_def)
  qed
  ultimately show ?thesis using demo_binding_valid by (simp add: build_operation_record_def)
qed

definition demo_setup :: "pystr \<Rightarrow> bytes \<Rightarrow> bool" where
  "demo_setup h content \<longleftrightarrow>
     operation_hash demo_bundle_request = Inr h \<and> pattern_ok SHA256_PATTERN h \<and>
     pretty_json_bytes demo_float_repr (operation_manifest_dump (demo_bundle_manifest h)) = Inr content"

lemma demo_setup_exists: "\<exists>h content. demo_setup h content"
  using demo_bundle_hash demo_bundle_manifest_valid manifest_document.pretty_document_total[OF demo_float_codec]
  unfolding demo_setup_def by blast

lemma demo_setup_laws:
  assumes "demo_setup h content"
  defines "m \<equiv> demo_bundle_manifest h"
  shows "operation_manifest_valid m" "float_codec (co_float_repr (demo_codec m)) (co_parse_float (demo_codec m))"
    "co_parse_manifest (demo_codec m) (json_sorted (operation_manifest_dump m)) = Some m" "length content \<le> 1000000"
    "build_operation_record (demo_codec m) m (demo_bundle content) demo_binding None None [] =
       Inr (record_of m content demo_members demo_binding [])"
proof -
  note d = assms(1)[unfolded demo_setup_def]
  show v: "operation_manifest_valid m" using d demo_bundle_manifest_valid by (simp add: m_def)
  show "float_codec (co_float_repr (demo_codec m)) (co_parse_float (demo_codec m))"
    "co_parse_manifest (demo_codec m) (json_sorted (operation_manifest_dump m)) = Some m"
    using demo_float_codec by (simp_all add: demo_codec_def)
  show "length content \<le> 1000000"
    using demo_manifest_length[OF _ manifest_document.project_json[OF v, unfolded m_def]] d by (simp add: sha256_ok_iff)
  show "build_operation_record (demo_codec m) m (demo_bundle content) demo_binding None None [] =
       Inr (record_of m content demo_members demo_binding [])"
    unfolding m_def using d demo_build by blast
qed

lemma demo_reconciles:
  assumes "demo_setup h content"
  shows "reconcile_operation_record (demo_codec (demo_bundle_manifest h))
      (record_of (demo_bundle_manifest h) content demo_members demo_binding []) (demo_bundle content) None None =
    Inr (demo_bundle_manifest h)"
  using built_reconciles demo_setup_laws[OF assms] by blast

section \<open>Properties\<close>

text \<open>
  C12 (built_records_reconcile). A record the host builds from a manifest, a bundle and a binding reconciles with
  that very bundle and gives the manifest back, provided the float text and the manifest parser invert their
  printers.
\<close>

theorem built_records_reconcile:
  assumes "float_codec (co_float_repr c) (co_parse_float c)" "operation_manifest_valid m"
    "co_parse_manifest c (json_sorted (operation_manifest_dump m)) = Some m"
    "build_operation_record c m b binding ds dp cs = Inr r"
  shows "reconcile_operation_record c r b ds dp = Inr m"
  using built_reconciles[OF assms] .

theorem built_records_reconcile_witness:
  "\<exists>h content r. operation_manifest_valid (demo_bundle_manifest h) \<and>
     build_operation_record (demo_codec (demo_bundle_manifest h)) (demo_bundle_manifest h) (demo_bundle content) demo_binding
       None None [] = Inr r \<and>
     reconcile_operation_record (demo_codec (demo_bundle_manifest h)) r (demo_bundle content) None None = Inr (demo_bundle_manifest h)"
proof -
  obtain h content where d: "demo_setup h content" using demo_setup_exists by blast
  note laws = demo_setup_laws[OF d]
  show ?thesis using built_records_reconcile[OF laws(2,1,3,5)] laws(1,5) by blast
qed

text \<open>
  A bundle that reconciles with a record is bound to it byte for byte: the manifest is
  valid and its file is the indented document of that manifest with the recorded digest, the directory holds exactly
  the manifest and the declared members under names that differ even without case, the record lists exactly the
  declared members, every one of them is stored with the recorded digest and length, and the binding resolves to the
  request's input.
\<close>

theorem reconciled_bundle_bound:
  assumes "reconcile_operation_record c r b ds dp = Inr m"
  shows "operation_manifest_valid m \<and> rec_operation_hash r = om_operation_hash m \<and> rec_component r = om_component m \<and>
    (\<exists>content. bu_read b (lit ''manifest.json'') MAX_OPERATION_BUNDLE_BYTES = ReadOk content \<and>
       pretty_json_bytes (co_float_repr c) (operation_manifest_dump m) = Inr content \<and>
       sha256_hexdigest content = rec_manifest_sha256 r) \<and>
    (\<exists>names. bu_names b = Some names \<and> distinct (map casefold names) \<and>
       set names = insert (lit ''manifest.json'') (set (member_paths m))) \<and>
    (\<lambda>x. (me_kind x, me_path x, me_sha256 x)) ` set (rec_members r) = set (declared_members m) \<and>
    (\<forall>x \<in> set (rec_members r). \<exists>content. bu_read b (me_path x) (member_maximum (me_kind x)) = ReadOk content \<and>
       sha256_hexdigest content = me_sha256 x \<and> int (length content) = me_size_bytes x) \<and>
    validate_binding (rec_binding r) m ds dp = Inr ()"
  using reconcile_establishes[OF assms] unfolding stored_def by blast

theorem reconciled_bundle_bound_witness:
  "\<exists>h content r. reconcile_operation_record (demo_codec (demo_bundle_manifest h)) r (demo_bundle content) None None =
       Inr (demo_bundle_manifest h) \<and> rec_operation_hash r = h"
proof -
  obtain h content where d: "demo_setup h content" using demo_setup_exists by blast
  note r = demo_reconciles[OF d]
  have "om_operation_hash (demo_bundle_manifest h) = h" by (simp add: demo_bundle_manifest_def)
  then show ?thesis using reconciled_bundle_bound[OF r] r by metis
qed

text \<open>
  C27 (exported_bundle_exact). The bytes handed out for a record are the recorded ones: the manifest bytes have the
  recorded digest, the members come in the manifest's order, each with the digest and length of a recorded member,
  and together they stay within the bundle limit.
\<close>

theorem exported_bundle_exact:
  assumes "reconciled_bundle_bytes c r b ds dp = Inr (content, members)"
  shows "sha256_hexdigest content = rec_manifest_sha256 r \<and>
    (\<exists>m. reconcile_operation_record c r b ds dp = Inr m \<and> map fst members = member_paths m) \<and>
    (\<forall>(p, bytes) \<in> set members. \<exists>x \<in> set (rec_members r).
       me_path x = p \<and> sha256_hexdigest bytes = me_sha256 x \<and> int (length bytes) = me_size_bytes x) \<and>
    length content + sum_list (map (length \<circ> snd) members) \<le> MAX_OPERATION_BUNDLE_BYTES"
proof -
  obtain m where m: "reconcile_operation_record c r b ds dp = Inr m"
    "bu_read b (lit ''manifest.json'') MAX_OPERATION_BUNDLE_BYTES = ReadOk content"
    "mapE (copy_member r b) (member_paths m) = Inr members"
    "length content + sum_list (map (length \<circ> snd) members) \<le> MAX_OPERATION_BUNDLE_BYTES"
    using assms unfolding reconciled_bundle_bytes_def Let_def by (auto simp: bindE_Inr_iff split: if_splits)
  show ?thesis using m reconcile_establishes(2)[OF m(1)] copies_of_members[OF m(3)] by auto
qed

theorem exported_bundle_exact_witness:
  "\<exists>h content r. reconciled_bundle_bytes (demo_codec (demo_bundle_manifest h)) r (demo_bundle content) None None =
       Inr (content, [(lit ''input.json'', [123, 125]), (lit ''result.json'', [123, 125])]) \<and>
     sha256_hexdigest content = rec_manifest_sha256 r"
proof -
  obtain h content where d: "demo_setup h content" using demo_setup_exists by blast
  let ?r = "record_of (demo_bundle_manifest h) content demo_members demo_binding []"
  note r = demo_reconciles[OF d]
  note len = demo_setup_laws(4)[OF d]
  have "rec_members ?r = demo_members" by (simp add: record_of_def demo_members_def member_key_def)
  then have "mapE (copy_member ?r (demo_bundle content)) (member_paths (demo_bundle_manifest h)) =
      Inr [(lit ''input.json'', [123, 125]), (lit ''result.json'', [123, 125])]"
    using demo_reads[OF len]
    by (simp add: copy_member_def member_paths_def demo_bundle_manifest_def demo_members_def bounded_member_bytes_def demo_digest_of_def)
  then have "reconciled_bundle_bytes (demo_codec (demo_bundle_manifest h)) ?r (demo_bundle content) None None =
      Inr (content, [(lit ''input.json'', [123, 125]), (lit ''result.json'', [123, 125])])"
    using r demo_reads[OF len] len by (simp add: reconciled_bundle_bytes_def bounded_member_bytes_def MAX_OPERATION_BUNDLE_BYTES_def)
  then show ?thesis using exported_bundle_exact by blast
qed

end
