(* ===== verification/Effects.thy ===== *)
theory Effects
  imports Reconcile
begin

text \<open>
  Code that changes state and may raise: an effect takes the state and returns the outcome with the state it leaves
  behind, an exception included. The combinators follow the source: sequencing, \<^verbatim>\<open>try\<close>/\<^verbatim>\<open>except\<close>, \<^verbatim>\<open>try\<close>/\<^verbatim>\<open>finally\<close>,
  a loop over a list, and an effect on one part of the state. \<open>keeps\<close> says that a predicate survives an effect
  whatever its outcome.
\<close>

section \<open>Combinators\<close>

type_synonym ('s, 'e, 'a) eff = "'s \<Rightarrow> ('e + 'a) \<times> 's"

definition retS :: "'a \<Rightarrow> ('s, 'e, 'a) eff" where
  "retS a s = (Inr a, s)"

definition raiseS :: "'e \<Rightarrow> ('s, 'e, 'a) eff" where
  "raiseS e s = (Inl e, s)"

definition bindS :: "('s, 'e, 'a) eff \<Rightarrow> ('a \<Rightarrow> ('s, 'e, 'b) eff) \<Rightarrow> ('s, 'e, 'b) eff" where
  "bindS m f s = (case m s of (Inl e, t) \<Rightarrow> (Inl e, t) | (Inr a, t) \<Rightarrow> f a t)"

definition catchS :: "('s, 'e, 'a) eff \<Rightarrow> ('e \<Rightarrow> ('s, 'f, 'a) eff) \<Rightarrow> ('s, 'f, 'a) eff" where
  "catchS m h s = (case m s of (Inl e, t) \<Rightarrow> h e t | (Inr a, t) \<Rightarrow> (Inr a, t))"

definition finallyS :: "('s, 'e, 'a) eff \<Rightarrow> ('s, 'e, unit) eff \<Rightarrow> ('s, 'e, 'a) eff" where
  "finallyS m c s = (case m s of (r, t) \<Rightarrow> (case c t of (Inl e, u) \<Rightarrow> (Inl e, u) | (Inr _, u) \<Rightarrow> (r, u)))"

definition getsS :: "('s \<Rightarrow> 'a) \<Rightarrow> ('s, 'e, 'a) eff" where
  "getsS f s = (Inr (f s), s)"

definition modifyS :: "('s \<Rightarrow> 's) \<Rightarrow> ('s, 'e, unit) eff" where
  "modifyS f s = (Inr (), f s)"

definition liftS :: "'e + 'a \<Rightarrow> ('s, 'e, 'a) eff" where
  "liftS r s = (r, s)"

definition whenS :: "bool \<Rightarrow> ('s, 'e, unit) eff \<Rightarrow> ('s, 'e, unit) eff" where
  "whenS b m = (if b then m else retS ())"

fun mapS :: "('a \<Rightarrow> ('s, 'e, 'b) eff) \<Rightarrow> 'a list \<Rightarrow> ('s, 'e, 'b list) eff" where
  "mapS f [] = retS []"
| "mapS f (x # xs) = bindS (f x) (\<lambda>y. bindS (mapS f xs) (\<lambda>ys. retS (y # ys)))"

definition zoomS :: "('s \<Rightarrow> 't) \<Rightarrow> ('t \<Rightarrow> 's \<Rightarrow> 's) \<Rightarrow> ('t, 'e, 'a) eff \<Rightarrow> ('s, 'e, 'a) eff" where
  "zoomS get put m s = (case m (get s) of (r, t) \<Rightarrow> (r, put t s))"

section \<open>What an effect returns\<close>

named_theorems eff_simps \<open>outcomes of effects\<close>

lemma retS_iff [eff_simps]: "retS a s = (r, t) \<longleftrightarrow> r = Inr a \<and> t = s"
  by (auto simp: retS_def)

lemma raiseS_iff [eff_simps]: "raiseS e s = (r, t) \<longleftrightarrow> r = Inl e \<and> t = s"
  by (auto simp: raiseS_def)

lemma getsS_iff [eff_simps]: "getsS f s = (r, t) \<longleftrightarrow> r = Inr (f s) \<and> t = s"
  by (auto simp: getsS_def)

lemma modifyS_iff [eff_simps]: "modifyS f s = (r, t) \<longleftrightarrow> r = Inr () \<and> t = f s"
  by (auto simp: modifyS_def)

lemma liftS_iff [eff_simps]: "liftS x s = (r, t) \<longleftrightarrow> r = x \<and> t = s"
  by (auto simp: liftS_def)

lemma bindS_Inr [eff_simps]: "bindS m f s = (Inr b, u) \<longleftrightarrow> (\<exists>a t. m s = (Inr a, t) \<and> f a t = (Inr b, u))"
  by (auto simp: bindS_def split: prod.splits sum.splits)

lemma bindS_Inl [eff_simps]:
  "bindS m f s = (Inl e, u) \<longleftrightarrow> m s = (Inl e, u) \<or> (\<exists>a t. m s = (Inr a, t) \<and> f a t = (Inl e, u))"
  by (auto simp: bindS_def split: prod.splits sum.splits)

lemma catchS_Inr [eff_simps]:
  "catchS m h s = (Inr a, u) \<longleftrightarrow> m s = (Inr a, u) \<or> (\<exists>e t. m s = (Inl e, t) \<and> h e t = (Inr a, u))"
  by (auto simp: catchS_def split: prod.splits sum.splits)

lemma catchS_Inl [eff_simps]: "catchS m h s = (Inl e, u) \<longleftrightarrow> (\<exists>d t. m s = (Inl d, t) \<and> h d t = (Inl e, u))"
  by (auto simp: catchS_def split: prod.splits sum.splits)

lemma finallyS_Inr [eff_simps]: "finallyS m c s = (Inr a, u) \<longleftrightarrow> (\<exists>t v. m s = (Inr a, t) \<and> c t = (Inr v, u))"
  by (auto simp: finallyS_def split: prod.splits sum.splits)

lemma zoomS_iff [eff_simps]: "zoomS get put m s = (r, u) \<longleftrightarrow> (\<exists>t. m (get s) = (r, t) \<and> u = put t s)"
  by (auto simp: zoomS_def split: prod.splits)

lemma whenS_iff [eff_simps]: "whenS b m s = (r, t) \<longleftrightarrow> (if b then m s = (r, t) else r = Inr () \<and> t = s)"
  by (auto simp: whenS_def retS_def)

text \<open>Running an effect whose parts are known to succeed.\<close>

lemma run_simps:
  "bindS m f s = (case m s of (Inl e, t) \<Rightarrow> (Inl e, t) | (Inr a, t) \<Rightarrow> f a t)"
  "retS a s = (Inr a, s)" "raiseS e s = (Inl e, s)" "getsS g s = (Inr (g s), s)" "modifyS h s = (Inr (), h s)"
  "liftS r s = (r, s)"
  by (simp_all add: bindS_def retS_def raiseS_def getsS_def modifyS_def liftS_def)

section \<open>What survives an effect\<close>

definition keeps :: "('s \<Rightarrow> bool) \<Rightarrow> ('s, 'e, 'a) eff \<Rightarrow> bool" where
  "keeps P m \<longleftrightarrow> (\<forall>s. P s \<longrightarrow> P (snd (m s)))"

named_theorems keeps_intros \<open>rules for predicates that survive an effect\<close>

lemma keepsD: "keeps P m \<Longrightarrow> P s \<Longrightarrow> m s = (r, t) \<Longrightarrow> P t"
  by (metis keeps_def snd_conv)

lemma keeps_pure [keeps_intros]:
  "keeps P (retS a)" "keeps P (raiseS e)" "keeps P (getsS f)" "keeps P (liftS x)"
  by (simp_all add: keeps_def retS_def raiseS_def getsS_def liftS_def)

lemma keeps_modifyS: "(\<And>s. P s \<Longrightarrow> P (f s)) \<Longrightarrow> keeps P (modifyS f)"
  by (simp add: keeps_def modifyS_def)

lemma keeps_bindS [keeps_intros]: "keeps P m \<Longrightarrow> (\<And>a. keeps P (f a)) \<Longrightarrow> keeps P (bindS m f)"
  by (force simp: keeps_def bindS_def split: prod.splits sum.splits)

lemma keeps_catchS [keeps_intros]: "keeps P m \<Longrightarrow> (\<And>e. keeps P (h e)) \<Longrightarrow> keeps P (catchS m h)"
  by (force simp: keeps_def catchS_def split: prod.splits sum.splits)

lemma keeps_finallyS [keeps_intros]: "keeps P m \<Longrightarrow> keeps P c \<Longrightarrow> keeps P (finallyS m c)"
  by (force simp: keeps_def finallyS_def split: prod.splits sum.splits)

lemma keeps_mapS [keeps_intros]: "(\<And>x. keeps P (f x)) \<Longrightarrow> keeps P (mapS f xs)"
  by (induction xs) (auto intro!: keeps_intros)

lemma keeps_if [keeps_intros]: "keeps P m \<Longrightarrow> keeps P n \<Longrightarrow> keeps P (if b then m else n)"
  by simp

lemma keeps_option [keeps_intros]:
  "keeps P m \<Longrightarrow> (\<And>a. keeps P (k a)) \<Longrightarrow> keeps P (case x of None \<Rightarrow> m | Some a \<Rightarrow> k a)"
  by (cases x) simp_all

lemma keeps_pair [keeps_intros]: "(\<And>a b. keeps P (g a b)) \<Longrightarrow> keeps P (case p of (a, b) \<Rightarrow> g a b)"
  by (cases p) simp

lemma keeps_whenS [keeps_intros]: "keeps P m \<Longrightarrow> keeps P (whenS b m)"
  by (simp add: whenS_def keeps_pure)

lemma keeps_zoomS:
  "(\<And>s t. P s \<Longrightarrow> P (put t s)) \<Longrightarrow> keeps P (zoomS get put m)"
  by (auto simp: keeps_def zoomS_def split: prod.splits)

section \<open>What an effect can raise\<close>

definition raises :: "('e \<Rightarrow> bool) \<Rightarrow> ('s, 'e, 'a) eff \<Rightarrow> bool" where
  "raises Q m \<longleftrightarrow> (\<forall>s e t. m s = (Inl e, t) \<longrightarrow> Q e)"

named_theorems raises_intros \<open>rules for the exceptions an effect can raise\<close>

lemma raisesD: "raises Q m \<Longrightarrow> m s = (Inl e, t) \<Longrightarrow> Q e"
  unfolding raises_def by blast

lemma raisesI: "(\<And>s e t. m s = (Inl e, t) \<Longrightarrow> Q e) \<Longrightarrow> raises Q m"
  unfolding raises_def by blast

lemma raises_pure [raises_intros]: "raises Q (retS a)" "raises Q (getsS f)"
  by (simp_all add: raises_def eff_simps)

lemma raises_modifyS [raises_intros]: "raises Q (modifyS f)"
  by (simp add: raises_def eff_simps)

lemma raises_raiseS [raises_intros]: "Q e \<Longrightarrow> raises Q (raiseS e)"
  by (simp add: raises_def eff_simps)

lemma raises_bindS [raises_intros]: "raises Q m \<Longrightarrow> (\<And>a. raises Q (f a)) \<Longrightarrow> raises Q (bindS m f)"
  by (rule raisesI) (auto simp: eff_simps dest: raisesD)

lemma raises_catchS: "raises Q m \<Longrightarrow> (\<And>e. Q e \<Longrightarrow> raises R (h e)) \<Longrightarrow> raises R (catchS m h)"
  by (rule raisesI) (auto simp: eff_simps dest: raisesD)

lemma raises_mapS [raises_intros]: "(\<And>x. raises Q (f x)) \<Longrightarrow> raises Q (mapS f xs)"
  by (induction xs) (auto intro!: raises_intros)

lemma raises_if [raises_intros]: "raises Q m \<Longrightarrow> raises Q n \<Longrightarrow> raises Q (if b then m else n)"
  by simp

lemma raises_option [raises_intros]:
  "raises Q m \<Longrightarrow> (\<And>a. raises Q (k a)) \<Longrightarrow> raises Q (case x of None \<Rightarrow> m | Some a \<Rightarrow> k a)"
  by (cases x) simp_all

lemma raises_Let [raises_intros]: "(\<And>x. raises Q (f x)) \<Longrightarrow> raises Q (Let a f)"
  by simp

lemma raises_zoomS [raises_intros]: "raises Q m \<Longrightarrow> raises Q (zoomS get put m)"
  by (rule raisesI) (auto simp: eff_simps dest: raisesD)

text \<open>An effect that raises nothing.\<close>

lemma raises_nothing: "raises (\<lambda>_. False) m \<Longrightarrow> m s = (x, t) \<Longrightarrow> \<exists>a. x = Inr a"
  by (cases x) (auto dest: raisesD)

end
