(* ===== verification/Posix_Files.thy ===== *)
theory Posix_Files
  imports Effects
begin

text \<open>
  \<^verbatim>\<open>shared/_posix_local_host.py\<close>, the secure filesystem of Linux and macOS, with the error codes of
  \<^verbatim>\<open>shared/local_host_platform.py\<close>, over an explicit machine: its files with owner, mode and age, the locks that are
  held and the number of system calls made so far. Every system call may fail; which ones do, how much of a write
  reached the disk, what a failed removal left behind and which directories a walk could not list is the
  environment's choice, an argument of every operation. Symbolic links are entries of their own and are not followed in
  the middle of a path; nothing else changes the machine during an operation.
\<close>

section \<open>The machine\<close>

type_synonym path = "pystr list"

datatype sf_code =
    CAPABILITY_UNAVAILABLE | ACCESS_DENIED | UNSAFE_PATH | NOT_REGULAR_FILE | BYTE_LIMIT_EXCEEDED | FILE_CHANGED
  | NOT_PRIVATE | ALREADY_EXISTS | LOCK_UNAVAILABLE | PUBLICATION_FAILED | REMOVE_FAILED

datatype exc =
    HostX host_failure_code details
  | PyX py_exc
  | SfX sf_code "nat option"
  | OsX
  | NotFoundX
  | ExistsX

datatype file_content = Regular bytes | Directory | Symlink | Special

record inode =
  i_content :: file_content
  i_owned :: bool
  i_private :: bool
  i_mtime :: int
  i_number :: nat

record machine =
  ma_files :: "(path \<times> inode) list"
  ma_calls :: nat
  ma_next :: nat
  ma_locks :: "nat list"

record os_env =
  ev_fault :: "nat \<Rightarrow> bool"
  ev_short :: "nat \<Rightarrow> nat"
  ev_kept :: "nat \<Rightarrow> path \<Rightarrow> bool"
  ev_seen :: "nat \<Rightarrow> path \<Rightarrow> bool"
  ev_time :: "nat \<Rightarrow> int"
  ev_umask_private :: bool
  ev_home :: path

type_synonym 'a os_op = "(machine, exc, 'a) eff"

definition lookup :: "machine \<Rightarrow> path \<Rightarrow> inode option" where
  "lookup s p = map_of (ma_files s) p"

definition is_directory :: "machine \<Rightarrow> path \<Rightarrow> bool" where
  "is_directory s p = (case lookup s p of None \<Rightarrow> False | Some i \<Rightarrow> i_content i = Directory)"

definition beneath :: "path \<Rightarrow> path \<Rightarrow> bool" where
  "beneath p q \<longleftrightarrow> take (length p) q = p"

definition path_exists :: "machine \<Rightarrow> path \<Rightarrow> bool" where
  "path_exists s p \<longleftrightarrow> lookup s p \<noteq> None"

section \<open>System calls\<close>

definition os_call :: "os_env \<Rightarrow> unit os_op" where
  "os_call ev s = (if ev_fault ev (ma_calls s) then Inl OsX else Inr (), s\<lparr>ma_calls := Suc (ma_calls s)\<rparr>)"

definition os_lstat :: "os_env \<Rightarrow> path \<Rightarrow> inode os_op" where
  "os_lstat ev p =
     bindS (os_call ev) (\<lambda>_. bindS (getsS (\<lambda>s. lookup s p)) (\<lambda>i.
     case i of None \<Rightarrow> raiseS NotFoundX | Some i \<Rightarrow> retS i))"

text \<open>\<^verbatim>\<open>os.open\<close> with \<^verbatim>\<open>O_NOFOLLOW\<close> and \<^verbatim>\<open>os.fstat\<close> of the descriptor.\<close>

definition os_open_read :: "os_env \<Rightarrow> path \<Rightarrow> inode os_op" where
  "os_open_read ev p =
     bindS (os_call ev) (\<lambda>_. bindS (getsS (\<lambda>s. lookup s p)) (\<lambda>i.
     case i of
       None \<Rightarrow> raiseS NotFoundX
     | Some i \<Rightarrow> if i_content i = Symlink then raiseS OsX else bindS (os_call ev) (\<lambda>_. retS i)))"

definition new_inode :: "os_env \<Rightarrow> machine \<Rightarrow> file_content \<Rightarrow> bool \<Rightarrow> inode" where
  "new_inode ev s content private =
     \<lparr>i_content = content, i_owned = True, i_private = private, i_mtime = ev_time ev (ma_calls s), i_number = ma_next s\<rparr>"

definition os_create :: "os_env \<Rightarrow> path \<Rightarrow> file_content \<Rightarrow> bool \<Rightarrow> unit os_op" where
  "os_create ev p content private =
     bindS (os_call ev) (\<lambda>_. \<lambda>s.
       if path_exists s p then (Inl ExistsX, s)
       else if \<not> path_exists s (butlast p) then (Inl NotFoundX, s)
       else if \<not> is_directory s (butlast p) then (Inl OsX, s)
       else (Inr (), s\<lparr>ma_files := (p, new_inode ev s content private) # ma_files s, ma_next := Suc (ma_next s)\<rparr>))"

definition set_content :: "path \<Rightarrow> bytes \<Rightarrow> machine \<Rightarrow> machine" where
  "set_content p b s =
     s\<lparr>ma_files := map (\<lambda>(q, i). if q = p then (q, i\<lparr>i_content := Regular b\<rparr>) else (q, i)) (ma_files s)\<rparr>"

text \<open>The loop over \<^verbatim>\<open>os.write\<close>: a failure leaves a prefix of the content.\<close>

definition os_write :: "os_env \<Rightarrow> path \<Rightarrow> bytes \<Rightarrow> unit os_op" where
  "os_write ev p content =
     (if content = [] then retS ()
      else (\<lambda>s. case os_call ev s of
                  (Inl e, t) \<Rightarrow> (Inl e, set_content p (take (ev_short ev (ma_calls s)) content) t)
                | (Inr _, t) \<Rightarrow> (Inr (), set_content p content t)))"

text \<open>\<^verbatim>\<open>os.walk\<close> without an error hook: directories that cannot be listed are silently left out.\<close>

definition os_walk :: "os_env \<Rightarrow> path \<Rightarrow> (path \<times> inode) list os_op" where
  "os_walk ev p s =
     (Inr (if is_directory s p
           then filter (\<lambda>(q, _). beneath p q \<and> q \<noteq> p \<and> ev_seen ev (ma_calls s) q) (ma_files s) else []),
      s\<lparr>ma_calls := Suc (ma_calls s)\<rparr>)"

definition os_iterdir :: "os_env \<Rightarrow> path \<Rightarrow> pystr list os_op" where
  "os_iterdir ev p =
     bindS (os_call ev) (\<lambda>_. \<lambda>s.
       if \<not> is_directory s p then (Inl OsX, s)
       else (Inr (map (last \<circ> fst) (filter (\<lambda>(q, _). q \<noteq> [] \<and> butlast q = p) (ma_files s))), s))"

section \<open>The secure filesystem\<close>

text \<open>\<^verbatim>\<open>except SecureFilesystemError: raise\<close>, then \<^verbatim>\<open>except (OSError, ValueError)\<close>.\<close>

definition os_as :: "sf_code \<Rightarrow> exc \<Rightarrow> exc" where
  "os_as code e =
     (case e of
        OsX \<Rightarrow> SfX code None | NotFoundX \<Rightarrow> SfX code None | ExistsX \<Rightarrow> SfX code None
      | PyX (ValueError _) \<Rightarrow> SfX code None | _ \<Rightarrow> e)"

definition guarded :: "sf_code \<Rightarrow> 'a os_op \<Rightarrow> 'a os_op" where
  "guarded code m = catchS m (\<lambda>e. raiseS (os_as code e))"

text \<open>Creation reports an existing entry on its own.\<close>

definition guarded_new :: "'a os_op \<Rightarrow> 'a os_op" where
  "guarded_new m =
     catchS m (\<lambda>e. raiseS (if e = ExistsX then SfX ALREADY_EXISTS None else os_as ACCESS_DENIED e))"

definition owner_private :: "inode \<Rightarrow> bool" where
  "owner_private i \<longleftrightarrow> i_owned i \<and> i_private i"

definition read_descriptor :: "os_env \<Rightarrow> inode \<Rightarrow> nat \<Rightarrow> bytes os_op" where
  "read_descriptor ev i maximum =
     (case i_content i of
        Regular b \<Rightarrow>
          if length b > maximum then raiseS (SfX BYTE_LIMIT_EXCEEDED (Some (length b)))
          else bindS (os_call ev) (\<lambda>_. bindS (os_call ev) (\<lambda>_. retS b))
      | _ \<Rightarrow> raiseS OsX)"

definition is_regular :: "inode \<Rightarrow> bool" where
  "is_regular i = (case i_content i of Regular _ \<Rightarrow> True | _ \<Rightarrow> False)"

definition read_regular_file :: "os_env \<Rightarrow> path \<Rightarrow> nat \<Rightarrow> bytes os_op" where
  "read_regular_file ev p maximum =
     guarded UNSAFE_PATH
       (bindS (os_lstat ev p) (\<lambda>i.
        if \<not> is_regular i then raiseS (SfX NOT_REGULAR_FILE None)
        else bindS (os_open_read ev p) (\<lambda>i. read_descriptor ev i maximum)))"

definition read_private_file :: "os_env \<Rightarrow> path \<Rightarrow> nat \<Rightarrow> bytes os_op" where
  "read_private_file ev p maximum =
     guarded UNSAFE_PATH
       (bindS (os_open_read ev p) (\<lambda>i.
        if \<not> owner_private i \<or> \<not> is_regular i then raiseS (SfX NOT_PRIVATE None)
        else read_descriptor ev i maximum))"

definition verify_private_directory :: "os_env \<Rightarrow> path \<Rightarrow> unit os_op" where
  "verify_private_directory ev p =
     guarded NOT_PRIVATE
       (bindS (os_lstat ev p) (\<lambda>i.
        if i_content i \<noteq> Directory \<or> \<not> owner_private i then raiseS (SfX NOT_PRIVATE None) else retS ()))"

text \<open>\<^verbatim>\<open>pathlib.Path.mkdir\<close>: missing parents are created with the default mode.\<close>

function path_mkdir :: "os_env \<Rightarrow> bool \<Rightarrow> bool \<Rightarrow> bool \<Rightarrow> path \<Rightarrow> unit os_op" where
  "path_mkdir ev private parents exist_ok p =
     catchS (os_create ev p Directory private) (\<lambda>e.
       if e = NotFoundX
       then if \<not> parents \<or> p = [] then raiseS NotFoundX
            else bindS (path_mkdir ev (ev_umask_private ev) True True (butlast p)) (\<lambda>_.
                 path_mkdir ev private False exist_ok p)
       else if \<not> exist_ok then raiseS e
       else bindS (getsS (\<lambda>s. is_directory s p)) (\<lambda>d. if d then retS () else raiseS e))"
  by pat_completeness auto
termination by (relation "measure (\<lambda>(ev, private, parents, exist_ok, p). 2 * length p + (if parents then 1 else 0))") auto

declare path_mkdir.simps [simp del]

definition set_private :: "path \<Rightarrow> machine \<Rightarrow> machine" where
  "set_private p s =
     s\<lparr>ma_files := map (\<lambda>(q, i). if q = p then (q, i\<lparr>i_private := True\<rparr>) else (q, i)) (ma_files s)\<rparr>"

definition verify_directory_path :: "os_env \<Rightarrow> path \<Rightarrow> unit os_op" where
  "verify_directory_path ev p =
     guarded UNSAFE_PATH
       (bindS (os_lstat ev p) (\<lambda>i. if i_content i \<noteq> Directory then raiseS (SfX UNSAFE_PATH None) else retS ()))"

definition ensure_directory_path :: "os_env \<Rightarrow> path \<Rightarrow> unit os_op" where
  "ensure_directory_path ev p =
     guarded ACCESS_DENIED
       (bindS (path_mkdir ev True True True p) (\<lambda>_.
        bindS (os_lstat ev p) (\<lambda>i. if i_content i \<noteq> Directory then raiseS (SfX UNSAFE_PATH None) else retS ())))"

definition create_private_directory :: "os_env \<Rightarrow> path \<Rightarrow> bool \<Rightarrow> bool \<Rightarrow> unit os_op" where
  "create_private_directory ev p parents exist_ok =
     guarded_new
       (bindS (path_mkdir ev True parents exist_ok p) (\<lambda>_.
        bindS (os_lstat ev p) (\<lambda>i.
        if i_content i \<noteq> Directory then raiseS (SfX NOT_PRIVATE None)
        else bindS (os_call ev) (\<lambda>_.
             bindS (modifyS (set_private p)) (\<lambda>_. verify_private_directory ev p)))))"

definition create_private_file :: "os_env \<Rightarrow> path \<Rightarrow> bytes \<Rightarrow> unit os_op" where
  "create_private_file ev p content =
     guarded_new
       (bindS (os_create ev p (Regular []) True) (\<lambda>_.
        bindS (os_write ev p content) (\<lambda>_. os_call ev)))"

definition tree_entry_size :: "os_env \<Rightarrow> path \<times> inode \<Rightarrow> nat os_op" where
  "tree_entry_size ev entry =
     bindS (os_lstat ev (fst entry)) (\<lambda>i.
     if i_content i = Symlink \<or> \<not> i_owned i then raiseS (SfX NOT_PRIVATE None)
     else case i_content i of
            Regular b \<Rightarrow> retS (length b)
          | Directory \<Rightarrow> retS 0
          | _ \<Rightarrow> raiseS (SfX NOT_REGULAR_FILE None))"

definition private_tree_size :: "os_env \<Rightarrow> path \<Rightarrow> nat os_op" where
  "private_tree_size ev p =
     guarded UNSAFE_PATH
       (bindS (os_walk ev p) (\<lambda>entries. bindS (mapS (tree_entry_size ev) entries) (\<lambda>sizes. retS (sum_list sizes))))"

text \<open>\<^verbatim>\<open>flock\<close> without blocking; a lock is held on the inode.\<close>

definition acquire_session_lock :: "os_env \<Rightarrow> path \<Rightarrow> nat option os_op" where
  "acquire_session_lock ev p =
     guarded LOCK_UNAVAILABLE
       (bindS (os_open_read ev p) (\<lambda>i.
        bindS (os_call ev) (\<lambda>_. \<lambda>s.
        if i_number i \<in> set (ma_locks s) then (Inr None, s)
        else (Inr (Some (i_number i)), s\<lparr>ma_locks := i_number i # ma_locks s\<rparr>))))"

definition release_session_lock :: "nat \<Rightarrow> unit os_op" where
  "release_session_lock handle = modifyS (\<lambda>s. s\<lparr>ma_locks := filter (\<lambda>n. n \<noteq> handle) (ma_locks s)\<rparr>)"

definition moved :: "path \<Rightarrow> path \<Rightarrow> path \<Rightarrow> path" where
  "moved source destination q = (if beneath source q then destination @ drop (length source) q else q)"

text \<open>\<^verbatim>\<open>renameat2\<close> with \<^verbatim>\<open>RENAME_NOREPLACE\<close>: all or nothing.\<close>

definition publish_directory_no_replace :: "os_env \<Rightarrow> path \<Rightarrow> path \<Rightarrow> unit os_op" where
  "publish_directory_no_replace ev source destination =
     guarded PUBLICATION_FAILED
       (bindS (os_call ev) (\<lambda>_. \<lambda>s.
        if \<not> path_exists s source then (Inl (SfX PUBLICATION_FAILED None), s)
        else if path_exists s destination then (Inl (SfX ALREADY_EXISTS None), s)
        else if \<not> is_directory s (butlast destination) \<or> beneath source destination then (Inl (SfX PUBLICATION_FAILED None), s)
        else (Inr (), s\<lparr>ma_files := map (\<lambda>(q, i). (moved source destination q, i)) (ma_files s)\<rparr>)))"

definition remove_private_tree :: "os_env \<Rightarrow> path \<Rightarrow> unit os_op" where
  "remove_private_tree ev p =
     guarded REMOVE_FAILED (\<lambda>s.
       if \<not> is_directory s p then (Inl (SfX REMOVE_FAILED None), s\<lparr>ma_calls := Suc (ma_calls s)\<rparr>)
       else case os_call ev s of
              (Inl e, t) \<Rightarrow>
                (Inl e, t\<lparr>ma_files := filter (\<lambda>(q, _). \<not> beneath p q \<or> ev_kept ev (ma_calls s) q) (ma_files t)\<rparr>)
            | (Inr _, t) \<Rightarrow> (Inr (), t\<lparr>ma_files := filter (\<lambda>(q, _). \<not> beneath p q) (ma_files t)\<rparr>))"

definition remove_locked_session_tree :: "os_env \<Rightarrow> path \<Rightarrow> nat \<Rightarrow> unit os_op" where
  "remove_locked_session_tree ev p handle = finallyS (remove_private_tree ev p) (release_session_lock handle)"

definition safe_entry :: "os_env \<Rightarrow> path \<times> inode \<Rightarrow> bool os_op" where
  "safe_entry ev entry =
     bindS (os_lstat ev (fst entry)) (\<lambda>i.
     retS (i_content i \<noteq> Symlink \<and> i_owned i \<and> (i_content i = Directory \<or> is_regular i)))"

definition safe_tree :: "os_env \<Rightarrow> path \<Rightarrow> bool os_op" where
  "safe_tree ev p =
     catchS (bindS (verify_private_directory ev p) (\<lambda>_.
             bindS (os_walk ev p) (\<lambda>entries.
             bindS (mapS (safe_entry ev) entries) (\<lambda>oks. retS (list_all id oks)))))
       (\<lambda>_. retS False)"

section \<open>Orphaned sessions\<close>

text \<open>One candidate: its name if it was removed.\<close>

definition locked_removal :: "os_env \<Rightarrow> path \<Rightarrow> nat \<Rightarrow> bool os_op" where
  "locked_removal ev candidate lock =
     finallyS
       (catchS
         (bindS (os_lstat ev candidate) (\<lambda>first_seen.
          bindS (safe_tree ev candidate) (\<lambda>safe.
          if \<not> safe then retS False
          else bindS (os_lstat ev candidate) (\<lambda>last_seen.
               if i_number first_seen \<noteq> i_number last_seen then retS False
               else bindS (remove_private_tree ev candidate) (\<lambda>_. retS True)))))
         (\<lambda>_. retS False))
       (release_session_lock lock)"

definition cleanup_candidate ::
  "os_env \<Rightarrow> path \<Rightarrow> pystr \<Rightarrow> pystr \<Rightarrow> pystr \<Rightarrow> int \<Rightarrow> int \<Rightarrow> (bytes \<Rightarrow> bool) \<Rightarrow> pystr \<Rightarrow> pystr option os_op" where
  "cleanup_candidate ev root session_prefix marker_name lock_name minimum_age now marker_validator name =
     (let candidate = root @ [name] in
      if \<not> starts_with session_prefix name then retS None
      else bindS (safe_tree ev candidate) (\<lambda>safe.
      if \<not> safe then retS None
      else bindS (catchS
             (bindS (os_lstat ev (candidate @ [marker_name])) (\<lambda>marker.
              if now - i_mtime marker \<le> minimum_age then retS None
              else bindS (read_private_file ev (candidate @ [marker_name]) 1024) (\<lambda>content.
                   if \<not> marker_validator content then retS None
                   else acquire_session_lock ev (candidate @ [lock_name]))))
             (\<lambda>_. retS None)) (\<lambda>lock.
      case lock of
        None \<Rightarrow> retS None
      | Some handle \<Rightarrow>
          bindS (locked_removal ev candidate handle) (\<lambda>removed. retS (if removed then Some name else None)))))"

definition cleanup_orphan_sessions ::
  "os_env \<Rightarrow> path \<Rightarrow> pystr \<Rightarrow> pystr \<Rightarrow> pystr \<Rightarrow> int \<Rightarrow> int \<Rightarrow> (bytes \<Rightarrow> bool) \<Rightarrow> pystr list os_op" where
  "cleanup_orphan_sessions ev root session_prefix marker_name lock_name minimum_age now marker_validator =
     bindS (guarded UNSAFE_PATH
       (if root \<in> {[], ev_home ev} then raiseS (SfX UNSAFE_PATH None) else verify_private_directory ev root)) (\<lambda>_.
     bindS (guarded UNSAFE_PATH (os_iterdir ev root)) (\<lambda>names.
     bindS (mapS (cleanup_candidate ev root session_prefix marker_name lock_name minimum_age now marker_validator)
              (sort_key encoded names)) (\<lambda>removed.
     retS (List.map_filter id removed))))"

section \<open>What the provider can raise\<close>

fun is_sf :: "exc \<Rightarrow> bool" where
  "is_sf (SfX _ _) = True"
| "is_sf _ = False"

fun is_plain :: "exc \<Rightarrow> bool" where
  "is_plain (HostX _ _) = False"
| "is_plain (PyX _) = False"
| "is_plain _ = True"

lemma os_as_sf: "is_plain e \<Longrightarrow> is_sf (os_as c e)"
  by (cases e) (simp_all add: os_as_def)

lemma raises_os_call [raises_intros]: "raises is_plain (os_call ev)"
  by (auto simp: raises_def os_call_def split: if_splits)

lemma raises_guarded: "raises is_plain m \<Longrightarrow> raises is_sf (guarded c m)"
  unfolding guarded_def by (erule raises_catchS) (intro raises_intros os_as_sf)

lemma raises_guarded_new: "raises is_plain m \<Longrightarrow> raises is_sf (guarded_new m)"
  unfolding guarded_new_def by (erule raises_catchS) (auto intro!: raises_intros os_as_sf)

lemma raises_lstat [raises_intros]: "raises is_plain (os_lstat ev p)"
  unfolding os_lstat_def by (intro raises_intros) simp_all

lemma raises_open_read [raises_intros]: "raises is_plain (os_open_read ev p)"
  unfolding os_open_read_def by (intro raises_intros) simp_all

lemma raises_read_descriptor [raises_intros]: "raises is_plain (read_descriptor ev i n)"
  unfolding read_descriptor_def by (cases "i_content i"; simp only: file_content.case; intro raises_intros) simp_all

lemma raises_iterdir [raises_intros]: "raises is_plain (os_iterdir ev p)"
  unfolding os_iterdir_def by (intro raises_intros) (simp add: raises_def)

lemma raises_create [raises_intros]: "raises is_plain (os_create ev p c b)"
  unfolding os_create_def by (intro raises_intros) (auto simp: raises_def split: if_splits)

lemma raises_write [raises_intros]: "raises is_plain (os_write ev p b)"
  using raises_os_call[of ev] by (auto simp: os_write_def raises_def retS_def split: prod.splits sum.splits)

lemma raises_provider [raises_intros]:
  "raises is_sf (read_private_file ev p n)" "raises is_sf (verify_private_directory ev p)"
  "raises is_sf (create_private_file ev p b)"
  unfolding read_private_file_def verify_private_directory_def create_private_file_def
  by (intro raises_guarded raises_guarded_new raises_intros; simp)+

lemma raises_publish [raises_intros]: "raises is_sf (publish_directory_no_replace ev p q)"
  unfolding publish_directory_no_replace_def
  by (intro raises_guarded raises_intros) (auto simp: raises_def split: if_splits)

lemma raises_remove [raises_intros]: "raises is_sf (remove_private_tree ev p)"
  unfolding remove_private_tree_def
  by (intro raises_guarded) (auto simp: raises_def os_call_def split: if_splits)

end
