(* ===== verification/Session_Cas.thy ===== *)
theory Session_Cas
  imports Posix_Files
begin

text \<open>
  \<^verbatim>\<open>shared/session_cas.py\<close>: the content-addressed store of one session, on the machine of the POSIX provider. The state
  holds the machine, the process-wide scope registry and the fields of \<^verbatim>\<open>SessionCas\<close>; the environment holds what is
  fixed when the session opens. Random tokens are a function of the number of system calls made so far. The mutex makes
  every operation one step; operations of different sessions interleave between steps.
\<close>

section \<open>Limits\<close>

definition MAX_DATASET_PAYLOAD_BYTES :: int where
  "MAX_DATASET_PAYLOAD_BYTES = 512 * 1024"

definition MAX_SESSION_BYTES :: int where
  "MAX_SESSION_BYTES = 1024 * 1024 * 1024"

record cas_limits =
  cl_record_bytes :: int
  cl_dataset_payload_bytes :: int
  cl_operation_bundle_bytes :: int
  cl_session_bytes :: int

definition cas_limits_check :: "cas_limits \<Rightarrow> py_exc + cas_limits" where
  "cas_limits_check l =
     (if list_ex (\<lambda>(v, maximum). \<not> (1 \<le> v \<and> v \<le> maximum))
           [(cl_record_bytes l, int MAX_RECORD_BYTES), (cl_dataset_payload_bytes l, MAX_DATASET_PAYLOAD_BYTES),
            (cl_operation_bundle_bytes l, int MAX_OPERATION_BUNDLE_BYTES), (cl_session_bytes l, MAX_SESSION_BYTES)]
      then value_error ''CAS limits must be positive integers within the hard alpha maxima'' else Inr l)"

section \<open>The scope registry\<close>

type_synonym registry = "pystr \<Rightarrow> pystr set option"

definition registered :: "registry \<Rightarrow> pystr \<Rightarrow> pystr set" where
  "registered g reference = (case g reference of None \<Rightarrow> {} | Some sessions \<Rightarrow> sessions)"

definition registry_register :: "pystr \<Rightarrow> pystr \<Rightarrow> registry \<Rightarrow> registry" where
  "registry_register session_id reference g = g(reference \<mapsto> insert session_id (registered g reference))"

definition known_outside :: "pystr \<Rightarrow> pystr \<Rightarrow> registry \<Rightarrow> bool" where
  "known_outside session_id reference g \<longleftrightarrow> registered g reference - {session_id} \<noteq> {}"

definition unregister_session :: "pystr \<Rightarrow> registry \<Rightarrow> registry" where
  "unregister_session session_id g = (\<lambda>reference.
     case g reference of
       None \<Rightarrow> None
     | Some sessions \<Rightarrow> if sessions - {session_id} = {} then None else Some (sessions - {session_id}))"

section \<open>State\<close>

record cas_env =
  ce_os :: os_env
  ce_codec :: codec
  ce_limits :: cas_limits
  ce_session_id :: pystr
  ce_cursor_key :: bytes
  ce_root :: path
  ce_token :: "nat \<Rightarrow> pystr"

record cas =
  ca_machine :: machine
  ca_registry :: registry
  ca_references :: "pystr set"
  ca_corrupt :: "pystr set"
  ca_used :: nat
  ca_closed :: bool
  ca_lock :: "nat option"

type_synonym 'a cas_op = "(cas, exc, 'a) eff"

record stored_dataset =
  sd_reference :: pystr
  sd_record :: dataset_record
  sd_payload :: dataset_payload

record stored_operation =
  so_reference :: pystr
  so_record :: operation_record
  so_manifest :: operation_manifest
  so_manifest_bytes :: bytes
  so_members :: "(pystr \<times> bytes) list"

definition on_os :: "'a os_op \<Rightarrow> 'a cas_op" where
  "on_os m = zoomS ca_machine (\<lambda>t s. s\<lparr>ca_machine := t\<rparr>) m"

abbreviation failS :: "host_failure_code \<Rightarrow> ('s, exc, 'a) eff" where
  "failS code \<equiv> raiseS (HostX code [])"

definition invalid_request :: exc where
  "invalid_request = HostX HF_INVALID_TOOL_REQUEST (fields_detail [])"

definition session_directory :: "cas_env \<Rightarrow> path" where
  "session_directory env = ce_root env @ [lit ''session-'' @ ce_session_id env]"

section \<open>Helpers\<close>

text \<open>\<^verbatim>\<open>except SecureFilesystemError as exc: raise ValueError(...)\<close>.\<close>

definition sf_value_error :: "string \<Rightarrow> 'a os_op \<Rightarrow> 'a os_op" where
  "sf_value_error message m =
     catchS m (\<lambda>e. raiseS (case e of SfX _ _ \<Rightarrow> PyX (ValueError (lit message)) | _ \<Rightarrow> e))"

definition validate_owned_directory :: "os_env \<Rightarrow> path \<Rightarrow> unit os_op" where
  "validate_owned_directory ev p = sf_value_error ''session directory is not owner-private'' (verify_private_directory ev p)"

definition write_private :: "os_env \<Rightarrow> path \<Rightarrow> bytes \<Rightarrow> unit os_op" where
  "write_private ev p content = sf_value_error ''CAS member could not be created privately'' (create_private_file ev p content)"

definition read_private :: "os_env \<Rightarrow> path \<Rightarrow> nat \<Rightarrow> bytes os_op" where
  "read_private ev p maximum = sf_value_error ''CAS member could not be read safely'' (read_private_file ev p maximum)"

definition entry_size :: "os_env \<Rightarrow> path \<Rightarrow> nat os_op" where
  "entry_size ev p = sf_value_error ''CAS entry contains an unsafe member'' (private_tree_size ev p)"

definition reference_parts :: "pystr \<Rightarrow> reference_kind option \<Rightarrow> exc + reference_kind \<times> pystr" where
  "reference_parts reference expected =
     (case (case parse_reference DatasetKind reference of
              Inr p \<Rightarrow> Some p
            | Inl _ \<Rightarrow> (case parse_reference OperationKind reference of Inr p \<Rightarrow> Some p | Inl _ \<Rightarrow> None)) of
        None \<Rightarrow> Inl invalid_request
      | Some p \<Rightarrow>
          if pr_version_token p \<noteq> lit ''1''
          then Inl (HostX HF_UNSUPPORTED_REFERENCE_VERSION
                 [(KStr (lit ''requested_version''), PStr (118 # pr_version_token p))])
          else if expected \<noteq> None \<and> expected \<noteq> Some (pr_kind p) then Inl invalid_request
          else Inr (pr_kind p, pr_digest p))"

definition require_open :: "unit cas_op" where
  "require_open = bindS (getsS ca_closed) (\<lambda>closed. if closed then failS HF_REFERENCE_NOT_FOUND else retS ())"

definition kind_directory :: "reference_kind \<Rightarrow> pystr" where
  "kind_directory k = (case k of DatasetKind \<Rightarrow> lit ''datasets'' | OperationKind \<Rightarrow> lit ''operations'')"

definition destination :: "cas_env \<Rightarrow> reference_kind \<Rightarrow> pystr \<Rightarrow> exc + path" where
  "destination env k reference =
     bindE (reference_parts reference (Some k)) (\<lambda>(_, digest). Inr (session_directory env @ [kind_directory k, digest]))"

definition reserve :: "cas_env \<Rightarrow> nat \<Rightarrow> unit cas_op" where
  "reserve env sz =
     bindS (getsS ca_used) (\<lambda>used.
     if int (used + sz) > cl_session_bytes (ce_limits env) then failS HF_CACHE_FULL else retS ())"

definition register :: "cas_env \<Rightarrow> pystr \<Rightarrow> nat \<Rightarrow> unit cas_op" where
  "register env reference sz =
     bindS (getsS (\<lambda>s. reference \<in> ca_references s)) (\<lambda>known.
     if known then retS ()
     else bindS (reserve env sz) (\<lambda>_.
          modifyS (\<lambda>s. s\<lparr>ca_references := insert reference (ca_references s), ca_used := ca_used s + sz,
                        ca_registry := registry_register (ce_session_id env) reference (ca_registry s)\<rparr>)))"

definition resolve :: "cas_env \<Rightarrow> reference_kind \<Rightarrow> pystr \<Rightarrow> path cas_op" where
  "resolve env k reference =
     bindS require_open (\<lambda>_.
     bindS (liftS (destination env k reference)) (\<lambda>d.
     bindS (getsS id) (\<lambda>s.
     if reference \<in> ca_corrupt s then failS HF_RECORD_CORRUPT
     else if reference \<in> ca_references s then retS d
     else if known_outside (ce_session_id env) reference (ca_registry s) then failS HF_REFERENCE_SCOPE_DENIED
     else failS HF_REFERENCE_NOT_FOUND)))"

text \<open>\<^verbatim>\<open>_quarantine\<close>: mark the reference, then move the entry out of the way if that works.\<close>

definition quarantine :: "cas_env \<Rightarrow> path \<Rightarrow> pystr \<Rightarrow> unit cas_op" where
  "quarantine env d reference =
     bindS (modifyS (\<lambda>s. s\<lparr>ca_corrupt := insert reference (ca_corrupt s)\<rparr>)) (\<lambda>_.
     bindS (getsS ca_machine) (\<lambda>m.
     if \<not> path_exists m d \<or> (case lookup m d of None \<Rightarrow> False | Some i \<Rightarrow> i_content i = Symlink) then retS ()
     else let target = session_directory env @ [lit ''quarantine'',
                last (butlast d) @ lit ''-'' @ last d @ lit ''-'' @ ce_token env (ma_calls m)] in
          catchS (on_os (publish_directory_no_replace (ce_os env) d target))
            (\<lambda>e. case e of SfX _ _ \<Rightarrow> retS () | _ \<Rightarrow> raiseS e)))"

fun new_stage_loop :: "cas_env \<Rightarrow> string \<Rightarrow> nat \<Rightarrow> path cas_op" where
  "new_stage_loop env kind 0 = raiseS (SfX ALREADY_EXISTS None)"
| "new_stage_loop env kind (Suc n) =
     bindS (getsS (\<lambda>s. ma_calls (ca_machine s))) (\<lambda>k.
     let stage = session_directory env @ [lit ''staging'', lit kind @ lit ''-'' @ ce_token env k] in
     catchS (bindS (on_os (create_private_directory (ce_os env) stage False False)) (\<lambda>_. retS stage))
       (\<lambda>e. case e of
              SfX code _ \<Rightarrow> if code \<noteq> ALREADY_EXISTS then raiseS e else new_stage_loop env kind n
            | _ \<Rightarrow> raiseS e))"

definition new_stage :: "cas_env \<Rightarrow> string \<Rightarrow> path cas_op" where
  "new_stage env kind = new_stage_loop env kind 100"

text \<open>The \<^verbatim>\<open>finally\<close> of a publication.\<close>

definition remove_stage :: "cas_env \<Rightarrow> path \<Rightarrow> unit cas_op" where
  "remove_stage env stage =
     bindS (getsS (\<lambda>s. path_exists (ca_machine s) stage)) (\<lambda>there.
     if \<not> there then retS ()
     else catchS (on_os (remove_private_tree (ce_os env) stage)) (\<lambda>e. case e of SfX _ _ \<Rightarrow> retS () | _ \<Rightarrow> raiseS e))"

text \<open>\<^verbatim>\<open>except (TypeError, ValueError, ValidationError)\<close>.\<close>

definition or_publication_failed :: "py_exc + 'a \<Rightarrow> exc + 'a" where
  "or_publication_failed r =
     (case r of Inr a \<Rightarrow> Inr a | Inl _ \<Rightarrow> Inl (HostX HF_RECORD_PUBLICATION_FAILED []))"

text \<open>\<^verbatim>\<open>except HostFailureException: raise\<close>, then \<^verbatim>\<open>except Exception\<close>.\<close>

definition host_or :: "host_failure_code \<Rightarrow> exc \<Rightarrow> exc" where
  "host_or code e = (case e of HostX _ _ \<Rightarrow> e | _ \<Rightarrow> HostX code [])"

text \<open>\<^verbatim>\<open>except Exception as exc: self._quarantine(...); raise _fail(RECORD_CORRUPT)\<close>.\<close>

definition or_quarantine :: "cas_env \<Rightarrow> path \<Rightarrow> pystr \<Rightarrow> 'a cas_op \<Rightarrow> 'a cas_op" where
  "or_quarantine env d reference m =
     catchS m (\<lambda>_. bindS (quarantine env d reference) (\<lambda>_. failS HF_RECORD_CORRUPT))"

definition pyS :: "py_exc + 'a \<Rightarrow> ('s, exc, 'a) eff" where
  "pyS r = liftS (case r of Inl e \<Rightarrow> Inl (PyX e) | Inr a \<Rightarrow> Inr a)"

section \<open>Datasets\<close>

definition dataset_of_bytes :: "cas_env \<Rightarrow> pystr \<Rightarrow> bytes \<Rightarrow> bytes \<Rightarrow> py_exc + stored_dataset" where
  "dataset_of_bytes env reference record_bytes payload_bytes =
     (let c = ce_codec env; l = ce_limits env in
      bindE (strict_cas_json_loads (co_float_repr c) (co_parse_float c) (nat (cl_record_bytes l)) record_bytes) (\<lambda>v.
      bindE (model_validate (co_parse_dataset c) dataset_record_valid v) (\<lambda>r.
      bindE (strict_cas_json_loads (co_float_repr c) (co_parse_float c) (nat (cl_dataset_payload_bytes l)) payload_bytes) (\<lambda>w.
      bindE (model_validate (co_parse_payload c) dataset_payload_valid w) (\<lambda>p.
      bindE (cas_json_bytes (co_float_repr c) (dataset_record_projection r)) (\<lambda>rb.
      bindE (cas_json_bytes (co_float_repr c) (payload_projection p)) (\<lambda>pb.
      if rb \<noteq> record_bytes \<or> pb \<noteq> payload_bytes
      then value_error ''dataset entry omits or changes a materialized record field''
      else bindE (dataset_record_reference r) (\<lambda>ref.
      if ref \<noteq> reference then value_error ''dataset reference digest does not match its stored record''
      else bindE (validate_payload r p) (\<lambda>_.
      Inr \<lparr>sd_reference = reference, sd_record = r, sd_payload = p\<rparr>)))))))))"

definition load_dataset_directory :: "cas_env \<Rightarrow> path \<Rightarrow> pystr \<Rightarrow> stored_dataset cas_op" where
  "load_dataset_directory env d reference =
     bindS (on_os (validate_owned_directory (ce_os env) d)) (\<lambda>_.
     bindS (on_os (os_iterdir (ce_os env) d)) (\<lambda>entries.
     if set entries \<noteq> {lit ''record.json'', lit ''payload.json''}
     then raiseS (PyX (ValueError (lit ''dataset entry has unexpected members'')))
     else bindS (on_os (read_private (ce_os env) (d @ [lit ''record.json'']) (nat (cl_record_bytes (ce_limits env))))) (\<lambda>record_bytes.
     bindS (on_os (read_private (ce_os env) (d @ [lit ''payload.json'']) (nat (cl_dataset_payload_bytes (ce_limits env))))) (\<lambda>payload_bytes.
     pyS (dataset_of_bytes env reference record_bytes payload_bytes)))))"

definition load_dataset :: "cas_env \<Rightarrow> pystr \<Rightarrow> stored_dataset cas_op" where
  "load_dataset env reference =
     bindS (resolve env DatasetKind reference) (\<lambda>d.
     catchS (load_dataset_directory env d reference) (\<lambda>e.
       case e of
         HostX _ _ \<Rightarrow> raiseS e
       | _ \<Rightarrow> bindS (quarantine env d reference) (\<lambda>_. failS HF_RECORD_CORRUPT)))"

section \<open>Operations\<close>

definition member_copy :: "(pystr \<times> bytes) list \<Rightarrow> py_exc + (pystr \<times> bytes) list" where
  "member_copy members =
     (if \<not> (2 \<le> length members \<and> length members \<le> 130) then value_error ''operation bundle has an invalid member count''
      else bindE (portable_member_key (lit ''manifest.json'')) (\<lambda>manifest_key.
           bindE (mapE (\<lambda>m. portable_member_key (fst m)) members) (\<lambda>keys.
           if \<not> distinct (manifest_key # keys) then value_error ''operation member mapping is invalid'' else Inr members)))"

definition validated_manifest :: "codec \<Rightarrow> bytes \<Rightarrow> py_exc + operation_manifest" where
  "validated_manifest c content =
     bindE (strict_json_loads (co_parse_float c) (Some MAX_OPERATION_BUNDLE_BYTES) content) (\<lambda>v.
     bindE (model_validate (co_parse_manifest c) operation_manifest_valid v) (\<lambda>m.
     bindE (pretty_json_bytes (co_float_repr c) (operation_manifest_dump m)) (\<lambda>b.
     if b \<noteq> content then value_error ''operation manifest is not the exact Phase-1 serialization'' else Inr m)))"

text \<open>The entries of \<^verbatim>\<open>os.walk\<close>: directories have to be private, files need portable paths with distinct keys.\<close>

fun walk_members :: "os_env \<Rightarrow> path \<Rightarrow> (path \<times> inode) list \<Rightarrow> pystr list \<Rightarrow> pystr list \<Rightarrow> pystr list os_op" where
  "walk_members ev root [] portable_keys paths = retS paths"
| "walk_members ev root ((q, i) # entries) portable_keys paths =
     (if i_content i = Directory
      then bindS (validate_owned_directory ev q) (\<lambda>_. walk_members ev root entries portable_keys paths)
      else let relative = str_join [47] (drop (length root) q) in
        bindS (pyS (portable_member_key relative)) (\<lambda>portable_key.
        if relative = lit ''manifest.json'' then walk_members ev root entries portable_keys paths
        else if portable_key \<in> set portable_keys
        then raiseS (PyX (ValueError (lit ''operation bundle has an invalid member count'')))
        else walk_members ev root entries (portable_key # portable_keys) (paths @ [relative])))"

fun read_members :: "os_env \<Rightarrow> path \<Rightarrow> nat \<Rightarrow> pystr list \<Rightarrow> (pystr \<times> bytes) list os_op" where
  "read_members ev root remaining [] = retS []"
| "read_members ev root remaining (relative # paths) =
     bindS (read_private ev (root @ split_on 47 relative) remaining) (\<lambda>content.
     bindS (read_members ev root (remaining - length content) paths) (\<lambda>members.
     retS ((relative, content) # members)))"

definition read_operation_bundle :: "cas_env \<Rightarrow> path \<Rightarrow> (bytes \<times> (pystr \<times> bytes) list) os_op" where
  "read_operation_bundle env root =
     (let ev = ce_os env; maximum = nat (cl_operation_bundle_bytes (ce_limits env)) in
      bindS (validate_owned_directory ev root) (\<lambda>_.
      bindS (read_private ev (root @ [lit ''manifest.json'']) maximum) (\<lambda>manifest_content.
      bindS (pyS (portable_member_key (lit ''manifest.json''))) (\<lambda>manifest_key.
      bindS (os_walk ev root) (\<lambda>entries.
      bindS (walk_members ev root entries [manifest_key] []) (\<lambda>paths.
      if \<not> (2 \<le> length paths \<and> length paths \<le> 130)
      then raiseS (PyX (ValueError (lit ''operation bundle has an invalid member count'')))
      else bindS (read_members ev root (maximum - length manifest_content) (sort_key encoded paths)) (\<lambda>members.
           retS (manifest_content, members))))))))"

text \<open>What reconciliation sees of a directory: one listing and the reads of its members.\<close>

definition bundle_view :: "os_env \<Rightarrow> path \<Rightarrow> machine \<Rightarrow> bundle_dir" where
  "bundle_view ev root s =
     \<lparr>bu_names = (case fst (os_iterdir ev root s) of Inl _ \<Rightarrow> None | Inr names \<Rightarrow> Some names),
      bu_read = (\<lambda>p maximum.
        case fst (read_regular_file ev (root @ split_on 47 p) maximum s) of
          Inr content \<Rightarrow> ReadOk content
        | Inl (SfX code actual) \<Rightarrow> if code = BYTE_LIMIT_EXCEEDED then OverLimit actual else ReadFailed
        | Inl _ \<Rightarrow> ReadFailed)\<rparr>"

definition host_exc_as :: "host_exc + 'a \<Rightarrow> exc + 'a" where
  "host_exc_as r = (case r of Inl (Host code details) \<Rightarrow> Inl (HostX code details) | Inl (Other e) \<Rightarrow> Inl (PyX e) | Inr a \<Rightarrow> Inr a)"

definition reconcile_operation :: "cas_env \<Rightarrow> operation_record \<Rightarrow> path \<Rightarrow> operation_manifest cas_op" where
  "reconcile_operation env r root =
     (if operation_source (rec_binding r) \<noteq> None
      then raiseS (PyX (ValueError (lit ''operation-source records remain deferred'')))
      else bindS (case ob_source (rec_binding r) of
                    None \<Rightarrow> retS None
                  | Some source \<Rightarrow> bindS (load_dataset env (bs_ref source)) (\<lambda>d. retS (Some d))) (\<lambda>dataset.
           bindS (getsS (\<lambda>s. bundle_view (ce_os env) root (ca_machine s))) (\<lambda>b.
           bindS (on_os (modifyS (\<lambda>m. m\<lparr>ma_calls := Suc (ma_calls m)\<rparr>))) (\<lambda>_.
           liftS (host_exc_as (reconcile_operation_record (ce_codec env) r b
             (map_option sd_record dataset) (map_option sd_payload dataset)))))))"

definition operation_of_bytes :: "cas_env \<Rightarrow> pystr \<Rightarrow> bytes \<Rightarrow> py_exc + operation_record" where
  "operation_of_bytes env reference record_bytes =
     (let c = ce_codec env in
      bindE (strict_cas_json_loads (co_float_repr c) (co_parse_float c) (nat (cl_record_bytes (ce_limits env))) record_bytes) (\<lambda>v.
      bindE (model_validate (co_parse_operation c) operation_record_valid v) (\<lambda>r.
      bindE (cas_json_bytes (co_float_repr c) (operation_record_projection r)) (\<lambda>rb.
      if rb \<noteq> record_bytes then value_error ''operation entry omits or changes a materialized record field''
      else bindE (operation_record_reference r) (\<lambda>ref.
      if ref \<noteq> reference then value_error ''operation reference digest does not match its stored record'' else Inr r)))))"

definition load_operation_directory :: "cas_env \<Rightarrow> path \<Rightarrow> pystr \<Rightarrow> stored_operation cas_op" where
  "load_operation_directory env d reference =
     bindS (on_os (validate_owned_directory (ce_os env) d)) (\<lambda>_.
     bindS (on_os (os_iterdir (ce_os env) d)) (\<lambda>entries.
     if set entries \<noteq> {lit ''record.json'', lit ''bundle''}
     then raiseS (PyX (ValueError (lit ''operation entry has unexpected members'')))
     else bindS (on_os (read_private (ce_os env) (d @ [lit ''record.json'']) (nat (cl_record_bytes (ce_limits env))))) (\<lambda>record_bytes.
     bindS (pyS (operation_of_bytes env reference record_bytes)) (\<lambda>r.
     bindS (on_os (read_operation_bundle env (d @ [lit ''bundle'']))) (\<lambda>(manifest_content, members).
     bindS (reconcile_operation env r (d @ [lit ''bundle''])) (\<lambda>m.
     retS \<lparr>so_reference = reference, so_record = r, so_manifest = m, so_manifest_bytes = manifest_content,
           so_members = members\<rparr>))))))"

definition load_operation :: "cas_env \<Rightarrow> pystr \<Rightarrow> stored_operation cas_op" where
  "load_operation env reference =
     bindS (resolve env OperationKind reference) (\<lambda>d.
     catchS (load_operation_directory env d reference) (\<lambda>e.
       bindS (quarantine env d reference) (\<lambda>_.
       case e of
         HostX code _ \<Rightarrow> if code = HF_RECORD_CORRUPT then raiseS e else failS HF_RECORD_CORRUPT
       | _ \<Rightarrow> failS HF_RECORD_CORRUPT)))"

section \<open>Publication\<close>

definition publish_stage :: "cas_env \<Rightarrow> path \<Rightarrow> path \<Rightarrow> pystr \<Rightarrow> reference_kind \<Rightarrow> unit cas_op" where
  "publish_stage env stage d reference kind =
     bindS (catchS (bindS (on_os (publish_directory_no_replace (ce_os env) stage d)) (\<lambda>_. retS True)) (\<lambda>e.
       case e of
         SfX code _ \<Rightarrow>
           bindS (getsS (\<lambda>s. path_exists (ca_machine s) d)) (\<lambda>there.
           if code \<noteq> ALREADY_EXISTS \<and> \<not> there then raiseS e else retS False)
       | _ \<Rightarrow> raiseS e)) (\<lambda>published.
     if published then retS ()
     else case kind of
       DatasetKind \<Rightarrow> or_quarantine env d reference (bindS (load_dataset_directory env d reference) (\<lambda>_. retS ()))
     | OperationKind \<Rightarrow> or_quarantine env d reference (bindS (load_operation_directory env d reference) (\<lambda>_. retS ())))"

text \<open>The checks of \<^verbatim>\<open>publish_dataset\<close> before the store is touched.\<close>

definition validated_dataset ::
  "cas_env \<Rightarrow> dataset_payload \<Rightarrow> dataset_record \<Rightarrow> py_exc + dataset_record \<times> bytes \<times> bytes" where
  "validated_dataset env payload record =
     (let c = ce_codec env in
      bindE (model_validate (co_parse_payload c) dataset_payload_valid (payload_projection payload)) (\<lambda>validated_payload.
      bindE (model_validate (co_parse_dataset c) dataset_record_valid (dataset_record_projection record)) (\<lambda>validated_record.
      bindE (validate_payload validated_record validated_payload) (\<lambda>_.
      bindE (cas_json_bytes (co_float_repr c) (payload_projection validated_payload)) (\<lambda>payload_bytes.
      bindE (cas_json_bytes (co_float_repr c) (dataset_record_projection validated_record)) (\<lambda>record_bytes.
      Inr (validated_record, record_bytes, payload_bytes)))))))"

definition stage_dataset :: "cas_env \<Rightarrow> path \<Rightarrow> path \<Rightarrow> pystr \<Rightarrow> bytes \<Rightarrow> bytes \<Rightarrow> pystr cas_op" where
  "stage_dataset env stage d reference record_bytes payload_bytes =
     finallyS
       (catchS
         (bindS (on_os (write_private (ce_os env) (stage @ [lit ''record.json'']) record_bytes)) (\<lambda>_.
          bindS (on_os (write_private (ce_os env) (stage @ [lit ''payload.json'']) payload_bytes)) (\<lambda>_.
          bindS (load_dataset_directory env stage reference) (\<lambda>_.
          bindS (publish_stage env stage d reference DatasetKind) (\<lambda>_.
          bindS (register env reference (length payload_bytes + length record_bytes)) (\<lambda>_.
          retS reference))))))
         (\<lambda>e. raiseS (host_or HF_RECORD_PUBLICATION_FAILED e)))
       (remove_stage env stage)"

text \<open>An entry that is already there is verified and adopted.\<close>

definition existing_dataset :: "cas_env \<Rightarrow> path \<Rightarrow> pystr \<Rightarrow> pystr cas_op" where
  "existing_dataset env d reference =
     bindS (or_quarantine env d reference (load_dataset_directory env d reference)) (\<lambda>loaded.
     bindS (on_os (entry_size (ce_os env) d)) (\<lambda>sz.
     bindS (register env reference sz) (\<lambda>_. retS (sd_reference loaded))))"

definition commit_dataset :: "cas_env \<Rightarrow> pystr \<Rightarrow> bytes \<Rightarrow> bytes \<Rightarrow> pystr cas_op" where
  "commit_dataset env reference record_bytes payload_bytes =
     bindS (getsS (\<lambda>s. reference \<in> ca_corrupt s)) (\<lambda>corrupt.
     if corrupt then failS HF_RECORD_CORRUPT
     else bindS (liftS (destination env DatasetKind reference)) (\<lambda>d.
     bindS (getsS (\<lambda>s. path_exists (ca_machine s) d)) (\<lambda>there.
     if there then existing_dataset env d reference
     else bindS (reserve env (length payload_bytes + length record_bytes)) (\<lambda>_.
          bindS (new_stage env ''dataset'') (\<lambda>stage.
          stage_dataset env stage d reference record_bytes payload_bytes)))))"

definition publish_dataset :: "cas_env \<Rightarrow> dataset_payload \<Rightarrow> dataset_record \<Rightarrow> pystr cas_op" where
  "publish_dataset env payload record =
     bindS require_open (\<lambda>_.
     bindS (liftS (or_publication_failed (validated_dataset env payload record))) (\<lambda>(validated_record, record_bytes, payload_bytes).
     if int (length payload_bytes) > cl_dataset_payload_bytes (ce_limits env)
     then raiseS (HostX HF_INPUT_LIMIT_EXCEEDED (limit_detail ''normalized_dataset_payload_bytes''
            (nat (cl_dataset_payload_bytes (ce_limits env))) (length payload_bytes)))
     else if int (length record_bytes) > cl_record_bytes (ce_limits env) then failS HF_RECORD_PUBLICATION_FAILED
     else bindS (pyS (dataset_record_reference validated_record)) (\<lambda>reference.
          commit_dataset env reference record_bytes payload_bytes)))"

definition validated_operation ::
  "cas_env \<Rightarrow> operation_record \<Rightarrow> bytes \<Rightarrow> (pystr \<times> bytes) list \<Rightarrow> py_exc + operation_record \<times> bytes" where
  "validated_operation env record manifest_content members =
     (let c = ce_codec env in
      bindE (model_validate (co_parse_operation c) operation_record_valid (operation_record_projection record)) (\<lambda>validated_record.
      bindE (validated_manifest c manifest_content) (\<lambda>_.
      bindE (member_copy members) (\<lambda>_.
      bindE (cas_json_bytes (co_float_repr c) (operation_record_projection validated_record)) (\<lambda>record_bytes.
      Inr (validated_record, record_bytes))))))"

text \<open>An entry that is already there has to be the one that is being published.\<close>

definition existing_operation ::
  "cas_env \<Rightarrow> path \<Rightarrow> pystr \<Rightarrow> operation_record \<Rightarrow> bytes \<Rightarrow> (pystr \<times> bytes) list \<Rightarrow> pystr cas_op" where
  "existing_operation env d reference validated_record manifest_content members =
     bindS (or_quarantine env d reference (load_operation_directory env d reference)) (\<lambda>loaded.
     if \<not> py_eq (operation_record_projection (so_record loaded)) (operation_record_projection validated_record) \<or>
        so_manifest_bytes loaded \<noteq> manifest_content \<or> set (so_members loaded) \<noteq> set members
     then failS HF_RECORD_PUBLICATION_FAILED
     else bindS (on_os (entry_size (ce_os env) d)) (\<lambda>sz.
          bindS (register env reference sz) (\<lambda>_. retS (so_reference loaded))))"

definition write_member :: "os_env \<Rightarrow> path \<Rightarrow> pystr \<times> bytes \<Rightarrow> unit os_op" where
  "write_member ev bundle_root member =
     (let p = bundle_root @ split_on 47 (fst member) in
      bindS (create_private_directory ev (butlast p) True True) (\<lambda>_. write_private ev p (snd member)))"

definition stage_operation ::
  "cas_env \<Rightarrow> path \<Rightarrow> path \<Rightarrow> pystr \<Rightarrow> operation_record \<Rightarrow> bytes \<Rightarrow> bytes \<Rightarrow> (pystr \<times> bytes) list \<Rightarrow> nat \<Rightarrow> pystr cas_op" where
  "stage_operation env stage d reference validated_record record_bytes manifest_content members sz =
     finallyS
       (catchS
         (bindS (on_os (write_private (ce_os env) (stage @ [lit ''record.json'']) record_bytes)) (\<lambda>_.
          let bundle_root = stage @ [lit ''bundle''] in
          bindS (on_os (create_private_directory (ce_os env) bundle_root False False)) (\<lambda>_.
          bindS (on_os (write_private (ce_os env) (bundle_root @ [lit ''manifest.json'']) manifest_content)) (\<lambda>_.
          bindS (on_os (mapS (write_member (ce_os env) bundle_root) members)) (\<lambda>_.
          bindS (load_operation_directory env stage reference) (\<lambda>_.
          bindS (getsS (\<lambda>s. path_exists (ca_machine s) d)) (\<lambda>there.
          if there then existing_operation env d reference validated_record manifest_content members
          else bindS (publish_stage env stage d reference OperationKind) (\<lambda>_.
               bindS (register env reference sz) (\<lambda>_. retS reference)))))))))
         (\<lambda>e. raiseS (host_or HF_RECORD_PUBLICATION_FAILED e)))
       (remove_stage env stage)"

definition commit_operation ::
  "cas_env \<Rightarrow> pystr \<Rightarrow> operation_record \<Rightarrow> bytes \<Rightarrow> bytes \<Rightarrow> (pystr \<times> bytes) list \<Rightarrow> nat \<Rightarrow> pystr cas_op" where
  "commit_operation env reference validated_record record_bytes manifest_content members sz =
     bindS (getsS (\<lambda>s. reference \<in> ca_corrupt s)) (\<lambda>corrupt.
     if corrupt then failS HF_RECORD_CORRUPT
     else bindS (liftS (destination env OperationKind reference)) (\<lambda>d.
     bindS (getsS (\<lambda>s. path_exists (ca_machine s) d)) (\<lambda>there.
     if there then existing_operation env d reference validated_record manifest_content members
     else bindS (reserve env sz) (\<lambda>_.
          bindS (new_stage env ''operation'') (\<lambda>stage.
          stage_operation env stage d reference validated_record record_bytes manifest_content members sz)))))"

definition publish_operation :: "cas_env \<Rightarrow> operation_record \<Rightarrow> bytes \<Rightarrow> (pystr \<times> bytes) list \<Rightarrow> pystr cas_op" where
  "publish_operation env record manifest_content members =
     bindS require_open (\<lambda>_.
     bindS (liftS (or_publication_failed (validated_operation env record manifest_content members))) (\<lambda>(validated_record, record_bytes).
     let bundle_size = length manifest_content + sum_list (map (length \<circ> snd) members) in
     if int bundle_size > cl_operation_bundle_bytes (ce_limits env)
     then raiseS (HostX HF_RESULT_LIMIT_EXCEEDED (limit_detail ''operation_bundle_bytes''
            (nat (cl_operation_bundle_bytes (ce_limits env))) bundle_size))
     else if int (length record_bytes) > cl_record_bytes (ce_limits env) then failS HF_RECORD_PUBLICATION_FAILED
     else bindS (pyS (operation_record_reference validated_record)) (\<lambda>reference.
          commit_operation env reference validated_record record_bytes manifest_content members
            (length record_bytes + bundle_size))))"

text \<open>\<^verbatim>\<open>temporary_operation_output\<close> around the body of the \<^verbatim>\<open>with\<close> statement.\<close>

definition temporary_operation_output :: "cas_env \<Rightarrow> (path \<Rightarrow> 'a cas_op) \<Rightarrow> 'a cas_op" where
  "temporary_operation_output env body =
     bindS require_open (\<lambda>_.
     bindS (new_stage env ''operation'') (\<lambda>stage.
     finallyS (body (stage @ [lit ''bundle''])) (remove_stage env stage)))"

section \<open>Opening and closing\<close>

definition MARKER_VALUE :: pyval where
  "MARKER_VALUE = jobj [(''application'', jstr ''defined-quant-local-mcp''), (''schema_version'', PInt 1)]"

definition valid_marker_content :: "codec \<Rightarrow> bytes \<Rightarrow> bool" where
  "valid_marker_content c content =
     (case strict_cas_json_loads (co_float_repr c) (co_parse_float c) 1024 content of
        Inl _ \<Rightarrow> False | Inr v \<Rightarrow> py_eq v MARKER_VALUE)"

definition valid_marker :: "cas_env \<Rightarrow> path \<Rightarrow> bool os_op" where
  "valid_marker env marker =
     catchS (bindS (read_private (ce_os env) marker 1024) (\<lambda>content. retS (valid_marker_content (ce_codec env) content)))
       (\<lambda>e. case e of SfX _ _ \<Rightarrow> raiseS e | HostX _ _ \<Rightarrow> raiseS e | _ \<Rightarrow> retS False)"

definition release_own_lock :: "unit cas_op" where
  "release_own_lock =
     bindS (getsS ca_lock) (\<lambda>lock.
     case lock of
       None \<Rightarrow> retS ()
     | Some handle \<Rightarrow> bindS (on_os (release_session_lock handle)) (\<lambda>_. modifyS (\<lambda>s. s\<lparr>ca_lock := None\<rparr>)))"

definition remove_session_directory :: "cas_env \<Rightarrow> unit cas_op" where
  "remove_session_directory env =
     (let d = session_directory env in
      bindS (getsS (\<lambda>s. path_exists (ca_machine s) d)) (\<lambda>there.
      if \<not> there then retS ()
      else bindS (on_os (valid_marker env (d @ [lit ''.defined-quant-session-v1'']))) (\<lambda>marked.
      if \<not> marked then retS ()
      else bindS (getsS ca_lock) (\<lambda>lock.
      case lock of
        None \<Rightarrow> on_os (remove_private_tree (ce_os env) d)
      | Some handle \<Rightarrow>
          bindS (modifyS (\<lambda>s. s\<lparr>ca_lock := None\<rparr>)) (\<lambda>_. on_os (remove_locked_session_tree (ce_os env) d handle))))))"

definition close_session :: "cas_env \<Rightarrow> unit cas_op" where
  "close_session env =
     bindS (getsS ca_closed) (\<lambda>closed.
     if closed then retS ()
     else bindS (modifyS (\<lambda>s. s\<lparr>ca_closed := True, ca_registry := unregister_session (ce_session_id env) (ca_registry s),
                                ca_references := {}\<rparr>)) (\<lambda>_.
          finallyS
            (catchS (remove_session_directory env) (\<lambda>e.
               case e of HostX _ _ \<Rightarrow> raiseS e | PyX _ \<Rightarrow> raiseS e | _ \<Rightarrow> failS HF_RECORD_PUBLICATION_FAILED))
            release_own_lock))"

text \<open>Paths of the model are absolute and have no relative segments, so the first two tests of \<^verbatim>\<open>_prepare_state_root\<close> pass.\<close>

definition prepare_state_root :: "cas_env \<Rightarrow> unit os_op" where
  "prepare_state_root env =
     (let ev = ce_os env; root = ce_root env in
      catchS
        (if root = [] \<or> root = ev_home ev then raiseS (PyX (ValueError (lit ''session-state root is too broad'')))
         else bindS (getsS (\<lambda>s. lookup s root)) (\<lambda>i.
         case i of
           Some i \<Rightarrow>
             if i_content i = Symlink
             then raiseS (PyX (ValueError (lit ''session-state root must not traverse symbolic links'')))
             else verify_private_directory ev root
         | None \<Rightarrow>
             bindS (getsS (\<lambda>s. path_exists s (butlast root))) (\<lambda>parent.
             if \<not> parent then raiseS NotFoundX
             else bindS (create_private_directory ev root False False) (\<lambda>_. verify_private_directory ev root))))
        (\<lambda>_. failS HF_RECORD_PUBLICATION_FAILED))"

definition ORPHAN_SESSION_AGE_SECONDS :: int where
  "ORPHAN_SESSION_AGE_SECONDS = 24 * 60 * 60"

definition cleanup_sessions :: "cas_env \<Rightarrow> int \<Rightarrow> path list os_op" where
  "cleanup_sessions env now =
     catchS (bindS (cleanup_orphan_sessions (ce_os env) (ce_root env) (lit ''session-'') (lit ''.defined-quant-session-v1'')
               (lit ''.lock'') ORPHAN_SESSION_AGE_SECONDS now (valid_marker_content (ce_codec env))) (\<lambda>names.
             retS (map (\<lambda>n. ce_root env @ [n]) names)))
       (\<lambda>e. case e of SfX _ _ \<Rightarrow> failS HF_RECORD_PUBLICATION_FAILED | _ \<Rightarrow> raiseS e)"

definition create_session_directory :: "cas_env \<Rightarrow> nat os_op" where
  "create_session_directory env =
     (let ev = ce_os env; d = session_directory env in
      bindS (create_private_directory ev d False False) (\<lambda>_.
      bindS (mapS (\<lambda>name. create_private_directory ev (d @ [lit name]) False False)
               [''datasets'', ''operations'', ''staging'', ''quarantine'']) (\<lambda>_.
      bindS (pyS (cas_json_bytes (co_float_repr (ce_codec env)) MARKER_VALUE)) (\<lambda>marker.
      bindS (write_private ev (d @ [lit ''.defined-quant-session-v1'']) marker) (\<lambda>_.
      bindS (write_private ev (d @ [lit ''.lock'']) [48]) (\<lambda>_.
      bindS (acquire_session_lock ev (d @ [lit ''.lock''])) (\<lambda>lock.
      case lock of None \<Rightarrow> raiseS (SfX LOCK_UNAVAILABLE None) | Some handle \<Rightarrow> retS handle)))))))"

text \<open>\<^verbatim>\<open>SessionCas.__init__\<close>: the lock of the new session; a failure leaves no directory behind if that works.\<close>

definition open_session :: "cas_env \<Rightarrow> int \<Rightarrow> nat os_op" where
  "open_session env now =
     bindS (prepare_state_root env) (\<lambda>_.
     bindS (cleanup_sessions env now) (\<lambda>_.
     catchS (create_session_directory env) (\<lambda>_.
       bindS (getsS (\<lambda>s. case lookup s (session_directory env) of None \<Rightarrow> False | Some i \<Rightarrow> i_content i \<noteq> Symlink)) (\<lambda>there.
       bindS (if there
              then catchS (remove_private_tree (ce_os env) (session_directory env))
                     (\<lambda>e. case e of SfX _ _ \<Rightarrow> retS () | _ \<Rightarrow> raiseS e)
              else retS ()) (\<lambda>_.
       failS HF_RECORD_PUBLICATION_FAILED)))))"

definition new_session :: "machine \<Rightarrow> registry \<Rightarrow> nat \<Rightarrow> cas" where
  "new_session m g handle =
     \<lparr>ca_machine = m, ca_registry = g, ca_references = {}, ca_corrupt = {}, ca_used = 0, ca_closed = False,
      ca_lock = Some handle\<rparr>"

end
