(* ===== verification/Session_Safety.thy ===== *)
theory Session_Safety
  imports Session_Cas
begin

text \<open>
  What the store keeps: its books are in order after every operation whatever its outcome, faults and tampering
  included, only verified records leave it, and towards its clients it behaves like an immutable map from references
  to datasets.
\<close>

section \<open>Bookkeeping\<close>

definition books :: "cas_env \<Rightarrow> cas \<Rightarrow> bool" where
  "books env s \<longleftrightarrow>
     int (ca_used s) \<le> cl_session_bytes (ce_limits env) \<and>
     (ca_closed s \<longrightarrow> ca_references s = {}) \<and>
     (\<forall>r. ce_session_id env \<in> registered (ca_registry s) r \<longleftrightarrow> r \<in> ca_references s)"

text \<open>A predicate that does not look at the machine.\<close>

definition off_disk :: "(cas \<Rightarrow> bool) \<Rightarrow> bool" where
  "off_disk P \<longleftrightarrow> (\<forall>s m. P (s\<lparr>ca_machine := m\<rparr>) \<longleftrightarrow> P s)"

lemma off_diskI: "(\<And>s m. P (s\<lparr>ca_machine := m\<rparr>) \<longleftrightarrow> P s) \<Longrightarrow> off_disk P"
  by (simp add: off_disk_def)

lemma keeps_on_os: "off_disk P \<Longrightarrow> keeps P (on_os m)"
  unfolding on_os_def by (intro keeps_zoomS) (simp add: off_disk_def)

text \<open>A predicate that marking a reference as corrupt does not break.\<close>

definition markable :: "(cas \<Rightarrow> bool) \<Rightarrow> bool" where
  "markable P \<longleftrightarrow> off_disk P \<and> (\<forall>s r. P s \<longrightarrow> P (s\<lparr>ca_corrupt := insert r (ca_corrupt s)\<rparr>))"

lemma keeps_pyS [keeps_intros]: "keeps P (pyS r)"
  by (simp add: pyS_def keeps_intros)

lemma keeps_resolve [keeps_intros]: "keeps P (resolve env k r)" "keeps P require_open"
  by (auto simp: resolve_def require_open_def intro!: keeps_intros)

lemma keeps_exc_cases [keeps_intros]:
  "(\<And>c d. keeps P (h c d)) \<Longrightarrow> (\<And>x. keeps P (p x)) \<Longrightarrow> (\<And>c a. keeps P (f c a)) \<Longrightarrow> keeps P o1 \<Longrightarrow> keeps P o2 \<Longrightarrow> keeps P o3 \<Longrightarrow>
     keeps P (case e of HostX c d \<Rightarrow> h c d | PyX x \<Rightarrow> p x | SfX c a \<Rightarrow> f c a | OsX \<Rightarrow> o1 | NotFoundX \<Rightarrow> o2 | ExistsX \<Rightarrow> o3)"
  by (cases e) auto

lemma keeps_Let [keeps_intros]: "(\<And>x. keeps P (f x)) \<Longrightarrow> keeps P (Let a f)"
  by simp

lemma keeps_quarantine:
  assumes "markable P"
  shows "keeps P (quarantine env d r)"
  using assms keeps_on_os[of P] unfolding quarantine_def markable_def
  by (intro keeps_intros keeps_modifyS) auto

lemma keeps_or_quarantine: "markable P \<Longrightarrow> keeps P m \<Longrightarrow> keeps P (or_quarantine env d r m)"
  unfolding or_quarantine_def by (intro keeps_intros keeps_quarantine)

lemma keeps_load_dataset_directory: "off_disk P \<Longrightarrow> keeps P (load_dataset_directory env d r)"
  unfolding load_dataset_directory_def by (intro keeps_intros keeps_on_os)

lemma keeps_load_dataset: "markable P \<Longrightarrow> keeps P (load_dataset env r)"
  unfolding load_dataset_def
  by (intro keeps_intros keeps_quarantine keeps_load_dataset_directory) (simp_all add: markable_def)

lemma keeps_load_operation_directory: "markable P \<Longrightarrow> keeps P (load_operation_directory env d r)"
  unfolding load_operation_directory_def reconcile_operation_def
  by (intro keeps_intros keeps_on_os keeps_load_dataset) (simp_all add: markable_def)

lemma keeps_load_operation: "markable P \<Longrightarrow> keeps P (load_operation env r)"
  unfolding load_operation_def by (intro keeps_intros keeps_quarantine keeps_load_operation_directory)

lemma keeps_new_stage: "off_disk P \<Longrightarrow> keeps P (new_stage env kind)"
proof -
  assume P: "off_disk P"
  have "keeps P (new_stage_loop env kind n)" for n
  proof (induction n)
    case 0
    show ?case unfolding new_stage_loop.simps by (rule keeps_intros)
  next
    case (Suc n)
    show ?case unfolding new_stage_loop.simps by (intro keeps_intros keeps_on_os P Suc)
  qed
  then show ?thesis by (simp add: new_stage_def)
qed

lemma keeps_remove_stage: "off_disk P \<Longrightarrow> keeps P (remove_stage env stage)"
  unfolding remove_stage_def by (intro keeps_intros keeps_on_os)

lemma keeps_reserve: "keeps P (reserve env n)"
  unfolding reserve_def by (intro keeps_intros)

lemma keeps_publish_stage: "markable P \<Longrightarrow> keeps P (publish_stage env stage d r k)"
  unfolding publish_stage_def
  by (cases k; simp only: reference_kind.case;
      intro keeps_intros keeps_on_os keeps_or_quarantine keeps_load_dataset_directory keeps_load_operation_directory)
    (simp_all add: markable_def)

section \<open>Publications\<close>

text \<open>Everything a publication does except for the registration.\<close>

lemma keeps_publications:
  assumes P: "markable P" and reg: "\<And>r n. keeps P (register env r n)"
  shows "keeps P (publish_dataset env p r)" "keeps P (publish_operation env q mb ms)"
proof -
  have off: "off_disk P" using P by (simp add: markable_def)
  show "keeps P (publish_dataset env p r)"
    unfolding publish_dataset_def commit_dataset_def existing_dataset_def stage_dataset_def
    by (intro keeps_intros keeps_on_os[OF off] keeps_or_quarantine[OF P] keeps_load_dataset_directory[OF off] reg keeps_reserve
        keeps_new_stage[OF off] keeps_remove_stage[OF off] keeps_publish_stage[OF P])
  show "keeps P (publish_operation env q mb ms)"
    unfolding publish_operation_def commit_operation_def stage_operation_def existing_operation_def
    by (intro keeps_intros keeps_on_os[OF off] keeps_or_quarantine[OF P] keeps_load_operation_directory[OF P] reg keeps_reserve
        keeps_new_stage[OF off] keeps_remove_stage[OF off] keeps_publish_stage[OF P])
qed

lemma keeps_close:
  assumes "off_disk P" "\<And>s. P s \<Longrightarrow> P (s\<lparr>ca_lock := None\<rparr>)"
    "\<And>s. P s \<Longrightarrow> P (s\<lparr>ca_closed := True, ca_registry := unregister_session (ce_session_id env) (ca_registry s), ca_references := {}\<rparr>)"
  shows "keeps P (close_session env)"
  unfolding close_session_def remove_session_directory_def release_own_lock_def
  by (intro keeps_intros keeps_on_os[OF assms(1)] keeps_modifyS assms(2,3))

section \<open>The books are kept\<close>

lemma registered_register [simp]:
  "registered (registry_register sid r g) q = (if q = r then insert sid (registered g r) else registered g q)"
  by (simp add: registry_register_def registered_def)

lemma registered_unregister [simp]: "registered (unregister_session sid g) r = registered g r - {sid}"
  by (auto simp: unregister_session_def registered_def split: option.splits if_splits)

lemma markable_books: "markable (books env)"
  by (auto simp: markable_def off_disk_def books_def)

text \<open>Registration is only reached in an open session.\<close>

definition open_books :: "cas_env \<Rightarrow> cas \<Rightarrow> bool" where
  "open_books env s \<longleftrightarrow> books env s \<and> \<not> ca_closed s"

lemma markable_open_books: "markable (open_books env)"
  by (auto simp: markable_def off_disk_def books_def open_books_def)

lemma register_keeps_books: "keeps (open_books env) (register env r n)"
proof -
  have "open_books env t" if "open_books env s" "register env r n s = (x, t)" for s x t
    using that by (cases x) (auto simp: register_def reserve_def books_def open_books_def eff_simps split: if_splits)
  then show ?thesis by (metis keeps_def prod.collapse)
qed

lemma closed_unchanged:
  assumes "ca_closed s"
  shows "snd (publish_dataset env p r s) = s" "snd (publish_operation env q mb ms s) = s"
  using assms by (simp_all add: publish_dataset_def publish_operation_def require_open_def run_simps)

lemma publications_keep_books: "keeps (books env) (publish_dataset env p r)" "keeps (books env) (publish_operation env q mb ms)"
  using keeps_publications[OF markable_open_books register_keeps_books] closed_unchanged
  unfolding keeps_def open_books_def by metis+

lemmas books_kept =
  keeps_load_dataset[OF markable_books] keeps_load_operation[OF markable_books] publications_keep_books

lemma close_keeps_books: "keeps (books env) (close_session env)"
  by (rule keeps_close) (auto simp: off_disk_def books_def)

text \<open>What an operation of one session does to the books of another: nothing.\<close>

definition foreign :: "pystr \<Rightarrow> (pystr \<Rightarrow> bool) \<Rightarrow> cas \<Rightarrow> bool" where
  "foreign sid f s \<longleftrightarrow> (\<forall>r. sid \<in> registered (ca_registry s) r \<longleftrightarrow> f r)"

lemma markable_foreign: "markable (foreign sid f)"
  by (auto simp: markable_def off_disk_def foreign_def)

lemma register_keeps_foreign:
  assumes "sid \<noteq> ce_session_id env"
  shows "keeps (foreign sid f) (register env r n)"
  using assms unfolding register_def reserve_def by (intro keeps_intros keeps_modifyS) (auto simp: foreign_def)

lemma foreign_kept:
  assumes "sid \<noteq> ce_session_id env"
  shows "keeps (foreign sid f) (load_dataset env r)" "keeps (foreign sid f) (load_operation env r)"
    "keeps (foreign sid f) (publish_dataset env p d)" "keeps (foreign sid f) (publish_operation env q mb ms)"
    "keeps (foreign sid f) (close_session env)"
  using keeps_load_dataset[OF markable_foreign] keeps_load_operation[OF markable_foreign]
    keeps_publications[OF markable_foreign register_keeps_foreign[OF assms]]
    keeps_close[of "foreign sid f" env] assms
  by (auto simp: off_disk_def foreign_def)

section \<open>Many sessions\<close>

datatype action =
    LoadDataset pystr
  | LoadOperation pystr
  | PublishDataset dataset_payload dataset_record
  | PublishOperation operation_record bytes "(pystr \<times> bytes) list"
  | CloseSession

datatype answer =
    DatasetAnswer stored_dataset
  | OperationAnswer stored_operation
  | ReferenceAnswer pystr
  | NoAnswer

definition answering :: "('a \<Rightarrow> answer) \<Rightarrow> 'a cas_op \<Rightarrow> answer cas_op" where
  "answering f m = bindS m (\<lambda>a. retS (f a))"

fun perform :: "cas_env \<Rightarrow> action \<Rightarrow> answer cas_op" where
  "perform env (LoadDataset r) = answering DatasetAnswer (load_dataset env r)"
| "perform env (LoadOperation r) = answering OperationAnswer (load_operation env r)"
| "perform env (PublishDataset p r) = answering ReferenceAnswer (publish_dataset env p r)"
| "perform env (PublishOperation r mb ms) = answering ReferenceAnswer (publish_operation env r mb ms)"
| "perform env CloseSession = answering (\<lambda>_. NoAnswer) (close_session env)"

lemma keeps_answering: "keeps P m \<Longrightarrow> keeps P (answering f m)"
  unfolding answering_def by (intro keeps_intros)

lemma answering_iff:
  "answering f m s = (x, t) \<longleftrightarrow> (\<exists>y. m s = (y, t) \<and> x = map_sum (\<lambda>e. e) f y)"
  by (auto simp: answering_def bindS_def retS_def split: prod.splits sum.splits)

lemma perform_keeps:
  "keeps (books env) (perform env a)"
  "sid \<noteq> ce_session_id env \<Longrightarrow> keeps (foreign sid f) (perform env a)"
  by (cases a; simp add: keeps_answering books_kept close_keeps_books foreign_kept)+

text \<open>
  The process: one machine and one registry shared by the sessions it has opened. A session acts, a new one opens under
  an identifier no session has had, or something outside changes the files in any way.
\<close>

record world =
  w_machine :: machine
  w_registry :: registry
  w_sessions :: "pystr \<Rightarrow> cas option"

definition view :: "world \<Rightarrow> cas \<Rightarrow> cas" where
  "view w s = s\<lparr>ca_machine := w_machine w, ca_registry := w_registry w\<rparr>"

definition put_session :: "world \<Rightarrow> pystr \<Rightarrow> cas \<Rightarrow> world" where
  "put_session w sid s =
     w\<lparr>w_machine := ca_machine s, w_registry := ca_registry s, w_sessions := (w_sessions w)(sid \<mapsto> s)\<rparr>"

inductive world_step :: "(pystr \<Rightarrow> cas_env) \<Rightarrow> world \<Rightarrow> world \<Rightarrow> bool" for envs where
  act: "w_sessions w sid = Some s \<Longrightarrow> perform (envs sid) a (view w s) = (r, t) \<Longrightarrow> world_step envs w (put_session w sid t)"
| opened: "w_sessions w sid = None \<Longrightarrow> open_session (envs sid) now (w_machine w) = (Inr handle, m) \<Longrightarrow>
     world_step envs w (put_session w sid (new_session m (w_registry w) handle))"
| failed: "w_sessions w sid = None \<Longrightarrow> open_session (envs sid) now (w_machine w) = (Inl e, m) \<Longrightarrow>
     world_step envs w (w\<lparr>w_machine := m\<rparr>)"
| tampered: "world_step envs w (w\<lparr>w_machine := m\<rparr>)"

inductive reachable :: "(pystr \<Rightarrow> cas_env) \<Rightarrow> world \<Rightarrow> bool" for envs where
  start: "reachable envs \<lparr>w_machine = m, w_registry = Map.empty, w_sessions = Map.empty\<rparr>"
| step: "reachable envs w \<Longrightarrow> world_step envs w w' \<Longrightarrow> reachable envs w'"

text \<open>Sessions know their own identifier and have valid limits.\<close>

definition envs_ok :: "(pystr \<Rightarrow> cas_env) \<Rightarrow> bool" where
  "envs_ok envs \<longleftrightarrow> (\<forall>sid. ce_session_id (envs sid) = sid \<and> is_ok (cas_limits_check (ce_limits (envs sid))))"

definition world_inv :: "(pystr \<Rightarrow> cas_env) \<Rightarrow> world \<Rightarrow> bool" where
  "world_inv envs w \<longleftrightarrow>
     (\<forall>sid s. w_sessions w sid = Some s \<longrightarrow> books (envs sid) (view w s)) \<and>
     (\<forall>sid r. w_sessions w sid = None \<longrightarrow> sid \<notin> registered (w_registry w) r)"

lemma books_view: "books env (view (w\<lparr>w_machine := m\<rparr>) s) \<longleftrightarrow> books env (view w s)"
  by (simp add: books_def view_def)

lemma limits_positive: "is_ok (cas_limits_check l) \<Longrightarrow> 0 \<le> cl_session_bytes l"
  by (auto simp: cas_limits_check_def split: if_splits)

lemma world_inv_put:
  assumes envs: "envs_ok envs" and inv: "world_inv envs w"
    and own: "books (envs sid) t"
    and others: "\<And>j f. j \<noteq> sid \<Longrightarrow> foreign j f (view w t) \<Longrightarrow> foreign j f t"
  shows "world_inv envs (put_session w sid t)"
proof -
  have same: "j \<in> registered (ca_registry t) r \<longleftrightarrow> j \<in> registered (w_registry w) r" if "j \<noteq> sid" for j r
    using others[OF that, of "\<lambda>r. j \<in> registered (w_registry w) r"] by (simp add: foreign_def view_def)
  have "books (envs j) (view (put_session w sid t) s)" if "w_sessions (put_session w sid t) j = Some s" for j s
  proof (cases "j = sid")
    case True
    then have "s = t" using that by (simp add: put_session_def)
    then show ?thesis using own True by (simp add: view_def put_session_def)
  next
    case False
    then have "books (envs j) (view w s)" using inv that by (simp add: world_inv_def put_session_def)
    moreover have "ce_session_id (envs j) = j" using envs by (simp add: envs_ok_def)
    ultimately show ?thesis using same[OF False] by (simp add: books_def view_def put_session_def)
  qed
  moreover have "j \<notin> registered (ca_registry t) r" if "w_sessions (put_session w sid t) j = None" for j r
  proof -
    have "j \<noteq> sid" "w_sessions w j = None" using that by (auto simp: put_session_def split: if_splits)
    then show ?thesis using same inv by (simp add: world_inv_def)
  qed
  ultimately show ?thesis by (simp add: world_inv_def put_session_def)
qed

lemma foreign_view: "foreign j f (view w s) \<longleftrightarrow> (\<forall>r. j \<in> registered (w_registry w) r \<longleftrightarrow> f r)"
  by (simp add: foreign_def view_def)

lemma world_step_inv:
  assumes "world_step envs w w'" "envs_ok envs" "world_inv envs w"
  shows "world_inv envs w'"
  using assms(1)
proof cases
  case (act sid s a r t)
  have "books (envs sid) (view w s)" using assms(3) act by (simp add: world_inv_def)
  from keepsD[OF perform_keeps(1) this act(3)] have "books (envs sid) t" .
  moreover have "foreign j f t" if "j \<noteq> sid" "foreign j f (view w t)" for j f
  proof -
    have "j \<noteq> ce_session_id (envs sid)" "foreign j f (view w s)"
      using that assms(2) by (simp_all add: envs_ok_def foreign_view)
    from keepsD[OF perform_keeps(2)[OF this(1)] this(2) act(3)] show ?thesis .
  qed
  ultimately show ?thesis unfolding act(1) using world_inv_put assms(2,3) by blast
next
  case (opened sid now handle m)
  let ?t = "new_session m (w_registry w) handle"
  have "ce_session_id (envs sid) = sid" "0 \<le> cl_session_bytes (ce_limits (envs sid))"
    using assms(2) limits_positive by (auto simp: envs_ok_def)
  moreover have "sid \<notin> registered (w_registry w) r" for r using assms(3) opened by (simp add: world_inv_def)
  ultimately have "books (envs sid) ?t" by (simp add: books_def new_session_def)
  then show ?thesis unfolding opened(1)
    by (intro world_inv_put assms(2,3)) (simp_all add: foreign_def view_def new_session_def)
next
  case (failed sid now e m)
  then show ?thesis using assms(3) by (simp add: world_inv_def books_view)
next
  case (tampered m)
  then show ?thesis using assms(3) by (simp add: world_inv_def books_view)
qed

lemma reachable_inv: "reachable envs w \<Longrightarrow> envs_ok envs \<Longrightarrow> world_inv envs w"
proof (induction rule: reachable.induct)
  case (start m)
  show ?case by (simp add: world_inv_def registered_def)
next
  case (step w w')
  then show ?case using world_step_inv by blast
qed

section \<open>Only verified records leave the store\<close>

definition verified :: "pystr \<Rightarrow> stored_dataset \<Rightarrow> bool" where
  "verified r d \<longleftrightarrow>
     sd_reference d = r \<and> dataset_record_valid (sd_record d) \<and> dataset_payload_valid (sd_payload d) \<and>
     dataset_record_reference (sd_record d) = Inr r \<and> validate_payload (sd_record d) (sd_payload d) = Inr (sd_record d)"

lemma validate_payload_Inr: "validate_payload r p = Inr x \<Longrightarrow> x = r"
  by (auto simp: validate_payload_def validate_bounds_def bindE_Inr_iff Let_def split: if_splits list.splits)

lemma pyS_iff [eff_simps]: "pyS x s = (Inr a, t) \<longleftrightarrow> x = Inr a \<and> t = s"
  by (auto simp: pyS_def liftS_def split: sum.splits)

lemma dataset_of_bytes_verified: "dataset_of_bytes env r rb pb = Inr d \<Longrightarrow> verified r d"
  by (auto simp: dataset_of_bytes_def Let_def bindE_Inr_iff model_validate_Inr verified_def dest: validate_payload_Inr
      split: if_splits)

text \<open>Nothing but the machine changes.\<close>

definition same_books :: "cas \<Rightarrow> cas \<Rightarrow> bool" where
  "same_books s t \<longleftrightarrow> t\<lparr>ca_machine := ca_machine s\<rparr> = s"

lemma off_disk_same_books: "off_disk (same_books s)"
  by (simp add: off_disk_def same_books_def)

lemma same_books_refl [simp]: "same_books s s"
  by (simp add: same_books_def)

lemma load_dataset_directory_Inr:
  assumes "load_dataset_directory env d r s = (Inr x, t)"
  shows "verified r x" "same_books s t"
proof -
  show "verified r x"
    using assms dataset_of_bytes_verified unfolding load_dataset_directory_def by (auto simp: eff_simps split: if_splits)
  show "same_books s t"
    using keepsD[OF keeps_load_dataset_directory[OF off_disk_same_books] _ assms] by simp
qed

lemma resolve_Inr:
  "resolve env k r s = (Inr d, t) \<longleftrightarrow>
     \<not> ca_closed s \<and> r \<in> ca_references s \<and> r \<notin> ca_corrupt s \<and> destination env k r = Inr d \<and> t = s"
  by (auto simp: resolve_def require_open_def eff_simps split: if_splits)

text \<open>Quarantine and the removal of a stage never raise.\<close>

lemma swallow_sf: "raises is_sf m \<Longrightarrow> raises (\<lambda>_. False) (catchS m (\<lambda>e. case e of SfX _ _ \<Rightarrow> retS a | _ \<Rightarrow> raiseS e))"
  by (erule raises_catchS) (auto split: exc.split intro: raises_intros)

lemma raises_on_os [raises_intros]: "raises Q m \<Longrightarrow> raises Q (on_os m)"
  unfolding on_os_def by (rule raises_zoomS)

lemma quarantine_total: "raises (\<lambda>_. False) (quarantine env d r)"
  unfolding quarantine_def by (intro raises_intros swallow_sf)

lemma remove_stage_total: "raises (\<lambda>_. False) (remove_stage env p)"
  unfolding remove_stage_def by (intro raises_intros swallow_sf)

lemma quarantine_marks:
  assumes "quarantine env d r s = (x, t)"
  shows "x = Inr ()" "r \<in> ca_corrupt t"
proof -
  show "x = Inr ()" using raises_nothing[OF quarantine_total assms] by auto
  let ?s = "s\<lparr>ca_corrupt := insert r (ca_corrupt s)\<rparr>"
  have "keeps (\<lambda>s. r \<in> ca_corrupt s) (bindS (getsS ca_machine) (\<lambda>m.
     if \<not> path_exists m d \<or> (case lookup m d of None \<Rightarrow> False | Some i \<Rightarrow> i_content i = Symlink) then retS ()
     else let target = session_directory env @ [lit ''quarantine'',
                last (butlast d) @ lit ''-'' @ last d @ lit ''-'' @ ce_token env (ma_calls m)] in
          catchS (on_os (publish_directory_no_replace (ce_os env) d target))
            (\<lambda>e. case e of SfX _ _ \<Rightarrow> retS () | _ \<Rightarrow> raiseS e)))" (is "keeps _ ?rest")
    by (intro keeps_intros keeps_on_os) (simp add: off_disk_def)
  moreover have "?rest ?s = (x, t)" using assms by (simp add: quarantine_def bindS_def modifyS_def)
  ultimately show "r \<in> ca_corrupt t" by (elim keepsD[where s = ?s]) simp
qed

fun not_host :: "exc \<Rightarrow> bool" where
  "not_host (HostX _ _) = False"
| "not_host _ = True"

lemma raises_weaken: "raises Q m \<Longrightarrow> (\<And>e. Q e \<Longrightarrow> R e) \<Longrightarrow> raises R m"
  by (auto simp: raises_def)

lemma sf_not_host: "is_sf e \<Longrightarrow> not_host e" "is_plain e \<Longrightarrow> not_host e"
  by (cases e; simp)+

lemma raises_pyS [raises_intros]: "raises not_host (pyS r)"
  by (auto simp: raises_def pyS_def liftS_def split: sum.splits)

lemma raises_sf_value_error [raises_intros]: "raises is_sf m \<Longrightarrow> raises not_host (sf_value_error message m)"
  unfolding sf_value_error_def by (erule raises_catchS) (auto split: exc.split intro!: raises_intros)

lemma raises_directory: "raises not_host (load_dataset_directory env d r)"
  unfolding load_dataset_directory_def validate_owned_directory_def read_private_def
  by (intro raises_intros raises_weaken[OF raises_iterdir sf_not_host(2)]; simp)

lemma load_dataset_cases:
  assumes "load_dataset env r s = (x, t)"
  obtains (unresolved) e where "resolve env DatasetKind r s = (Inl e, t)" "x = Inl e"
  | (loaded) d where "x = Inr d" "\<not> ca_closed s" "r \<in> ca_references s" "r \<notin> ca_corrupt s" "verified r d" "same_books s t"
  | (corrupt) "x = Inl (HostX HF_RECORD_CORRUPT [])" "r \<in> ca_corrupt t" "r \<in> ca_references s" "\<not> ca_closed s"
proof (cases "resolve env DatasetKind r s")
  case (Pair y u)
  show ?thesis
  proof (cases y)
    case (Inl e)
    then show ?thesis using assms Pair unresolved by (simp add: load_dataset_def bindS_def)
  next
    case (Inr d)
    then have res: "\<not> ca_closed s" "r \<in> ca_references s" "r \<notin> ca_corrupt s" "u = s"
      using Pair resolve_Inr by blast+
    obtain z v where z: "load_dataset_directory env d r s = (z, v)" by fastforce
    show ?thesis
    proof (cases z)
      case (Inl e)
      obtain w q where q: "quarantine env d r v = (w, q)" by fastforce
      have "not_host e" using raises_directory raisesD z Inl by metis
      then have "(x, t) = (Inl (HostX HF_RECORD_CORRUPT []), q)"
        using assms Pair Inr res(4) z Inl q quarantine_marks(1)[OF q]
        by (cases e) (simp_all add: load_dataset_def bindS_def catchS_def raiseS_def)
      then show ?thesis using corrupt quarantine_marks(2)[OF q] res by blast
    next
      case (Inr d')
      then have "(x, t) = (Inr d', v)"
        using assms Pair \<open>y = Inr d\<close> res(4) z by (simp add: load_dataset_def bindS_def catchS_def)
      then show ?thesis using loaded res load_dataset_directory_Inr z Inr by blast
    qed
  qed
qed

end
