(* ===== verification/Session_Refinement.thy ===== *)
theory Session_Refinement
  imports Session_Safety
begin

text \<open>
  The dataset half of the store against its specification, an immutable map: publishing adds an entry under its
  reference, loading answers only with the entry of that reference, closing empties the map, and any call may fail.
  Faults, quarantine, staging and tampering are invisible in the map.
\<close>

section \<open>What each operation does to the references\<close>

definition adds :: "pystr cas_op \<Rightarrow> bool" where
  "adds m \<longleftrightarrow> (\<forall>s x t. m s = (x, t) \<longrightarrow>
     ca_references t = (case x of Inl _ \<Rightarrow> ca_references s | Inr r \<Rightarrow> insert r (ca_references s)))"

named_theorems adds_intros \<open>rules for effects that add the reference they return\<close>

lemma addsD: "adds m \<Longrightarrow> m s = (x, t) \<Longrightarrow>
    ca_references t = (case x of Inl _ \<Rightarrow> ca_references s | Inr r \<Rightarrow> insert r (ca_references s))"
  unfolding adds_def by blast

definition refs_are :: "pystr set \<Rightarrow> cas \<Rightarrow> bool" where
  "refs_are R s \<longleftrightarrow> ca_references s = R"

lemma markable_refs: "markable (refs_are R)" "off_disk (refs_are R)"
  by (simp_all add: markable_def off_disk_def refs_are_def)

lemma keeps_refs: "(\<And>R. keeps (refs_are R) m) \<Longrightarrow> m s = (x, t) \<Longrightarrow> ca_references t = ca_references s"
  using keepsD[of "refs_are (ca_references s)" m s x t] by (simp add: refs_are_def)

lemma adds_raise [adds_intros]: "adds (raiseS e)"
  by (simp add: adds_def eff_simps)

lemma adds_if [adds_intros]: "adds m \<Longrightarrow> adds n \<Longrightarrow> adds (if b then m else n)"
  by simp

lemma adds_pair [adds_intros]: "(\<And>a b. adds (f a b)) \<Longrightarrow> adds (case p of (a, b) \<Rightarrow> f a b)"
  by (cases p) simp

lemma adds_Let [adds_intros]: "(\<And>a. adds (f a)) \<Longrightarrow> adds (Let b f)"
  by simp

lemma adds_bind_post:
  assumes "\<And>R. keeps (refs_are R) m" "\<And>s a t. m s = (Inr a, t) \<Longrightarrow> Q a" "\<And>a. Q a \<Longrightarrow> adds (f a)"
  shows "adds (bindS m f)"
  unfolding adds_def
proof (intro allI impI)
  fix s x t assume run: "bindS m f s = (x, t)"
  obtain y u where y: "m s = (y, u)" by fastforce
  have same: "ca_references u = ca_references s" using keeps_refs[OF assms(1) y] .
  show "ca_references t = (case x of Inl _ \<Rightarrow> ca_references s | Inr r \<Rightarrow> insert r (ca_references s))"
  proof (cases y)
    case (Inl e)
    then have "(Inl e, u) = (x, t)" using run y by (simp add: bindS_def)
    then show ?thesis using same by (metis Pair_inject sum.case(1))
  next
    case (Inr a)
    then have "f a u = (x, t)" using run y by (simp add: bindS_def)
    from addsD[OF assms(3)[OF assms(2)[OF y[unfolded Inr]]] this] show ?thesis unfolding same .
  qed
qed

lemma adds_bind [adds_intros]: "(\<And>R. keeps (refs_are R) m) \<Longrightarrow> (\<And>a. adds (f a)) \<Longrightarrow> adds (bindS m f)"
  by (rule adds_bind_post[where Q = "\<lambda>_. True"]) simp_all

lemma adds_register: "adds (bindS (register env r n) (\<lambda>_. retS r))"
  unfolding adds_def
  by (auto simp: register_def reserve_def bindS_def getsS_def retS_def raiseS_def modifyS_def insert_absorb split: if_splits)

lemma adds_catch: "adds m \<Longrightarrow> adds (catchS m (\<lambda>e. raiseS (g e)))"
  unfolding adds_def by (auto simp: catchS_def raiseS_def split: prod.splits sum.splits)

lemma adds_finally:
  assumes "adds m" "\<And>R. keeps (refs_are R) c" "raises (\<lambda>_. False) c"
  shows "adds (finallyS m c)"
  unfolding adds_def
proof (intro allI impI)
  fix s x t assume run: "finallyS m c s = (x, t)"
  obtain y u where y: "m s = (y, u)" by fastforce
  obtain z v where z: "c u = (z, v)" by fastforce
  obtain a where "z = Inr a" using raises_nothing[OF assms(3) z] by blast
  then have "x = y" "t = v" using run y z by (auto simp: finallyS_def)
  then show "ca_references t = (case x of Inl _ \<Rightarrow> ca_references s | Inr r \<Rightarrow> insert r (ca_references s))"
    using addsD[OF assms(1) y] keeps_refs[OF assms(2) z] by metis
qed

lemma keeps_refs_parts [keeps_intros]:
  "keeps (refs_are R) (on_os m)" "keeps (refs_are R) (load_dataset_directory env d r)"
  "keeps (refs_are R) (load_operation_directory env d r)" "keeps (refs_are R) (reserve env n)"
  "keeps (refs_are R) (new_stage env kind)" "keeps (refs_are R) (remove_stage env p)"
  "keeps (refs_are R) (publish_stage env p d r k)"
  by (simp_all add: keeps_on_os keeps_load_dataset_directory keeps_load_operation_directory keeps_reserve keeps_new_stage
      keeps_remove_stage keeps_publish_stage markable_refs)

lemma keeps_refs_or_quarantine [keeps_intros]: "keeps (refs_are R) m \<Longrightarrow> keeps (refs_are R) (or_quarantine env d r m)"
  by (rule keeps_or_quarantine[OF markable_refs(1)])

lemma or_quarantine_Inr: "or_quarantine env d r m s = (Inr a, t) \<Longrightarrow> m s = (Inr a, t)"
  by (auto simp: or_quarantine_def eff_simps)

lemma load_operation_directory_reference: "load_operation_directory env d r s = (Inr x, t) \<Longrightarrow> so_reference x = r"
  unfolding load_operation_directory_def by (auto simp: eff_simps split: if_splits prod.splits)

lemma adds_existing_operation: "adds (existing_operation env d r rec mb ms)"
  unfolding existing_operation_def
proof (rule adds_bind_post[where Q = "\<lambda>x. so_reference x = r"])
  show "keeps (refs_are R) (or_quarantine env d r (load_operation_directory env d r))" for R by (intro keeps_intros)
  show "so_reference x = r" if "or_quarantine env d r (load_operation_directory env d r) s = (Inr x, t)" for s x t
    using load_operation_directory_reference[OF or_quarantine_Inr[OF that]] .
qed (simp only:, intro adds_register adds_intros keeps_intros)

lemma adds_publish_dataset: "adds (publish_dataset env p r)"
proof -
  have existing: "adds (existing_dataset env d q)" for d q
    unfolding existing_dataset_def
  proof (rule adds_bind_post[where Q = "\<lambda>x. sd_reference x = q"])
    show "keeps (refs_are R) (or_quarantine env d q (load_dataset_directory env d q))" for R by (intro keeps_intros)
    show "sd_reference x = q" if "or_quarantine env d q (load_dataset_directory env d q) s = (Inr x, t)" for s x t
      using load_dataset_directory_Inr(1)[OF or_quarantine_Inr[OF that]] by (simp add: verified_def)
  qed (simp only:, intro adds_register adds_intros keeps_intros)
  have staged: "adds (stage_dataset env stage d q rb pb)" for stage d q rb pb
    unfolding stage_dataset_def
    by (intro adds_register adds_finally adds_catch adds_intros keeps_intros remove_stage_total)
  show ?thesis
    unfolding publish_dataset_def commit_dataset_def by (intro adds_intros keeps_intros existing staged)
qed

lemma adds_publish_operation: "adds (publish_operation env r mb ms)"
proof -
  have staged: "adds (stage_operation env stage d q rec rb mb ms n)" for stage d q rec rb n
    unfolding stage_operation_def
    by (intro adds_register adds_finally adds_catch adds_intros adds_existing_operation keeps_intros remove_stage_total)
  show ?thesis
    unfolding publish_operation_def commit_operation_def by (intro adds_intros keeps_intros adds_existing_operation staged)
qed

section \<open>What a publication returns\<close>

definition returns :: "'a \<Rightarrow> 'a cas_op \<Rightarrow> bool" where
  "returns a m \<longleftrightarrow> (\<forall>s b t. m s = (Inr b, t) \<longrightarrow> b = a)"

named_theorems returns_intros \<open>rules for the only value an effect returns\<close>

lemma returnsD: "returns a m \<Longrightarrow> m s = (Inr b, t) \<Longrightarrow> b = a"
  unfolding returns_def by blast

lemma returnsI: "(\<And>s b t. m s = (Inr b, t) \<Longrightarrow> b = a) \<Longrightarrow> returns a m"
  unfolding returns_def by blast

lemma returns_ret [returns_intros]: "returns a (retS a)" "returns a (raiseS e)"
  by (auto intro: returnsI simp: eff_simps)

lemma returns_bind [returns_intros]: "(\<And>x. returns a (f x)) \<Longrightarrow> returns a (bindS m f)"
  by (rule returnsI) (auto simp: eff_simps dest: returnsD)

lemma returns_bind_post: "(\<And>s x t. m s = (Inr x, t) \<Longrightarrow> Q x) \<Longrightarrow> (\<And>x. Q x \<Longrightarrow> returns a (f x)) \<Longrightarrow> returns a (bindS m f)"
  by (rule returnsI) (metis bindS_Inr returnsD)

lemma returns_if [returns_intros]: "returns a m \<Longrightarrow> returns a n \<Longrightarrow> returns a (if b then m else n)"
  by simp

lemma returns_Let [returns_intros]: "(\<And>x. returns a (f x)) \<Longrightarrow> returns a (Let b f)"
  by simp

lemma returns_catch: "returns a m \<Longrightarrow> returns a (catchS m (\<lambda>e. raiseS (g e)))"
  by (rule returnsI) (auto simp: eff_simps dest: returnsD)

lemma returns_finally: "returns a m \<Longrightarrow> returns a (finallyS m c)"
  by (rule returnsI) (auto simp: eff_simps dest: returnsD)

lemma returns_stage_dataset: "returns r (stage_dataset env stage d r rb pb)"
  unfolding stage_dataset_def by (intro returns_finally returns_catch returns_intros)

lemma returns_existing_operation: "returns r (existing_operation env d r rec mb ms)"
  unfolding existing_operation_def
  by (rule returns_bind_post[where Q = "\<lambda>x. so_reference x = r"])
    (auto dest!: or_quarantine_Inr load_operation_directory_reference intro!: returns_intros)

lemma returns_stage_operation: "returns r (stage_operation env stage d r rec rb mb ms n)"
  unfolding stage_operation_def
  by (intro returns_finally returns_catch returns_existing_operation returns_intros)

lemma returns_existing_dataset: "returns r (existing_dataset env d r)"
  unfolding existing_dataset_def
  by (rule returns_bind_post[where Q = "\<lambda>x. sd_reference x = r"])
    (auto dest!: or_quarantine_Inr load_dataset_directory_Inr(1) simp: verified_def intro!: returns_intros)

lemma returns_commit_dataset: "returns r (commit_dataset env r rb pb)"
  unfolding commit_dataset_def by (intro returns_stage_dataset returns_existing_dataset returns_intros)

lemma returns_commit_operation: "returns r (commit_operation env r rec rb mb ms n)"
  unfolding commit_operation_def by (intro returns_stage_operation returns_existing_operation returns_intros)

lemma or_publication_failed_Inr [simp]: "or_publication_failed r = Inr a \<longleftrightarrow> r = Inr a" "Inr a = or_publication_failed r \<longleftrightarrow> r = Inr a"
  by (auto simp: or_publication_failed_def split: sum.splits)

lemma publish_dataset_Inr:
  assumes "publish_dataset env p r s = (Inr ref, t)"
  shows "\<exists>rec rb pb. validated_dataset env p r = Inr (rec, rb, pb) \<and> dataset_record_reference rec = Inr ref"
  using assms returnsD[OF returns_commit_dataset] unfolding publish_dataset_def
  by (fastforce simp: eff_simps split: if_splits prod.splits)

lemma publish_operation_Inr:
  assumes "publish_operation env r mb ms s = (Inr ref, t)"
  shows "\<exists>rec. operation_record_reference rec = Inr ref"
  using assms returnsD[OF returns_commit_operation] unfolding publish_operation_def Let_def
  by (fastforce simp: eff_simps split: if_splits prod.splits)

section \<open>Refinement of an immutable map\<close>

type_synonym dataset_map = "pystr \<Rightarrow> (dataset_record \<times> dataset_payload) option"

inductive dataset_spec :: "dataset_map \<Rightarrow> action \<Rightarrow> exc + answer \<Rightarrow> dataset_map \<Rightarrow> bool" where
  spec_load: "a r = Some (rec, p) \<Longrightarrow> same_payload p q \<Longrightarrow>
     dataset_spec a (LoadDataset r) (Inr (DatasetAnswer \<lparr>sd_reference = r, sd_record = rec, sd_payload = q\<rparr>)) a"
| spec_publish: "dataset_record_reference rec = Inr r \<Longrightarrow> validate_payload rec p = Inr rec \<Longrightarrow>
     dataset_spec a (PublishDataset p rec) (Inr (ReferenceAnswer r)) (if r \<in> dom a then a else a(r \<mapsto> (rec, p)))"
| spec_load_operation: "dataset_spec a (LoadOperation r) (Inr x) a"
| spec_publish_operation: "dataset_spec a (PublishOperation r mb ms) (Inr x) a"
| spec_refuse: "act \<noteq> CloseSession \<Longrightarrow> dataset_spec a act (Inl e) a"
| spec_close: "dataset_spec a CloseSession x Map.empty"

definition represents :: "dataset_map \<Rightarrow> cas \<Rightarrow> bool" where
  "represents a s \<longleftrightarrow>
     dom a = {r \<in> ca_references s. is_ok (parse_reference DatasetKind r)} \<and>
     (\<forall>r rec p. a r = Some (rec, p) \<longrightarrow> verified r \<lparr>sd_reference = r, sd_record = rec, sd_payload = p\<rparr>)"

text \<open>Two different inputs with one digest, among those the loaded and the published record hash.\<close>

definition content_collision :: "dataset_record \<Rightarrow> dataset_payload \<Rightarrow> stored_dataset \<Rightarrow> bool" where
  "content_collision rec p d \<longleftrightarrow>
     sha256_collision (payload_of (dataset_record_projection rec) DATASET_RECORD_HASH_DOMAIN)
       (payload_of (dataset_record_projection (sd_record d)) DATASET_RECORD_HASH_DOMAIN) \<or>
     sha256_collision (payload_of (payload_projection p) DATASET_PAYLOAD_HASH_DOMAIN)
       (payload_of (payload_projection (sd_payload d)) DATASET_PAYLOAD_HASH_DOMAIN)"

text \<open>The parsers give back what the projections print.\<close>

definition parses_back :: "codec \<Rightarrow> action \<Rightarrow> bool" where
  "parses_back c act =
     (case act of
        PublishDataset p r \<Rightarrow>
          co_parse_payload c (payload_projection p) = Some p \<and> co_parse_dataset c (dataset_record_projection r) = Some r
      | _ \<Rightarrow> True)"

lemma represents_same: "represents a s \<Longrightarrow> ca_references t = ca_references s \<Longrightarrow> represents a t"
  by (simp add: represents_def)

lemma dataset_reference_kind: "dataset_record_reference rec = Inr r \<Longrightarrow> is_ok (parse_reference DatasetKind r)"
  by (auto simp: dataset_record_reference_def bindE_Inr_iff reference_iff is_ok_iff)

lemma operation_reference_kind: "operation_record_reference rec = Inr r \<Longrightarrow> \<not> is_ok (parse_reference DatasetKind r)"
proof
  assume "operation_record_reference rec = Inr r" "is_ok (parse_reference DatasetKind r)"
  then have "is_ok (parse_reference OperationKind r)" "is_ok (parse_reference DatasetKind r)"
    by (auto simp: operation_record_reference_def bindE_Inr_iff reference_iff is_ok_iff)
  then show False using reference_prefix_other by (fastforce simp: is_ok_iff parse_reference_Inr)
qed

lemma validated_dataset_Inr:
  assumes "validated_dataset env p r = Inr (rec, rb, pb)" "parses_back (ce_codec env) (PublishDataset p r)"
  shows "rec = r" "dataset_record_valid r" "dataset_payload_valid p" "validate_payload r p = Inr r"
proof -
  note parse = assms(2)[unfolded parses_back_def action.case]
  show "rec = r" "dataset_record_valid r" "dataset_payload_valid p"
    using assms(1) parse by (auto simp: validated_dataset_def Let_def bindE_Inr_iff model_validate_Inr)
  obtain x where "validate_payload r p = Inr x"
    using assms(1) parse by (auto simp: validated_dataset_def Let_def bindE_Inr_iff model_validate_Inr)
  then show "validate_payload r p = Inr r" using validate_payload_Inr by blast
qed

lemma load_refines:
  assumes "represents a s" "load_dataset env r s = (x, t)"
  shows "represents a t \<and>
    (dataset_spec a (LoadDataset r) (map_sum (\<lambda>e. e) DatasetAnswer x) a \<or>
     (\<exists>d rec p. x = Inr d \<and> a r = Some (rec, p) \<and> content_collision rec p d))"
proof -
  have same: "ca_references t = ca_references s"
    using keeps_refs[OF keeps_load_dataset[OF markable_refs(1)] assms(2)] .
  note rep = represents_same[OF assms(1) same]
  show ?thesis
  proof (cases x)
    case (Inl e)
    then show ?thesis using rep spec_refuse[of "LoadDataset r"] by simp
  next
    case (Inr d)
    then have d: "verified r d" "r \<in> ca_references s"
      using assms(2) by (auto elim: load_dataset_cases)
    then have "r \<in> dom a" using assms(1) dataset_reference_kind by (auto simp: represents_def verified_def)
    then obtain rec p where a: "a r = Some (rec, p)" by auto
    then have v: "verified r \<lparr>sd_reference = r, sd_record = rec, sd_payload = p\<rparr>"
      using assms(1) by (simp add: represents_def)
    have "rec = sd_record d \<and> same_payload p (sd_payload d) \<or> content_collision rec p d"
      using dataset_reference_binds[of rec "sd_record d" p "sd_payload d"] v d(1)
      unfolding verified_def content_collision_def by simp
    then show ?thesis
    proof
      assume e: "rec = sd_record d \<and> same_payload p (sd_payload d)"
      moreover have "d = \<lparr>sd_reference = r, sd_record = rec, sd_payload = sd_payload d\<rparr>" using d(1) e by (simp add: verified_def)
      ultimately have "dataset_spec a (LoadDataset r) (Inr (DatasetAnswer d)) a" using spec_load[of a r rec p "sd_payload d"] a by metis
      then show ?thesis using rep Inr by simp
    next
      assume "content_collision rec p d"
      then show ?thesis using rep Inr a by blast
    qed
  qed
qed

lemma publish_refines:
  assumes "represents a s" "publish_dataset env p r s = (x, t)" "parses_back (ce_codec env) (PublishDataset p r)"
  shows "\<exists>a'. dataset_spec a (PublishDataset p r) (map_sum (\<lambda>e. e) ReferenceAnswer x) a' \<and> represents a' t"
proof (cases x)
  case (Inl e)
  then have "ca_references t = ca_references s" using addsD[OF adds_publish_dataset assms(2)] by simp
  then have "represents a t" by (rule represents_same[OF assms(1)])
  then show ?thesis using Inl spec_refuse[of "PublishDataset p r" a e] by auto
next
  case (Inr ref)
  then have refs: "ca_references t = insert ref (ca_references s)" using addsD[OF adds_publish_dataset assms(2)] by simp
  obtain rec rb pb where v: "validated_dataset env p r = Inr (rec, rb, pb)" "dataset_record_reference rec = Inr ref"
    using publish_dataset_Inr assms(2) Inr by metis
  note valid = validated_dataset_Inr[OF v(1) assms(3)]
  let ?a = "if ref \<in> dom a then a else a(ref \<mapsto> (r, p))"
  have "dataset_spec a (PublishDataset p r) (Inr (ReferenceAnswer ref)) ?a"
    using spec_publish v(2) valid(1,4) by blast
  moreover have "represents ?a t"
  proof -
    have "dom ?a = insert ref (dom a)" by auto
    moreover have "is_ok (parse_reference DatasetKind ref)" using dataset_reference_kind v(2) by blast
    moreover have "verified ref \<lparr>sd_reference = ref, sd_record = r, sd_payload = p\<rparr>"
      using valid v(2) by (simp add: verified_def)
    ultimately show ?thesis using assms(1) refs by (auto simp: represents_def split: if_splits)
  qed
  ultimately show ?thesis using Inr by auto
qed

lemma perform_refines:
  assumes "represents a s" "perform env act s = (x, t)" "parses_back (ce_codec env) act" "books env s"
  shows "\<exists>a'. represents a' t \<and>
    (dataset_spec a act x a' \<or>
     (\<exists>r d rec p. act = LoadDataset r \<and> x = Inr (DatasetAnswer d) \<and> a r = Some (rec, p) \<and> content_collision rec p d))"
proof (cases act)
  case (LoadDataset r)
  then obtain y where "load_dataset env r s = (y, t)" "x = map_sum (\<lambda>e. e) DatasetAnswer y"
    using assms(2) by (auto simp: answering_iff)
  then show ?thesis using load_refines[OF assms(1)] LoadDataset by fastforce
next
  case (LoadOperation r)
  then obtain y where y: "load_operation env r s = (y, t)" "x = map_sum (\<lambda>e. e) OperationAnswer y"
    using assms(2) by (auto simp: answering_iff)
  have "represents a t"
    using represents_same[OF assms(1)] keeps_refs[OF keeps_load_operation[OF markable_refs(1)] y(1)] .
  then show ?thesis using LoadOperation y(2) spec_load_operation spec_refuse[of act] by (cases y) auto
next
  case (PublishDataset p r)
  then obtain y where "publish_dataset env p r s = (y, t)" "x = map_sum (\<lambda>e. e) ReferenceAnswer y"
    using assms(2) by (auto simp: answering_iff)
  then show ?thesis using publish_refines[OF assms(1) _ assms(3)[unfolded PublishDataset]] PublishDataset by blast
next
  case (PublishOperation r mb ms)
  then obtain y where y: "publish_operation env r mb ms s = (y, t)" "x = map_sum (\<lambda>e. e) ReferenceAnswer y"
    using assms(2) by (auto simp: answering_iff)
  have "represents a t"
  proof (cases y)
    case (Inl e)
    then show ?thesis using represents_same[OF assms(1)] addsD[OF adds_publish_operation y(1)] by simp
  next
    case (Inr ref)
    then obtain rec where "operation_record_reference rec = Inr ref" using publish_operation_Inr y(1) by metis
    then have "{q \<in> insert ref (ca_references s). is_ok (parse_reference DatasetKind q)} =
        {q \<in> ca_references s. is_ok (parse_reference DatasetKind q)}" using operation_reference_kind by blast
    then show ?thesis using assms(1) Inr addsD[OF adds_publish_operation y(1)] by (simp add: represents_def)
  qed
  then show ?thesis using PublishOperation y(2) spec_publish_operation spec_refuse[of act] by (cases y) auto
next
  case CloseSession
  then obtain y where y: "close_session env s = (y, t)" using assms(2) by (auto simp: answering_iff)
  have "ca_references t = {}" if "\<not> ca_closed s"
  proof -
    have "keeps (refs_are {}) (finallyS (catchS (remove_session_directory env) (\<lambda>e.
               case e of HostX _ _ \<Rightarrow> raiseS e | PyX _ \<Rightarrow> raiseS e | _ \<Rightarrow> failS HF_RECORD_PUBLICATION_FAILED)) release_own_lock)"
      unfolding remove_session_directory_def release_own_lock_def by (intro keeps_intros keeps_modifyS) (simp_all add: refs_are_def)
    moreover have "refs_are {} (s\<lparr>ca_closed := True, ca_registry := unregister_session (ce_session_id env) (ca_registry s),
        ca_references := {}\<rparr>)" by (simp add: refs_are_def)
    moreover have "finallyS (catchS (remove_session_directory env) (\<lambda>e.
               case e of HostX _ _ \<Rightarrow> raiseS e | PyX _ \<Rightarrow> raiseS e | _ \<Rightarrow> failS HF_RECORD_PUBLICATION_FAILED)) release_own_lock
        (s\<lparr>ca_closed := True, ca_registry := unregister_session (ce_session_id env) (ca_registry s), ca_references := {}\<rparr>) = (y, t)"
      using that y by (simp add: close_session_def bindS_def getsS_def modifyS_def)
    ultimately have "refs_are {} t" by (rule keepsD)
    then show ?thesis by (simp add: refs_are_def)
  qed
  moreover have "ca_references t = {}" if "ca_closed s"
    using that y assms(4) by (simp add: close_session_def run_simps books_def)
  ultimately have "represents Map.empty t" by (auto simp: represents_def)
  then show ?thesis using CloseSession spec_close by blast
qed

end
