(* ===== verification/Session_Liveness.thy ===== *)
theory Session_Liveness
  imports Session_Refinement
begin

text \<open>
  On a machine that does not fail, a publication succeeds and what was published loads. The operations of the provider
  are described by what they do to the files; the publication is their composition.
\<close>

section \<open>The provider on a machine that does not fail\<close>

definition reliable :: "os_env \<Rightarrow> bool" where
  "reliable ev \<longleftrightarrow> (\<forall>k. \<not> ev_fault ev k)"

text \<open>The effect succeeds with a value and leaves the files as described.\<close>

definition succeeds :: "'a os_op \<Rightarrow> machine \<Rightarrow> 'a \<Rightarrow> (path \<Rightarrow> inode option) \<Rightarrow> bool" where
  "succeeds m s a F \<longleftrightarrow> (\<exists>t. m s = (Inr a, t) \<and> lookup t = F)"

lemma succeedsE: "succeeds m s a F \<Longrightarrow> (\<And>t. m s = (Inr a, t) \<Longrightarrow> lookup t = F \<Longrightarrow> thesis) \<Longrightarrow> thesis"
  by (auto simp: succeeds_def)

lemma succeeds_bind:
  assumes "succeeds m s a F" "\<And>t. lookup t = F \<Longrightarrow> succeeds (f a) t b G"
  shows "succeeds (bindS m f) s b G"
  using assms by (fastforce simp: succeeds_def bindS_def)

lemma succeeds_ret: "lookup s = F \<Longrightarrow> succeeds (retS a) s a F"
  by (simp add: succeeds_def retS_def)

lemma succeeds_guarded: "succeeds m s a F \<Longrightarrow> succeeds (guarded c m) s a F"
  by (auto simp: succeeds_def guarded_def catchS_def)

lemma succeeds_guarded_new: "succeeds m s a F \<Longrightarrow> succeeds (guarded_new m) s a F"
  by (auto simp: succeeds_def guarded_new_def catchS_def)

lemma succeeds_sf_value_error: "succeeds m s a F \<Longrightarrow> succeeds (sf_value_error msg m) s a F"
  by (auto simp: succeeds_def sf_value_error_def catchS_def)

lemma lookup_calls [simp]: "lookup (s\<lparr>ma_calls := n\<rparr>) = lookup s"
  by (simp add: lookup_def fun_eq_iff)

lemma os_call_reliable: "reliable ev \<Longrightarrow> succeeds (os_call ev) s () (lookup s)"
  by (simp add: reliable_def os_call_def succeeds_def)

lemma os_lstat_reliable:
  assumes "reliable ev" "lookup s p = Some i"
  shows "succeeds (os_lstat ev p) s i (lookup s)"
  using assms by (simp add: reliable_def os_call_def succeeds_def os_lstat_def bindS_def getsS_def retS_def)

lemma os_open_read_reliable:
  assumes "reliable ev" "lookup s p = Some i" "i_content i \<noteq> Symlink"
  shows "succeeds (os_open_read ev p) s i (lookup s)"
  using assms by (simp add: reliable_def os_call_def succeeds_def os_open_read_def bindS_def getsS_def retS_def)

definition private_directory :: "inode \<Rightarrow> bool" where
  "private_directory i \<longleftrightarrow> i_content i = Directory \<and> i_owned i \<and> i_private i"

definition private_file :: "bytes \<Rightarrow> inode \<Rightarrow> bool" where
  "private_file b i \<longleftrightarrow> i_content i = Regular b \<and> i_owned i \<and> i_private i"

lemma verify_reliable:
  assumes "reliable ev" "lookup s p = Some i" "private_directory i"
  shows "succeeds (verify_private_directory ev p) s () (lookup s)"
  unfolding verify_private_directory_def
  by (rule succeeds_guarded, rule succeeds_bind[OF os_lstat_reliable[OF assms(1,2)]])
    (use assms(3) in \<open>auto simp: private_directory_def owner_private_def intro: succeeds_ret\<close>)

lemma read_private_reliable:
  assumes "reliable ev" "lookup s p = Some i" "private_file b i" "length b \<le> n"
  shows "succeeds (read_private_file ev p n) s b (lookup s)"
proof -
  have "succeeds (read_descriptor ev i n) t b (lookup s)" if "lookup t = lookup s" for t
    using assms that by (simp add: private_file_def read_descriptor_def reliable_def os_call_def succeeds_def bindS_def retS_def)
  then show ?thesis
    unfolding read_private_file_def using assms os_open_read_reliable[OF assms(1,2)]
    by (intro succeeds_guarded succeeds_bind[of _ _ i]) (auto simp: private_file_def owner_private_def is_regular_def)
qed

lemma os_create_reliable:
  assumes "reliable ev" "lookup s p = None" "is_directory s (butlast p)"
  shows "\<exists>i. i_content i = c \<and> i_owned i \<and> i_private i = b \<and> succeeds (os_create ev p c b) s () ((lookup s)(p \<mapsto> i))"
proof -
  have "path_exists s (butlast p)" using assms(3) by (auto simp: path_exists_def is_directory_def split: option.splits)
  let ?i = "new_inode ev (s\<lparr>ma_calls := Suc (ma_calls s)\<rparr>) c b"
  have "succeeds (os_create ev p c b) s () ((lookup s)(p \<mapsto> ?i))"
    using assms \<open>path_exists s (butlast p)\<close>
    by (auto simp: succeeds_def os_create_def bindS_def os_call_def reliable_def path_exists_def is_directory_def lookup_def fun_eq_iff)
  then show ?thesis by (intro exI[of _ ?i]) (simp add: new_inode_def)
qed

lemma lookup_set_content: "lookup (set_content p b s) = (case lookup s p of None \<Rightarrow> lookup s | Some i \<Rightarrow> (lookup s)(p \<mapsto> i\<lparr>i_content := Regular b\<rparr>))"
proof -
  have "map_of (map (\<lambda>(q, i). if q = p then (q, i\<lparr>i_content := Regular b\<rparr>) else (q, i)) xs) =
      (case map_of xs p of None \<Rightarrow> map_of xs | Some i \<Rightarrow> (map_of xs)(p \<mapsto> i\<lparr>i_content := Regular b\<rparr>))" for xs :: "(path \<times> inode) list"
    by (induction xs) (auto split: option.splits)
  then show ?thesis by (simp add: lookup_def fun_eq_iff set_content_def split: option.splits)
qed

lemma lookup_set_private: "lookup (set_private p s) = (case lookup s p of None \<Rightarrow> lookup s | Some i \<Rightarrow> (lookup s)(p \<mapsto> i\<lparr>i_private := True\<rparr>))"
proof -
  have "map_of (map (\<lambda>(q, i). if q = p then (q, i\<lparr>i_private := True\<rparr>) else (q, i)) xs) =
      (case map_of xs p of None \<Rightarrow> map_of xs | Some i \<Rightarrow> (map_of xs)(p \<mapsto> i\<lparr>i_private := True\<rparr>))" for xs :: "(path \<times> inode) list"
    by (induction xs) (auto split: option.splits)
  then show ?thesis by (simp add: lookup_def fun_eq_iff set_private_def split: option.splits)
qed

lemma create_file_reliable:
  assumes "reliable ev" "lookup s p = None" "is_directory s (butlast p)"
  shows "\<exists>i. private_file b i \<and> succeeds (create_private_file ev p b) s () ((lookup s)(p \<mapsto> i))"
proof -
  obtain i where i: "i_content i = Regular []" "i_owned i" "i_private i"
    "succeeds (os_create ev p (Regular []) True) s () ((lookup s)(p \<mapsto> i))"
    using os_create_reliable[OF assms] by blast
  let ?i = "i\<lparr>i_content := Regular b\<rparr>"
  have wr: "succeeds (os_write ev p b) t () ((lookup s)(p \<mapsto> ?i))" if "lookup t = (lookup s)(p \<mapsto> i)" for t
  proof (cases "b = []")
    case True
    then have "?i = i" using i(1) by (cases i) simp
    then show ?thesis using that True by (simp add: os_write_def succeeds_ret)
  next
    case False
    then show ?thesis using assms(1) that
      by (simp add: os_write_def succeeds_def os_call_def reliable_def lookup_set_content)
  qed
  have "succeeds (create_private_file ev p b) s () ((lookup s)(p \<mapsto> ?i))"
    unfolding create_private_file_def
  proof (rule succeeds_guarded_new, rule succeeds_bind[OF i(4)], rule succeeds_bind, erule wr)
    fix t u assume "lookup u = (lookup s)(p \<mapsto> ?i)"
    then show "succeeds (os_call ev) u () ((lookup s)(p \<mapsto> ?i))" using os_call_reliable[OF assms(1), of u] by simp
  qed
  moreover have "private_file b ?i" using i by (simp add: private_file_def)
  ultimately show ?thesis by blast
qed

lemma create_directory_reliable:
  assumes "reliable ev" "lookup s p = None" "is_directory s (butlast p)"
  shows "\<exists>i. private_directory i \<and> succeeds (create_private_directory ev p False False) s () ((lookup s)(p \<mapsto> i))"
proof -
  obtain i where i: "i_content i = Directory" "i_owned i" "i_private i"
    "succeeds (os_create ev p Directory True) s () ((lookup s)(p \<mapsto> i))"
    using os_create_reliable[OF assms] by blast
  have eq: "i\<lparr>i_private := True\<rparr> = i" using i(3) by (cases i) simp
  have mk: "succeeds (path_mkdir ev True False False p) s () ((lookup s)(p \<mapsto> i))"
    using i(4) by (auto simp: path_mkdir.simps succeeds_def catchS_def)
  let ?F = "(lookup s)(p \<mapsto> i)"
  have chmod: "succeeds (modifyS (set_private p)) t () ?F" if "lookup t = ?F" for t
  proof -
    have "lookup (set_private p t) = ?F"
      unfolding lookup_set_private that by (simp only: fun_upd_same option.case eq fun_upd_upd)
    then show ?thesis by (simp add: succeeds_def modifyS_def)
  qed
  have verify: "succeeds (verify_private_directory ev p) t () ?F" if "lookup t = ?F" for t
    using verify_reliable[OF assms(1), of t p i] that i by (simp add: private_directory_def)
  have "succeeds (create_private_directory ev p False False) s () ?F"
    unfolding create_private_directory_def
  proof (rule succeeds_guarded_new, rule succeeds_bind[OF mk], rule succeeds_bind)
    fix t assume t: "lookup t = ?F"
    then show "succeeds (os_lstat ev p) t i ?F" using os_lstat_reliable[OF assms(1), of t p i] by simp
  next
    fix t u assume u: "lookup u = ?F"
    have "succeeds (bindS (os_call ev) (\<lambda>_. bindS (modifyS (set_private p)) (\<lambda>_. verify_private_directory ev p))) u () ?F"
      by (rule succeeds_bind[where F = ?F], use os_call_reliable[OF assms(1), of u] u in simp,
          rule succeeds_bind[OF chmod], assumption, rule verify)
    then show "succeeds (if i_content i \<noteq> Directory then raiseS (SfX NOT_PRIVATE None)
        else bindS (os_call ev) (\<lambda>_. bindS (modifyS (set_private p)) (\<lambda>_. verify_private_directory ev p))) u () ?F"
      using i(1) by simp
  qed
  then show ?thesis using i by (auto simp: private_directory_def)
qed

lemma iterdir_reliable:
  assumes "reliable ev" "is_directory s p"
  shows "\<exists>names. succeeds (os_iterdir ev p) s names (lookup s) \<and>
    set names = last ` {q. lookup s q \<noteq> None \<and> q \<noteq> [] \<and> butlast q = p}"
proof -
  let ?names = "map (last \<circ> fst) (filter (\<lambda>(q, _). q \<noteq> [] \<and> butlast q = p) (ma_files s))"
  have "succeeds (os_iterdir ev p) s ?names (lookup s)"
    using assms by (simp add: os_iterdir_def succeeds_def bindS_def os_call_def reliable_def is_directory_def)
  moreover have "set ?names = last ` {q. lookup s q \<noteq> None \<and> q \<noteq> [] \<and> butlast q = p}"
    unfolding lookup_def by (force simp: map_of_eq_None_iff)
  ultimately show ?thesis by blast
qed

section \<open>Moving a directory\<close>

lemma map_of_renamed:
  "\<forall>q \<in> fst ` set xs. f q = y \<longleftrightarrow> q = x \<Longrightarrow> map_of (map (\<lambda>(q, i). (f q, i)) xs) y = map_of xs x"
  by (induction xs) auto

lemma map_of_not_renamed: "\<forall>q \<in> fst ` set xs. f q \<noteq> y \<Longrightarrow> map_of (map (\<lambda>(q, i). (f q, i)) xs) y = None"
  by (induction xs) auto

lemma beneath_append [simp]: "beneath p (p @ q)" "beneath p p"
  by (simp_all add: beneath_def)

lemma beneath_drop: "beneath p q \<Longrightarrow> p @ drop (length p) q = q"
  unfolding beneath_def by (metis append_take_drop_id)

definition moved_files :: "path \<Rightarrow> path \<Rightarrow> (path \<Rightarrow> inode option) \<Rightarrow> path \<Rightarrow> inode option" where
  "moved_files source dest F q =
     (if beneath dest q then F (source @ drop (length dest) q) else if beneath source q then None else F q)"

lemma publish_reliable:
  assumes "reliable ev" "lookup s source \<noteq> None" "\<And>q. beneath dest q \<Longrightarrow> lookup s q = None"
    "is_directory s (butlast dest)" "\<not> beneath source dest"
  shows "succeeds (publish_directory_no_replace ev source dest) s () (moved_files source dest (lookup s))"
proof -
  let ?xs = "map (\<lambda>(q, i). (moved source dest q, i)) (ma_files s)"
  have key: "q \<in> fst ` set (ma_files s) \<Longrightarrow> \<not> beneath dest q" for q
    using assms(3)[of q] by (auto simp: lookup_def map_of_eq_None_iff)
  have "map_of ?xs y = moved_files source dest (lookup s) y" for y
  proof (cases "beneath dest y")
    case True
    have "moved source dest q = y \<longleftrightarrow> q = source @ drop (length dest) y" if "q \<in> fst ` set (ma_files s)" for q
      using True key[OF that] beneath_drop[OF True] beneath_drop[of source q] by (auto simp: moved_def)
    then have "map_of ?xs y = map_of (ma_files s) (source @ drop (length dest) y)" by (intro map_of_renamed) blast
    then show ?thesis using True unfolding moved_files_def lookup_def by simp
  next
    case False
    show ?thesis
    proof (cases "beneath source y")
      case True
      have "moved source dest q \<noteq> y" for q using True False by (auto simp: moved_def)
      then have "map_of ?xs y = None" by (intro map_of_not_renamed) blast
      then show ?thesis using True False unfolding moved_files_def by simp
    next
      case not: False
      have "moved source dest q = y \<longleftrightarrow> q = y" for q using not False by (auto simp: moved_def)
      then have "map_of ?xs y = map_of (ma_files s) y" by (intro map_of_renamed) blast
      then show ?thesis using not False unfolding moved_files_def lookup_def by simp
    qed
  qed
  then have "lookup (s\<lparr>ma_calls := n, ma_files := ?xs\<rparr>) = moved_files source dest (lookup s)" for n by (simp add: lookup_def fun_eq_iff)
  moreover have "lookup s dest = None" using assms(3) by simp
  ultimately have "succeeds (bindS (os_call ev) (\<lambda>_. \<lambda>s.
        if \<not> path_exists s source then (Inl (SfX PUBLICATION_FAILED None), s)
        else if path_exists s dest then (Inl (SfX ALREADY_EXISTS None), s)
        else if \<not> is_directory s (butlast dest) \<or> beneath source dest then (Inl (SfX PUBLICATION_FAILED None), s)
        else (Inr (), s\<lparr>ma_files := map (\<lambda>(q, i). (moved source dest q, i)) (ma_files s)\<rparr>))) s ()
      (moved_files source dest (lookup s))"
    using assms(1,2,4,5)
    by (simp add: succeeds_def bindS_def os_call_def reliable_def path_exists_def is_directory_def)
  then show ?thesis unfolding publish_directory_no_replace_def by (rule succeeds_guarded)
qed

text \<open>Every entry lies in a directory, so nothing lies beneath a path that does not exist.\<close>

definition rooted :: "(path \<Rightarrow> inode option) \<Rightarrow> bool" where
  "rooted F \<longleftrightarrow> (\<forall>q. F q \<noteq> None \<longrightarrow> q \<noteq> [] \<longrightarrow> F (butlast q) \<noteq> None)"

lemma rooted_beneath: "rooted F \<Longrightarrow> F p = None \<Longrightarrow> F (p @ q) = None"
proof (induction q rule: rev_induct)
  case (snoc x q)
  then have "F (butlast (p @ q @ [x])) = None" by (simp add: butlast_append)
  then show ?case using snoc.prems(1) unfolding rooted_def by (metis append_is_Nil_conv list.distinct(1))
qed simp

lemma rooted_nothing_beneath: "rooted F \<Longrightarrow> F p = None \<Longrightarrow> beneath p q \<Longrightarrow> F q = None"
  using rooted_beneath beneath_drop by metis

section \<open>The store on a machine that does not fail\<close>

definition yields :: "'a cas_op \<Rightarrow> cas \<Rightarrow> 'a \<Rightarrow> (path \<Rightarrow> inode option) \<Rightarrow> bool" where
  "yields m s a F \<longleftrightarrow> (\<exists>t. m s = (Inr a, s\<lparr>ca_machine := t\<rparr>) \<and> lookup t = F)"

lemma yields_bind:
  assumes "yields m s a F" "\<And>t. lookup t = F \<Longrightarrow> yields (f a) (s\<lparr>ca_machine := t\<rparr>) b G"
  shows "yields (bindS m f) s b G"
proof -
  obtain t where t: "m s = (Inr a, s\<lparr>ca_machine := t\<rparr>)" "lookup t = F" using assms(1) by (auto simp: yields_def)
  then show ?thesis using assms(2)[OF t(2)] by (auto simp: yields_def bindS_def)
qed

lemma yields_on_os: "succeeds m (ca_machine s) a F \<Longrightarrow> yields (on_os m) s a F"
  by (auto simp: succeeds_def yields_def on_os_def zoomS_def)

lemma yields_pyS: "x = Inr a \<Longrightarrow> lookup (ca_machine s) = F \<Longrightarrow> yields (pyS x) s a F"
  by (auto simp: yields_def pyS_def liftS_def intro!: exI[of _ "ca_machine s"])

lemma yields_ret: "lookup (ca_machine s) = F \<Longrightarrow> yields (retS a) s a F"
  by (auto simp: yields_def retS_def intro!: exI[of _ "ca_machine s"])

text \<open>A complete dataset entry.\<close>

definition entry :: "(path \<Rightarrow> inode option) \<Rightarrow> path \<Rightarrow> bytes \<Rightarrow> bytes \<Rightarrow> bool" where
  "entry F d rb pb \<longleftrightarrow>
     (\<exists>di ri pi. F d = Some di \<and> private_directory di \<and>
        F (d @ [lit ''record.json'']) = Some ri \<and> private_file rb ri \<and>
        F (d @ [lit ''payload.json'']) = Some pi \<and> private_file pb pi) \<and>
     (\<forall>n. F (d @ [n]) \<noteq> None \<longrightarrow> n = lit ''record.json'' \<or> n = lit ''payload.json'')"

lemma load_directory_reliable:
  assumes "reliable (ce_os env)" "entry (lookup (ca_machine s)) d rb pb"
    "length rb \<le> nat (cl_record_bytes (ce_limits env))" "length pb \<le> nat (cl_dataset_payload_bytes (ce_limits env))"
    "dataset_of_bytes env r rb pb = Inr x"
  shows "yields (load_dataset_directory env d r) s x (lookup (ca_machine s))"
proof -
  let ?F = "lookup (ca_machine s)"
  obtain di ri pi where e: "?F d = Some di" "private_directory di" "?F (d @ [lit ''record.json'']) = Some ri" "private_file rb ri"
    "?F (d @ [lit ''payload.json'']) = Some pi" "private_file pb pi"
    and only: "\<And>n. ?F (d @ [n]) \<noteq> None \<Longrightarrow> n = lit ''record.json'' \<or> n = lit ''payload.json''"
    using assms(2) unfolding entry_def by blast
  have "{q. ?F q \<noteq> None \<and> q \<noteq> [] \<and> butlast q = d} = {d @ [lit ''record.json''], d @ [lit ''payload.json'']}"
    using only e(3,5) by (auto simp: snoc_eq_iff_butlast) (metis append_butlast_last_id option.distinct(1))+
  then have names: "last ` {q. ?F q \<noteq> None \<and> q \<noteq> [] \<and> butlast q = d} = {lit ''record.json'', lit ''payload.json''}" by simp
  have owned: "succeeds (validate_owned_directory (ce_os env) d) m () ?F" if "lookup m = ?F" for m
    unfolding validate_owned_directory_def using verify_reliable[OF assms(1), of m d di] e that
    by (intro succeeds_sf_value_error) simp
  have rd: "succeeds (read_private (ce_os env) p n) m b ?F" if "lookup m = ?F" "?F p = Some i" "private_file b i" "length b \<le> n" for m p n b i
    unfolding read_private_def using read_private_reliable[OF assms(1), of m p i b n] that by (intro succeeds_sf_value_error) simp
  have two: "yields (bindS (on_os (read_private (ce_os env) (d @ [lit ''record.json'']) (nat (cl_record_bytes (ce_limits env))))) (\<lambda>record_bytes.
      bindS (on_os (read_private (ce_os env) (d @ [lit ''payload.json'']) (nat (cl_dataset_payload_bytes (ce_limits env))))) (\<lambda>payload_bytes.
      pyS (dataset_of_bytes env r record_bytes payload_bytes)))) v x ?F" if v: "lookup (ca_machine v) = ?F" for v
  proof (rule yields_bind[OF yields_on_os[OF rd[OF v e(3,4) assms(3)]]], rule yields_bind[OF yields_on_os])
    fix t assume "lookup t = ?F"
    then show "succeeds (read_private (ce_os env) (d @ [lit ''payload.json'']) (nat (cl_dataset_payload_bytes (ce_limits env))))
        (ca_machine (v\<lparr>ca_machine := t\<rparr>)) pb ?F" using rd[OF _ e(5,6) assms(4)] by simp
  next
    fix t u assume "lookup u = ?F"
    then show "yields (pyS (dataset_of_bytes env r rb pb)) (v\<lparr>ca_machine := t, ca_machine := u\<rparr>) x ?F"
      using assms(5) by (intro yields_pyS) simp_all
  qed
  show ?thesis
    unfolding load_dataset_directory_def
  proof (rule yields_bind[OF yields_on_os[OF owned]], simp)
    fix t assume t: "lookup t = ?F"
    have "is_directory t d" using t e(1,2) by (simp add: is_directory_def private_directory_def)
    then obtain ns where ns: "succeeds (os_iterdir (ce_os env) d) t ns ?F" "set ns = {lit ''record.json'', lit ''payload.json''}"
      using iterdir_reliable[OF assms(1), of t d, unfolded t names] by blast
    show "yields (bindS (on_os (os_iterdir (ce_os env) d)) (\<lambda>entries.
        if set entries \<noteq> {lit ''record.json'', lit ''payload.json''}
        then raiseS (PyX (ValueError (lit ''dataset entry has unexpected members'')))
        else bindS (on_os (read_private (ce_os env) (d @ [lit ''record.json'']) (nat (cl_record_bytes (ce_limits env))))) (\<lambda>record_bytes.
          bindS (on_os (read_private (ce_os env) (d @ [lit ''payload.json'']) (nat (cl_dataset_payload_bytes (ce_limits env))))) (\<lambda>payload_bytes.
          pyS (dataset_of_bytes env r record_bytes payload_bytes))))) (s\<lparr>ca_machine := t\<rparr>) x ?F"
      (is "yields (bindS _ ?rest) _ _ _")
    proof (rule yields_bind[OF yields_on_os[of _ _ ns ?F]])
      show "succeeds (os_iterdir (ce_os env) d) (ca_machine (s\<lparr>ca_machine := t\<rparr>)) ns ?F" using ns(1) by simp
    next
      fix u assume "lookup u = ?F"
      then have "lookup (ca_machine (s\<lparr>ca_machine := t, ca_machine := u\<rparr>)) = ?F" by simp
      from two[OF this] show "yields (?rest ns) (s\<lparr>ca_machine := t, ca_machine := u\<rparr>) x ?F"
        by (simp only: ns(2) refl not_True_eq_False if_False)
    qed
  qed
qed

section \<open>Publishing a dataset\<close>

lemma moved_entry: "entry F source rb pb \<Longrightarrow> entry (moved_files source dest F) dest rb pb"
  by (simp add: entry_def moved_files_def)

text \<open>The parsers and the float text give back what is printed.\<close>

definition faithful :: "codec \<Rightarrow> dataset_payload \<Rightarrow> dataset_record \<Rightarrow> bool" where
  "faithful c p r \<longleftrightarrow>
     float_codec (co_float_repr c) (co_parse_float c) \<and>
     (\<forall>v \<in> {payload_projection p, json_sorted (payload_projection p)}. co_parse_payload c v = Some p) \<and>
     (\<forall>v \<in> {dataset_record_projection r, json_sorted (dataset_record_projection r)}. co_parse_dataset c v = Some r)"

text \<open>A valid dataset with its two documents and its reference, within the limits of the session.\<close>

definition publishable ::
  "cas_env \<Rightarrow> dataset_payload \<Rightarrow> dataset_record \<Rightarrow> bytes \<Rightarrow> bytes \<Rightarrow> pystr \<Rightarrow> bool" where
  "publishable env p r rb pb ref \<longleftrightarrow>
     faithful (ce_codec env) p r \<and> dataset_record_valid r \<and> dataset_payload_valid p \<and> validate_payload r p = Inr r \<and>
     dataset_record_reference r = Inr ref \<and>
     cas_json_bytes (co_float_repr (ce_codec env)) (dataset_record_projection r) = Inr rb \<and>
     cas_json_bytes (co_float_repr (ce_codec env)) (payload_projection p) = Inr pb \<and>
     int (length rb) \<le> cl_record_bytes (ce_limits env) \<and> int (length pb) \<le> cl_dataset_payload_bytes (ce_limits env)"

lemma publishable_bytes:
  assumes "publishable env p r rb pb ref"
  shows "validated_dataset env p r = Inr (r, rb, pb)"
    "dataset_of_bytes env ref rb pb = Inr \<lparr>sd_reference = ref, sd_record = r, sd_payload = p\<rparr>"
proof -
  note a = assms[unfolded publishable_def faithful_def]
  show "validated_dataset env p r = Inr (r, rb, pb)" using a by (simp add: validated_dataset_def model_validate_def Let_def)
  have "strict_cas_json_loads (co_float_repr (ce_codec env)) (co_parse_float (ce_codec env)) (nat (cl_record_bytes (ce_limits env))) rb =
      Inr (json_sorted (dataset_record_projection r))"
    using a by (intro dataset_document.cas_document_reads_back) auto
  moreover have "strict_cas_json_loads (co_float_repr (ce_codec env)) (co_parse_float (ce_codec env))
      (nat (cl_dataset_payload_bytes (ce_limits env))) pb = Inr (json_sorted (payload_projection p))"
    using a by (intro payload_document.cas_document_reads_back) auto
  ultimately show "dataset_of_bytes env ref rb pb = Inr \<lparr>sd_reference = ref, sd_record = r, sd_payload = p\<rparr>"
    using a by (simp add: dataset_of_bytes_def model_validate_def Let_def)
qed

lemma publishable_lengths:
  assumes "publishable env p r rb pb ref"
  shows "length rb \<le> nat (cl_record_bytes (ce_limits env))" "length pb \<le> nat (cl_dataset_payload_bytes (ce_limits env))"
proof -
  have "int (length rb) \<le> cl_record_bytes (ce_limits env)" "int (length pb) \<le> cl_dataset_payload_bytes (ce_limits env)"
    using assms by (simp_all add: publishable_def)
  then show "length rb \<le> nat (cl_record_bytes (ce_limits env))" "length pb \<le> nat (cl_dataset_payload_bytes (ce_limits env))"
    by linarith+
qed

lemma destination_dataset:
  assumes "dataset_record_reference r = Inr ref"
  shows "\<exists>digest. destination env DatasetKind ref = Inr (session_directory env @ [lit ''datasets'', digest])"
proof -
  obtain d where "parse_reference DatasetKind ref = Inr \<lparr>pr_kind = DatasetKind, pr_version_token = lit ''1'', pr_digest = d\<rparr>"
    using assms by (auto simp: dataset_record_reference_def bindE_Inr_iff reference_iff)
  then show ?thesis by (simp add: destination_def reference_parts_def kind_directory_def)
qed

definition staging_path :: "cas_env \<Rightarrow> cas \<Rightarrow> path" where
  "staging_path env s = session_directory env @ [lit ''staging'', lit ''dataset'' @ lit ''-'' @ ce_token env (ma_calls (ca_machine s))]"

lemma new_stage_reliable:
  assumes "reliable (ce_os env)" "lookup (ca_machine s) (staging_path env s) = None"
    "is_directory (ca_machine s) (session_directory env @ [lit ''staging''])"
  shows "\<exists>i. private_directory i \<and> yields (new_stage env ''dataset'') s (staging_path env s)
    ((lookup (ca_machine s))(staging_path env s \<mapsto> i))"
proof -
  have "butlast (staging_path env s) = session_directory env @ [lit ''staging'']" by (simp add: staging_path_def butlast_append)
  then obtain i where i: "private_directory i"
    "succeeds (create_private_directory (ce_os env) (staging_path env s) False False) (ca_machine s) ()
       ((lookup (ca_machine s))(staging_path env s \<mapsto> i))"
    using create_directory_reliable[OF assms(1,2)] assms(3) by metis
  from yields_on_os[OF i(2)] obtain t where
    "on_os (create_private_directory (ce_os env) (staging_path env s) False False) s = (Inr (), s\<lparr>ca_machine := t\<rparr>)"
    "lookup t = (lookup (ca_machine s))(staging_path env s \<mapsto> i)" by (auto simp: yields_def)
  then have "yields (new_stage_loop env ''dataset'' (Suc 99)) s (staging_path env s) ((lookup (ca_machine s))(staging_path env s \<mapsto> i))"
    unfolding new_stage_loop.simps by (auto simp: yields_def bindS_def getsS_def catchS_def retS_def Let_def staging_path_def[symmetric])
  then show ?thesis using i(1) by (auto simp: new_stage_def)
qed

lemma write_reliable:
  assumes "reliable ev" "lookup s p = None" "is_directory s (butlast p)"
  shows "\<exists>i. private_file b i \<and> succeeds (write_private ev p b) s () ((lookup s)(p \<mapsto> i))"
proof -
  obtain i where "private_file b i" "succeeds (create_private_file ev p b) s () ((lookup s)(p \<mapsto> i))"
    using create_file_reliable[OF assms] by blast
  then show ?thesis unfolding write_private_def by (intro exI[of _ i] conjI succeeds_sf_value_error)
qed

lemma register_reliable:
  assumes "int (ca_used s + n) \<le> cl_session_bytes (ce_limits env)"
  shows "\<exists>t. register env r n s = (Inr (), t) \<and> ca_machine t = ca_machine s \<and> ca_references t = insert r (ca_references s) \<and>
    ca_corrupt t = ca_corrupt s \<and> ca_closed t = ca_closed s"
  using assms by (cases "r \<in> ca_references s") (simp_all add: register_def reserve_def run_simps insert_absorb)

text \<open>The stage is filled with the two documents and nothing else.\<close>

lemma staged_entry:
  assumes "F stage = None" "rooted F" "private_directory di" "private_file rb ri" "private_file pb pi"
  shows "entry (F(stage \<mapsto> di, stage @ [lit ''record.json''] \<mapsto> ri, stage @ [lit ''payload.json''] \<mapsto> pi)) stage rb pb"
  using assms rooted_beneath[OF assms(2,1)] by (auto simp: entry_def)

lemma staging_apart:
  assumes "d = session_directory env @ [lit ''datasets'', digest]"
  shows "\<not> beneath d (staging_path env s @ x)" "\<not> beneath (staging_path env s) d"
    "butlast d \<noteq> staging_path env s @ x"
  using assms by (auto simp: beneath_def staging_path_def butlast_append)

lemma publish_reliable_dataset:
  assumes p: "publishable env p r rb pb ref" and reliable: "reliable (ce_os env)"
    and s: "\<not> ca_closed s" "ref \<notin> ca_corrupt s" "int (ca_used s + (length pb + length rb)) \<le> cl_session_bytes (ce_limits env)"
    and F: "rooted (lookup (ca_machine s))" "is_directory (ca_machine s) (session_directory env @ [lit ''datasets''])"
      "is_directory (ca_machine s) (session_directory env @ [lit ''staging''])"
      "lookup (ca_machine s) (staging_path env s) = None"
    and d: "destination env DatasetKind ref = Inr d" "lookup (ca_machine s) d = None"
  shows "\<exists>t. publish_dataset env p r s = (Inr ref, t) \<and> entry (lookup (ca_machine t)) d rb pb \<and>
    ca_references t = insert ref (ca_references s) \<and> ca_corrupt t = ca_corrupt s \<and> \<not> ca_closed t"
proof -
  let ?F = "lookup (ca_machine s)" and ?stage = "staging_path env s"
  obtain digest where dd: "d = session_directory env @ [lit ''datasets'', digest]"
    using destination_dataset d(1) p unfolding publishable_def by (metis sum.inject(2))
  note apart = staging_apart[OF dd, where s = s]
  have parent: "butlast d = session_directory env @ [lit ''datasets'']" using dd by (simp add: butlast_append)
  obtain di where di: "private_directory di" "yields (new_stage env ''dataset'') s ?stage (?F(?stage \<mapsto> di))"
    using new_stage_reliable[OF reliable F(4,3)] by blast
  have "\<exists>t. stage_dataset env ?stage d ref rb pb u = (Inr ref, t) \<and> entry (lookup (ca_machine t)) d rb pb \<and>
      ca_references t = insert ref (ca_references s) \<and> ca_corrupt t = ca_corrupt s \<and> \<not> ca_closed t"
    if u: "u = s\<lparr>ca_machine := m\<rparr>" "lookup m = ?F(?stage \<mapsto> di)" for u m
  proof -
    have fresh: "?F (?stage @ x) = None" for x using rooted_beneath[OF F(1,4)] .
    obtain ri m1 where ri: "private_file rb ri" "write_private (ce_os env) (?stage @ [lit ''record.json'']) rb m = (Inr (), m1)"
      "lookup m1 = ?F(?stage \<mapsto> di, ?stage @ [lit ''record.json''] \<mapsto> ri)"
      using write_reliable[OF reliable, of m "?stage @ [lit ''record.json'']" rb] fresh u(2) di(1)
      by (auto simp: succeeds_def is_directory_def private_directory_def)
    obtain pi m2 where pi: "private_file pb pi" "write_private (ce_os env) (?stage @ [lit ''payload.json'']) pb m1 = (Inr (), m2)"
      "lookup m2 = ?F(?stage \<mapsto> di, ?stage @ [lit ''record.json''] \<mapsto> ri, ?stage @ [lit ''payload.json''] \<mapsto> pi)"
      using write_reliable[OF reliable, of m1 "?stage @ [lit ''payload.json'']" pb] fresh ri(3) di(1)
      by (auto simp: succeeds_def is_directory_def private_directory_def)
    have staged: "entry (lookup m2) ?stage rb pb" unfolding pi(3) using staged_entry[OF F(4,1) di(1) ri(1) pi(1)] .
    obtain m3 where m3: "load_dataset_directory env ?stage ref (s\<lparr>ca_machine := m2\<rparr>) =
        (Inr \<lparr>sd_reference = ref, sd_record = r, sd_payload = p\<rparr>, s\<lparr>ca_machine := m3\<rparr>)" "lookup m3 = lookup m2"
      using load_directory_reliable[OF reliable _ publishable_lengths[OF p] publishable_bytes(2)[OF p], of "s\<lparr>ca_machine := m2\<rparr>" ?stage] staged
      by (auto simp: yields_def)
    have "succeeds (publish_directory_no_replace (ce_os env) ?stage d) m3 () (moved_files ?stage d (lookup m3))"
    proof (rule publish_reliable[OF reliable])
      show "lookup m3 ?stage \<noteq> None" unfolding m3(2) pi(3) by simp
      show "lookup m3 q = None" if "beneath d q" for q
      proof -
        have "q \<noteq> ?stage" "q \<noteq> ?stage @ [lit ''record.json'']" "q \<noteq> ?stage @ [lit ''payload.json'']"
          using apart(1)[of "[]"] apart(1) that by auto
        then show ?thesis unfolding m3(2) pi(3) using rooted_nothing_beneath[OF F(1) d(2) that] by simp
      qed
      show "is_directory m3 (butlast d)"
        using F(2) apart(3)[of "[]"] apart(3) unfolding is_directory_def m3(2) pi(3) parent by simp
    qed (rule apart(2))
    then obtain m4 where m4: "publish_directory_no_replace (ce_os env) ?stage d m3 = (Inr (), m4)"
      "lookup m4 = moved_files ?stage d (lookup m2)" unfolding m3(2) by (auto simp: succeeds_def)
    have gone: "lookup m4 ?stage = None" unfolding m4(2) moved_files_def using apart(1)[of "[]"] by simp
    let ?t = "s\<lparr>ca_machine := m4\<rparr>"
    obtain t where t: "register env ref (length pb + length rb) ?t = (Inr (), t)" "ca_machine t = m4"
      "ca_references t = insert ref (ca_references s)" "ca_corrupt t = ca_corrupt s" "\<not> ca_closed t"
      using register_reliable[of ?t "length pb + length rb" env ref] s by auto
    have "stage_dataset env ?stage d ref rb pb u = (Inr ref, t)"
      using ri(2) pi(2) m3(1) m4(1) t(1,2) gone
      by (simp add: stage_dataset_def u(1) finallyS_def catchS_def run_simps on_os_def zoomS_def publish_stage_def
          remove_stage_def path_exists_def)
    moreover have "entry (lookup (ca_machine t)) d rb pb" unfolding t(2) m4(2) using moved_entry[OF staged] .
    ultimately show ?thesis using t by blast
  qed
  then have "\<exists>t. bindS (new_stage env ''dataset'') (\<lambda>stage. stage_dataset env stage d ref rb pb) s = (Inr ref, t) \<and>
      entry (lookup (ca_machine t)) d rb pb \<and> ca_references t = insert ref (ca_references s) \<and> ca_corrupt t = ca_corrupt s \<and> \<not> ca_closed t"
    using di(2) by (auto simp: yields_def bindS_def)
  moreover have "publish_dataset env p r s = bindS (new_stage env ''dataset'') (\<lambda>stage. stage_dataset env stage d ref rb pb) s"
  proof -
    have "int (length pb) \<le> cl_dataset_payload_bytes (ce_limits env)" "int (length rb) \<le> cl_record_bytes (ce_limits env)"
      "dataset_record_reference r = Inr ref" using p by (simp_all add: publishable_def)
    then show ?thesis using s d publishable_bytes(1)[OF p]
      by (simp add: publish_dataset_def commit_dataset_def require_open_def or_publication_failed_def reserve_def pyS_def
          path_exists_def run_simps del: of_nat_add)
  qed
  ultimately show ?thesis by simp
qed

lemma published_loads:
  assumes p: "publishable env p r rb pb ref" and reliable: "reliable (ce_os env)"
    and t: "\<not> ca_closed t" "ref \<notin> ca_corrupt t" "ref \<in> ca_references t"
      "destination env DatasetKind ref = Inr d" "entry (lookup (ca_machine t)) d rb pb"
  shows "\<exists>u. load_dataset env ref t = (Inr \<lparr>sd_reference = ref, sd_record = r, sd_payload = p\<rparr>, u)"
proof -
  obtain m where "load_dataset_directory env d ref t = (Inr \<lparr>sd_reference = ref, sd_record = r, sd_payload = p\<rparr>, t\<lparr>ca_machine := m\<rparr>)"
    using load_directory_reliable[OF reliable t(5) publishable_lengths[OF p] publishable_bytes(2)[OF p]] by (auto simp: yields_def)
  moreover have "resolve env DatasetKind ref t = (Inr d, t)" using t by (simp add: resolve_Inr)
  ultimately show ?thesis by (simp add: load_dataset_def bindS_def catchS_def)
qed

end
