(* ===== verification/Session_Properties.thy ===== *)
theory Session_Properties
  imports Session_Liveness
begin

text \<open>
  The properties of the session store, with a session that is opened, filled and read on a small machine.
\<close>

section \<open>Opening a session\<close>

definition unlocked :: "machine \<Rightarrow> bool" where
  "unlocked s \<longleftrightarrow> ma_locks s = []"

lemma keeps_unlocked [keeps_intros]:
  "keeps unlocked (os_call ev)" "keeps unlocked (os_write ev p b)" "keeps unlocked (modifyS (set_private p))"
  "keeps unlocked (os_walk ev p)"
  by (auto simp: keeps_def unlocked_def os_call_def os_write_def retS_def modifyS_def set_content_def set_private_def os_walk_def
      split: prod.splits sum.splits)

lemma keeps_unlocked_create [keeps_intros]: "keeps unlocked (os_create ev p c b)"
  unfolding os_create_def by (rule keeps_bindS[OF keeps_unlocked(1)]) (auto simp: keeps_def unlocked_def)

lemma keeps_unlocked_mkdir [keeps_intros]: "keeps unlocked (path_mkdir ev a b c p)"
  by (induction ev a b c p rule: path_mkdir.induct) (subst path_mkdir.simps, auto intro!: keeps_intros)

lemma keeps_unlocked_provider [keeps_intros]:
  "keeps unlocked (create_private_directory ev p a b)" "keeps unlocked (create_private_file ev p c)"
  "keeps unlocked (verify_private_directory ev p)"
  unfolding create_private_directory_def create_private_file_def verify_private_directory_def guarded_new_def guarded_def os_lstat_def
  by (intro keeps_intros)+

text \<open>An effect that succeeds on a machine without locks.\<close>

definition opens :: "'a os_op \<Rightarrow> machine \<Rightarrow> 'a \<Rightarrow> (path \<Rightarrow> inode option) \<Rightarrow> bool" where
  "opens m s a F \<longleftrightarrow> (\<exists>t. m s = (Inr a, t) \<and> lookup t = F \<and> unlocked t)"

lemma opens_bind:
  assumes "opens m s a F" "\<And>t. lookup t = F \<Longrightarrow> unlocked t \<Longrightarrow> opens (f a) t b G"
  shows "opens (bindS m f) s b G"
proof -
  obtain t where t: "m s = (Inr a, t)" "lookup t = F" "unlocked t" using assms(1) by (auto simp: opens_def)
  then show ?thesis using assms(2)[OF t(2,3)] by (auto simp: opens_def bindS_def)
qed

lemma opens_succeeds: "succeeds m s a F \<Longrightarrow> keeps unlocked m \<Longrightarrow> unlocked s \<Longrightarrow> opens m s a F"
  unfolding succeeds_def opens_def using keepsD by metis

lemma opens_directory:
  assumes "reliable ev" "lookup s p = None" "is_directory s (butlast p)" "unlocked s"
  shows "\<exists>i. private_directory i \<and> opens (create_private_directory ev p False False) s () ((lookup s)(p \<mapsto> i))"
proof -
  obtain i where i: "private_directory i" "succeeds (create_private_directory ev p False False) s () ((lookup s)(p \<mapsto> i))"
    using create_directory_reliable[OF assms(1-3)] by blast
  from i(1) opens_succeeds[OF i(2) keeps_unlocked_provider(1) assms(4)] show ?thesis by (intro exI[of _ i] conjI)
qed

lemma opens_file:
  assumes "reliable ev" "lookup s p = None" "is_directory s (butlast p)" "unlocked s"
  shows "\<exists>i. private_file b i \<and> opens (write_private ev p b) s () ((lookup s)(p \<mapsto> i))"
proof -
  obtain i where i: "private_file b i" "succeeds (write_private ev p b) s () ((lookup s)(p \<mapsto> i))"
    using write_reliable[OF assms(1-3)] by blast
  have "keeps unlocked (write_private ev p b)" unfolding write_private_def sf_value_error_def by (intro keeps_intros)
  from i(1) opens_succeeds[OF i(2) this assms(4)] show ?thesis by (intro exI[of _ i] conjI)
qed

lemma acquire_reliable:
  assumes "reliable ev" "lookup s p = Some i" "private_file b i" "unlocked s"
  shows "acquire_session_lock ev p s = (Inr (Some (i_number i)), s\<lparr>ma_calls := ma_calls s + 3, ma_locks := [i_number i]\<rparr>)"
  using assms by (simp add: acquire_session_lock_def guarded_def catchS_def bindS_def os_open_read_def os_call_def reliable_def
      getsS_def retS_def private_file_def unlocked_def lookup_def)

lemma opens_children:
  assumes "reliable ev" "unlocked s" "is_directory s d" "\<forall>n \<in> set ns. lookup s (d @ [lit n]) = None" "distinct ns"
  shows "\<exists>F. opens (mapS (\<lambda>n. create_private_directory ev (d @ [lit n]) False False) ns) s (map (\<lambda>_. ()) ns) F \<and>
    (\<forall>q. q \<notin> (\<lambda>n. d @ [lit n]) ` set ns \<longrightarrow> F q = lookup s q) \<and>
    (\<forall>n \<in> set ns. \<exists>i. F (d @ [lit n]) = Some i \<and> private_directory i)"
  using assms
proof (induction ns arbitrary: s)
  case Nil
  then show ?case by (auto simp: opens_def retS_def)
next
  case (Cons n ns)
  obtain i t where i: "private_directory i" "create_private_directory ev (d @ [lit n]) False False s = (Inr (), t)"
    "lookup t = (lookup s)(d @ [lit n] \<mapsto> i)" "unlocked t"
    using opens_directory[OF Cons.prems(1), of s "d @ [lit n]"] Cons.prems(2-4) by (auto simp: opens_def)
  have "is_directory t d" using Cons.prems(3) i(3) by (simp add: is_directory_def)
  moreover have "\<forall>m \<in> set ns. lookup t (d @ [lit m]) = None" using Cons.prems(4,5) i(3) by auto
  ultimately obtain F where F: "opens (mapS (\<lambda>n. create_private_directory ev (d @ [lit n]) False False) ns) t (map (\<lambda>_. ()) ns) F"
    "\<forall>q. q \<notin> (\<lambda>n. d @ [lit n]) ` set ns \<longrightarrow> F q = lookup t q" "\<forall>n \<in> set ns. \<exists>i. F (d @ [lit n]) = Some i \<and> private_directory i"
    using Cons.IH[of t] Cons.prems(1,5) i(4) by auto
  have "opens (mapS (\<lambda>n. create_private_directory ev (d @ [lit n]) False False) (n # ns)) s (map (\<lambda>_. ()) (n # ns)) F"
    using F(1) i(2) by (auto simp: opens_def bindS_def retS_def)
  moreover have "F (d @ [lit n]) = Some i"
  proof -
    have "d @ [lit n] \<notin> (\<lambda>n. d @ [lit n]) ` set ns" using Cons.prems(5) by auto
    then show ?thesis using F(2) i(3) by simp
  qed
  moreover have "F q = lookup s q" if "q \<notin> (\<lambda>n. d @ [lit n]) ` set (n # ns)" for q using F(2) i(3) that by auto
  ultimately show ?case using F(3) i(1) by (intro exI[of _ F]) auto
qed

lemma marker_document: "float_codec fr pf \<Longrightarrow> \<exists>b. cas_json_bytes fr MARKER_VALUE = Inr b"
proof -
  assume c: "float_codec fr pf"
  have v: "json_value MARKER_VALUE" "canonical_ok MARKER_VALUE" by (simp_all add: MARKER_VALUE_def jobj_def jstr_def MAX_SAFE_INTEGER_def)
  show ?thesis unfolding cas_json_bytes_def using document_exists[OF v scalar_json_dumps[OF c v]] .
qed

text \<open>What a session directory looks like once it is open.\<close>

definition session_layout :: "(path \<Rightarrow> inode option) \<Rightarrow> (path \<Rightarrow> inode option) \<Rightarrow> path \<Rightarrow> bool" where
  "session_layout F G d \<longleftrightarrow>
     (\<forall>q. \<not> beneath d q \<longrightarrow> G q = F q) \<and>
     (\<forall>q. G q \<noteq> None \<longrightarrow> beneath d q \<longrightarrow> q = d \<or> q \<in> (\<lambda>n. d @ [lit n]) `
        {''datasets'', ''operations'', ''staging'', ''quarantine'', ''.defined-quant-session-v1'', ''.lock''}) \<and>
     (\<forall>q \<in> {d, d @ [lit ''datasets''], d @ [lit ''operations''], d @ [lit ''staging''], d @ [lit ''quarantine'']}.
        \<exists>i. G q = Some i \<and> private_directory i)"

lemma create_session_reliable:
  assumes "reliable (ce_os env)" "float_codec (co_float_repr (ce_codec env)) (co_parse_float (ce_codec env))" "unlocked s"
    "rooted (lookup s)" "lookup s (session_directory env) = None" "is_directory s (ce_root env)"
  shows "\<exists>handle t. create_session_directory env s = (Inr handle, t) \<and> session_layout (lookup s) (lookup t) (session_directory env)"
proof -
  let ?ev = "ce_os env" and ?d = "session_directory env" and ?F = "lookup s"
  let ?names = "[''datasets'', ''operations'', ''staging'', ''quarantine'']"
  have fresh: "?F (?d @ x) = None" for x using rooted_beneath[OF assms(4,5)] .
  have "butlast ?d = ce_root env" by (simp add: session_directory_def)
  then obtain i t1 where t1: "private_directory i" "create_private_directory ?ev ?d False False s = (Inr (), t1)"
    "lookup t1 = ?F(?d \<mapsto> i)" "unlocked t1"
    using opens_directory[OF assms(1,5)] assms(3,6) by (auto simp: opens_def)
  have "is_directory t1 ?d" using t1 by (simp add: is_directory_def private_directory_def)
  moreover have "\<forall>n \<in> set ?names. lookup t1 (?d @ [lit n]) = None" using fresh t1(3) by simp
  ultimately obtain G t2 where t2: "mapS (\<lambda>n. create_private_directory ?ev (?d @ [lit n]) False False) ?names t1 = (Inr (map (\<lambda>_. ()) ?names), t2)"
    "lookup t2 = G" "unlocked t2" "\<forall>q. q \<notin> (\<lambda>n. ?d @ [lit n]) ` set ?names \<longrightarrow> G q = lookup t1 q"
    "\<forall>n \<in> set ?names. \<exists>i. G (?d @ [lit n]) = Some i \<and> private_directory i"
    using opens_children[OF assms(1) t1(4), of ?d ?names] by (auto simp: opens_def simp del: mapS.simps)
  have Gd: "G ?d = Some i" "G (?d @ [lit ''.defined-quant-session-v1'']) = None" "G (?d @ [lit ''.lock'']) = None"
    using t2(4) t1(3) fresh by auto
  obtain mb where mb: "cas_json_bytes (co_float_repr (ce_codec env)) MARKER_VALUE = Inr mb" using marker_document[OF assms(2)] by blast
  have dir: "is_directory t ?d" if "lookup t = G(x \<mapsto> j)" "x \<noteq> ?d" for t x j
    using that Gd(1) t1(1) by (simp add: is_directory_def private_directory_def)
  obtain j t3 where t3: "private_file mb j" "write_private ?ev (?d @ [lit ''.defined-quant-session-v1'']) mb t2 = (Inr (), t3)"
    "lookup t3 = G(?d @ [lit ''.defined-quant-session-v1''] \<mapsto> j)" "unlocked t3"
    using opens_file[OF assms(1), of t2 "?d @ [lit ''.defined-quant-session-v1'']" mb] Gd t1(1) t2(2,3)
    by (auto simp: opens_def is_directory_def private_directory_def)
  obtain k t4 where t4: "private_file [48] k" "write_private ?ev (?d @ [lit ''.lock'']) [48] t3 = (Inr (), t4)"
    "lookup t4 = G(?d @ [lit ''.defined-quant-session-v1''] \<mapsto> j, ?d @ [lit ''.lock''] \<mapsto> k)" "unlocked t4"
    using opens_file[OF assms(1), of t3 "?d @ [lit ''.lock'']" "[48]"] Gd(3) dir[OF t3(3)] t3(3,4) by (auto simp: opens_def)
  note lock = acquire_reliable[OF assms(1), of t4 "?d @ [lit ''.lock'']" k, OF _ t4(1,4)]
  let ?t = "t4\<lparr>ma_calls := ma_calls t4 + 3, ma_locks := [i_number k]\<rparr>"
  have "create_session_directory env s = (Inr (i_number k), ?t)"
    using t1(2) t2(1) t3(2) t4(2,3) mb lock
    by (simp add: create_session_directory_def Let_def run_simps pyS_def del: mapS.simps)
  moreover have "lookup ?t = lookup t4" by (simp add: lookup_def fun_eq_iff)
  moreover have "session_layout ?F (lookup t4) ?d"
    unfolding session_layout_def t4(3)
  proof (intro conjI allI impI ballI)
    fix q assume "\<not> beneath ?d q"
    then have "q \<notin> (\<lambda>n. ?d @ [lit n]) ` set ?names" "q \<noteq> ?d" "q \<noteq> ?d @ [lit ''.defined-quant-session-v1'']" "q \<noteq> ?d @ [lit ''.lock'']"
      by auto
    then show "(G(?d @ [lit ''.defined-quant-session-v1''] \<mapsto> j, ?d @ [lit ''.lock''] \<mapsto> k)) q = ?F q"
      using t2(4) t1(3) by simp
  next
    fix q assume q: "(G(?d @ [lit ''.defined-quant-session-v1''] \<mapsto> j, ?d @ [lit ''.lock''] \<mapsto> k)) q \<noteq> None" "beneath ?d q"
    have "?F q = None" using fresh beneath_drop[OF q(2)] by metis
    then have "q = ?d \<or> q \<in> (\<lambda>n. ?d @ [lit n]) ` set ?names" if "G q \<noteq> None"
      using that t2(4) t1(3) by (cases "q = ?d") auto
    then show "q = ?d \<or> q \<in> (\<lambda>n. ?d @ [lit n]) `
        {''datasets'', ''operations'', ''staging'', ''quarantine'', ''.defined-quant-session-v1'', ''.lock''}"
      using q(1) by (simp split: if_splits)
  next
    fix q assume "q \<in> {?d, ?d @ [lit ''datasets''], ?d @ [lit ''operations''], ?d @ [lit ''staging''], ?d @ [lit ''quarantine'']}"
    then show "\<exists>i. (G(?d @ [lit ''.defined-quant-session-v1''] \<mapsto> j, ?d @ [lit ''.lock''] \<mapsto> k)) q = Some i \<and> private_directory i"
      using Gd(1) t1(1) t2(5) by auto
  qed
  ultimately show ?thesis by auto
qed

text \<open>A state root that is private and has no sessions in it.\<close>

definition empty_root :: "cas_env \<Rightarrow> machine \<Rightarrow> bool" where
  "empty_root env m \<longleftrightarrow>
     unlocked m \<and> rooted (lookup m) \<and> (\<exists>i. lookup m (ce_root env) = Some i \<and> private_directory i) \<and>
     (\<forall>n. lookup m (ce_root env @ [n]) = None) \<and> ce_root env \<noteq> [] \<and> ce_root env \<noteq> ev_home (ce_os env)"

lemma keeps_unlocked_iterdir [keeps_intros]: "keeps unlocked (os_iterdir ev p)"
  unfolding os_iterdir_def by (rule keeps_bindS[OF keeps_unlocked(1)]) (auto simp: keeps_def)

lemma opens_verify:
  assumes "reliable ev" "lookup s p = Some i" "private_directory i" "unlocked s"
  shows "opens (verify_private_directory ev p) s () (lookup s)"
  using opens_succeeds[OF verify_reliable[OF assms(1-3)] keeps_unlocked_provider(3) assms(4)] .

lemma cleanup_empty_root:
  assumes "reliable (ce_os env)" "empty_root env s"
  shows "opens (cleanup_sessions env now) s [] (lookup s)"
proof -
  let ?ev = "ce_os env" and ?root = "ce_root env" and ?F = "lookup s"
  obtain i where i: "?F ?root = Some i" "private_directory i" using assms(2) by (auto simp: empty_root_def)
  have none: "{q. ?F q \<noteq> None \<and> q \<noteq> [] \<and> butlast q = ?root} = {}"
  proof -
    have "?F q = None" if "q \<noteq> []" "butlast q = ?root" for q
      using assms(2) that unfolding empty_root_def by (metis append_butlast_last_id)
    then show ?thesis by auto
  qed
  have list: "opens (os_iterdir ?ev ?root) t [] ?F" if t: "lookup t = ?F" "unlocked t" for t
  proof -
    have "is_directory t ?root" using t(1) i by (simp add: is_directory_def private_directory_def)
    from iterdir_reliable[OF assms(1) this, unfolded t(1) none image_empty]
    obtain names where names: "succeeds (os_iterdir ?ev ?root) t names ?F" "set names = {}" by blast
    from opens_succeeds[OF names(1) keeps_unlocked_iterdir t(2)] names(2) show ?thesis by simp
  qed
  obtain t where t: "verify_private_directory ?ev ?root s = (Inr (), t)" "lookup t = ?F" "unlocked t"
    using opens_verify[OF assms(1) i] assms(2) by (auto simp: opens_def empty_root_def)
  obtain u where u: "os_iterdir ?ev ?root t = (Inr [], u)" "lookup u = ?F" "unlocked u"
    using list[OF t(2,3)] by (auto simp: opens_def)
  have "?root \<notin> {[], ev_home ?ev}" using assms(2) by (simp add: empty_root_def)
  then have "cleanup_sessions env now s = (Inr [], u)"
    using t(1) u(1) by (simp add: cleanup_sessions_def cleanup_orphan_sessions_def guarded_def run_simps catchS_def
        List.map_filter_simps)
  then show ?thesis using u by (simp add: opens_def)
qed

lemma open_session_reliable:
  assumes "reliable (ce_os env)" "float_codec (co_float_repr (ce_codec env)) (co_parse_float (ce_codec env))" "empty_root env s"
  shows "\<exists>handle t. open_session env now s = (Inr handle, t) \<and> session_layout (lookup s) (lookup t) (session_directory env)"
proof -
  let ?root = "ce_root env"
  obtain i where i: "lookup s ?root = Some i" "private_directory i" using assms(3) by (auto simp: empty_root_def)
  obtain t where t: "verify_private_directory (ce_os env) ?root s = (Inr (), t)" "lookup t = lookup s" "unlocked t"
    using opens_verify[OF assms(1) i] assms(3) by (auto simp: opens_def empty_root_def)
  have "prepare_state_root env s = (Inr (), t)"
    using t(1) i assms(3) by (simp add: prepare_state_root_def Let_def run_simps catchS_def empty_root_def private_directory_def)
  moreover have et: "empty_root env t" using assms(3) t(2,3) by (simp add: empty_root_def)
  then obtain u where u: "cleanup_sessions env now t = (Inr [], u)" "lookup u = lookup s" "unlocked u"
    using cleanup_empty_root[OF assms(1), of t now] t(2) by (auto simp: opens_def)
  moreover have "\<exists>handle v. create_session_directory env u = (Inr handle, v) \<and>
      session_layout (lookup u) (lookup v) (session_directory env)"
    using assms(3) u(2,3) i
    by (intro create_session_reliable[OF assms(1,2)])
      (simp_all add: empty_root_def session_directory_def is_directory_def private_directory_def)
  ultimately show ?thesis by (auto simp: open_session_def bindS_def catchS_def)
qed

lemma layout_directories:
  assumes "session_layout F (lookup m) d" "name \<in> {''datasets'', ''operations'', ''staging'', ''quarantine''}"
  shows "is_directory m (d @ [lit name])" "lookup m (d @ [lit name, n]) = None"
proof -
  show "is_directory m (d @ [lit name])"
    using assms unfolding session_layout_def by (auto simp: is_directory_def private_directory_def)
  have "d @ [lit name, n] \<noteq> d" "d @ [lit name, n] \<notin> (\<lambda>n. d @ [lit n]) `
      {''datasets'', ''operations'', ''staging'', ''quarantine'', ''.defined-quant-session-v1'', ''.lock''}" by auto
  then show "lookup m (d @ [lit name, n]) = None"
    using assms(1) beneath_append(1)[of d "[lit name, n]"] unfolding session_layout_def by blast
qed

lemma layout_rooted:
  assumes "session_layout F G d" "rooted F" "F (butlast d) \<noteq> None" "d \<noteq> []" "\<forall>q. beneath d q \<longrightarrow> F q = None"
  shows "rooted G"
  unfolding rooted_def
proof (intro allI impI)
  fix q assume q: "G q \<noteq> None" "q \<noteq> []"
  have outside: "G (butlast q) = F (butlast q)" if "\<not> beneath d (butlast q)" using assms(1) that by (simp add: session_layout_def)
  show "G (butlast q) \<noteq> None"
  proof (cases "beneath d q")
    case True
    then have "q = d \<or> butlast q = d" using assms(1) q(1) unfolding session_layout_def by fastforce
    moreover have "\<not> beneath d (butlast d)" using assms(4) by (cases d rule: rev_cases) (auto simp: beneath_def)
    ultimately show ?thesis using assms(1,3) unfolding session_layout_def by fastforce
  next
    case False
    then have "\<not> beneath d (butlast q)" using beneath_drop[of d "butlast q"] beneath_append(1) q(2)
      by (metis append.assoc append_butlast_last_id)
    then show ?thesis using outside False q assms(1,2) unfolding session_layout_def rooted_def by metis
  qed
qed

section \<open>Traces of a session\<close>

text \<open>
  What a session does, call by call. Between two calls the files may become anything and the other sessions of the
  process may change the registry, except for the entries of this one.
\<close>

inductive session_run :: "cas_env \<Rightarrow> (action \<times> (exc + answer)) list \<Rightarrow> cas \<Rightarrow> bool" for env where
  run_start: "\<forall>r. ce_session_id env \<notin> registered g r \<Longrightarrow> session_run env [] (new_session m g handle)"
| run_act: "session_run env trace s \<Longrightarrow> perform env act s = (x, t) \<Longrightarrow> session_run env (trace @ [(act, x)]) t"
| run_other: "session_run env trace s \<Longrightarrow>
     \<forall>r. ce_session_id env \<in> registered g r \<longleftrightarrow> ce_session_id env \<in> registered (ca_registry s) r \<Longrightarrow>
     session_run env trace (s\<lparr>ca_machine := m, ca_registry := g\<rparr>)"

text \<open>What can follow a state of a session: its own calls, and anything that happens to the files and to the other sessions.\<close>

inductive session_later :: "cas_env \<Rightarrow> cas \<Rightarrow> cas \<Rightarrow> bool" for env s where
  later_refl: "session_later env s s"
| later_act: "session_later env s t \<Longrightarrow> perform env act t = (x, u) \<Longrightarrow> session_later env s u"
| later_other: "session_later env s t \<Longrightarrow> session_later env s (t\<lparr>ca_machine := m, ca_registry := g\<rparr>)"

text \<open>A reference is quarantined: marked, and held until the session is closed.\<close>

definition quarantined :: "pystr \<Rightarrow> cas \<Rightarrow> bool" where
  "quarantined r s \<longleftrightarrow> r \<in> ca_corrupt s \<and> (ca_closed s \<or> r \<in> ca_references s)"

lemma perform_keeps_quarantined: "keeps (quarantined r) (perform env act)"
proof -
  have P: "markable (quarantined r)" by (auto simp: markable_def off_disk_def quarantined_def)
  have reg: "keeps (quarantined r) (register env q n)" for q n
    unfolding register_def reserve_def by (intro keeps_intros keeps_modifyS) (auto simp: quarantined_def)
  have "keeps (quarantined r) (close_session env)"
    by (rule keeps_close) (auto simp: off_disk_def quarantined_def)
  then show ?thesis
    by (cases act; simp add: keeps_answering keeps_load_dataset[OF P] keeps_load_operation[OF P] keeps_publications[OF P reg])
qed

lemma session_later_quarantined: "session_later env s t \<Longrightarrow> quarantined r s \<Longrightarrow> quarantined r t"
proof (induction rule: session_later.induct)
  case (later_act t act x u)
  then show ?case using keepsD[OF perform_keeps_quarantined] by blast
qed (auto simp: quarantined_def)

lemma quarantined_refuses:
  assumes "quarantined r u" "destination env DatasetKind r = Inr d"
  shows "(\<exists>e. fst (load_dataset env r u) = Inl e) \<and>
    (\<not> ca_closed u \<longrightarrow> load_dataset env r u = (Inl (HostX HF_RECORD_CORRUPT []), u))"
  using assms by (auto simp: quarantined_def load_dataset_def resolve_def require_open_def run_simps)

inductive spec_run :: "(action \<times> (exc + answer)) list \<Rightarrow> dataset_map \<Rightarrow> bool" where
  spec_start: "spec_run [] Map.empty"
| spec_act: "spec_run trace a \<Longrightarrow> dataset_spec a act x a' \<Longrightarrow> spec_run (trace @ [(act, x)]) a'"

inductive_cases dataset_spec_publishE: "dataset_spec a (PublishDataset p rec) x a'"

lemma spec_grows:
  assumes "dataset_spec a act x a'" "a' r = Some (rec, p)"
  shows "a r = Some (rec, p) \<or> act = PublishDataset p rec \<and> x = Inr (ReferenceAnswer r)"
  using assms by (cases rule: dataset_spec.cases) (auto split: if_splits)

text \<open>What is in the map was published.\<close>

lemma spec_run_published:
  "spec_run trace a \<Longrightarrow> a r = Some (rec, p) \<Longrightarrow> (PublishDataset p rec, Inr (ReferenceAnswer r)) \<in> set trace"
proof (induction arbitrary: r rec p rule: spec_run.induct)
  case (spec_act trace a act x a')
  from spec_grows[OF spec_act.hyps(2) spec_act.prems] spec_act.IH show ?case by auto
qed simp

lemma session_run_books:
  "session_run env trace s \<Longrightarrow> is_ok (cas_limits_check (ce_limits env)) \<Longrightarrow> books env s"
proof (induction rule: session_run.induct)
  case (run_start g m handle)
  then show ?case using limits_positive by (simp add: books_def new_session_def)
next
  case (run_act trace s act x t)
  then show ?case using keepsD[OF perform_keeps(1)] by blast
next
  case (run_other trace s g m)
  then show ?case by (simp add: books_def)
qed

text \<open>A loaded and a published dataset with one reference whose hashed bytes collide.\<close>

definition collision_in :: "(action \<times> (exc + answer)) list \<Rightarrow> bool" where
  "collision_in trace \<longleftrightarrow> (\<exists>r rec p d.
     (PublishDataset p rec, Inr (ReferenceAnswer r)) \<in> set trace \<and>
     (LoadDataset r, Inr (DatasetAnswer d)) \<in> set trace \<and> content_collision rec p d)"

lemma session_run_refines:
  assumes "session_run env trace s" "is_ok (cas_limits_check (ce_limits env))"
    "\<forall>act \<in> fst ` set trace. parses_back (ce_codec env) act"
  shows "(\<exists>a. spec_run trace a \<and> represents a s) \<or> collision_in trace"
  using assms
proof (induction rule: session_run.induct)
  case (run_start g m handle)
  have "represents Map.empty (new_session m g handle)" by (simp add: represents_def new_session_def)
  then show ?case using spec_start by blast
next
  case (run_act trace s act x t)
  have "(\<exists>a. spec_run trace a \<and> represents a s) \<or> collision_in trace" using run_act by simp
  then show ?case
  proof (elim disjE exE conjE)
    fix a assume a: "spec_run trace a" "represents a s"
    have "books env s" using session_run_books[OF run_act.hyps(1) run_act.prems(1)] .
    moreover have "parses_back (ce_codec env) act" using run_act.prems(2) by simp
    ultimately obtain a' where a': "represents a' t" "dataset_spec a act x a' \<or>
        (\<exists>r d rec p. act = LoadDataset r \<and> x = Inr (DatasetAnswer d) \<and> a r = Some (rec, p) \<and> content_collision rec p d)"
      using perform_refines[OF a(2) run_act.hyps(2)] by blast
    from a'(2) show ?thesis
    proof
      assume "dataset_spec a act x a'"
      then show ?thesis using a'(1) spec_act[OF a(1)] by blast
    next
      assume "\<exists>r d rec p. act = LoadDataset r \<and> x = Inr (DatasetAnswer d) \<and> a r = Some (rec, p) \<and> content_collision rec p d"
      then have "collision_in (trace @ [(act, x)])" using spec_run_published[OF a(1)] by (fastforce simp: collision_in_def)
      then show ?thesis ..
    qed
  next
    assume "collision_in trace"
    then have "collision_in (trace @ [(act, x)])" by (fastforce simp: collision_in_def)
    then show ?thesis ..
  qed
next
  case (run_other trace s g m)
  then show ?case by (auto simp: represents_def)
qed

section \<open>A session on a small machine\<close>

definition demo_os :: os_env where
  "demo_os = \<lparr>ev_fault = (\<lambda>_. False), ev_short = (\<lambda>_. 0), ev_kept = (\<lambda>_ _. False), ev_seen = (\<lambda>_ _. True), ev_time = (\<lambda>_. 0),
     ev_umask_private = True, ev_home = [lit ''home'']\<rparr>"

definition demo_session_codec :: "pystr \<Rightarrow> codec" where
  "demo_session_codec h =
     \<lparr>co_float_repr = demo_float_repr, co_parse_float = demo_parse_float, co_parse_dataset = (\<lambda>_. Some (demo_dataset h)),
      co_parse_payload = (\<lambda>_. Some demo_payload), co_parse_operation = (\<lambda>_. None), co_parse_manifest = (\<lambda>_. None)\<rparr>"

definition demo_env :: "pystr \<Rightarrow> pystr \<Rightarrow> cas_env" where
  "demo_env h sid =
     \<lparr>ce_os = demo_os, ce_codec = demo_session_codec h,
      ce_limits = \<lparr>cl_record_bytes = int MAX_RECORD_BYTES, cl_dataset_payload_bytes = MAX_DATASET_PAYLOAD_BYTES,
        cl_operation_bundle_bytes = int MAX_OPERATION_BUNDLE_BYTES, cl_session_bytes = MAX_SESSION_BYTES\<rparr>,
      ce_session_id = sid, ce_cursor_key = replicate 32 0, ce_root = [lit ''s''], ce_token = nat_repr\<rparr>"

definition demo_dir :: inode where
  "demo_dir = \<lparr>i_content = Directory, i_owned = True, i_private = True, i_mtime = 0, i_number = 0\<rparr>"

definition demo_machine :: machine where
  "demo_machine = \<lparr>ma_files = [([], demo_dir), ([lit ''s''], demo_dir)], ma_calls = 0, ma_next = 1, ma_locks = []\<rparr>"

lemma demo_lookup: "lookup demo_machine = [[] \<mapsto> demo_dir, [lit ''s''] \<mapsto> demo_dir]"
  by (auto simp: lookup_def demo_machine_def fun_eq_iff)

lemma demo_env_facts:
  "reliable (ce_os (demo_env h sid))" "float_codec (co_float_repr (ce_codec (demo_env h sid))) (co_parse_float (ce_codec (demo_env h sid)))"
  "empty_root (demo_env h sid) demo_machine" "is_ok (cas_limits_check (ce_limits (demo_env h sid)))" "envs_ok (demo_env h)"
proof -
  show "reliable (ce_os (demo_env h sid))" by (simp add: demo_env_def demo_os_def reliable_def)
  show "float_codec (co_float_repr (ce_codec (demo_env h sid))) (co_parse_float (ce_codec (demo_env h sid)))"
    using demo_float_codec by (simp add: demo_env_def demo_session_codec_def)
  have "rooted (lookup demo_machine)" by (auto simp: rooted_def demo_lookup split: if_splits)
  moreover have "unlocked demo_machine" by (simp add: unlocked_def demo_machine_def)
  ultimately show "empty_root (demo_env h sid) demo_machine"
    by (simp add: empty_root_def demo_lookup demo_env_def demo_dir_def private_directory_def demo_os_def lit_def)
  show ok: "is_ok (cas_limits_check (ce_limits (demo_env h sid)))" for sid
    by (simp add: cas_limits_check_def demo_env_def MAX_RECORD_BYTES_def MAX_DATASET_PAYLOAD_BYTES_def MAX_OPERATION_BUNDLE_BYTES_def
        MAX_SESSION_BYTES_def)
  show "envs_ok (demo_env h)" using ok by (simp add: envs_ok_def demo_env_def)
qed

lemma demo_open: "\<exists>handle m. open_session (demo_env h sid) now demo_machine = (Inr handle, m) \<and>
    session_layout (lookup demo_machine) (lookup m) (session_directory (demo_env h sid))"
  by (rule open_session_reliable[OF demo_env_facts(1-3)])

lemma demo_publishable:
  assumes "payload_digest demo_payload = Inr h" "pattern_ok SHA256_PATTERN h"
  shows "\<exists>rb pb ref. publishable (demo_env h sid) demo_payload (demo_dataset h) rb pb ref \<and> length rb \<le> 100000 \<and> length pb \<le> 100000"
proof -
  let ?r = "demo_dataset h"
  note v = demo_dataset_valid[OF assms(2)] and a = demo_dataset_accepts[OF assms(1)]
  obtain d where ref: "dataset_record_reference ?r = Inr (lit ''dqds:v1:'' @ d)"
    using dataset_reference_binds[OF v v demo_payload_valid demo_payload_valid a a] by blast
  obtain rb where rb: "cas_json_bytes demo_float_repr (dataset_record_projection ?r) = Inr rb"
    using dataset_document.cas_document_total[OF demo_float_codec v] by blast
  obtain pb where pb: "cas_json_bytes demo_float_repr (payload_projection demo_payload) = Inr pb"
    using payload_document.cas_document_total[OF demo_float_codec demo_payload_valid] by blast
  have "length h = 64" using assms(2) by (simp add: sha256_ok_iff)
  then have "text_weight demo_float_repr 0 (dataset_record_projection ?r) \<le> 20000"
    by (simp add: dataset_record_projection_def demo_dataset_def jobj_def jstr_def lit_def dataset_provenance_projection_def
        record_column_projection_def dataset_semantics_projection_def runner_identity_dump_def present_def jopt_def int_repr_def
        nat_repr.simps)
  then have "length rb \<le> 100000" using cas_document_length[OF dataset_document.project_json[OF v] rb] by simp
  moreover have "text_weight demo_float_repr 0 (payload_projection demo_payload) \<le> 20000"
    by (simp add: payload_projection_def demo_payload_def jobj_def jstr_def lit_def payload_column_dump_def int_repr_def nat_repr.simps)
  then have "length pb \<le> 100000" using cas_document_length[OF payload_document.project_json[OF demo_payload_valid] pb] by simp
  ultimately have "publishable (demo_env h sid) demo_payload ?r rb pb (lit ''dqds:v1:'' @ d)"
    using v a ref rb pb demo_payload_valid demo_float_codec
    by (simp add: publishable_def faithful_def demo_env_def demo_session_codec_def MAX_RECORD_BYTES_def MAX_DATASET_PAYLOAD_BYTES_def)
  then show ?thesis using \<open>length rb \<le> 100000\<close> \<open>length pb \<le> 100000\<close> by blast
qed

text \<open>The session that was just opened takes the dataset.\<close>

lemma demo_session:
  "\<exists>h rb pb ref handle m d. publishable (demo_env h sid) demo_payload (demo_dataset h) rb pb ref \<and>
     int (length pb + length rb) \<le> cl_session_bytes (ce_limits (demo_env h sid)) \<and>
     open_session (demo_env h sid) 0 demo_machine = (Inr handle, m) \<and>
     rooted (lookup m) \<and> is_directory m (session_directory (demo_env h sid) @ [lit ''datasets'']) \<and>
     is_directory m (session_directory (demo_env h sid) @ [lit ''staging'']) \<and>
     lookup m (staging_path (demo_env h sid) (new_session m Map.empty handle)) = None \<and>
     destination (demo_env h sid) DatasetKind ref = Inr d \<and> lookup m d = None"
proof -
  obtain h where h: "payload_digest demo_payload = Inr h" "pattern_ok SHA256_PATTERN h" using demo_digest by blast
  let ?env = "demo_env h sid"
  obtain rb pb ref where p: "publishable ?env demo_payload (demo_dataset h) rb pb ref" "length rb \<le> 100000" "length pb \<le> 100000"
    using demo_publishable[OF h] by blast
  obtain handle m where m: "open_session ?env 0 demo_machine = (Inr handle, m)"
    "session_layout (lookup demo_machine) (lookup m) (session_directory ?env)" using demo_open by blast
  obtain digest where d: "destination ?env DatasetKind ref = Inr (session_directory ?env @ [lit ''datasets'', digest])"
    using destination_dataset p(1) unfolding publishable_def by blast
  have "rooted (lookup demo_machine)" "lookup demo_machine (butlast (session_directory ?env)) \<noteq> None"
    "lookup demo_machine (session_directory ?env) = None"
    using demo_env_facts(3)[of h sid, unfolded empty_root_def] by (auto simp: session_directory_def)
  moreover have "session_directory ?env \<noteq> []" by (simp add: session_directory_def)
  ultimately have "rooted (lookup m)" using layout_rooted[OF m(2)] rooted_nothing_beneath by blast
  moreover have "int (length pb + length rb) \<le> cl_session_bytes (ce_limits ?env)"
    using p(2,3) by (simp add: demo_env_def MAX_SESSION_BYTES_def)
  moreover have "lookup m (staging_path ?env (new_session m Map.empty handle)) = None"
    using layout_directories(2)[OF m(2), of "''staging''"] by (simp add: staging_path_def)
  moreover have "is_directory m (session_directory ?env @ [lit ''datasets''])" "is_directory m (session_directory ?env @ [lit ''staging''])"
    "lookup m (session_directory ?env @ [lit ''datasets'', digest]) = None"
    by (rule layout_directories[OF m(2)]; simp)+
  ultimately show ?thesis using p(1) m(1) d by blast
qed

lemma demo_published:
  "\<exists>h handle m ref t u. open_session (demo_env h sid) 0 demo_machine = (Inr handle, m) \<and>
     publish_dataset (demo_env h sid) demo_payload (demo_dataset h) (new_session m Map.empty handle) = (Inr ref, t) \<and>
     load_dataset (demo_env h sid) ref t = (Inr \<lparr>sd_reference = ref, sd_record = demo_dataset h, sd_payload = demo_payload\<rparr>, u)"
proof -
  obtain h rb pb ref handle m d where *: "publishable (demo_env h sid) demo_payload (demo_dataset h) rb pb ref"
    "int (length pb + length rb) \<le> cl_session_bytes (ce_limits (demo_env h sid))"
    "open_session (demo_env h sid) 0 demo_machine = (Inr handle, m)" "rooted (lookup m)"
    "is_directory m (session_directory (demo_env h sid) @ [lit ''datasets''])"
    "is_directory m (session_directory (demo_env h sid) @ [lit ''staging''])"
    "lookup m (staging_path (demo_env h sid) (new_session m Map.empty handle)) = None"
    "destination (demo_env h sid) DatasetKind ref = Inr d" "lookup m d = None"
    using demo_session by blast
  let ?s = "new_session m Map.empty handle"
  have s: "\<not> ca_closed ?s" "ref \<notin> ca_corrupt ?s" "int (ca_used ?s + (length pb + length rb)) \<le> cl_session_bytes (ce_limits (demo_env h sid))"
    "ca_machine ?s = m" using *(2) by (simp_all add: new_session_def)
  obtain t where t: "publish_dataset (demo_env h sid) demo_payload (demo_dataset h) ?s = (Inr ref, t)" "entry (lookup (ca_machine t)) d rb pb"
    "ca_references t = insert ref (ca_references ?s)" "ca_corrupt t = ca_corrupt ?s" "\<not> ca_closed t"
    using publish_reliable_dataset[OF *(1) demo_env_facts(1) s(1-3), unfolded s(4), OF *(4-9)] by blast
  have "ref \<notin> ca_corrupt t" "ref \<in> ca_references t" using t(3,4) s(2) by simp_all
  from published_loads[OF *(1) demo_env_facts(1) t(5) this *(8) t(2)] show ?thesis using *(3) t(1) by blast
qed

lemma missing_entry_fails:
  assumes "lookup (ca_machine s) d = None" "destination env DatasetKind r = Inr d"
  shows "\<exists>e t. load_dataset env r s = (Inl e, t)"
proof (cases "load_dataset env r s")
  case (Pair x t)
  have "load_dataset_directory env d r s \<noteq> (Inr y, u)" for y u
    using assms(1) unfolding load_dataset_directory_def
    by (auto simp: eff_simps on_os_def validate_owned_directory_def sf_value_error_def verify_private_directory_def guarded_def os_lstat_def
        os_call_def split: if_splits)
  moreover have "load_dataset_directory env d r s = (Inr y, t)" if "x = Inr y" for y
  proof -
    have "catchS (load_dataset_directory env d r) (\<lambda>e. case e of HostX _ _ \<Rightarrow> raiseS e
        | _ \<Rightarrow> bindS (quarantine env d r) (\<lambda>_. failS HF_RECORD_CORRUPT)) s = (Inr y, t)"
      using Pair that assms(2) by (auto simp: load_dataset_def bindS_Inr resolve_Inr)
    then show ?thesis unfolding catchS_Inr
    proof (elim disjE exE conjE)
      fix e u assume "(case e of HostX _ _ \<Rightarrow> raiseS e | _ \<Rightarrow> bindS (quarantine env d r) (\<lambda>_. failS HF_RECORD_CORRUPT)) u = (Inr y, t)"
      then show ?thesis by (cases e) (simp_all add: eff_simps)
    qed
  qed
  ultimately show ?thesis using Pair by (cases x) auto
qed

section \<open>Properties\<close>

text \<open>
  C2 (session_books). However sessions of one process open, act, fail, close and interleave, and whatever happens to
  their files, the books of each are in order: the bytes it accounts for stay within its quota, a closed session holds no
  reference, and the process-wide registry lists exactly the references the session holds.
\<close>

theorem session_books:
  assumes "reachable envs w" "envs_ok envs" "w_sessions w sid = Some s"
  shows "int (ca_used s) \<le> cl_session_bytes (ce_limits (envs sid)) \<and> (ca_closed s \<longrightarrow> ca_references s = {}) \<and>
    (\<forall>r. sid \<in> registered (w_registry w) r \<longleftrightarrow> r \<in> ca_references s)"
proof -
  have "books (envs sid) (view w s)" using reachable_inv[OF assms(1,2)] assms(3) by (simp add: world_inv_def)
  moreover have "ce_session_id (envs sid) = sid" using assms(2) by (simp add: envs_ok_def)
  ultimately show ?thesis by (simp add: books_def view_def)
qed

text \<open>A process that has opened two sessions.\<close>

lemma demo_world:
  assumes "open_session (demo_env h sid) 0 demo_machine = (Inr handle, m)"
  shows "reachable (demo_env h) (put_session \<lparr>w_machine = demo_machine, w_registry = Map.empty, w_sessions = Map.empty\<rparr> sid
    (new_session m Map.empty handle))"
  using reachable.step[OF reachable.start[of "demo_env h" demo_machine]
      world_step.opened[of "\<lparr>w_machine = demo_machine, w_registry = Map.empty, w_sessions = Map.empty\<rparr>" sid "demo_env h"]] assms
  by simp

theorem session_books_witness:
  "\<exists>w s. reachable (demo_env []) w \<and> w_sessions w (lit ''a'') = Some s \<and> \<not> ca_closed s \<and>
     (\<forall>r. lit ''a'' \<in> registered (w_registry w) r \<longleftrightarrow> r \<in> ca_references s)"
proof -
  obtain handle m where m: "open_session (demo_env [] (lit ''a'')) 0 demo_machine = (Inr handle, m)" using demo_open by blast
  let ?s = "new_session m Map.empty handle"
  let ?w = "put_session \<lparr>w_machine = demo_machine, w_registry = Map.empty, w_sessions = Map.empty\<rparr> (lit ''a'') ?s"
  have s: "w_sessions ?w (lit ''a'') = Some ?s" "\<not> ca_closed ?s" by (simp_all add: put_session_def new_session_def)
  show ?thesis
    using session_books[OF demo_world[OF m] demo_env_facts(5) s(1)] demo_world[OF m] s by (intro exI[of _ ?w] exI[of _ ?s] conjI) blast+
qed

text \<open>
  C28 (scope_isolation). An open session asked for a reference it does not hold answers with a host failure and nothing
  else happens: scope denied exactly when some other session of the process holds the reference, not found otherwise.
\<close>

theorem scope_isolation:
  assumes "reachable envs w" "envs_ok envs" "w_sessions w sid = Some s" "\<not> ca_closed s"
    "r \<notin> ca_references s" "r \<notin> ca_corrupt s" "destination (envs sid) k r = Inr d"
  shows "perform (envs sid) (case k of DatasetKind \<Rightarrow> LoadDataset r | OperationKind \<Rightarrow> LoadOperation r) (view w s) =
    (Inl (HostX (if \<exists>j t. j \<noteq> sid \<and> w_sessions w j = Some t \<and> r \<in> ca_references t
                 then HF_REFERENCE_SCOPE_DENIED else HF_REFERENCE_NOT_FOUND) []), view w s)"
proof -
  have inv: "world_inv envs w" using reachable_inv assms(1,2) by blast
  have "j \<in> registered (w_registry w) r \<longleftrightarrow> (\<exists>t. w_sessions w j = Some t \<and> r \<in> ca_references t)" for j
  proof (cases "w_sessions w j")
    case (Some t)
    then have "books (envs j) (view w t)" "ce_session_id (envs j) = j" using inv assms(2) by (auto simp: world_inv_def envs_ok_def)
    then show ?thesis using Some by (auto simp: books_def view_def)
  qed (use inv in \<open>simp add: world_inv_def\<close>)
  then have "known_outside sid r (w_registry w) \<longleftrightarrow> (\<exists>j t. j \<noteq> sid \<and> w_sessions w j = Some t \<and> r \<in> ca_references t)"
    by (auto simp: known_outside_def)
  moreover have "ce_session_id (envs sid) = sid" using assms(2) by (simp add: envs_ok_def)
  ultimately have "resolve (envs sid) k r (view w s) =
      (Inl (HostX (if \<exists>j t. j \<noteq> sid \<and> w_sessions w j = Some t \<and> r \<in> ca_references t
                 then HF_REFERENCE_SCOPE_DENIED else HF_REFERENCE_NOT_FOUND) []), view w s)"
    using assms(4-7) by (simp add: resolve_def require_open_def run_simps view_def)
  then show ?thesis by (cases k) (simp_all add: answering_def load_dataset_def load_operation_def bindS_def)
qed

theorem scope_isolation_witness:
  "\<exists>w s r. reachable (demo_env []) w \<and> w_sessions w (lit ''a'') = Some s \<and>
     perform (demo_env [] (lit ''a'')) (LoadDataset r) (view w s) = (Inl (HostX HF_REFERENCE_NOT_FOUND []), view w s)"
proof -
  obtain handle m where m: "open_session (demo_env [] (lit ''a'')) 0 demo_machine = (Inr handle, m)" using demo_open by blast
  obtain h rb pb r d where d: "publishable (demo_env h (lit ''a'')) demo_payload (demo_dataset h) rb pb r"
    "destination (demo_env h (lit ''a'')) DatasetKind r = Inr d" using demo_session by blast
  then have d: "destination (demo_env [] (lit ''a'')) DatasetKind r = Inr d"
    by (simp add: destination_def session_directory_def demo_env_def)
  let ?s = "new_session m Map.empty handle"
  let ?w = "put_session \<lparr>w_machine = demo_machine, w_registry = Map.empty, w_sessions = Map.empty\<rparr> (lit ''a'') ?s"
  have s: "w_sessions ?w (lit ''a'') = Some ?s" "\<not> ca_closed ?s" "r \<notin> ca_references ?s" "r \<notin> ca_corrupt ?s"
    by (simp_all add: put_session_def new_session_def)
  have "\<not> (\<exists>j t. j \<noteq> lit ''a'' \<and> w_sessions ?w j = Some t \<and> r \<in> ca_references t)" by (auto simp: put_session_def)
  then have "perform (demo_env [] (lit ''a'')) (LoadDataset r) (view ?w ?s) = (Inl (HostX HF_REFERENCE_NOT_FOUND []), view ?w ?s)"
    using scope_isolation[OF demo_world[OF m] demo_env_facts(5) s d] by simp
  then show ?thesis using demo_world[OF m] s(1) by blast
qed

text \<open>
  C4 (load_dataset_verified). Whatever is on the disk, a dataset that loads is registered with the session, has its
  reference recomputed from its record, satisfies every rule of its record and payload, and has the payload its record
  commits to; the session's books are as before.
\<close>

theorem load_dataset_verified:
  assumes "load_dataset env r s = (Inr d, t)"
  shows "\<not> ca_closed s \<and> r \<in> ca_references s \<and> r \<notin> ca_corrupt s \<and> sd_reference d = r \<and>
    dataset_record_valid (sd_record d) \<and> dataset_payload_valid (sd_payload d) \<and>
    dataset_record_reference (sd_record d) = Inr r \<and> validate_payload (sd_record d) (sd_payload d) = Inr (sd_record d) \<and>
    t\<lparr>ca_machine := ca_machine s\<rparr> = s"
  using assms
proof (cases rule: load_dataset_cases)
  case (loaded x)
  then show ?thesis by (simp add: verified_def same_books_def)
next
  case (unresolved e)
  then show ?thesis by simp
next
  case corrupt
  then show ?thesis by simp
qed

text \<open>
  C11 (publish_then_load). On a machine that does not fail, an open session with room publishes a valid dataset under the
  reference of its record, and loading that reference gives back the record and the payload.
\<close>

theorem publish_then_load:
  assumes "publishable env p r rb pb ref" "reliable (ce_os env)"
    "\<not> ca_closed s" "ref \<notin> ca_corrupt s" "int (ca_used s + (length pb + length rb)) \<le> cl_session_bytes (ce_limits env)"
    "rooted (lookup (ca_machine s))" "is_directory (ca_machine s) (session_directory env @ [lit ''datasets''])"
    "is_directory (ca_machine s) (session_directory env @ [lit ''staging''])" "lookup (ca_machine s) (staging_path env s) = None"
    "destination env DatasetKind ref = Inr d" "lookup (ca_machine s) d = None"
  shows "\<exists>t u. publish_dataset env p r s = (Inr ref, t) \<and> ca_references t = insert ref (ca_references s) \<and>
    load_dataset env ref t = (Inr \<lparr>sd_reference = ref, sd_record = r, sd_payload = p\<rparr>, u)"
proof -
  obtain t where t: "publish_dataset env p r s = (Inr ref, t)" "entry (lookup (ca_machine t)) d rb pb"
    "ca_references t = insert ref (ca_references s)" "ca_corrupt t = ca_corrupt s" "\<not> ca_closed t"
    using publish_reliable_dataset[OF assms] by blast
  moreover have "ref \<notin> ca_corrupt t" "ref \<in> ca_references t" using t assms(4) by simp_all
  ultimately show ?thesis using published_loads[OF assms(1,2) t(5) _ _ assms(10) t(2)] by blast
qed

theorem publish_then_load_witness:
  "\<exists>h handle m ref t u. open_session (demo_env h (lit ''a'')) 0 demo_machine = (Inr handle, m) \<and>
     publish_dataset (demo_env h (lit ''a'')) demo_payload (demo_dataset h) (new_session m Map.empty handle) = (Inr ref, t) \<and>
     load_dataset (demo_env h (lit ''a'')) ref t = (Inr \<lparr>sd_reference = ref, sd_record = demo_dataset h, sd_payload = demo_payload\<rparr>, u)"
proof -
  obtain h rb pb ref handle m d where *: "publishable (demo_env h (lit ''a'')) demo_payload (demo_dataset h) rb pb ref"
    "int (length pb + length rb) \<le> cl_session_bytes (ce_limits (demo_env h (lit ''a'')))"
    "open_session (demo_env h (lit ''a'')) 0 demo_machine = (Inr handle, m)" "rooted (lookup m)"
    "is_directory m (session_directory (demo_env h (lit ''a'')) @ [lit ''datasets''])"
    "is_directory m (session_directory (demo_env h (lit ''a'')) @ [lit ''staging''])"
    "lookup m (staging_path (demo_env h (lit ''a'')) (new_session m Map.empty handle)) = None"
    "destination (demo_env h (lit ''a'')) DatasetKind ref = Inr d" "lookup m d = None"
    using demo_session by blast
  let ?s = "new_session m Map.empty handle"
  have s: "\<not> ca_closed ?s" "ref \<notin> ca_corrupt ?s"
    "int (ca_used ?s + (length pb + length rb)) \<le> cl_session_bytes (ce_limits (demo_env h (lit ''a'')))"
    "ca_machine ?s = m" using *(2) by (simp_all add: new_session_def)
  show ?thesis
    using publish_then_load[OF *(1) demo_env_facts(1) s(1-3), unfolded s(4), OF *(4-9)] *(3) by blast
qed

theorem load_dataset_verified_witness:
  "\<exists>h ref d s t. load_dataset (demo_env h (lit ''a'')) ref s = (Inr d, t) \<and> dataset_record_reference (sd_record d) = Inr ref \<and>
     sd_payload d = demo_payload"
proof -
  obtain h handle m ref t u where *: "load_dataset (demo_env h (lit ''a'')) ref t =
      (Inr \<lparr>sd_reference = ref, sd_record = demo_dataset h, sd_payload = demo_payload\<rparr>, u)"
    using demo_published by blast
  then show ?thesis using load_dataset_verified[OF *] by fastforce
qed

text \<open>
  C29 (load_failure_quarantines). When a reference the open session holds does not load, for whatever reason, the answer
  is that the record is corrupt and the reference is marked. From then on it never loads again: after any sequence of loads,
  publications (of the same dataset included) and closing, whatever they answer, whatever becomes of the files and whatever the
  other sessions do, a load of it fails, as corrupt for as long as the session is open.
\<close>

theorem load_failure_quarantines:
  assumes "load_dataset env r s = (Inl e, t)" "\<not> ca_closed s" "r \<in> ca_references s" "destination env DatasetKind r = Inr d"
    and "session_later env t u"
  shows "e = HostX HF_RECORD_CORRUPT [] \<and> r \<in> ca_corrupt t \<and> r \<in> ca_references t \<and>
    (\<exists>e'. fst (load_dataset env r u) = Inl e') \<and>
    (\<not> ca_closed u \<longrightarrow> load_dataset env r u = (Inl (HostX HF_RECORD_CORRUPT []), u))"
proof -
  have "e = HostX HF_RECORD_CORRUPT [] \<and> r \<in> ca_corrupt t" using assms(1)
  proof (cases rule: load_dataset_cases)
    case (unresolved e')
    then show ?thesis using assms by (auto simp: resolve_def require_open_def run_simps split: if_splits)
  next
    case (loaded x)
    then show ?thesis by simp
  next
    case corrupt
    then show ?thesis by simp
  qed
  moreover have t: "\<not> ca_closed t \<and> r \<in> ca_references t"
    using keepsD[OF keeps_load_dataset _ assms(1), of "\<lambda>s. \<not> ca_closed s \<and> r \<in> ca_references s"] assms(2,3)
    by (simp add: markable_def off_disk_def)
  moreover have "quarantined r u" using session_later_quarantined[OF assms(5)] calculation by (simp add: quarantined_def)
  ultimately show ?thesis using quarantined_refuses[OF _ assms(4)] t by blast
qed

theorem load_failure_quarantines_witness:
  "\<exists>h ref s t u handle. load_dataset (demo_env h (lit ''a'')) ref s = (Inl (HostX HF_RECORD_CORRUPT []), t) \<and> ref \<in> ca_corrupt t \<and>
     perform (demo_env h (lit ''a'')) (PublishDataset demo_payload (demo_dataset h)) t = (handle, u) \<and>
     (\<exists>e'. fst (load_dataset (demo_env h (lit ''a'')) ref u) = Inl e')"
proof -
  obtain h handle m ref t u where *: "load_dataset (demo_env h (lit ''a'')) ref t =
      (Inr \<lparr>sd_reference = ref, sd_record = demo_dataset h, sd_payload = demo_payload\<rparr>, u)"
    using demo_published by blast
  obtain d where r: "resolve (demo_env h (lit ''a'')) DatasetKind ref t = (Inr d, t)"
    using * by (auto simp: load_dataset_def bindS_Inr resolve_Inr)
  let ?s = "t\<lparr>ca_machine := demo_machine\<rparr>"
  have s: "\<not> ca_closed ?s" "ref \<in> ca_references ?s" "destination (demo_env h (lit ''a'')) DatasetKind ref = Inr d"
    using r by (auto simp: resolve_Inr)
  have "lookup demo_machine d = None"
    using s(3) by (auto simp: destination_def bindE_Inr_iff session_directory_def demo_env_def demo_lookup)
  then obtain e u' where e: "load_dataset (demo_env h (lit ''a'')) ref ?s = (Inl e, u')"
    using missing_entry_fails[of ?s d "demo_env h (lit ''a'')" ref] s(3) by auto
  obtain x v where p: "perform (demo_env h (lit ''a'')) (PublishDataset demo_payload (demo_dataset h)) u' = (x, v)"
    by (cases "perform (demo_env h (lit ''a'')) (PublishDataset demo_payload (demo_dataset h)) u'")
  show ?thesis using load_failure_quarantines[OF e s later_act[OF later_refl p]] e p by blast
qed

text \<open>
  C1 (store_refines_map). The trace of a session, with arbitrary interference between its calls, is a trace of the
  specification: a map from references to datasets in which publishing adds, nothing is ever replaced, loading answers
  with the published entry, closing empties the map, and every call may refuse. The exception is a trace that exhibits a
  collision of SHA-256.
\<close>

theorem store_refines_map:
  assumes "session_run env trace s" "is_ok (cas_limits_check (ce_limits env))"
    "\<forall>act \<in> fst ` set trace. parses_back (ce_codec env) act"
  shows "(\<exists>a. spec_run trace a \<and> represents a s) \<or> collision_in trace"
  using session_run_refines[OF assms] .

theorem store_refines_map_witness:
  "\<exists>h handle m ref t u. publish_dataset (demo_env h (lit ''a'')) demo_payload (demo_dataset h) (new_session m Map.empty handle) = (Inr ref, t) \<and>
     (let trace = [(PublishDataset demo_payload (demo_dataset h), Inr (ReferenceAnswer ref)),
        (LoadDataset ref, Inr (DatasetAnswer \<lparr>sd_reference = ref, sd_record = demo_dataset h, sd_payload = demo_payload\<rparr>))] in
      (\<exists>a. spec_run trace a \<and> represents a u) \<or> collision_in trace)"
proof -
  obtain h handle m ref t u where
    *: "publish_dataset (demo_env h (lit ''a'')) demo_payload (demo_dataset h) (new_session m Map.empty handle) = (Inr ref, t)"
      "load_dataset (demo_env h (lit ''a'')) ref t = (Inr \<lparr>sd_reference = ref, sd_record = demo_dataset h, sd_payload = demo_payload\<rparr>, u)"
    using demo_published by blast
  let ?env = "demo_env h (lit ''a'')"
  let ?p = "(PublishDataset demo_payload (demo_dataset h), Inr (ReferenceAnswer ref) :: exc + answer)"
  let ?l = "(LoadDataset ref, Inr (DatasetAnswer \<lparr>sd_reference = ref, sd_record = demo_dataset h, sd_payload = demo_payload\<rparr>) :: exc + answer)"
  have "session_run ?env [] (new_session m Map.empty handle)" by (rule run_start) (simp add: registered_def)
  then have "session_run ?env ([] @ [?p]) t" by (rule run_act) (simp add: answering_iff *(1))
  then have run: "session_run ?env (([] @ [?p]) @ [?l]) u" by (rule run_act) (simp add: answering_iff *(2))
  have "\<forall>act \<in> fst ` set (([] @ [?p]) @ [?l]). parses_back (ce_codec ?env) act"
    by (simp add: parses_back_def demo_env_def demo_session_codec_def)
  from store_refines_map[OF run demo_env_facts(4) this] show ?thesis using *(1)
    by (intro exI[of _ h] exI[of _ handle] exI[of _ m] exI[of _ ref] exI[of _ t] exI[of _ u]) (simp add: Let_def)
qed

end
