(* ===== verification/Cursors.thy ===== *)
theory Cursors
  imports Session_Properties
begin

text \<open>
  The page cursors of \<^verbatim>\<open>shared/session_cas.py\<close>: URL-safe Base64 and HMAC-SHA-256 as the standard library computes them, the
  token with its payload and tag, and the three operations of the store. A cursor that was issued is accepted for its
  record, view and selector, and for nothing else.
\<close>

section \<open>URL-safe Base64\<close>

definition b64_char :: "nat \<Rightarrow> nat" where
  "b64_char n =
     (if n < 26 then 65 + n else if n < 52 then 71 + n else if n < 62 then n - 4 else if n = 62 then 45 else 95)"

definition b64_value :: "nat \<Rightarrow> nat option" where
  "b64_value c =
     (if 65 \<le> c \<and> c \<le> 90 then Some (c - 65) else if 97 \<le> c \<and> c \<le> 122 then Some (c - 71)
      else if 48 \<le> c \<and> c \<le> 57 then Some (c + 4) else if c = 45 then Some 62 else if c = 95 then Some 63 else None)"

text \<open>\<^verbatim>\<open>base64.urlsafe_b64encode\<close>, with its padding.\<close>

fun urlsafe_b64encode :: "bytes \<Rightarrow> pystr" where
  "urlsafe_b64encode [] = []"
| "urlsafe_b64encode [a] =
     (let n = unat a * 16 in [b64_char (n div 64), b64_char (n mod 64), 61, 61])"
| "urlsafe_b64encode [a, b] =
     (let n = (unat a * 256 + unat b) * 4 in
      [b64_char (n div 4096), b64_char (n div 64 mod 64), b64_char (n mod 64), 61])"
| "urlsafe_b64encode (a # b # c # bs) =
     (let n = unat a * 65536 + unat b * 256 + unat c in
      b64_char (n div 262144) # b64_char (n div 4096 mod 64) # b64_char (n div 64 mod 64) # b64_char (n mod 64) #
      urlsafe_b64encode bs)"

text \<open>\<^verbatim>\<open>rstrip(b"=")\<close>.\<close>

definition strip_padding :: "pystr \<Rightarrow> pystr" where
  "strip_padding t = rev (dropWhile (\<lambda>c. c = 61) (rev t))"

text \<open>
  \<^verbatim>\<open>base64.b64decode(t, altchars=b"-_", validate=True)\<close> on text without the plus sign and the slash, which the shape of a
  cursor excludes. Left-over bits of the last group are dropped.
\<close>

fun b64decode :: "pystr \<Rightarrow> bytes option" where
  "b64decode [] = Some []"
| "b64decode (w # x # y # z # rest) =
     (case (b64_value w, b64_value x) of
        (Some i, Some j) \<Rightarrow>
          if z = 61 then
            (if rest \<noteq> [] then None
             else if y = 61 then Some [byte_of ((i * 64 + j) div 16)]
             else case b64_value y of
                    None \<Rightarrow> None
                  | Some k \<Rightarrow> (let n = (i * 4096 + j * 64 + k) div 4 in Some [byte_of (n div 256), byte_of (n mod 256)]))
          else (case (b64_value y, b64_value z, b64decode rest) of
                  (Some k, Some l, Some bs) \<Rightarrow>
                    (let n = i * 262144 + j * 4096 + k * 64 + l in
                     Some (byte_of (n div 65536) # byte_of (n div 256 mod 256) # byte_of (n mod 256) # bs))
                | _ \<Rightarrow> None)
      | _ \<Rightarrow> None)"
| "b64decode _ = None"

lemma b64_value_char [simp]: "n < 64 \<Longrightarrow> b64_value (b64_char n) = Some n"
  by (auto simp: b64_value_def b64_char_def)

lemma b64_char_shape: "b64_char n \<noteq> 61"
  by (auto simp: b64_char_def)

lemma b64_bytes:
  fixes a b c :: nat
  assumes "a < 256" "b < 256" "c < 256"
  shows "(a * 65536 + b * 256 + c) div 65536 = a" "(a * 65536 + b * 256 + c) div 256 mod 256 = b"
    "(a * 65536 + b * 256 + c) mod 256 = c"
proof -
  have eq: "a * 65536 + b * 256 + c = c + 256 * (b + 256 * a)" by simp
  have "(c + 256 * (b + 256 * a)) mod 256 = c" using assms(3) by (simp only: mod_mult_self2) simp
  then show "(a * 65536 + b * 256 + c) mod 256 = c" unfolding eq .
  have "(c + 256 * (b + 256 * a)) div 256 = b + 256 * a" using assms(3) by (subst div_mult_self2) simp_all
  moreover have "(b + 256 * a) mod 256 = b" using assms(2) by simp
  ultimately show "(a * 65536 + b * 256 + c) div 256 mod 256 = b" unfolding eq by simp
  have "a * 65536 + b * 256 + c = (b * 256 + c) + 65536 * a" by simp
  moreover have "b * 256 + c < 65536" using assms by simp
  ultimately show "(a * 65536 + b * 256 + c) div 65536 = a" by simp
qed

lemma unat_byte_less: "unat (b :: byte) < 256"
  using unsigned_less[of b] by simp

lemma b64decode_encode: "b64decode (urlsafe_b64encode bs) = Some bs"
proof (induction bs rule: urlsafe_b64encode.induct)
  case 1
  show ?case by simp
next
  case (2 a)
  define n where "n = unat a * 16"
  have "n div 64 < 64" "n mod 64 < 64" "n div 16 = unat a" using unat_byte_less[of a] by (simp_all add: n_def)
  then show ?case unfolding urlsafe_b64encode.simps Let_def n_def[symmetric] by simp
next
  case (3 a b)
  define m where "m = unat a * 256 + unat b"
  define n where "n = m * 4"
  have b: "unat a < 256" "unat b < 256" using unat_byte_less by blast+
  then have m: "m div 256 = unat a" "m mod 256 = unat b" by (simp_all add: m_def)
  have "m < 65536" using b by (simp add: m_def)
  then have "n div 4096 < 64" "n div 4 = m" by (simp_all add: n_def)
  moreover have "n div 4096 * 4096 + n div 64 mod 64 * 64 + n mod 64 = n" by (rule div_recompose3)
  ultimately show ?case unfolding urlsafe_b64encode.simps Let_def m_def[symmetric] n_def[symmetric]
    using m by (simp add: Let_def b64_char_shape)
next
  case (4 a b c bs)
  define n where "n = unat a * 65536 + unat b * 256 + unat c"
  have b: "unat a < 256" "unat b < 256" "unat c < 256" using unat_byte_less by blast+
  note n = b64_bytes[OF b, folded n_def]
  have "n div 262144 < 64" using b by (simp add: n_def)
  moreover have "n div 262144 * 262144 + n div 4096 mod 64 * 4096 + n div 64 mod 64 * 64 + n mod 64 = n" by (rule div_recompose4)
  ultimately show ?case unfolding urlsafe_b64encode.simps Let_def n_def[symmetric]
    using 4 n by (simp add: Let_def b64_char_shape)
qed

lemma strip_padding_Cons: "x \<noteq> 61 \<Longrightarrow> strip_padding (x # xs) = x # strip_padding xs"
  by (simp add: strip_padding_def dropWhile_append3)

lemma strip_padding_only [simp]: "strip_padding [] = []" "strip_padding [61] = []" "strip_padding [61, 61] = []"
  by (simp_all add: strip_padding_def)

lemmas strip_step = strip_padding_Cons[OF b64_char_shape]

text \<open>The padding can be put back.\<close>

definition padding :: "pystr \<Rightarrow> pystr" where
  "padding t = replicate ((4 - length t mod 4) mod 4) 61"

lemma padding_back: "strip_padding (urlsafe_b64encode bs) @ padding (strip_padding (urlsafe_b64encode bs)) = urlsafe_b64encode bs"
proof (induction bs rule: urlsafe_b64encode.induct)
  case (4 a b c bs)
  have "padding (w # x # y # z # t) = padding t" for w x y z t by (simp add: padding_def)
  then show ?case using 4 by (simp add: Let_def strip_step)
qed (simp_all add: Let_def strip_step padding_def numeral_2_eq_2)

definition cursor_char :: "nat \<Rightarrow> bool" where
  "cursor_char c \<longleftrightarrow> 65 \<le> c \<and> c \<le> 90 \<or> 97 \<le> c \<and> c \<le> 122 \<or> 48 \<le> c \<and> c \<le> 57 \<or> c = 95 \<or> c = 45"

text \<open>\<^verbatim>\<open>_CURSOR_PATTERN\<close>.\<close>

definition cursor_pattern :: "pystr \<Rightarrow> bool" where
  "cursor_pattern t \<longleftrightarrow> 1 \<le> length t \<and> length t \<le> 512 \<and> list_all cursor_char t"

lemma cursor_char_b64: "cursor_char (b64_char n)"
  by (auto simp: cursor_char_def b64_char_def)

lemma stripped_chars: "list_all cursor_char (strip_padding (urlsafe_b64encode bs))"
  by (induction bs rule: urlsafe_b64encode.induct) (simp_all add: Let_def strip_step cursor_char_b64)

lemma length_stripped: "length (strip_padding (urlsafe_b64encode bs)) = (4 * length bs + 2) div 3"
  by (induction bs rule: urlsafe_b64encode.induct) (simp_all add: Let_def strip_step)

section \<open>HMAC-SHA-256\<close>

definition be32_bytes :: "32 word \<Rightarrow> bytes" where
  "be32_bytes w = map (\<lambda>i. byte_of (unat w div 256 ^ i mod 256)) [3, 2, 1, 0]"

definition sha256_digest :: "bytes \<Rightarrow> bytes" where
  "sha256_digest m = concat (map be32_bytes (foldl sha256_block sha256_h0 (chunks 64 (sha256_pad m))))"

lemma length_sha256_digest [simp]: "length (sha256_digest m) = 32"
proof -
  have "length (foldl sha256_block sha256_h0 xs) = 8" for xs
    by (simp add: length_foldl_keep length_sha256_block sha256_h0_def)
  then have "sum_list (map (length \<circ> be32_bytes) (foldl sha256_block sha256_h0 xs)) = 32" for xs
    by (simp add: comp_def sum_list_triv be32_bytes_def)
  then show ?thesis by (simp add: sha256_digest_def length_concat)
qed

text \<open>\<^verbatim>\<open>hmac.digest(key, message, "sha256")\<close>.\<close>

definition hmac_sha256 :: "bytes \<Rightarrow> bytes \<Rightarrow> bytes" where
  "hmac_sha256 key message =
     (let k = if length key > 64 then sha256_digest key else key;
          block = k @ replicate (64 - length k) 0 in
      sha256_digest (map (\<lambda>b. b XOR 0x5C) block @ sha256_digest (map (\<lambda>b. b XOR 0x36) block @ message)))"

lemma length_hmac [simp]: "length (hmac_sha256 key m) = 32"
  by (simp add: hmac_sha256_def Let_def)

section \<open>Tokens\<close>

definition MAX_CURSOR_BYTES :: nat where
  "MAX_CURSOR_BYTES = 512"

definition CURSOR_SELECTOR_DOMAIN :: bytes where
  "CURSOR_SELECTOR_DOMAIN = ascii_bytes (lit ''defined-quant-cursor-selector-v1'') @ [0]"

definition cursor_selector_binding :: "pystr option \<Rightarrow> py_exc + pystr option" where
  "cursor_selector_binding selector =
     (case selector of
        None \<Rightarrow> Inr None
      | Some s \<Rightarrow>
          if s = [] then value_error ''invalid cursor selector''
          else bindE (valid_utf8 s) (\<lambda>encoded.
               if length encoded > 240 then value_error ''invalid cursor selector''
               else Inr (Some (sha256_hexdigest (CURSOR_SELECTOR_DOMAIN @ encoded)))))"

definition cursor_value :: "int \<Rightarrow> pystr \<Rightarrow> pystr option \<Rightarrow> pystr \<Rightarrow> pyval" where
  "cursor_value i r s v =
     jobj [(''i'', PInt i), (''r'', PStr r), (''s'', jopt PStr s), (''v'', PStr v), (''z'', PInt 1)]"

definition signed_token :: "bytes \<Rightarrow> bytes \<Rightarrow> pystr" where
  "signed_token key payload = strip_padding (urlsafe_b64encode (payload @ hmac_sha256 key payload))"

definition valid_view :: "pystr \<Rightarrow> bool" where
  "valid_view page_view = (case valid_utf8 page_view of Inl _ \<Rightarrow> False | Inr b \<Rightarrow> page_view \<noteq> [] \<and> length b \<le> 64)"

definition encode_cursor_token :: "cas_env \<Rightarrow> pystr \<Rightarrow> pystr \<Rightarrow> pystr option \<Rightarrow> int \<Rightarrow> exc + pystr" where
  "encode_cursor_token env reference page_view selector next_index =
     (case cursor_selector_binding selector of
        Inl _ \<Rightarrow> Inl invalid_request
      | Inr selector_binding \<Rightarrow>
          if \<not> valid_view page_view \<or> \<not> (0 \<le> next_index \<and> next_index \<le> MAX_SAFE_INTEGER) then Inl invalid_request
          else (case valid_utf8 (json_dumps (co_float_repr (ce_codec env)) (cursor_value next_index reference selector_binding page_view)) of
                  Inl e \<Rightarrow> Inl (PyX e)
                | Inr payload \<Rightarrow>
                    let token = signed_token (ce_cursor_key env) payload in
                    if length token > MAX_CURSOR_BYTES then Inl invalid_request else Inr token))"

definition encode_cursor :: "cas_env \<Rightarrow> pystr \<Rightarrow> pystr \<Rightarrow> pystr option \<Rightarrow> int \<Rightarrow> pystr cas_op" where
  "encode_cursor env reference page_view selector next_index =
     bindS require_open (\<lambda>_.
     bindS (liftS (reference_parts reference None)) (\<lambda>_.
     bindS (getsS id) (\<lambda>s.
     if reference \<in> ca_corrupt s then failS HF_RECORD_CORRUPT
     else if reference \<notin> ca_references s
     then (if known_outside (ce_session_id env) reference (ca_registry s) then failS HF_REFERENCE_SCOPE_DENIED
           else failS HF_REFERENCE_NOT_FOUND)
     else liftS (encode_cursor_token env reference page_view selector next_index))))"

definition encode_pending_cursor :: "cas_env \<Rightarrow> pystr \<Rightarrow> pystr \<Rightarrow> pystr option \<Rightarrow> int \<Rightarrow> pystr cas_op" where
  "encode_pending_cursor env reference page_view selector next_index =
     bindS require_open (\<lambda>_.
     bindS (liftS (reference_parts reference None)) (\<lambda>_.
     bindS (getsS (\<lambda>s. reference \<in> ca_corrupt s)) (\<lambda>corrupt.
     if corrupt then failS HF_RECORD_CORRUPT
     else liftS (encode_cursor_token env reference page_view selector next_index))))"

text \<open>The payload of a token whose shape, encoding and tag are right.\<close>

definition authentic_payload :: "bytes \<Rightarrow> pystr \<Rightarrow> py_exc + bytes" where
  "authentic_payload key token =
     (if \<not> cursor_pattern token then value_error ''invalid cursor shape''
      else case b64decode (token @ padding token) of
        None \<Rightarrow> value_error ''Incorrect padding''
      | Some decoded \<Rightarrow>
          if strip_padding (urlsafe_b64encode decoded) \<noteq> token then value_error ''non-canonical cursor encoding''
          else if length decoded \<le> 32 then value_error ''invalid cursor length''
          else let payload = take (length decoded - 32) decoded; signature = drop (length decoded - 32) decoded in
               if signature \<noteq> hmac_sha256 key payload then value_error ''invalid cursor authentication'' else Inr payload)"

definition CURSOR_FIELDS :: "pykey set" where
  "CURSOR_FIELDS = {KStr (lit ''i''), KStr (lit ''r''), KStr (lit ''s''), KStr (lit ''v''), KStr (lit ''z'')}"

text \<open>What the payload is bound to; \<^verbatim>\<open>==\<close> is Python equality, \<^verbatim>\<open>type(i) is int\<close> is exact.\<close>

definition cursor_index :: "pyval \<Rightarrow> pystr \<Rightarrow> pystr \<Rightarrow> pystr option \<Rightarrow> py_exc + int" where
  "cursor_index value reference page_view selector =
     (case value of
        PDict kvs \<Rightarrow>
          if set (map fst kvs) \<noteq> CURSOR_FIELDS then value_error ''invalid cursor payload''
          else bindE (cursor_selector_binding selector) (\<lambda>binding.
               let field = (\<lambda>k. the (map_of kvs (KStr (lit k)))) in
               if \<not> py_eq (field ''z'') (PInt 1) \<or> \<not> py_eq (field ''r'') (PStr reference) \<or> \<not> py_eq (field ''v'') (PStr page_view) \<or>
                  \<not> py_eq (field ''s'') (jopt PStr binding)
               then value_error ''cursor binding mismatch''
               else (case field ''i'' of
                       PInt i \<Rightarrow> if i < 0 then value_error ''cursor binding mismatch'' else Inr i
                     | _ \<Rightarrow> value_error ''cursor binding mismatch''))
      | _ \<Rightarrow> value_error ''invalid cursor payload'')"

definition decode_cursor :: "cas_env \<Rightarrow> pystr \<Rightarrow> pystr \<Rightarrow> pystr \<Rightarrow> pystr option \<Rightarrow> int cas_op" where
  "decode_cursor env token reference page_view selector =
     bindS require_open (\<lambda>_.
     case bindE (authentic_payload (ce_cursor_key env) token) (\<lambda>payload.
          bindE (strict_json_loads (co_parse_float (ce_codec env)) None payload) (\<lambda>value.
          cursor_index value reference page_view selector)) of
       Inl _ \<Rightarrow> raiseS invalid_request
     | Inr i \<Rightarrow>
         bindS (liftS (reference_parts reference None)) (\<lambda>_.
         bindS (getsS id) (\<lambda>s.
         if reference \<notin> ca_references s \<or> reference \<in> ca_corrupt s then raiseS invalid_request else retS i)))"

section \<open>Tokens and their payloads\<close>

lemma signed_token_authentic:
  assumes "payload \<noteq> []" "length (signed_token key payload) \<le> MAX_CURSOR_BYTES"
  shows "authentic_payload key (signed_token key payload) = Inr payload"
proof -
  let ?data = "payload @ hmac_sha256 key payload"
  have "1 \<le> length (signed_token key payload)" by (simp add: signed_token_def length_stripped)
  then have "cursor_pattern (signed_token key payload)"
    using assms(2) stripped_chars by (simp add: cursor_pattern_def MAX_CURSOR_BYTES_def signed_token_def)
  moreover have "b64decode (signed_token key payload @ padding (signed_token key payload)) = Some ?data"
    unfolding signed_token_def padding_back by (rule b64decode_encode)
  moreover have "strip_padding (urlsafe_b64encode ?data) = signed_token key payload" by (simp add: signed_token_def)
  ultimately show ?thesis using assms(1) unfolding authentic_payload_def by (simp add: Let_def)
qed

lemma authentic_token:
  assumes "authentic_payload key token = Inr payload"
  shows "token = signed_token key payload" "payload \<noteq> []"
proof -
  obtain decoded where d: "strip_padding (urlsafe_b64encode decoded) = token" "length decoded > 32"
    "payload = take (length decoded - 32) decoded" "drop (length decoded - 32) decoded = hmac_sha256 key payload"
    using assms by (auto simp: authentic_payload_def Let_def split: if_splits option.splits)
  have "decoded = payload @ hmac_sha256 key payload" using d(3,4) append_take_drop_id by metis
  then show "token = signed_token key payload" using d(1) by (simp add: signed_token_def)
  have "length payload = length decoded - 32" using d(3) by simp
  then show "payload \<noteq> []" using d(2) by (auto simp del: length_take)
qed

lemma compact_reads_back:
  assumes "float_codec fr pf" "json_value v" "canonical_ok v" "valid_utf8 (json_dumps fr v) = Inr b"
  shows "strict_json_loads pf None b = Inr (json_sorted v)" "b \<noteq> []"
proof -
  have sb: "scans_back fr pf v" using json_dumps_scans_back assms(1-3) canonical_readable by blast
  obtain c cs where c: "json_dumps fr v = c # cs" "c < 128" using sb by (auto simp: scans_back_def)
  have "scan_value pf (Suc (2 * length (json_dumps fr v))) (json_dumps fr v @ []) = Inr (json_sorted v, [])"
    using sb[unfolded scans_back_def, THEN conjunct1, rule_format, of "Suc (2 * length (json_dumps fr v))" "[]"] by simp
  then have "json_loads pf (json_dumps fr v) = Inr (json_sorted v)"
    using scans_back_skip[OF sb, of "[]"] by (simp add: json_loads_def)
  moreover have "is_ok (canonical_json_bytes (json_sorted v))"
    using canonical_sorted assms(2,3) is_ok_canonical_json_bytes by blast
  moreover have "\<not> starts_with [0xFEFF] (json_dumps fr v)" using c by (simp add: starts_with_def)
  moreover have u: "utf8_encode (json_dumps fr v) = Some b" using assms(4) by (simp add: valid_utf8_Inr_iff)
  ultimately show "strict_json_loads pf None b = Inr (json_sorted v)"
    using utf8_decode_encode[OF u] by (auto simp: strict_json_loads_def is_ok_iff)
  show "b \<noteq> []" using u c by (auto simp: utf8_char_def split: option.splits if_splits)
qed

lemma selector_binding_scalar: "cursor_selector_binding s = Inr (Some h) \<Longrightarrow> scalar_str h"
  using set_sha256_hexdigest is_hex_scalar
  by (auto simp: cursor_selector_binding_def bindE_Inr_iff scalar_str_def list_all_iff split: option.splits if_splits)

lemma hex_ascii: "is_hex c \<Longrightarrow> c < 128"
  by (auto simp: is_hex_def)

lemma reference_parts_scalar: "reference_parts r k = Inr p \<Longrightarrow> scalar_str r"
proof -
  assume "reference_parts r k = Inr p"
  then obtain k' q where "parse_reference k' r = Inr q" by (auto simp: reference_parts_def split: sum.splits option.splits)
  then have "\<forall>c \<in> set r. c < 128"
    by (cases k') (auto simp: parse_reference_Inr lit_def dest!: bspec digit_ascii hex_ascii)
  then show ?thesis by (fastforce simp: scalar_str_def list_all_iff is_scalar_def is_surrogate_def)
qed

lemma cursor_value_laws:
  assumes "scalar_str r" "scalar_str v" "0 \<le> i" "i \<le> MAX_SAFE_INTEGER" "case s of None \<Rightarrow> True | Some h \<Rightarrow> scalar_str h"
  shows "json_value (cursor_value i r s v)" "canonical_ok (cursor_value i r s v)" "json_sorted (cursor_value i r s v) = cursor_value i r s v"
proof -
  show "json_value (cursor_value i r s v)" using assms by (cases s) (simp_all add: cursor_value_def jobj_def jopt_def)
  show "canonical_ok (cursor_value i r s v)"
    using assms by (cases s) (simp_all add: cursor_value_def jobj_def jopt_def MAX_SAFE_INTEGER_def)
  show "json_sorted (cursor_value i r s v) = cursor_value i r s v"
    by (cases s) (simp_all add: cursor_value_def jobj_def jopt_def lit_def)
qed

lemma encode_token_Inr:
  "encode_cursor_token env r v sel i = Inr token \<longleftrightarrow>
     (\<exists>b payload. cursor_selector_binding sel = Inr b \<and> valid_view v \<and> 0 \<le> i \<and> i \<le> MAX_SAFE_INTEGER \<and>
        valid_utf8 (json_dumps (co_float_repr (ce_codec env)) (cursor_value i r b v)) = Inr payload \<and>
        token = signed_token (ce_cursor_key env) payload \<and> length token \<le> MAX_CURSOR_BYTES)"
  by (auto simp: encode_cursor_token_def Let_def split: sum.splits if_splits)

lemma cursor_index_value: "cursor_selector_binding sel = Inr b \<Longrightarrow> 0 \<le> i \<Longrightarrow> cursor_index (cursor_value i r b v) r v sel = Inr i"
  by (cases b) (auto simp: cursor_index_def cursor_value_def jobj_def jopt_def lit_def CURSOR_FIELDS_def num_eq_def)

lemma encode_cursor_Inr:
  assumes "encode_cursor env r v sel i s = (Inr token, t)"
  obtains p where "encode_cursor_token env r v sel i = Inr token" "reference_parts r None = Inr p" "t = s"
  using assms unfolding encode_cursor_def
  by (auto simp: eff_simps require_open_def liftS_def getsS_def split: sum.splits if_splits)

lemma issued_cursor_accepted:
  assumes "encode_cursor_token env r v sel i = Inr token" "reference_parts r None = Inr p"
    "float_codec (co_float_repr (ce_codec env)) (co_parse_float (ce_codec env))"
    "\<not> ca_closed s" "r \<in> ca_references s" "r \<notin> ca_corrupt s"
  shows "decode_cursor env token r v sel s = (Inr i, s)"
proof -
  obtain b payload where t: "cursor_selector_binding sel = Inr b" "valid_view v" "0 \<le> i" "i \<le> MAX_SAFE_INTEGER"
    "valid_utf8 (json_dumps (co_float_repr (ce_codec env)) (cursor_value i r b v)) = Inr payload"
    "token = signed_token (ce_cursor_key env) payload" "length token \<le> MAX_CURSOR_BYTES"
    using assms(1) unfolding encode_token_Inr by blast
  have "scalar_str v" using t(2) by (auto simp: valid_view_def valid_utf8_Inr_iff scalar_str_iff split: sum.splits)
  moreover have "case b of None \<Rightarrow> True | Some h \<Rightarrow> scalar_str h" using t(1) selector_binding_scalar by (auto split: option.splits)
  ultimately have laws: "json_value (cursor_value i r b v)" "canonical_ok (cursor_value i r b v)"
    "json_sorted (cursor_value i r b v) = cursor_value i r b v"
    using cursor_value_laws[OF reference_parts_scalar[OF assms(2)]] t(3,4) by blast+
  note reads = compact_reads_back[OF assms(3) laws(1,2) t(5)]
  have "authentic_payload (ce_cursor_key env) token = Inr payload"
    using signed_token_authentic[OF reads(2)] t(6,7) by simp
  then show ?thesis
    using reads(1) cursor_index_value[OF t(1,3)] laws(3) assms(2,4-6) by (simp add: decode_cursor_def require_open_def run_simps)
qed

section \<open>What a cursor is bound to\<close>

lemma py_eq_string: "py_eq x (PStr a) \<longleftrightarrow> x = PStr a" "py_eq x PNone \<longleftrightarrow> x = PNone"
  by (cases x; simp split: option.split)+

lemma py_eq_jopt: "py_eq x (jopt PStr b) \<longleftrightarrow> x = jopt PStr b"
  by (cases b) (simp_all add: jopt_def py_eq_string del: py_eq.simps)

lemma cursor_index_Inr:
  assumes "cursor_index x r v sel = Inr i"
  obtains kvs b where "x = PDict kvs" "cursor_selector_binding sel = Inr b" "the (map_of kvs (KStr (lit ''r''))) = PStr r"
    "the (map_of kvs (KStr (lit ''v''))) = PStr v" "the (map_of kvs (KStr (lit ''s''))) = jopt PStr b"
    "the (map_of kvs (KStr (lit ''i''))) = PInt i" "0 \<le> i"
  using assms unfolding cursor_index_def
  by (auto simp: bindE_Inr_iff Let_def py_eq_string py_eq_jopt simp del: py_eq.simps split: pyval.splits if_splits)

text \<open>The bytes whose digest binds a selector.\<close>

definition selector_bytes :: "pystr \<Rightarrow> bytes" where
  "selector_bytes selector = CURSOR_SELECTOR_DOMAIN @ the (utf8_encode selector)"

lemma selector_binding_inj:
  assumes "cursor_selector_binding s = Inr b" "cursor_selector_binding t = Inr b"
  shows "s = t \<or> (\<exists>a c. s = Some a \<and> t = Some c \<and> sha256_collision (selector_bytes a) (selector_bytes c))"
proof (cases b)
  case None
  then show ?thesis using assms by (auto simp: cursor_selector_binding_def bindE_Inr_iff split: option.splits if_splits)
next
  case (Some h)
  have "\<exists>a p. u = Some a \<and> utf8_encode a = Some p \<and> h = sha256_hexdigest (CURSOR_SELECTOR_DOMAIN @ p)"
    if "cursor_selector_binding u = Inr (Some h)" for u
    using that by (auto simp: cursor_selector_binding_def bindE_Inr_iff valid_utf8_Inr_iff split: option.splits if_splits)
  then obtain a p c q where "s = Some a" "utf8_encode a = Some p" "h = sha256_hexdigest (CURSOR_SELECTOR_DOMAIN @ p)"
    "t = Some c" "utf8_encode c = Some q" "h = sha256_hexdigest (CURSOR_SELECTOR_DOMAIN @ q)"
    using assms Some by metis
  then have eq: "sha256_hexdigest (CURSOR_SELECTOR_DOMAIN @ p) = sha256_hexdigest (CURSOR_SELECTOR_DOMAIN @ q)" "s = Some a"
    "utf8_encode a = Some p" "t = Some c" "utf8_encode c = Some q" by simp_all
  have "s = t" if "p = q" using that eq(2-5) utf8_encode_inj by blast
  moreover have "sha256_collision (selector_bytes a) (selector_bytes c)" if "p \<noteq> q"
    using that eq by (simp add: sha256_collision_def selector_bytes_def)
  ultimately show ?thesis using eq by blast
qed

lemma decode_cursor_Inr:
  assumes "decode_cursor env token r v sel s = (Inr i, t)"
  obtains payload x where "token = signed_token (ce_cursor_key env) payload"
    "authentic_payload (ce_cursor_key env) token = Inr payload"
    "strict_json_loads (co_parse_float (ce_codec env)) None payload = Inr x" "cursor_index x r v sel = Inr i"
    "t = s" "\<not> ca_closed s" "r \<in> ca_references s" "r \<notin> ca_corrupt s"
proof -
  obtain payload x where p: "authentic_payload (ce_cursor_key env) token = Inr payload"
    "strict_json_loads (co_parse_float (ce_codec env)) None payload = Inr x" "cursor_index x r v sel = Inr i"
    "t = s" "\<not> ca_closed s" "r \<in> ca_references s" "r \<notin> ca_corrupt s"
    using assms unfolding decode_cursor_def
    by (auto simp: eff_simps require_open_def bindE_Inr_iff liftS_def getsS_def split: sum.splits if_splits)
  then show ?thesis using that authentic_token(1)[OF p(1)] by blast
qed

text \<open>
  C30 (cursor_round_trip). A cursor the store issues for a record, a view and a selector is accepted for them as long as the
  session is open and holds the record uncorrupted, and gives back the page index.
\<close>

theorem cursor_round_trip:
  assumes "encode_cursor env r v sel i s = (Inr token, t)"
    "float_codec (co_float_repr (ce_codec env)) (co_parse_float (ce_codec env))"
    "\<not> ca_closed u" "r \<in> ca_references u" "r \<notin> ca_corrupt u"
  shows "t = s \<and> decode_cursor env token r v sel u = (Inr i, u)"
  using assms(1) by (rule encode_cursor_Inr) (use issued_cursor_accepted[OF _ _ assms(2-5)] in blast)

text \<open>
  C31 (cursor_binding). A cursor is accepted only in an open session that holds the record uncorrupted, carries the tag of the
  session's key over its payload, and is accepted for one record, one view, one page and one selector: two
  selectors it were accepted for are both given, and their bytes under the selector domain collide under SHA-256.
\<close>

theorem cursor_binding:
  assumes "decode_cursor env token r v sel s = (Inr i, t)" "decode_cursor env token r' v' sel' s' = (Inr j, t')"
  shows "\<not> ca_closed s \<and> r \<in> ca_references s \<and> r \<notin> ca_corrupt s \<and> t = s \<and> 0 \<le> i \<and>
    (\<exists>payload. token = signed_token (ce_cursor_key env) payload) \<and> r = r' \<and> v = v' \<and> i = j \<and>
    (sel = sel' \<or> (\<exists>a b. sel = Some a \<and> sel' = Some b \<and> sha256_collision (selector_bytes a) (selector_bytes b)))"
proof -
  from assms(1) obtain payload x where a: "token = signed_token (ce_cursor_key env) payload"
    "authentic_payload (ce_cursor_key env) token = Inr payload"
    "strict_json_loads (co_parse_float (ce_codec env)) None payload = Inr x" "cursor_index x r v sel = Inr i"
    "t = s" "\<not> ca_closed s" "r \<in> ca_references s" "r \<notin> ca_corrupt s" by (rule decode_cursor_Inr)
  from assms(2) have b: "cursor_index x r' v' sel' = Inr j" by (rule decode_cursor_Inr) (use a(2,3) in simp)
  from a(4) obtain kvs c where k: "x = PDict kvs" "cursor_selector_binding sel = Inr c" "the (map_of kvs (KStr (lit ''r''))) = PStr r"
    "the (map_of kvs (KStr (lit ''v''))) = PStr v" "the (map_of kvs (KStr (lit ''s''))) = jopt PStr c"
    "the (map_of kvs (KStr (lit ''i''))) = PInt i" "0 \<le> i" by (rule cursor_index_Inr)
  from b obtain d where m: "cursor_selector_binding sel' = Inr d" "PStr r = PStr r'" "PStr v = PStr v'" "jopt PStr c = jopt PStr d"
    "PInt i = PInt j" by (rule cursor_index_Inr) (use k in simp)
  have "c = d" using m(4) by (cases c; cases d) (simp_all add: jopt_def)
  then show ?thesis using a(1,5-8) k(2,7) m selector_binding_inj by auto
qed

section \<open>A cursor that is issued\<close>

lemma plain_quote: "\<forall>c \<in> set s. 35 \<le> c \<and> c \<noteq> 92 \<Longrightarrow> json_quote s = 34 # s @ [34]"
proof -
  assume "\<forall>c \<in> set s. 35 \<le> c \<and> c \<noteq> 92"
  then have "concat (map encode_char s) = s"
    by (induction s) (auto simp: encode_char_def short_escape_def SHORT_ESCAPES_def)
  then show ?thesis by (simp add: json_quote_def)
qed

lemma length_utf8_ascii: "\<forall>c \<in> set s. c < 128 \<Longrightarrow> utf8_encode s = Some b \<Longrightarrow> length b = length s"
  by (induction s arbitrary: b) (auto simp: utf8_char_def split: option.splits)

lemma demo_cursor_token:
  assumes "i \<in> {0, 1}" and "r = lit ''dqds:v1:'' @ d" "length d = 64" "\<forall>c \<in> set d. is_hex c"
  shows "\<exists>token. encode_cursor_token (demo_env h sid) r (lit ''rows'') None i = Inr token"
proof -
  let ?fr = "co_float_repr (ce_codec (demo_env h sid))" and ?x = "cursor_value i r None (lit ''rows'')"
  have hex: "35 \<le> c \<and> c \<noteq> 92 \<and> c < 128" if "c \<in> set d" for c using assms(4) that by (auto simp: is_hex_def)
  then have r: "\<forall>c \<in> set r. 35 \<le> c \<and> c \<noteq> 92 \<and> c < 128" using assms(2) by (auto simp: lit_def)
  have dumps: "json_dumps ?fr ?x = [123, 34, 105, 34, 58] @ int_repr i @ [44, 34, 114, 34, 58, 34] @ r @
      [34, 44, 34, 115, 34, 58, 110, 117, 108, 108, 44, 34, 118, 34, 58, 34, 114, 111, 119, 115, 34, 44, 34, 122, 34, 58] @ int_repr 1 @ [125]"
    using r by (simp add: cursor_value_def jobj_def jopt_def lit_def plain_quote)
  have one: "int_repr 0 = [48]" "int_repr 1 = [49]" by (simp_all add: int_repr_def nat_repr.simps)
  then have rep: "int_repr i = [48] \<or> int_repr i = [49]" using assms(1) by auto
  have ascii: "\<forall>c \<in> set (json_dumps ?fr ?x). c < 128"
    unfolding dumps one using r rep by auto
  then have "scalar_str (json_dumps ?fr ?x)" by (auto simp: scalar_str_def list_all_iff intro!: is_scalar_ascii)
  then obtain payload where p: "utf8_encode (json_dumps ?fr ?x) = Some payload" by (auto simp: scalar_str_iff)
  have "length payload = length (json_dumps ?fr ?x)" using length_utf8_ascii[OF ascii p] .
  also have "\<dots> \<le> 150"
    unfolding dumps one using rep assms(2,3) by (auto simp: lit_def)
  finally have "length (signed_token key payload) \<le> MAX_CURSOR_BYTES" for key
    by (simp add: signed_token_def length_stripped MAX_CURSOR_BYTES_def)
  moreover have "valid_view (lit ''rows'')" by (simp add: valid_view_def valid_utf8_def lit_def utf8_char_def)
  ultimately show ?thesis unfolding encode_token_Inr
    using p assms(1) by (intro exI conjI; (rule refl)?) (auto simp: cursor_selector_binding_def MAX_SAFE_INTEGER_def valid_utf8_Inr_iff)
qed

lemma demo_cursor:
  "\<exists>h r s. (\<forall>i \<in> {0, 1}. \<exists>token. encode_cursor (demo_env h sid) r (lit ''rows'') None i s = (Inr token, s)) \<and>
     \<not> ca_closed s \<and> r \<in> ca_references s \<and> r \<notin> ca_corrupt s"
proof -
  obtain h r s u where load: "load_dataset (demo_env h sid) r s =
      (Inr \<lparr>sd_reference = r, sd_record = demo_dataset h, sd_payload = demo_payload\<rparr>, u)"
    using demo_published by blast
  then have s: "\<not> ca_closed s" "r \<in> ca_references s" "r \<notin> ca_corrupt s" "dataset_record_reference (demo_dataset h) = Inr r"
    by (cases rule: load_dataset_cases; simp add: verified_def)+
  obtain d where p: "parse_reference DatasetKind r = Inr \<lparr>pr_kind = DatasetKind, pr_version_token = lit ''1'', pr_digest = d\<rparr>"
    using s(4) by (auto simp: dataset_record_reference_def bindE_Inr_iff reference_iff)
  then have r: "r = lit ''dqds:v1:'' @ d" "length d = 64" "\<forall>c \<in> set d. is_hex c"
    by (auto simp: parse_reference_Inr lit_def)
  have "reference_parts r None = Inr (DatasetKind, d)" using p by (simp add: reference_parts_def)
  then have "\<exists>token. encode_cursor (demo_env h sid) r (lit ''rows'') None i s = (Inr token, s)" if "i \<in> {0, 1}" for i
    using demo_cursor_token[OF that r, of h sid] s by (auto simp: encode_cursor_def require_open_def run_simps)
  then show ?thesis using s by blast
qed

theorem cursor_round_trip_witness:
  "\<exists>h r token s. encode_cursor (demo_env h (lit ''a'')) r (lit ''rows'') None 0 s = (Inr token, s) \<and>
     decode_cursor (demo_env h (lit ''a'')) token r (lit ''rows'') None s = (Inr 0, s)"
proof -
  obtain h r token s where *: "encode_cursor (demo_env h (lit ''a'')) r (lit ''rows'') None 0 s = (Inr token, s)"
    "\<not> ca_closed s" "r \<in> ca_references s" "r \<notin> ca_corrupt s" using demo_cursor by blast
  from cursor_round_trip[OF *(1) demo_env_facts(2) *(2-4)] *(1) show ?thesis by blast
qed

theorem cursor_binding_witness:
  "\<exists>h r token s payload. decode_cursor (demo_env h (lit ''a'')) token r (lit ''rows'') None s = (Inr 0, s) \<and>
     token = signed_token (ce_cursor_key (demo_env h (lit ''a''))) payload"
proof -
  obtain h r token s where *: "encode_cursor (demo_env h (lit ''a'')) r (lit ''rows'') None 0 s = (Inr token, s)"
    "\<not> ca_closed s" "r \<in> ca_references s" "r \<notin> ca_corrupt s" using demo_cursor by blast
  from *(1) have d: "decode_cursor (demo_env h (lit ''a'')) token r (lit ''rows'') None s = (Inr 0, s)"
    by (rule encode_cursor_Inr) (use issued_cursor_accepted[OF _ _ demo_env_facts(2) *(2-4)] in blast)
  from cursor_binding[OF d d] d show ?thesis by blast
qed

end
