(* ===== verification/Record_Views.thy ===== *)
theory Record_Views
  imports Cursors
begin

text \<open>
  \<^verbatim>\<open>shared/record_views.py\<close>: bounded projections and pages over the verified records of a session. A page is cut where the
  requested limit or the byte budget of a response ends it, and carries the cursor of the next one. Pages that are followed
  through their cursors give every item once and in order; every view fits the budget.
\<close>

section \<open>Sizes\<close>

definition MAX_STRUCTURED_RESPONSE_BYTES :: nat where "MAX_STRUCTURED_RESPONSE_BYTES = 256 * 1024"
definition DEFAULT_PREVIEW_LIMIT :: int where "DEFAULT_PREVIEW_LIMIT = 20"
definition MAX_PREVIEW_LIMIT :: int where "MAX_PREVIEW_LIMIT = 50"
definition DEFAULT_RESULT_LIMIT :: int where "DEFAULT_RESULT_LIMIT = 100"
definition MAX_RESULT_LIMIT :: int where "MAX_RESULT_LIMIT = 1000"
definition DEFAULT_MESSAGE_LIMIT :: int where "DEFAULT_MESSAGE_LIMIT = 20"
definition MAX_MESSAGE_LIMIT :: int where "MAX_MESSAGE_LIMIT = 100"

abbreviation named :: "(string \<times> pyval) list \<Rightarrow> details" where
  "named kvs \<equiv> map (\<lambda>(k, v). (KStr (lit k), v)) kvs"

definition bad_request :: "string list \<Rightarrow> exc" where
  "bad_request names = HostX HF_INVALID_TOOL_REQUEST (fields_detail (map lit names))"

definition digest :: "pyval \<Rightarrow> py_exc + pystr" where
  "digest v = bindE (canonical_json_bytes v) (\<lambda>b. Inr (sha256_hexdigest b))"

definition result_size :: "codec \<Rightarrow> details \<Rightarrow> trust_label \<Rightarrow> py_exc + nat" where
  "result_size c data trust =
     bindE (tool_success_result_projection data trust) (\<lambda>v.
     bindE (cas_json_bytes (co_float_repr c) v) (\<lambda>b. Inr (length b - 1)))"

definition over_limit :: "string \<Rightarrow> nat \<Rightarrow> exc" where
  "over_limit limit_name actual =
     HostX HF_RESULT_LIMIT_EXCEEDED (limit_detail limit_name MAX_STRUCTURED_RESPONSE_BYTES actual)"

definition bounded_result :: "cas_env \<Rightarrow> details \<Rightarrow> string \<Rightarrow> trust_label \<Rightarrow> details cas_op" where
  "bounded_result env data limit_name trust =
     bindS (pyS (result_size (ce_codec env) data trust)) (\<lambda>actual.
     if actual > MAX_STRUCTURED_RESPONSE_BYTES then raiseS (over_limit limit_name actual) else retS data)"

definition validate_limit :: "int \<Rightarrow> int \<Rightarrow> nat cas_op" where
  "validate_limit limit maximum =
     (if \<not> (1 \<le> limit \<and> limit \<le> maximum) then raiseS (bad_request [''limit'']) else retS (nat limit))"

section \<open>Pages\<close>

definition start_index :: "cas_env \<Rightarrow> pystr option \<Rightarrow> pystr \<Rightarrow> pystr \<Rightarrow> pystr option \<Rightarrow> nat cas_op" where
  "start_index env cursor reference page_view selector =
     (case cursor of
        None \<Rightarrow> retS 0
      | Some token \<Rightarrow> bindS (decode_cursor env token reference page_view selector) (\<lambda>i. retS (nat i)))"

definition page_fields :: "nat \<Rightarrow> nat \<Rightarrow> pystr option \<Rightarrow> bool \<Rightarrow> (string \<times> pyval) list" where
  "page_fields start returned next_cursor complete =
     [(''start'', PInt (int start)), (''returned'', PInt (int returned)), (''next_cursor'', jopt PStr next_cursor),
      (''complete'', PBool complete)]"

text \<open>The request a page answers.\<close>

record page_request =
  pq_reference :: pystr
  pq_view :: pystr
  pq_selector :: "pystr option"
  pq_limit_name :: string
  pq_trust :: trust_label

definition next_cursor :: "cas_env \<Rightarrow> page_request \<Rightarrow> bool \<Rightarrow> nat \<Rightarrow> pystr option cas_op" where
  "next_cursor env q complete end_index =
     (if complete then retS None
      else bindS (encode_cursor env (pq_reference q) (pq_view q) (pq_selector q) (int end_index)) (\<lambda>c. retS (Some c)))"

fun page_loop ::
  "cas_env \<Rightarrow> page_request \<Rightarrow> (pyval list \<Rightarrow> (string \<times> pyval) list \<Rightarrow> details) \<Rightarrow> nat \<Rightarrow> nat \<Rightarrow> pyval list \<Rightarrow> pyval list \<Rightarrow>
     pyval list cas_op" where
  "page_loop env q build whole start selected [] = retS selected"
| "page_loop env q build whole start selected (v # vs) =
     (let candidate = selected @ [v]; candidate_end = start + length candidate; complete = (candidate_end = whole) in
      bindS (next_cursor env q complete candidate_end) (\<lambda>c.
      bindS (pyS (result_size (ce_codec env) (build candidate (page_fields start (length candidate) c complete)) (pq_trust q))) (\<lambda>sz.
      if sz > MAX_STRUCTURED_RESPONSE_BYTES
      then if selected = [] then raiseS (over_limit (pq_limit_name q) sz) else retS selected
      else page_loop env q build whole start candidate vs)))"

definition page ::
  "cas_env \<Rightarrow> page_request \<Rightarrow> (pyval list \<Rightarrow> (string \<times> pyval) list \<Rightarrow> details) \<Rightarrow> pyval list \<Rightarrow> nat \<Rightarrow> nat \<Rightarrow> details cas_op" where
  "page env q build vals start limit =
     (if start > length vals then raiseS (bad_request [''cursor''])
      else bindS (page_loop env q build (length vals) start [] (take limit (drop start vals))) (\<lambda>selected.
           let end_index = start + length selected; complete = (end_index = length vals) in
           bindS (next_cursor env q complete end_index) (\<lambda>c.
           bounded_result env (build selected (page_fields start (length selected) c complete)) (pq_limit_name q) (pq_trust q))))"

section \<open>Datasets\<close>

definition dataset_metadata :: "stored_dataset \<Rightarrow> bool \<Rightarrow> (string \<times> pyval) list" where
  "dataset_metadata loaded compact =
     (let r = sd_record loaded in
      [(''compact'', PBool compact), (''dataset_ref'', PStr (sd_reference loaded)),
       (''normalized_payload_sha256'', PStr (dr_payload_sha256 r)), (''raw_source_sha256'', PStr (dr_raw_source_sha256 r)),
       (''row_count'', PInt (dr_row_count r)), (''columns'', PList (map record_column_projection (dr_columns r))),
       (''semantics'', dataset_semantics_projection (dr_semantics r)),
       (''external_preprocessing'', external_preprocessing_dump (dr_external_preprocessing r)),
       (''normalization_events'', PList (map normalization_event_dump (dr_normalization_events r))),
       (''findings'', PList (map dataset_finding_dump (dr_findings r))), (''expires'', jstr ''session_end'')])"

text \<open>A verified table is rectangular, so the strict zip of the source does not fail.\<close>

definition preview_rows :: "stored_dataset \<Rightarrow> pyval list" where
  "preview_rows loaded =
     map (\<lambda>row. PDict (zip (map (KStr \<circ> py_field_id) (dp_columns (sd_payload loaded))) row)) (dp_rows (sd_payload loaded))"

definition preview_build :: "stored_dataset \<Rightarrow> pyval list \<Rightarrow> (string \<times> pyval) list \<Rightarrow> details" where
  "preview_build loaded items p = named (dataset_metadata loaded False @ [(''preview'', jobj ((''rows'', PList items) # p))])"

definition describe_dataset :: "cas_env \<Rightarrow> pystr \<Rightarrow> pystr \<Rightarrow> pystr option \<Rightarrow> int \<Rightarrow> details cas_op" where
  "describe_dataset env reference page_view cursor limit =
     bindS (load_dataset env reference) (\<lambda>loaded.
     if page_view = lit ''metadata''
     then if cursor \<noteq> None \<or> limit \<noteq> DEFAULT_PREVIEW_LIMIT
          then raiseS (bad_request [if cursor \<noteq> None then ''cursor'' else ''limit''])
          else bounded_result env (named (dataset_metadata loaded True)) ''structured_tool_response_bytes'' TL_UNVERIFIED_CALLER_DATA
     else if page_view \<noteq> lit ''preview'' then raiseS (bad_request [''view''])
     else bindS (validate_limit limit MAX_PREVIEW_LIMIT) (\<lambda>page_limit.
          bindS (start_index env cursor reference (lit ''preview'') None) (\<lambda>start.
          page env
            \<lparr>pq_reference = reference, pq_view = lit ''preview'', pq_selector = None,
             pq_limit_name = ''dataset_preview_page_bytes'', pq_trust = TL_UNVERIFIED_CALLER_DATA\<rparr>
            (preview_build loaded) (preview_rows loaded) start page_limit)))"

section \<open>Operations\<close>

definition result_of :: "cas_env \<Rightarrow> stored_operation \<Rightarrow> details cas_op" where
  "result_of env loaded =
     (case map_of (so_members loaded) (fd_path (om_result (so_manifest loaded))) of
        None \<Rightarrow> failS HF_RECORD_CORRUPT
      | Some content \<Rightarrow>
          (case strict_json_loads (co_parse_float (ce_codec env)) None content of
             Inr (PDict kvs) \<Rightarrow> retS kvs
           | _ \<Rightarrow> failS HF_RECORD_CORRUPT))"

definition get_or :: "details \<Rightarrow> string \<Rightarrow> pyval \<Rightarrow> pyval" where
  "get_or kvs k d = (case map_of kvs (KStr (lit k)) of None \<Rightarrow> d | Some v \<Rightarrow> v)"

definition message_items :: "string \<Rightarrow> pyval list \<Rightarrow> pyval list" where
  "message_items kind texts =
     map (\<lambda>(i, t). jobj [(''kind'', jstr kind), (''index'', PInt (int i)), (''text'', t)]) (zip [0..<length texts] texts)"

fun is_text :: "pyval \<Rightarrow> bool" where
  "is_text (PStr _) = True"
| "is_text _ = False"

definition messages_of :: "details \<Rightarrow> (pyval list \<times> pystr) cas_op" where
  "messages_of kvs =
     (case (get_or kvs ''warnings'' (PList []), get_or kvs ''disclosures'' (PList [])) of
        (PList warnings, PList disclosures) \<Rightarrow>
          if \<not> list_all is_text (warnings @ disclosures) then failS HF_RECORD_CORRUPT
          else bindS (pyS (digest (jobj [(''warnings'', PList warnings), (''disclosures'', PList disclosures)]))) (\<lambda>d.
               retS (message_items ''warning'' warnings @ message_items ''disclosure'' disclosures, d))
      | _ \<Rightarrow> failS HF_RECORD_CORRUPT)"

text \<open>A key or an index that is missing raises out of the module.\<close>

definition artifact_metadata :: "stored_operation \<Rightarrow> (pystr \<times> pyval) list cas_op" where
  "artifact_metadata loaded =
     (if 58 \<notin> set (so_reference loaded) then raiseS (PyX (ValueError (lit ''list index out of range'')))
      else let d = rev (takeWhile (\<lambda>c. c \<noteq> 58) (rev (so_reference loaded))) in
        mapS (\<lambda>a. case map_of (rev (map (\<lambda>m. (me_path m, me_size_bytes m)) (rec_members (so_record loaded)))) (sa_path a) of
                    None \<Rightarrow> raiseS (PyX (ValueError (lit ''KeyError'')))
                  | Some n \<Rightarrow>
                      retS (sa_visualization_id a, jobj
                        [(''artifact_id'', PStr (sa_visualization_id a)), (''media_type'', jstr ''image/svg+xml''),
                         (''size_bytes'', PInt n), (''sha256'', PStr (sa_sha256 a)),
                         (''resource_uri'', PStr (lit ''dqop://v1/'' @ d @ lit ''/artifact/'' @ sa_visualization_id a))]))
          (om_artifacts (so_manifest loaded)))"

definition structured :: "string \<Rightarrow> nat \<Rightarrow> pyval \<Rightarrow> py_exc + pyval" where
  "structured kind count v =
     bindE (digest v) (\<lambda>d. Inr (jobj [(''kind'', jstr ''structured''), (''value_kind'', jstr kind), (''count'', PInt (int count)),
       (''sha256'', PStr d), (''page_available'', PBool True)]))"

fun project_value :: "pyval \<Rightarrow> py_exc + pyval" where
  "project_value (PList vs) = structured ''array'' (length vs) (PList vs)"
| "project_value (PDict kvs) = structured ''object'' (length kvs) (PDict kvs)"
| "project_value v = Inr v"

fun preprocessing_status :: "external_preprocessing \<Rightarrow> string" where
  "preprocessing_status NoneDeclared = ''none_declared''"
| "preprocessing_status UnknownPreprocessing = ''unknown''"
| "preprocessing_status (ReceiptSupplied _ _) = ''receipt_supplied''"

definition source_context :: "cas_env \<Rightarrow> stored_operation \<Rightarrow> (string \<times> pyval) list cas_op" where
  "source_context env loaded =
     (case ob_source (rec_binding (so_record loaded)) of
        None \<Rightarrow> retS []
      | Some source \<Rightarrow>
          if bs_kind source \<noteq> DatasetKind then failS HF_UNSUPPORTED_BINDING
          else bindS (load_dataset env (bs_ref source)) (\<lambda>dataset.
               let events = dr_normalization_events (sd_record dataset) in
               retS [(''source_context'', jobj
                 [(''kind'', jstr ''dataset''), (''ref'', PStr (bs_ref source)),
                  (''external_preprocessing_status'', jstr (preprocessing_status (dr_external_preprocessing (sd_record dataset)))),
                  (''normalization_event_count'', PInt (int (length events))),
                  (''normalization_event_application_count'', PInt (sum_list (map ne_count events)))])]))"

definition operation_summary ::
  "cas_env \<Rightarrow> stored_operation \<Rightarrow> (pystr \<Rightarrow> pystr \<Rightarrow> pystr option \<Rightarrow> int \<Rightarrow> pystr cas_op) \<Rightarrow> details cas_op" where
  "operation_summary env loaded cursor_encoder =
     bindS (result_of env loaded) (\<lambda>result.
     bindS (pyS (mapE (\<lambda>kv. bindE (project_value (snd kv)) (\<lambda>v. Inr (fst kv, v))) result)) (\<lambda>result_projection.
     bindS (messages_of result) (\<lambda>(messages, messages_digest).
     let first_messages = take (nat DEFAULT_MESSAGE_LIMIT) messages; complete = (length first_messages = length messages);
         r = so_record loaded in
     bindS (source_context env loaded) (\<lambda>context.
     bindS (if complete then retS None
            else bindS (cursor_encoder (so_reference loaded) (lit ''messages'') None (int (length first_messages))) (\<lambda>c. retS (Some c)))
       (\<lambda>c.
     bindS (artifact_metadata loaded) (\<lambda>artifacts.
     bounded_result env (named (
       [(''compact'', PBool True), (''operation_ref'', PStr (so_reference loaded)), (''operation_hash'', PStr (rec_operation_hash r)),
        (''manifest_sha256'', PStr (rec_manifest_sha256 r)), (''component'', component_ref_dump (rec_component r)),
        (''protocol_version'', PStr (rec_protocol_version r)), (''execution_mode'', jstr ''unmanaged''),
        (''result'', PDict result_projection),
        (''messages'', jobj [(''items'', PList first_messages), (''total'', PInt (int (length messages))),
           (''digest'', PStr messages_digest), (''complete'', PBool complete), (''next_cursor'', jopt PStr c)]),
        (''artifacts'', PList (map snd artifacts)), (''expires'', jstr ''session_end'')] @ context))
       ''structured_tool_response_bytes'' TL_UNMANAGED_EXECUTION))))))"

section \<open>Views of an operation\<close>

record view_request =
  vr_view :: pystr
  vr_field :: "pystr option"
  vr_artifact_id :: "pystr option"
  vr_cursor :: "pystr option"
  vr_limit :: "int option"

definition unmanaged :: "cas_env \<Rightarrow> (string \<times> pyval) list \<Rightarrow> string \<Rightarrow> details cas_op" where
  "unmanaged env kvs limit_name = bounded_result env (named kvs) limit_name TL_UNMANAGED_EXECUTION"

definition summary_view :: "cas_env \<Rightarrow> pystr \<Rightarrow> stored_operation \<Rightarrow> details cas_op" where
  "summary_view env reference loaded =
     bindS (operation_summary env loaded (encode_cursor env)) (\<lambda>summary.
     bindS (pyS (digest (PDict summary))) (\<lambda>d.
     unmanaged env
       [(''compact'', PBool True), (''operation_ref'', PStr reference), (''view'', jstr ''summary''), (''summary_sha256'', PStr d),
        (''summary'', PDict summary), (''expires'', jstr ''session_end'')] ''structured_tool_response_bytes''))"

definition manifest_view :: "cas_env \<Rightarrow> pystr \<Rightarrow> stored_operation \<Rightarrow> details cas_op" where
  "manifest_view env reference loaded =
     unmanaged env
       [(''compact'', PBool False), (''operation_ref'', PStr reference), (''view'', jstr ''manifest''),
        (''manifest_sha256'', PStr (rec_manifest_sha256 (so_record loaded))),
        (''manifest'', operation_manifest_dump (so_manifest loaded)), (''expires'', jstr ''session_end'')]
       ''structured_tool_response_bytes''"

definition entries_of :: "details \<Rightarrow> pyval list" where
  "entries_of kvs =
     map (\<lambda>(k, v). jobj [(''key'', PStr k), (''value'', v)])
       (sort_key (\<lambda>(k, v). encoded k) (map (\<lambda>(k, v). (the (key_str k), v)) kvs))"

definition field_page ::
  "cas_env \<Rightarrow> pystr \<Rightarrow> view_request \<Rightarrow> pystr \<Rightarrow> (string \<times> pyval) list \<Rightarrow> string \<Rightarrow> string \<Rightarrow> pyval list \<Rightarrow> details cas_op" where
  "field_page env reference q field base kind key vals =
     bindS (validate_limit (case vr_limit q of None \<Rightarrow> DEFAULT_RESULT_LIMIT | Some l \<Rightarrow> l) MAX_RESULT_LIMIT) (\<lambda>page_limit.
     bindS (start_index env (vr_cursor q) reference (lit ''result_field'') (Some field)) (\<lambda>start.
     page env
       \<lparr>pq_reference = reference, pq_view = lit ''result_field'', pq_selector = Some field, pq_limit_name = ''result_page_bytes'',
        pq_trust = TL_UNMANAGED_EXECUTION\<rparr>
       (\<lambda>items p. named (base @ [(''value_kind'', jstr kind), (key, PList items), (''page'', jobj p)])) vals start page_limit))"

definition field_view :: "cas_env \<Rightarrow> pystr \<Rightarrow> view_request \<Rightarrow> stored_operation \<Rightarrow> details \<Rightarrow> details cas_op" where
  "field_view env reference q loaded result =
     (case (vr_field q, vr_artifact_id q) of
        (Some field, None) \<Rightarrow>
          (case map_of result (KStr field) of
             None \<Rightarrow> raiseS (bad_request [''field''])
           | Some v \<Rightarrow>
               bindS (pyS (digest v)) (\<lambda>d.
               let base = [(''compact'', PBool False), (''operation_ref'', PStr reference), (''view'', jstr ''result_field''),
                  (''field'', PStr field), (''result_sha256'', PStr (fd_sha256 (om_result (so_manifest loaded)))),
                  (''field_sha256'', PStr d), (''expires'', jstr ''session_end'')] in
               case v of
                 PList vs \<Rightarrow> field_page env reference q field base ''array'' ''items'' vs
               | PDict kvs \<Rightarrow> field_page env reference q field base ''object'' ''entries'' (entries_of kvs)
               | _ \<Rightarrow>
                   if vr_cursor q \<noteq> None \<or> vr_limit q \<noteq> None then raiseS (bad_request [])
                   else unmanaged env (base @ [(''value_kind'', jstr ''scalar''), (''value'', v)]) ''result_page_bytes''))
      | _ \<Rightarrow> raiseS (bad_request [''field'']))"

definition messages_view :: "cas_env \<Rightarrow> pystr \<Rightarrow> view_request \<Rightarrow> stored_operation \<Rightarrow> details \<Rightarrow> details cas_op" where
  "messages_view env reference q loaded result =
     (if vr_field q \<noteq> None \<or> vr_artifact_id q \<noteq> None then raiseS (bad_request [])
      else bindS (messages_of result) (\<lambda>(messages, messages_digest).
           bindS (validate_limit (case vr_limit q of None \<Rightarrow> DEFAULT_MESSAGE_LIMIT | Some l \<Rightarrow> l) MAX_MESSAGE_LIMIT) (\<lambda>page_limit.
           bindS (start_index env (vr_cursor q) reference (lit ''messages'') None) (\<lambda>start.
           page env
             \<lparr>pq_reference = reference, pq_view = lit ''messages'', pq_selector = None, pq_limit_name = ''message_page_bytes'',
              pq_trust = TL_UNMANAGED_EXECUTION\<rparr>
             (\<lambda>items p. named
                [(''compact'', PBool False), (''operation_ref'', PStr reference), (''view'', jstr ''messages''),
                 (''result_sha256'', PStr (fd_sha256 (om_result (so_manifest loaded)))), (''messages_sha256'', PStr messages_digest),
                 (''expires'', jstr ''session_end''), (''messages'', PList items), (''page'', jobj p)])
             messages start page_limit))))"

definition artifact_view :: "cas_env \<Rightarrow> pystr \<Rightarrow> view_request \<Rightarrow> stored_operation \<Rightarrow> details cas_op" where
  "artifact_view env reference q loaded =
     (case (vr_artifact_id q, vr_field q, vr_cursor q, vr_limit q) of
        (Some artifact_id, None, None, None) \<Rightarrow>
          if \<not> fullmatch SAFE_ID_PATTERN artifact_id then raiseS (bad_request [''artifact_id''])
          else bindS (artifact_metadata loaded) (\<lambda>artifacts.
               case map_of artifacts artifact_id of
                 None \<Rightarrow> raiseS (HostX HF_ARTIFACT_NOT_FOUND (named [(''artifact_id'', PStr artifact_id)]))
               | Some artifact \<Rightarrow>
                   unmanaged env
                     [(''compact'', PBool True), (''operation_ref'', PStr reference), (''view'', jstr ''artifact_metadata''),
                      (''manifest_sha256'', PStr (rec_manifest_sha256 (so_record loaded))), (''artifact'', artifact),
                      (''expires'', jstr ''session_end'')] ''structured_tool_response_bytes'')
      | _ \<Rightarrow> raiseS (bad_request []))"

definition get_operation :: "cas_env \<Rightarrow> pystr \<Rightarrow> view_request \<Rightarrow> details cas_op" where
  "get_operation env reference q =
     bindS (load_operation env reference) (\<lambda>loaded.
     let bare = (vr_field q = None \<and> vr_artifact_id q = None \<and> vr_cursor q = None \<and> vr_limit q = None) in
     if vr_view q = lit ''summary'' then if \<not> bare then raiseS (bad_request []) else summary_view env reference loaded
     else if vr_view q = lit ''manifest'' then if \<not> bare then raiseS (bad_request []) else manifest_view env reference loaded
     else bindS (result_of env loaded) (\<lambda>result.
       if vr_view q = lit ''result_field'' then field_view env reference q loaded result
       else if vr_view q = lit ''messages'' then messages_view env reference q loaded result
       else if vr_view q = lit ''artifact_metadata'' then artifact_view env reference q loaded
       else raiseS (bad_request [''view''])))"

section \<open>Every view fits\<close>

text \<open>What the effect returns fits the byte budget under its trust label.\<close>

definition fits :: "cas_env \<Rightarrow> trust_label \<Rightarrow> details cas_op \<Rightarrow> bool" where
  "fits env trust m \<longleftrightarrow>
     (\<forall>s x t. m s = (Inr x, t) \<longrightarrow> (\<exists>n. result_size (ce_codec env) x trust = Inr n \<and> n \<le> MAX_STRUCTURED_RESPONSE_BYTES))"

named_theorems fits_intros \<open>rules for effects whose value fits the byte budget\<close>

lemma fitsD: "fits env trust m \<Longrightarrow> m s = (Inr x, t) \<Longrightarrow>
    \<exists>n. result_size (ce_codec env) x trust = Inr n \<and> n \<le> MAX_STRUCTURED_RESPONSE_BYTES"
  unfolding fits_def by blast

lemma fits_bounded [fits_intros]: "fits env trust (bounded_result env x limit_name trust)"
  by (auto simp: fits_def bounded_result_def eff_simps pyS_iff split: if_splits)

lemma fits_raise [fits_intros]: "fits env trust (raiseS e)"
  by (simp add: fits_def eff_simps)

lemma fits_bind [fits_intros]: "(\<And>a. fits env trust (f a)) \<Longrightarrow> fits env trust (bindS m f)"
  unfolding fits_def by (metis bindS_Inr)

lemma fits_if [fits_intros]: "fits env trust m \<Longrightarrow> fits env trust n \<Longrightarrow> fits env trust (if b then m else n)"
  by simp

lemma fits_Let [fits_intros]: "(\<And>x. fits env trust (f x)) \<Longrightarrow> fits env trust (Let a f)"
  by simp

lemma fits_pair [fits_intros]: "(\<And>a b. fits env trust (f a b)) \<Longrightarrow> fits env trust (case p of (a, b) \<Rightarrow> f a b)"
  by (cases p) simp

lemma fits_option [fits_intros]:
  "fits env trust m \<Longrightarrow> (\<And>a. fits env trust (f a)) \<Longrightarrow> fits env trust (case x of None \<Rightarrow> m | Some a \<Rightarrow> f a)"
  by (cases x) auto

lemma fits_page [fits_intros]: "pq_trust q = trust \<Longrightarrow> fits env trust (page env q build vals start limit)"
  unfolding page_def by (intro fits_intros) (auto intro: fits_bounded)

lemma fits_views:
  "fits env TL_UNMANAGED_EXECUTION (summary_view env reference loaded)"
  "fits env TL_UNMANAGED_EXECUTION (manifest_view env reference loaded)"
  "fits env TL_UNMANAGED_EXECUTION (messages_view env reference q loaded result)"
  "fits env TL_UNMANAGED_EXECUTION (artifact_view env reference q loaded)"
  "fits env TL_UNMANAGED_EXECUTION (field_page env reference q field base kind key vals)"
  unfolding summary_view_def manifest_view_def messages_view_def artifact_view_def field_page_def unmanaged_def
  by (intro fits_intros; simp)+

lemma fits_field_view: "fits env TL_UNMANAGED_EXECUTION (field_view env reference q loaded result)"
proof -
  have "fits env TL_UNMANAGED_EXECUTION (case v of PList vs \<Rightarrow> field_page env reference q field base ''array'' ''items'' vs
      | PDict kvs \<Rightarrow> field_page env reference q field base ''object'' ''entries'' (entries_of kvs)
      | _ \<Rightarrow> if vr_cursor q \<noteq> None \<or> vr_limit q \<noteq> None then raiseS (bad_request [])
           else unmanaged env (base @ [(''value_kind'', jstr ''scalar''), (''value'', v)]) ''result_page_bytes'')" for v field base
    by (cases v) (auto simp: unmanaged_def intro!: fits_intros fits_views)
  then show ?thesis unfolding field_view_def by (intro fits_intros)
qed

lemma fits_describe: "fits env TL_UNVERIFIED_CALLER_DATA (describe_dataset env r v cursor limit)"
  unfolding describe_dataset_def by (intro fits_intros; simp)

lemma fits_get: "fits env TL_UNMANAGED_EXECUTION (get_operation env r q)"
  unfolding get_operation_def by (intro fits_intros fits_views fits_field_view)

section \<open>What a page holds\<close>

lemma next_cursor_Inr:
  assumes "next_cursor env q complete k s = (Inr c, t)"
  shows "t = s" "c = None \<longleftrightarrow> complete"
    "c = Some token \<Longrightarrow> encode_cursor_token env (pq_reference q) (pq_view q) (pq_selector q) (int k) = Inr token \<and>
       (\<exists>p. reference_parts (pq_reference q) None = Inr p)"
proof -
  have "t = s \<and> (c = None \<longleftrightarrow> complete) \<and> (c = Some token \<longrightarrow>
      encode_cursor_token env (pq_reference q) (pq_view q) (pq_selector q) (int k) = Inr token \<and>
      (\<exists>p. reference_parts (pq_reference q) None = Inr p))" for token
  proof (cases complete)
    case True
    then show ?thesis using assms by (auto simp: next_cursor_def eff_simps)
  next
    case False
    then obtain tok where "encode_cursor env (pq_reference q) (pq_view q) (pq_selector q) (int k) s = (Inr tok, t)" "c = Some tok"
      using assms by (auto simp: next_cursor_def eff_simps)
    then show ?thesis using False by (auto elim!: encode_cursor_Inr)
  qed
  then show "t = s" "c = None \<longleftrightarrow> complete" "c = Some token \<Longrightarrow>
      encode_cursor_token env (pq_reference q) (pq_view q) (pq_selector q) (int k) = Inr token \<and>
      (\<exists>p. reference_parts (pq_reference q) None = Inr p)" by blast+
qed

lemma page_loop_Inr:
  assumes "page_loop env q build whole start sel vs s = (Inr selected, t)"
  shows "t = s \<and> (\<exists>n \<le> length vs. selected = sel @ take n vs \<and> (sel = [] \<longrightarrow> vs \<noteq> [] \<longrightarrow> 0 < n))"
  using assms
proof (induction vs arbitrary: sel)
  case Nil
  then show ?case by (simp add: eff_simps)
next
  case (Cons v vs)
  from Cons.prems obtain c u sz where c: "next_cursor env q (start + length (sel @ [v]) = whole) (start + length (sel @ [v])) s = (Inr c, u)"
    and run: "(if sz > MAX_STRUCTURED_RESPONSE_BYTES
       then if sel = [] then raiseS (over_limit (pq_limit_name q) sz) else retS sel
       else page_loop env q build whole start (sel @ [v]) vs) u = (Inr selected, t)"
    unfolding page_loop.simps Let_def by (auto simp: bindS_Inr pyS_iff)
  have u: "u = s" using next_cursor_Inr(1)[OF c] .
  show ?case
  proof (cases "sz > MAX_STRUCTURED_RESPONSE_BYTES")
    case True
    then have "sel \<noteq> []" "selected = sel" "t = s" using run u by (auto simp: eff_simps split: if_splits)
    then show ?thesis by (intro conjI exI[of _ 0]) simp_all
  next
    case False
    then have "page_loop env q build whole start (sel @ [v]) vs s = (Inr selected, t)" using run u by simp
    from Cons.IH[OF this] obtain n where "t = s" "n \<le> length vs" "selected = (sel @ [v]) @ take n vs" by blast
    then show ?thesis by (intro conjI exI[of _ "Suc n"]) simp_all
  qed
qed

lemma page_Inr:
  assumes "page env q build vals start limit s = (Inr x, t)"
  obtains n c where "t = s" "n \<le> limit" "start + n \<le> length vals" "start < length vals \<longrightarrow> 0 < limit \<longrightarrow> 0 < n"
    "x = build (take n (drop start vals)) (page_fields start n c (start + n = length vals))"
    "next_cursor env q (start + n = length vals) (start + n) s = (Inr c, s)"
proof -
  from assms have le: "start \<le> length vals" by (auto simp: page_def eff_simps split: if_splits)
  with assms obtain selected u c w where l: "page_loop env q build (length vals) start [] (take limit (drop start vals)) s = (Inr selected, u)"
    and c: "next_cursor env q (start + length selected = length vals) (start + length selected) u = (Inr c, w)"
    and b: "bounded_result env (build selected (page_fields start (length selected) c (start + length selected = length vals)))
        (pq_limit_name q) (pq_trust q) w = (Inr x, t)"
    unfolding page_def Let_def by (auto simp: bindS_Inr)
  from page_loop_Inr[OF l] obtain n where n: "u = s" "n \<le> length (take limit (drop start vals))"
    "selected = [] @ take n (take limit (drop start vals))" "take limit (drop start vals) \<noteq> [] \<longrightarrow> 0 < n" by blast
  have w: "w = u" using next_cursor_Inr(1)[OF c] .
  have "n \<le> limit" "n \<le> length vals - start" using n(2) by simp_all
  then have sel: "selected = take n (drop start vals)" "length selected = n" using n(3) by (simp_all add: min_absorb1)
  have x: "x = build selected (page_fields start (length selected) c (start + length selected = length vals))" "t = w"
    using b by (auto simp: bounded_result_def eff_simps pyS_iff split: if_splits)
  show thesis
  proof (rule that[of n c])
    show "t = s" using x(2) w n(1) by simp
    show "n \<le> limit" "start + n \<le> length vals" using n(2) le by auto
    show "start < length vals \<longrightarrow> 0 < limit \<longrightarrow> 0 < n" using n(4) by simp
    show "x = build (take n (drop start vals)) (page_fields start n c (start + n = length vals))" using x(1) sel by simp
    show "next_cursor env q (start + n = length vals) (start + n) s = (Inr c, s)" using c sel w n(1) by simp
  qed
qed

text \<open>
  A client that follows the cursors. Between two pages anything may happen to the session, as long as the cursor is still
  accepted.
\<close>

inductive page_run ::
  "cas_env \<Rightarrow> page_request \<Rightarrow> (pyval list \<Rightarrow> (string \<times> pyval) list \<Rightarrow> details) \<Rightarrow> pyval list \<Rightarrow> nat \<Rightarrow> cas \<Rightarrow> nat \<Rightarrow> pyval list list \<Rightarrow> bool"
  for env q build vals limit where
  last_page: "page env q build vals start limit s = (Inr (build items (page_fields start k None True)), t) \<Longrightarrow>
     page_run env q build vals limit s start [items]"
| more_pages: "page env q build vals start limit s = (Inr (build items (page_fields start k (Some token) False)), t) \<Longrightarrow>
     start_index env (Some token) (pq_reference q) (pq_view q) (pq_selector q) u = (Inr start', u') \<Longrightarrow>
     page_run env q build vals limit u' start' rest \<Longrightarrow> page_run env q build vals limit s start (items # rest)"

definition faithful_build :: "(pyval list \<Rightarrow> (string \<times> pyval) list \<Rightarrow> details) \<Rightarrow> bool" where
  "faithful_build build \<longleftrightarrow> (\<forall>i p j q. build i p = build j q \<longrightarrow> i = j \<and> p = q)"

lemma page_fields_inj: "page_fields a k c b = page_fields a' k' c' b' \<Longrightarrow> k = k' \<and> c = c' \<and> b = b'"
  by (cases c; cases c') (auto simp: page_fields_def jopt_def)

lemma start_of_issued:
  assumes "start_index env (Some token) r v sel u = (Inr j, u')" "encode_cursor_token env r v sel (int i) = Inr token"
    "reference_parts r None = Inr p" "float_codec (co_float_repr (ce_codec env)) (co_parse_float (ce_codec env))"
  shows "j = i"
proof -
  obtain k where k: "decode_cursor env token r v sel u = (Inr k, u')" "j = nat k"
    using assms(1) by (auto simp: start_index_def eff_simps)
  from k(1) have "\<not> ca_closed u" "r \<in> ca_references u" "r \<notin> ca_corrupt u" by (rule decode_cursor_Inr; simp)+
  from issued_cursor_accepted[OF assms(2-4) this] k show ?thesis by simp
qed

lemma page_run_covers:
  assumes "page_run env q build vals limit s start pages" "faithful_build build" "0 < limit"
    "float_codec (co_float_repr (ce_codec env)) (co_parse_float (ce_codec env))"
  shows "concat pages = drop start vals \<and> (\<forall>items \<in> set pages. length items \<le> limit) \<and>
    (start < length vals \<longrightarrow> [] \<notin> set pages)"
  using assms
proof (induction rule: page_run.induct)
  case (last_page start s items k t)
  from last_page(1) obtain n c where "t = s" and n: "n \<le> limit" "start + n \<le> length vals" "start < length vals \<longrightarrow> 0 < limit \<longrightarrow> 0 < n"
    "build items (page_fields start k None True) = build (take n (drop start vals)) (page_fields start n c (start + n = length vals))"
    "next_cursor env q (start + n = length vals) (start + n) s = (Inr c, s)"
    by (rule page_Inr)
  have "items = take n (drop start vals)" "page_fields start k None True = page_fields start n c (start + n = length vals)"
    using n(4) last_page(2) by (simp_all add: faithful_build_def)
  then have "items = take n (drop start vals)" "start + n = length vals" using page_fields_inj by blast+
  then show ?case using n(1-3) last_page(3) by auto
next
  case (more_pages start s items k token t u start' u' rest)
  from more_pages(1) obtain n c where "t = s" and n: "n \<le> limit" "start + n \<le> length vals" "start < length vals \<longrightarrow> 0 < limit \<longrightarrow> 0 < n"
    "build items (page_fields start k (Some token) False) = build (take n (drop start vals)) (page_fields start n c (start + n = length vals))"
    "next_cursor env q (start + n = length vals) (start + n) s = (Inr c, s)"
    by (rule page_Inr)
  have "items = take n (drop start vals)" "page_fields start k (Some token) False = page_fields start n c (start + n = length vals)"
    using n(4) more_pages(5) by (simp_all add: faithful_build_def)
  then have i: "items = take n (drop start vals)" "c = Some token" "start + n \<noteq> length vals" using page_fields_inj by blast+
  from next_cursor_Inr(3)[OF n(5) i(2)] obtain p where "start' = start + n"
    using start_of_issued[OF more_pages(2) _ _ more_pages(7)] by blast
  moreover have "concat rest = drop start' vals" "\<forall>items \<in> set rest. length items \<le> limit" "start' < length vals \<longrightarrow> [] \<notin> set rest"
    using more_pages(4)[OF more_pages(5-7)] by blast+
  moreover have "start + n < length vals" using n(2) i(3) by simp
  ultimately show ?case using n(1,3) i(1) more_pages(6) by (auto simp: append_take_drop_id drop_drop[symmetric] add.commute simp del: drop_drop)
qed

text \<open>The projections of the module show the items and the page they are given.\<close>

lemma lit_inj: "lit a = lit b \<Longrightarrow> a = b"
  unfolding lit_def by (metis inj_map_eq_map inj_def of_char_eq_iff)

lemma named_inj: "named a = named b \<longleftrightarrow> a = b"
proof -
  have "inj (\<lambda>(k, v). (KStr (lit k), v :: pyval))" by (auto simp: inj_def dest: lit_inj)
  then show ?thesis by (simp add: inj_map_eq_map)
qed

lemma jobj_inj: "jobj a = jobj b \<longleftrightarrow> a = b"
  using named_inj[of a b] by (simp add: jobj_def)

lemma preview_build_faithful: "faithful_build (preview_build loaded)"
  by (auto simp: faithful_build_def preview_build_def named_inj jobj_inj simp del: map_append)

lemma field_build_faithful:
  "faithful_build (\<lambda>items p. named (base @ [(''value_kind'', jstr kind), (key, PList items), (''page'', jobj p)]))"
  by (auto simp: faithful_build_def named_inj jobj_inj simp del: map_append)

lemma message_build_faithful:
  "faithful_build (\<lambda>items p. named (base @ [(''messages'', PList items), (''page'', jobj p)]))"
  by (auto simp: faithful_build_def named_inj jobj_inj simp del: map_append)

section \<open>Properties\<close>

text \<open>
  C32 (pages_cover). A client that starts at the first page of a view and follows the cursors, whatever happens to the session
  in between, gets every item exactly once and in order, in pages within the requested limit, none of them empty unless
  there is nothing to show.
\<close>

theorem pages_cover:
  assumes "page_run env q build vals limit s 0 pages" "faithful_build build" "0 < limit"
    "float_codec (co_float_repr (ce_codec env)) (co_parse_float (ce_codec env))"
  shows "concat pages = vals \<and> (\<forall>items \<in> set pages. length items \<le> limit) \<and> (vals \<noteq> [] \<longrightarrow> [] \<notin> set pages)"
  using page_run_covers[OF assms] by simp

text \<open>
  C33 (views_bounded). Whatever view of a dataset or an operation is returned, the tool result that carries it has at most
  256 KiB.
\<close>

theorem views_bounded:
  "(describe_dataset env r v cursor limit s = (Inr x, t) \<longrightarrow>
      (\<exists>n. result_size (ce_codec env) x TL_UNVERIFIED_CALLER_DATA = Inr n \<and> n \<le> 256 * 1024)) \<and>
   (get_operation env r q s = (Inr y, u) \<longrightarrow>
      (\<exists>n. result_size (ce_codec env) y TL_UNMANAGED_EXECUTION = Inr n \<and> n \<le> 256 * 1024))"
  using fitsD[OF fits_describe] fitsD[OF fits_get] unfolding MAX_STRUCTURED_RESPONSE_BYTES_def by blast

section \<open>Pages of a small session\<close>

text \<open>A result that is JSON and not too heavy fits.\<close>

lemma result_size_total:
  assumes "json_value (PDict data)" "canonical_ok (PDict data)" "float_codec (co_float_repr c) (co_parse_float c)"
  shows "\<exists>n. result_size c data trust = Inr n \<and> n \<le> 4 * (text_weight (co_float_repr c) 2 (PDict data) + 5000)"
proof -
  define e where "e = \<lparr>hs_data = data, hs_trust = \<lparr>tr_label = trust, tr_statement = TRUST_STATEMENTS trust\<rparr>\<rparr>"
  have "host_success data trust = Inr e"
    using assms(1) by (simp add: host_success_def e_def del: json_value.simps)
  then obtain v where v: "tool_success_result_projection data trust = Inr v"
    "v = jobj [(''content'', PList [jobj [(''type'', jstr ''text''), (''text'', jstr HOST_SUCCESS_TEXT)]]),
       (''structuredContent'', host_success_dump e), (''isError'', PBool False)]"
    by (simp add: tool_success_result_projection_def)
  have st: "scalar_str (TRUST_STATEMENTS trust)" "length (TRUST_STATEMENTS trust) \<le> 500"
    using fixed_statement_ok[of trust] by (simp_all add: text_ok_def)
  have lb: "length (trust_label_value trust) \<le> 40" by (cases trust) simp_all
  have j: "json_value v" using assms(1) st unfolding v(2) by (simp add: jobj_def jstr_def host_success_dump_def trust_dump_def e_def)
  have k: "canonical_ok v" using assms(2) st unfolding v(2)
    by (simp add: jobj_def jstr_def host_success_dump_def trust_dump_def e_def MAX_SAFE_INTEGER_def)
  obtain b where b: "cas_json_bytes (co_float_repr c) v = Inr b"
    unfolding cas_json_bytes_def using document_exists[OF j k scalar_json_dumps[OF assms(3) j k]] by blast
  have "text_weight (co_float_repr c) 0 v \<le> text_weight (co_float_repr c) 2 (PDict data) + 4990"
    using st lb unfolding v(2) by (simp add: jobj_def jstr_def host_success_dump_def trust_dump_def e_def HOST_SUCCESS_TEXT_def int_repr_def nat_repr.simps numeral_3_eq_3)
  then have "length b \<le> 4 * (text_weight (co_float_repr c) 2 (PDict data) + 5000)" using cas_document_length[OF j b] by simp
  then show ?thesis using v(1) b by (intro exI[of _ "length b - 1"]) (simp add: result_size_def)
qed

lemma one_item_page:
  assumes "start < length vals" "next_cursor env q (Suc start = length vals) (Suc start) s = (Inr c, s)"
    "result_size (ce_codec env) (build [vals ! start] (page_fields start 1 c (Suc start = length vals))) (pq_trust q) = Inr n"
    "n \<le> MAX_STRUCTURED_RESPONSE_BYTES"
  shows "page env q build vals start 1 s = (Inr (build [vals ! start] (page_fields start 1 c (Suc start = length vals))), s)"
proof -
  have "take 1 (drop start vals) = [vals ! start]" using assms(1) by (simp add: take_Suc hd_drop_conv_nth)
  then show ?thesis using assms by (simp add: page_def bounded_result_def Let_def run_simps pyS_def)
qed

definition demo_build :: "pyval list \<Rightarrow> (string \<times> pyval) list \<Rightarrow> details" where
  "demo_build items p = named [(''items'', PList items), (''page'', jobj p)]"

lemma demo_build_faithful: "faithful_build demo_build"
  by (auto simp: faithful_build_def demo_build_def named_inj jobj_inj simp del: list.map)

lemma token_text: "encode_cursor_token env r v sel i = Inr token \<Longrightarrow> scalar_str token \<and> length token \<le> 512"
proof -
  assume "encode_cursor_token env r v sel i = Inr token"
  then obtain payload where t: "token = signed_token (ce_cursor_key env) payload" "length token \<le> MAX_CURSOR_BYTES"
    unfolding encode_token_Inr by blast
  have "list_all cursor_char token" unfolding t(1) signed_token_def by (rule stripped_chars)
  then have "c < 128" if "c \<in> set token" for c using that by (auto simp: list_all_iff cursor_char_def)
  then have "is_scalar c" if "c \<in> set token" for c using is_scalar_ascii[of c] that by fastforce
  then show ?thesis using t(2) by (simp add: scalar_str_def list_all_iff MAX_CURSOR_BYTES_def)
qed

lemma demo_page_size:
  assumes "case c of None \<Rightarrow> True | Some token \<Rightarrow> scalar_str token \<and> length token \<le> 512" "i \<in> {1, 2}" "start \<in> {0, 1}"
  shows "\<exists>n. result_size (ce_codec (demo_env h sid)) (demo_build [PInt i] (page_fields start 1 c b)) trust = Inr n \<and>
    n \<le> MAX_STRUCTURED_RESPONSE_BYTES"
proof -
  let ?d = "demo_build [PInt i] (page_fields start 1 c b)"
  have "json_value (PDict ?d)" "canonical_ok (PDict ?d)"
    using assms by (cases c; auto simp: demo_build_def page_fields_def jobj_def jopt_def MAX_SAFE_INTEGER_def)+
  then obtain n where n: "result_size (ce_codec (demo_env h sid)) ?d trust = Inr n"
    "n \<le> 4 * (text_weight (co_float_repr (ce_codec (demo_env h sid))) 2 (PDict ?d) + 5000)"
    using result_size_total demo_env_facts(2) by blast
  have "int_repr 0 = [48]" "int_repr 1 = [49]" "int_repr 2 = [50]" by (simp_all add: int_repr_def nat_repr.simps)
  then have "text_weight fr 2 (PDict ?d) \<le> 10000" for fr
    using assms by (cases c; auto simp: demo_build_def page_fields_def jobj_def jopt_def)
  from this[of "co_float_repr (ce_codec (demo_env h sid))"] n show ?thesis
    by (intro exI[of _ n]) (simp add: MAX_STRUCTURED_RESPONSE_BYTES_def)
qed

definition demo_request_page :: "pystr \<Rightarrow> page_request" where
  "demo_request_page r =
     \<lparr>pq_reference = r, pq_view = lit ''rows'', pq_selector = None, pq_limit_name = ''result_page_bytes'',
      pq_trust = TL_UNMANAGED_EXECUTION\<rparr>"

lemma demo_page_run:
  "\<exists>h r s. page_run (demo_env h sid) (demo_request_page r) demo_build [PInt 1, PInt 2] 1 s 0 [[PInt 1], [PInt 2]]"
proof -
  obtain h r s where s: "\<forall>i \<in> {0, 1}. \<exists>token. encode_cursor (demo_env h sid) r (lit ''rows'') None i s = (Inr token, s)"
    "\<not> ca_closed s" "r \<in> ca_references s" "r \<notin> ca_corrupt s" using demo_cursor by blast
  let ?env = "demo_env h sid" and ?q = "demo_request_page r" and ?vals = "[PInt 1, PInt 2]"
  obtain token where t: "encode_cursor ?env r (lit ''rows'') None 1 s = (Inr token, s)" using s(1) by blast
  then obtain p where p: "encode_cursor_token ?env r (lit ''rows'') None 1 = Inr token" "reference_parts r None = Inr p"
    by (auto elim: encode_cursor_Inr)
  have c1: "next_cursor ?env ?q False 1 s = (Inr (Some token), s)"
    using t by (simp add: next_cursor_def demo_request_page_def run_simps)
  have c2: "next_cursor ?env ?q True 2 s = (Inr None, s)" by (simp add: next_cursor_def run_simps)
  obtain n where n: "result_size (ce_codec ?env) (demo_build [PInt 1] (page_fields 0 1 (Some token) False)) TL_UNMANAGED_EXECUTION = Inr n"
    "n \<le> MAX_STRUCTURED_RESPONSE_BYTES"
  proof -
    have "\<exists>n. result_size (ce_codec ?env) (demo_build [PInt 1] (page_fields 0 1 (Some token) False)) TL_UNMANAGED_EXECUTION = Inr n \<and>
      n \<le> MAX_STRUCTURED_RESPONSE_BYTES" using token_text[OF p(1)] by (intro demo_page_size) simp_all
    then show ?thesis using that by blast
  qed
  obtain m where m: "result_size (ce_codec ?env) (demo_build [PInt 2] (page_fields 1 1 None True)) TL_UNMANAGED_EXECUTION = Inr m"
    "m \<le> MAX_STRUCTURED_RESPONSE_BYTES"
  proof -
    have "\<exists>n. result_size (ce_codec ?env) (demo_build [PInt 2] (page_fields 1 1 None True)) TL_UNMANAGED_EXECUTION = Inr n \<and>
      n \<le> MAX_STRUCTURED_RESPONSE_BYTES" by (intro demo_page_size) simp_all
    then show ?thesis using that by blast
  qed
  have first: "page ?env ?q demo_build ?vals 0 1 s = (Inr (demo_build [PInt 1] (page_fields 0 1 (Some token) False)), s)"
    using one_item_page[of 0 ?vals ?env ?q s "Some token" demo_build n] c1 n by (simp add: demo_request_page_def)
  have last: "page ?env ?q demo_build ?vals 1 1 s = (Inr (demo_build [PInt 2] (page_fields 1 1 None True)), s)"
    using one_item_page[of 1 ?vals ?env ?q s None demo_build m] c2 m by (simp add: demo_request_page_def numeral_2_eq_2)
  have "decode_cursor ?env token r (lit ''rows'') None s = (Inr 1, s)"
    using issued_cursor_accepted[OF p demo_env_facts(2) s(2-4)] .
  then have "start_index ?env (Some token) (pq_reference ?q) (pq_view ?q) (pq_selector ?q) s = (Inr 1, s)"
    by (simp add: start_index_def demo_request_page_def run_simps)
  from more_pages[OF first this last_page[OF last]] show ?thesis by blast
qed

theorem pages_cover_witness:
  "\<exists>h r s. page_run (demo_env h (lit ''a'')) (demo_request_page r) demo_build [PInt 1, PInt 2] 1 s 0 [[PInt 1], [PInt 2]] \<and>
     concat [[PInt 1], [PInt 2]] = [PInt 1, PInt 2]"
proof -
  obtain h r s where run: "page_run (demo_env h (lit ''a'')) (demo_request_page r) demo_build [PInt 1, PInt 2] 1 s 0 [[PInt 1], [PInt 2]]"
    using demo_page_run by blast
  from pages_cover[OF run demo_build_faithful zero_less_one demo_env_facts(2)] run show ?thesis by blast
qed

lemma demo_metadata:
  "\<exists>h r s x t. describe_dataset (demo_env h sid) r (lit ''metadata'') None DEFAULT_PREVIEW_LIMIT s = (Inr x, t)"
proof -
  obtain h r s u where load: "load_dataset (demo_env h sid) r s =
      (Inr \<lparr>sd_reference = r, sd_record = demo_dataset h, sd_payload = demo_payload\<rparr>, u)" (is "_ = (Inr ?d, u)")
    using demo_published by blast
  then have v: "dataset_record_valid (demo_dataset h)" "dataset_record_reference (demo_dataset h) = Inr r"
    by (cases rule: load_dataset_cases; simp add: verified_def)+
  let ?data = "named (dataset_metadata ?d True)"
  have h: "length h = 64" "\<forall>c \<in> set h. is_hex c"
    using v(1) by (simp_all add: dataset_record_valid_def demo_dataset_def sha256_ok_iff)
  then have hs: "scalar_str h" using is_hex_scalar by (simp add: scalar_str_def list_all_iff)
  obtain d where p: "parse_reference DatasetKind r = Inr \<lparr>pr_kind = DatasetKind, pr_version_token = lit ''1'', pr_digest = d\<rparr>"
    using v(2) by (auto simp: dataset_record_reference_def bindE_Inr_iff reference_iff)
  then have "\<exists>q. reference_parts r (Some DatasetKind) = Inr q" by (simp add: reference_parts_def)
  then have rs: "scalar_str r" using reference_parts_scalar by blast
  have rl: "length r \<le> 100" using p by (auto simp: parse_reference_Inr lit_def)
  note defs = dataset_metadata_def demo_dataset_def jobj_def jstr_def record_column_projection_def
    dataset_semantics_projection_def present_def jopt_def
  have "json_value (PDict ?data)" "canonical_ok (PDict ?data)"
    using hs rs by (simp_all add: defs MAX_SAFE_INTEGER_def Let_def)
  then obtain n where n: "result_size (ce_codec (demo_env h sid)) ?data TL_UNVERIFIED_CALLER_DATA = Inr n"
    "n \<le> 4 * (text_weight (co_float_repr (ce_codec (demo_env h sid))) 2 (PDict ?data) + 5000)"
    using result_size_total demo_env_facts(2) by blast
  have "int_repr 2 = [50]" by (simp add: int_repr_def nat_repr.simps)
  then have "text_weight fr 2 (PDict ?data) \<le> 20000" for fr using h(1) rl by (simp add: defs Let_def lit_def)
  from this[of "co_float_repr (ce_codec (demo_env h sid))"] n have "n \<le> MAX_STRUCTURED_RESPONSE_BYTES"
    by (simp add: MAX_STRUCTURED_RESPONSE_BYTES_def)
  then have "describe_dataset (demo_env h sid) r (lit ''metadata'') None DEFAULT_PREVIEW_LIMIT s = (Inr ?data, u)"
    using load n(1) by (simp add: describe_dataset_def bounded_result_def run_simps pyS_def)
  then show ?thesis by blast
qed

theorem views_bounded_witness:
  "\<exists>h r s x t n. describe_dataset (demo_env h (lit ''a'')) r (lit ''metadata'') None DEFAULT_PREVIEW_LIMIT s = (Inr x, t) \<and>
     result_size (ce_codec (demo_env h (lit ''a''))) x TL_UNVERIFIED_CALLER_DATA = Inr n \<and> n \<le> 256 * 1024"
  using demo_metadata views_bounded by metis

end
