(* ===== verification/Timestamps.thy ===== *)
theory Timestamps
  imports Record_Identity
begin

text \<open>
  The timestamps of \<^verbatim>\<open>shared/dataset_registry.py\<close>: RFC 3339 texts with an offset, read as \<^verbatim>\<open>datetime.fromisoformat\<close> reads
  them, moved to UTC as \<^verbatim>\<open>astimezone\<close> does, and written in canonical form. \<^verbatim>\<open>strftime("%Y")\<close> is the platform's: glibc does not
  pad years before 1000, so the text of a year is an argument, and the properties speak of both kinds of platform.
\<close>

section \<open>Dates\<close>

record stamp =
  st_year :: nat
  st_month :: nat
  st_day :: nat
  st_hour :: nat
  st_minute :: nat
  st_second :: nat
  st_micro :: nat
  st_offset :: int

definition date_valid :: "nat \<Rightarrow> nat \<Rightarrow> nat \<Rightarrow> bool" where
  "date_valid y m d \<longleftrightarrow> 1 \<le> y \<and> y \<le> 9999 \<and> 1 \<le> m \<and> m \<le> 12 \<and> 1 \<le> d \<and> d \<le> days_in_month y m"

definition stamp_valid :: "stamp \<Rightarrow> bool" where
  "stamp_valid t \<longleftrightarrow> date_valid (st_year t) (st_month t) (st_day t) \<and> st_hour t \<le> 23 \<and> st_minute t \<le> 59 \<and> st_second t \<le> 59 \<and>
     st_micro t < 1000000 \<and> \<bar>st_offset t\<bar> < 1440"

definition next_day :: "nat \<Rightarrow> nat \<Rightarrow> nat \<Rightarrow> (nat \<times> nat \<times> nat) option" where
  "next_day y m d =
     (if d < days_in_month y m then Some (y, m, d + 1)
      else if m < 12 then Some (y, m + 1, 1)
      else if y < 9999 then Some (y + 1, 1, 1) else None)"

definition previous_day :: "nat \<Rightarrow> nat \<Rightarrow> nat \<Rightarrow> (nat \<times> nat \<times> nat) option" where
  "previous_day y m d =
     (if 1 < d then Some (y, m, d - 1)
      else if 1 < m then Some (y, m - 1, days_in_month y (m - 1))
      else if 1 < y then Some (y - 1, 12, 31) else None)"

text \<open>The microseconds since the first instant.\<close>

definition instant :: "stamp \<Rightarrow> int" where
  "instant t =
     (((day_number (st_year t) (st_month t) (st_day t) * 24 + int (st_hour t)) * 60 + int (st_minute t) - st_offset t) * 60 +
      int (st_second t)) * 1000000 + int (st_micro t)"

section \<open>Reading\<close>

definition TIMESTAMP_PATTERN :: rx where
  "TIMESTAMP_PATTERN =
     (let d = Cls unicode_digit in
      Cats [Times 4 d, Chr 45, Times 2 d, Chr 45, Times 2 d, Chr 84, Times 2 d, Chr 58, Times 2 d, Chr 58, Times 2 d,
            Opt (Cats [Chr 46, Between 1 6 d]),
            Alt (Chr 90) (Cats [Cls (\<lambda>c. c = 43 \<or> c = 45), Times 2 d, Chr 58, Times 2 d])])"

text \<open>Fewer than six digits of a fraction are the leading ones.\<close>

definition fraction_micro :: "pystr \<Rightarrow> nat" where
  "fraction_micro f = (if f = [] then 0 else digits_value (take 6 (tl f @ replicate 6 48)))"

definition zone_offset :: "pystr \<Rightarrow> int option" where
  "zone_offset z =
     (if z = [90] then Some 0
      else let hours = field_at 1 2 z; minutes = field_at 4 2 z in
        if hours > 23 \<or> minutes > 59 then None
        else Some ((if hd z = 45 then - 1 else 1) * int (hours * 60 + minutes)))"

text \<open>
  The pattern admits digits of every script, but \<^verbatim>\<open>fromisoformat\<close> takes ASCII digits only; every failure is the same error.
\<close>

definition parse_timestamp :: "pystr \<Rightarrow> stamp option" where
  "parse_timestamp s =
     (if \<not> fullmatch TIMESTAMP_PATTERN s \<or> \<not> list_all (\<lambda>c. c < 128) s then None
      else let n = (if last s = 90 then 1 else 6) in
        case zone_offset (drop (length s - n) s) of
          None \<Rightarrow> None
        | Some offset \<Rightarrow>
            (let t = \<lparr>st_year = field_at 0 4 s, st_month = field_at 5 2 s, st_day = field_at 8 2 s, st_hour = field_at 11 2 s,
                      st_minute = field_at 14 2 s, st_second = field_at 17 2 s,
                      st_micro = fraction_micro (take (length s - n - 19) (drop 19 s)), st_offset = offset\<rparr> in
             if stamp_valid t then Some t else None))"

section \<open>Moving to UTC and writing\<close>

definition to_utc :: "stamp \<Rightarrow> stamp option" where
  "to_utc t =
     (let minutes = int (st_hour t * 60 + st_minute t) - st_offset t;
          at = (\<lambda>(y, m, d) k. t\<lparr>st_year := y, st_month := m, st_day := d, st_hour := nat k div 60, st_minute := nat k mod 60,
            st_offset := 0\<rparr>) in
      if minutes < 0 then map_option (\<lambda>d. at d (minutes + 1440)) (previous_day (st_year t) (st_month t) (st_day t))
      else if minutes \<ge> 1440 then map_option (\<lambda>d. at d (minutes - 1440)) (next_day (st_year t) (st_month t) (st_day t))
      else Some (at (st_year t, st_month t, st_day t) minutes))"

fun decimals :: "nat \<Rightarrow> nat \<Rightarrow> pystr" where
  "decimals 0 n = []"
| "decimals (Suc k) n = decimals k (n div 10) @ [48 + n mod 10]"

definition rstrip_zeros :: "pystr \<Rightarrow> pystr" where
  "rstrip_zeros s = rev (dropWhile (\<lambda>c. c = 48) (rev s))"

definition stamp_text :: "(nat \<Rightarrow> pystr) \<Rightarrow> stamp \<Rightarrow> pystr" where
  "stamp_text year_text t =
     year_text (st_year t) @ [45] @ decimals 2 (st_month t) @ [45] @ decimals 2 (st_day t) @ [84] @ decimals 2 (st_hour t) @ [58] @
     decimals 2 (st_minute t) @ [58] @ decimals 2 (st_second t) @
     (if st_micro t = 0 then [] else 46 # rstrip_zeros (decimals 6 (st_micro t))) @ [90]"

definition canonical_timestamp :: "(nat \<Rightarrow> pystr) \<Rightarrow> pystr \<Rightarrow> pystr option" where
  "canonical_timestamp year_text s =
     (case parse_timestamp s of None \<Rightarrow> None | Some t \<Rightarrow> map_option (stamp_text year_text) (to_utc t))"

section \<open>Moving to UTC keeps the instant\<close>

lemma days_in_month_pos [simp]: "Suc 0 \<le> days_in_month y m" "0 < days_in_month y m"
  by (simp_all add: days_in_month_def)

lemma day_number_year:
  assumes "1 \<le> y"
  shows "day_number (Suc y) 1 1 = day_number y 12 31 + 1"
proof -
  obtain k where k: "y = Suc k" using assms by (cases y) auto
  have months: "[1..<12] = [1, 2, 3, 4, 5, 6, 7, 8, 9, 10, 11]" by (simp add: upt_rec)
  have leap: "Suc k div n = (if n dvd Suc k then Suc (k div n) else k div n)" if "0 < n" for n
    using that by (simp add: div_Suc dvd_eq_mod_eq_0)
  have "int (Suc k div 4) + int (Suc k div 400) - int (Suc k div 100) =
      int (k div 4) + int (k div 400) - int (k div 100) + (if 4 dvd Suc k \<and> (\<not> 100 dvd Suc k \<or> 400 dvd Suc k) then 1 else 0)"
  proof -
    have "(4::nat) dvd 100" "(100::nat) dvd 400" by simp_all
    then have "100 dvd Suc k \<Longrightarrow> 4 dvd Suc k" "400 dvd Suc k \<Longrightarrow> 100 dvd Suc k" by (blast intro: dvd_trans)+
    moreover note leap[of 4] leap[of 100] leap[of 400]
    ultimately show ?thesis by (cases "4 dvd Suc k"; cases "100 dvd Suc k"; cases "400 dvd Suc k"; simp)
  qed
  then show ?thesis unfolding k day_number_def months by (auto simp: days_in_month_def split: if_splits)
qed

lemma next_day_valid:
  assumes "date_valid y m d" "next_day y m d = Some (y', m', d')"
  shows "date_valid y' m' d'" "day_number y' m' d' = day_number y m d + 1"
proof -
  have v: "1 \<le> y" "y \<le> 9999" "1 \<le> m" "m \<le> 12" "1 \<le> d" "d \<le> days_in_month y m" using assms(1) by (auto simp: date_valid_def)
  consider (day) "d < days_in_month y m" | (month) "d = days_in_month y m" "m < 12" | (year) "d = days_in_month y m" "m = 12"
    using v(4,6) by linarith
  then have "date_valid y' m' d' \<and> day_number y' m' d' = day_number y m d + 1"
  proof cases
    case day
    then have "y' = y" "m' = m" "d' = d + 1" using assms(2) by (simp_all add: next_day_def)
    then show ?thesis using v day by (simp add: date_valid_def day_number_def)
  next
    case month
    then have "y' = y" "m' = m + 1" "d' = 1" using assms(2) by (simp_all add: next_day_def)
    then show ?thesis using v month by (simp add: date_valid_def day_number_def)
  next
    case year
    then have "d = 31" by (simp add: days_in_month_def)
    moreover have "y' = y + 1" "m' = 1" "d' = 1" "y < 9999" using assms(2) year by (simp_all add: next_day_def split: if_splits)
    ultimately show ?thesis using year v(1) day_number_year[OF v(1)] by (simp add: date_valid_def)
  qed
  then show "date_valid y' m' d'" "day_number y' m' d' = day_number y m d + 1" by blast+
qed

lemma previous_day_valid:
  assumes "date_valid y m d" "previous_day y m d = Some (y', m', d')"
  shows "date_valid y' m' d'" "day_number y' m' d' = day_number y m d - 1"
proof -
  have v: "1 \<le> y" "y \<le> 9999" "1 \<le> m" "m \<le> 12" "1 \<le> d" "d \<le> days_in_month y m" using assms(1) by (auto simp: date_valid_def)
  consider (day) "1 < d" | (month) "d = 1" "1 < m" | (year) "d = 1" "m = 1" using v(3,5) by linarith
  then have "date_valid y' m' d' \<and> next_day y' m' d' = Some (y, m, d)"
  proof cases
    case day
    then have "y' = y" "m' = m" "d' = d - 1" using assms(2) by (simp_all add: previous_day_def)
    moreover have "1 \<le> d - 1" "d - 1 < days_in_month y m" using day v(6) by linarith+
    ultimately show ?thesis using v day by (simp add: date_valid_def next_day_def)
  next
    case month
    then have "y' = y" "m' = m - 1" "d' = days_in_month y (m - 1)" using assms(2) by (auto simp: previous_day_def)
    moreover have "1 \<le> m - 1" "m - 1 < 12" using month v(4) by linarith+
    ultimately show ?thesis using v month by (simp add: date_valid_def next_day_def)
  next
    case year
    then have "y' = y - 1" "m' = 12" "d' = 31" "1 < y" using assms(2) by (simp_all add: previous_day_def split: if_splits)
    moreover have "1 \<le> y - 1" "y - 1 < 9999" using \<open>1 < y\<close> v(2) by linarith+
    ultimately show ?thesis using v year by (simp add: date_valid_def next_day_def days_in_month_def)
  qed
  then show "date_valid y' m' d'" "day_number y' m' d' = day_number y m d - 1" using next_day_valid(2) by fastforce+
qed

lemma clock_of_minutes: "k < 1440 \<Longrightarrow> k div 60 \<le> 23 \<and> k mod 60 \<le> 59 \<and> int (k div 60) * 60 + int (k mod 60) = int (k::nat)"
  by (simp add: zdiv_int zmod_int) linarith

lemma to_utc_instant:
  assumes "stamp_valid t" "to_utc t = Some u"
  shows "stamp_valid u" "st_offset u = 0" "instant u = instant t"
proof -
  define k where "k = int (st_hour t * 60 + st_minute t) - st_offset t"
  have t: "date_valid (st_year t) (st_month t) (st_day t)" "st_hour t \<le> 23" "st_minute t \<le> 59" "st_second t \<le> 59"
    "st_micro t < 1000000" "\<bar>st_offset t\<bar> < 1440"
    using assms(1) by (auto simp: stamp_valid_def)
  then have k: "- 1440 < k" "k < 2880" by (auto simp: k_def)
  obtain y m d j where u: "u = t\<lparr>st_year := y, st_month := m, st_day := d, st_hour := nat j div 60, st_minute := nat j mod 60, st_offset := 0\<rparr>"
    and j: "0 \<le> j" "j < 1440" "date_valid y m d"
      "day_number y m d * 1440 + j = day_number (st_year t) (st_month t) (st_day t) * 1440 + k"
  proof (cases "k < 0 \<or> 1440 \<le> k")
    case False
    then have "u = t\<lparr>st_year := st_year t, st_month := st_month t, st_day := st_day t, st_hour := nat k div 60, st_minute := nat k mod 60, st_offset := 0\<rparr>"
      using assms(2) by (simp add: to_utc_def Let_def k_def)
    then show ?thesis using False t(1) by (intro that) simp_all
  next
    case True
    show ?thesis
    proof (cases "k < 0")
      case True
      then obtain y m d where p: "previous_day (st_year t) (st_month t) (st_day t) = Some (y, m, d)"
        "u = t\<lparr>st_year := y, st_month := m, st_day := d, st_hour := nat (k + 1440) div 60, st_minute := nat (k + 1440) mod 60, st_offset := 0\<rparr>"
        using assms(2) by (auto simp: to_utc_def Let_def k_def)
      show ?thesis using that[OF p(2)] k True previous_day_valid[OF t(1) p(1)] by simp
    next
      case False
      then obtain y m d where p: "next_day (st_year t) (st_month t) (st_day t) = Some (y, m, d)"
        "u = t\<lparr>st_year := y, st_month := m, st_day := d, st_hour := nat (k - 1440) div 60, st_minute := nat (k - 1440) mod 60, st_offset := 0\<rparr>"
        using assms(2) True by (auto simp: to_utc_def Let_def k_def)
      show ?thesis using that[OF p(2)] k False True next_day_valid[OF t(1) p(1)] by simp
    qed
  qed
  have c: "nat j div 60 \<le> 23" "nat j mod 60 \<le> 59" "int (nat j div 60) * 60 + int (nat j mod 60) = j"
    using clock_of_minutes[of "nat j"] j(1,2) by auto
  show "stamp_valid u" "st_offset u = 0" using c j(3) t by (simp_all add: u stamp_valid_def)
  have "(day_number y m d * 24 + int (nat j div 60)) * 60 + int (nat j mod 60) =
      (day_number (st_year t) (st_month t) (st_day t) * 24 + int (st_hour t)) * 60 + int (st_minute t) - st_offset t"
    using c(3) j(4) by (simp add: k_def algebra_simps)
  then show "instant u = instant t" by (simp add: instant_def u)
qed

section \<open>What is written reads back\<close>

lemma digits_value_snoc: "digits_value (ds @ [c]) = 10 * digits_value ds + (c - 48)"
  by (simp add: digits_value_def)

lemma decimals_facts: "length (decimals k n) = k" "\<forall>c \<in> set (decimals k n). is_digit c" "digits_value (decimals k n) = n mod 10 ^ k"
proof (induction k n rule: decimals.induct)
  case (2 k n)
  { case 2
    then show ?case using "2.IH"(2) by (auto simp: is_digit_def) }
  { case 3
    then show ?case using "2.IH"(3) by (simp add: digits_value_snoc mod_mult2_eq) }
qed (simp_all add: digits_value_def)

lemma two_digits:
  assumes "n < 100"
  obtains a b where "decimals 2 n = [a, b]" "is_digit a" "is_digit b" "digits_value [a, b] = n"
  using decimals_facts[of 2 n] assms that[of "48 + n div 10 mod 10" "48 + n mod 10"] by (simp add: numeral_2_eq_2)

lemma decimals_4: "decimals 4 n = [48 + n div 10 div 10 div 10 mod 10, 48 + n div 10 div 10 mod 10, 48 + n div 10 mod 10, 48 + n mod 10]"
  (is "_ = ?ds")
proof -
  have "decimals (Suc (Suc (Suc (Suc 0)))) n = ?ds" by simp
  moreover have "4 = Suc (Suc (Suc (Suc 0)))" by simp
  ultimately show ?thesis by metis
qed

lemma four_digits:
  assumes "n < 10000"
  obtains a b c d where "decimals 4 n = [a, b, c, d]" "is_digit a" "is_digit b" "is_digit c" "is_digit d" "digits_value [a, b, c, d] = n"
proof -
  obtain a b c d where e: "decimals 4 n = [a, b, c, d]" using decimals_4 by blast
  have "digits_value (decimals 4 n) = n" using decimals_facts(3)[of 4 n] assms by simp
  then show ?thesis using that[OF e] decimals_facts(2)[of 4 n] unfolding e by simp
qed

lemma rstrip_zeros_pad: "\<exists>k. s = rstrip_zeros s @ replicate k 48"
proof -
  have "rev s = takeWhile (\<lambda>c. c = 48) (rev s) @ dropWhile (\<lambda>c. c = 48) (rev s)" by simp
  then have "s = rev (dropWhile (\<lambda>c. c = 48) (rev s)) @ rev (takeWhile (\<lambda>c. c = 48) (rev s))" by (metis rev_append rev_rev_ident)
  moreover have "takeWhile (\<lambda>c. c = 48) (rev s) = replicate (length (takeWhile (\<lambda>c. c = 48) (rev s))) 48"
    by (rule replicate_eqI) (auto dest: set_takeWhileD)
  ultimately show ?thesis unfolding rstrip_zeros_def by (metis rev_replicate)
qed

lemma rstrip_zeros_last: "rstrip_zeros s \<noteq> [] \<Longrightarrow> last (rstrip_zeros s) \<noteq> 48"
  unfolding rstrip_zeros_def using hd_dropWhile[of "\<lambda>c. c = 48" "rev s"] by (simp add: last_rev)

lemma fraction_text:
  assumes "0 < n" "n < 1000000"
  obtains ds c where "rstrip_zeros (decimals 6 n) = ds @ [c]" "length ds \<le> 5" "\<forall>x \<in> set ds. is_digit x" "49 \<le> c" "c \<le> 57"
    "fraction_micro (46 # ds @ [c]) = n"
proof -
  let ?s = "decimals 6 n"
  obtain k where k: "?s = rstrip_zeros ?s @ replicate k 48" using rstrip_zeros_pad by blast
  have v: "digits_value ?s = n" using decimals_facts(3)[of 6 n] assms(2) by simp
  have z: "digits_value (replicate k 48) = 0" for k
    by (induction k) (simp_all add: digits_value_def replicate_append_same[symmetric] del: replicate.simps(2), simp add: digits_value_def)
  have ne: "rstrip_zeros ?s \<noteq> []"
  proof
    assume "rstrip_zeros ?s = []"
    then have "?s = replicate k 48" using k by simp
    then show False using v z[of k] assms(1) by simp
  qed
  then obtain ds c where dc: "rstrip_zeros ?s = ds @ [c]" by (metis rev_exhaust)
  have len: "length ds + 1 + k = 6" using arg_cong[OF k, of length] decimals_facts(1)[of 6 n] dc by simp
  have dig: "\<forall>x \<in> set (ds @ [c]). is_digit x" using decimals_facts(2)[of 6 n] arg_cong[OF k, of set] dc by auto
  have "c \<noteq> 48" using rstrip_zeros_last[OF ne] dc by simp
  then have "49 \<le> c" "c \<le> 57" using dig by (auto simp: is_digit_def)
  moreover have "take 6 ((ds @ [c]) @ replicate 6 48) = ?s"
  proof -
    have "take 6 ((ds @ [c]) @ replicate 6 48) = (ds @ [c]) @ replicate k 48" 
    proof -
      have "6 - length ds = Suc k" using len by simp
      then show ?thesis using len by simp
    qed
    then show ?thesis using k dc by simp
  qed
  then have "fraction_micro (46 # ds @ [c]) = n" using v by (simp add: fraction_micro_def)
  ultimately show ?thesis using that[OF dc] len dig by simp
qed

lemma Times_2_4: "Times 2 r = Cat r (Cat r Empty)" "Times 4 r = Cat r (Cat r (Cat r (Cat r Empty)))"
proof -
  have "Times (Suc (Suc 0)) r = Cat r (Cat r Empty)" "Times (Suc (Suc (Suc (Suc 0)))) r = Cat r (Cat r (Cat r (Cat r Empty)))"
    by simp_all
  then show "Times 2 r = Cat r (Cat r Empty)" "Times 4 r = Cat r (Cat r (Cat r (Cat r Empty)))"
    by (simp_all add: numeral_eq_Suc)
qed

lemma digit_unicode: "is_digit c \<Longrightarrow> unicode_digit c"
  by (auto simp: is_digit_def unicode_digit_def unicode_digit_zeros_def)

text \<open>A text of the common shape, from its digits, its fraction and its zone.\<close>

lemma common_shape:
  assumes "\<forall>c \<in> {y1, y2, y3, y4, m1, m2, d1, d2, h1, h2, i1, i2, x1, x2}. is_digit c"
  shows "fullmatch (Cats (Times 4 (Cls unicode_digit) # Chr 45 # Times 2 (Cls unicode_digit) # Chr 45 # Times 2 (Cls unicode_digit) #
      Chr 84 # Times 2 (Cls unicode_digit) # Chr 58 # Times 2 (Cls unicode_digit) # Chr 58 # Times 2 (Cls unicode_digit) # r # rs))
    (y1 # y2 # y3 # y4 # 45 # m1 # m2 # 45 # d1 # d2 # 84 # h1 # h2 # 58 # i1 # i2 # 58 # x1 # x2 # f) \<longleftrightarrow> f \<in> lang (Cats (r # rs))"
  using assms by (simp add: Times_2_4 Chr_def digit_unicode del: lang.simps flip: fullmatch_iff)

lemma opt_shape: "f \<in> lang (Opt r) \<Longrightarrow> z \<in> lang q \<Longrightarrow> f @ z \<in> lang (Cats [Opt r, q])"
  by (auto simp del: lang_Opt)

lemma opt_none: "z \<in> lang q \<Longrightarrow> z \<in> lang (Cats [Opt r, q])"
  using opt_shape[of "[]" r z q] by simp

lemma fraction_shape:
  assumes "n < 1000000"
  defines "F \<equiv> if n = 0 then [] else 46 # rstrip_zeros (decimals 6 n)"
  shows "fraction_micro F = n" "\<forall>c \<in> set F. c < 128"
    "F \<in> lang (Opt (Cats [Chr 46, Between 1 6 (Cls unicode_digit)]))"
    "F \<in> lang (Opt (Cats [Chr 46, AtMost 5 (Cls unicode_digit), Cls (\<lambda>c. 49 \<le> c \<and> c \<le> 57)]))"
proof -
  have "fraction_micro F = n \<and> (\<forall>c \<in> set F. c < 128) \<and> F \<in> lang (Opt (Cats [Chr 46, Between 1 6 (Cls unicode_digit)])) \<and>
    F \<in> lang (Opt (Cats [Chr 46, AtMost 5 (Cls unicode_digit), Cls (\<lambda>c. 49 \<le> c \<and> c \<le> 57)]))"
  proof (cases "n = 0")
    case True
    then show ?thesis by (simp add: F_def fraction_micro_def)
  next
    case False
    then obtain ds c where f: "rstrip_zeros (decimals 6 n) = ds @ [c]" "length ds \<le> 5" "\<forall>x \<in> set ds. is_digit x" "49 \<le> c" "c \<le> 57"
      "fraction_micro (46 # ds @ [c]) = n" using fraction_text[of n] assms(1) by blast
    have F: "F = 46 # ds @ [c]" using False f(1) by (simp add: F_def)
    have "\<forall>x \<in> set (ds @ [c]). unicode_digit x" using f(3-5) digit_unicode by (auto simp: is_digit_def)
    moreover obtain a ls where a: "ds @ [c] = [a] @ ls" by (cases ds) auto
    moreover have "length ls = length ds" using arg_cong[OF a, of length] by simp
    ultimately have "[a] \<in> lang (Times 1 (Cls unicode_digit))" "ls \<in> lang (AtMost (6 - 1) (Cls unicode_digit))"
      using f(2) by auto
    then have "ds @ [c] \<in> lang (Between 1 6 (Cls unicode_digit))" unfolding Between_def a lang.simps(5) by blast
    moreover have "ds @ [c] \<in> lang (Cats [AtMost 5 (Cls unicode_digit), Cls (\<lambda>c. 49 \<le> c \<and> c \<le> 57)])"
      using f(2-5) digit_unicode by auto
    ultimately show ?thesis using f(3-6) unfolding F by (auto simp: is_digit_def simp del: lang.simps(5))
  qed
  then show "fraction_micro F = n" "\<forall>c \<in> set F. c < 128"
    "F \<in> lang (Opt (Cats [Chr 46, Between 1 6 (Cls unicode_digit)]))"
    "F \<in> lang (Opt (Cats [Chr 46, AtMost 5 (Cls unicode_digit), Cls (\<lambda>c. 49 \<le> c \<and> c \<le> 57)]))" by blast+
qed

lemma stamp_text_reads:
  assumes "stamp_valid t" "st_offset t = 0" "year_text (st_year t) = decimals 4 (st_year t)"
  shows "parse_timestamp (stamp_text year_text t) = Some t" "is_ok (validate_canonical_timestamp (stamp_text year_text t))"
proof -
  have t: "st_year t < 10000" "st_month t < 100" "st_day t < 100" "st_hour t < 100" "st_minute t < 100" "st_second t < 100" "st_micro t < 1000000"
    using assms(1) by (auto simp: stamp_valid_def date_valid_def days_in_month_def split: if_splits)
  obtain y1 y2 y3 y4 where y: "decimals 4 (st_year t) = [y1, y2, y3, y4]" "is_digit y1" "is_digit y2" "is_digit y3" "is_digit y4"
    "digits_value [y1, y2, y3, y4] = st_year t" using four_digits[OF t(1)] .
  obtain m1 m2 where m: "decimals 2 (st_month t) = [m1, m2]" "is_digit m1" "is_digit m2" "digits_value [m1, m2] = st_month t"
    using two_digits[OF t(2)] .
  obtain d1 d2 where d: "decimals 2 (st_day t) = [d1, d2]" "is_digit d1" "is_digit d2" "digits_value [d1, d2] = st_day t"
    using two_digits[OF t(3)] .
  obtain h1 h2 where h: "decimals 2 (st_hour t) = [h1, h2]" "is_digit h1" "is_digit h2" "digits_value [h1, h2] = st_hour t"
    using two_digits[OF t(4)] .
  obtain i1 i2 where i: "decimals 2 (st_minute t) = [i1, i2]" "is_digit i1" "is_digit i2" "digits_value [i1, i2] = st_minute t"
    using two_digits[OF t(5)] .
  obtain x1 x2 where x: "decimals 2 (st_second t) = [x1, x2]" "is_digit x1" "is_digit x2" "digits_value [x1, x2] = st_second t"
    using two_digits[OF t(6)] .
  define F where "F = (if st_micro t = 0 then [] else 46 # rstrip_zeros (decimals 6 (st_micro t)))"
  have F: "fraction_micro F = st_micro t" "\<forall>c \<in> set F. c < 128"
    "F @ [90] \<in> lang (Cats [Opt (Cats [Chr 46, Between 1 6 (Cls unicode_digit)]),
       Alt (Chr 90) (Cats [Cls (\<lambda>c. c = 43 \<or> c = 45), Times 2 (Cls unicode_digit), Chr 58, Times 2 (Cls unicode_digit)])])"
    "F @ [90] \<in> lang (Cats [Opt (Cats [Chr 46, AtMost 5 (Cls unicode_digit), Cls (\<lambda>c. 49 \<le> c \<and> c \<le> 57)]), Chr 90])"
    using fraction_shape[OF t(7), folded F_def] by (auto intro!: opt_shape simp del: Cats.simps lang.simps(5) lang_Opt)
  define S where "S = stamp_text year_text t"
  have S: "S = y1 # y2 # y3 # y4 # 45 # m1 # m2 # 45 # d1 # d2 # 84 # h1 # h2 # 58 # i1 # i2 # 58 # x1 # x2 # F @ [90]"
    by (simp add: S_def stamp_text_def assms(3) y(1) m(1) d(1) h(1) i(1) x(1) F_def)
  have digits: "\<forall>c \<in> {y1, y2, y3, y4, m1, m2, d1, d2, h1, h2, i1, i2, x1, x2}. is_digit c"
    using y m d h i x by simp
  have fields: "field_at 0 4 S = st_year t" "field_at 5 2 S = st_month t" "field_at 8 2 S = st_day t" "field_at 11 2 S = st_hour t"
    "field_at 14 2 S = st_minute t" "field_at 17 2 S = st_second t"
    using y(6) m(4) d(4) h(4) i(4) x(4) by (simp_all add: field_at_def S)
  have ascii: "list_all (\<lambda>c. c < 128) S" using digits F(2) by (auto simp: S list_all_iff is_digit_def)
  have "fullmatch TIMESTAMP_PATTERN S" "fullmatch CANONICAL_TIMESTAMP_PATTERN S"
    unfolding TIMESTAMP_PATTERN_def CANONICAL_TIMESTAMP_PATTERN_def Let_def S common_shape[OF digits] using F(3,4) .
  moreover have "last S = 90" "drop (length S - 1) S = [90]" "take (length S - 1 - 19) (drop 19 S) = F" by (simp_all add: S)
  moreover have "iso_instant S"
    using assms(1) ascii fields by (simp add: iso_instant_def stamp_valid_def date_valid_def)
  moreover have "stamp_valid \<lparr>st_year = st_year t, st_month = st_month t, st_day = st_day t, st_hour = st_hour t, st_minute = st_minute t,
    st_second = st_second t, st_micro = st_micro t, st_offset = 0\<rparr>" using assms(1) by (simp add: stamp_valid_def)
  ultimately show "parse_timestamp (stamp_text year_text t) = Some t" "is_ok (validate_canonical_timestamp (stamp_text year_text t))"
    using ascii fields F(1) assms(1,2) unfolding S_def[symmetric]
    by (simp_all add: parse_timestamp_def zone_offset_def Let_def validate_canonical_timestamp_def)
qed

text \<open>
  What \<^verbatim>\<open>strftime("%Y")\<close> writes: some platforms pad the year to four digits, others (glibc) do not. The two texts are the same from
  the year 1000 on.
\<close>

definition strftime_years :: "(nat \<Rightarrow> pystr) \<Rightarrow> bool" where
  "strftime_years year_text \<longleftrightarrow> (\<forall>y. 1 \<le> y \<longrightarrow> y \<le> 9999 \<longrightarrow> year_text y \<in> {decimals 4 y, nat_repr y})"

lemma nat_repr_decimals:
  assumes "1000 \<le> y" "y \<le> 9999"
  shows "nat_repr y = decimals 4 y"
proof -
  have digits: "10 \<le> y div 10 div 10" "y div 10 div 10 div 10 < 10" using assms by linarith+
  then have "10 \<le> y div 10" "10 \<le> y" by linarith+
  with digits show ?thesis by (simp add: decimals_4 nat_repr.simps[of y] nat_repr.simps[of "y div 10"]
      nat_repr.simps[of "y div 10 div 10"] nat_repr.simps[of "y div 10 div 10 div 10"] del: div_mult2_eq)
qed

lemma strftime_cases:
  assumes "strftime_years year_text" "stamp_valid u"
  obtains (padded) "year_text (st_year u) = decimals 4 (st_year u)"
    | (short) "year_text (st_year u) \<noteq> decimals 4 (st_year u)" "year_text (st_year u) = nat_repr (st_year u)" "st_year u < 1000"
proof -
  have y: "1 \<le> st_year u" "st_year u \<le> 9999" using assms(2) by (simp_all add: stamp_valid_def date_valid_def)
  then have "year_text (st_year u) = decimals 4 (st_year u) \<or> year_text (st_year u) = nat_repr (st_year u)"
    using assms(1) by (simp add: strftime_years_def)
  moreover have "nat_repr (st_year u) = decimals 4 (st_year u)" if "\<not> st_year u < 1000" using nat_repr_decimals that y(2) by simp
  ultimately show ?thesis using padded short by metis
qed

lemma short_year_refused:
  assumes "length ds < 4"
  shows "ds @ 45 # t \<notin> lang (Cats (Times 4 (Cls unicode_digit) # r # rs))"
proof
  assume "ds @ 45 # t \<in> lang (Cats (Times 4 (Cls unicode_digit) # r # rs))"
  then obtain a b c d z where z: "ds @ 45 # t = [a, b, c, d] @ z" and u: "unicode_digit a" "unicode_digit b" "unicode_digit c" "unicode_digit d"
    by (auto simp: Times_2_4)
  have "\<not> unicode_digit 45" by (simp add: unicode_digit_def unicode_digit_zeros_def)
  moreover have "(45::nat) \<in> set (take 4 (ds @ 45 # t))" using assms by (simp add: take_Cons')
  ultimately show False using u unfolding z by auto
qed

text \<open>A stamp whose year the platform does not pad is written in a text that nothing reads.\<close>

lemma short_stamp_text:
  assumes "length (year_text (st_year u)) < 4"
  shows "parse_timestamp (stamp_text year_text u) = None" "\<not> is_ok (validate_canonical_timestamp (stamp_text year_text u))"
proof -
  obtain t where t: "stamp_text year_text u = year_text (st_year u) @ 45 # t" by (simp add: stamp_text_def)
  have "\<not> fullmatch TIMESTAMP_PATTERN (stamp_text year_text u)" "\<not> fullmatch CANONICAL_TIMESTAMP_PATTERN (stamp_text year_text u)"
    unfolding TIMESTAMP_PATTERN_def CANONICAL_TIMESTAMP_PATTERN_def Let_def t fullmatch_iff by (rule short_year_refused[OF assms])+
  then show "parse_timestamp (stamp_text year_text u) = None" "\<not> is_ok (validate_canonical_timestamp (stamp_text year_text u))"
    by (simp_all add: parse_timestamp_def validate_canonical_timestamp_def)
qed

lemma length_short_year: "n < 1000 \<Longrightarrow> length (nat_repr n) < 4"
  using length_nat_repr[of n 3] by simp

lemma parse_timestamp_valid: "parse_timestamp s = Some t \<Longrightarrow> stamp_valid t"
  by (auto simp: parse_timestamp_def Let_def split: if_splits option.splits)

lemma canonical_timestamp_stamp:
  assumes "canonical_timestamp year_text s = Some c"
  obtains t u where "parse_timestamp s = Some t" "stamp_valid u" "st_offset u = 0" "instant u = instant t" "c = stamp_text year_text u"
proof -
  obtain t u where t: "parse_timestamp s = Some t" "to_utc t = Some u" "c = stamp_text year_text u"
    using assms by (auto simp: canonical_timestamp_def split: option.splits)
  from that[OF t(1) to_utc_instant[OF parse_timestamp_valid[OF t(1)] t(2)] t(3)] show ?thesis .
qed

lemma canonical_timestamp_again:
  assumes "stamp_valid u" "st_offset u = 0" "parse_timestamp (stamp_text year_text u) = Some u"
  shows "canonical_timestamp year_text (stamp_text year_text u) = Some (stamp_text year_text u)"
proof -
  have "to_utc u = Some u" using assms(1,2) by (auto simp: to_utc_def stamp_valid_def Let_def nat_add_distrib nat_mult_distrib)
  then show ?thesis using assms(3) by (simp add: canonical_timestamp_def)
qed

section \<open>Properties\<close>

text \<open>
  C38 (timestamps_canonical). A timestamp that is accepted is written as the text of a UTC stamp of the same instant, whatever its
  offset. If the platform writes that year in four digits, as every platform does from the year 1000 on, the text is in the
  canonical form of the records, reads back as that stamp, and normalizing it again changes nothing. Otherwise (an unpadded year
  before 1000, as on glibc) the text is not canonical, and normalizing it again refuses it.
\<close>

theorem timestamps_canonical:
  assumes "strftime_years year_text" "canonical_timestamp year_text s = Some c"
  shows "\<exists>t u. parse_timestamp s = Some t \<and> stamp_valid u \<and> st_offset u = 0 \<and> instant u = instant t \<and> c = stamp_text year_text u \<and>
    (if year_text (st_year u) = decimals 4 (st_year u)
     then parse_timestamp c = Some u \<and> is_ok (validate_canonical_timestamp c) \<and> canonical_timestamp year_text c = Some c
     else st_year u < 1000 \<and> \<not> is_ok (validate_canonical_timestamp c) \<and> canonical_timestamp year_text c = None)"
proof -
  obtain t u where u: "parse_timestamp s = Some t" "stamp_valid u" "st_offset u = 0" "instant u = instant t" "c = stamp_text year_text u"
    by (rule canonical_timestamp_stamp[OF assms(2)])
  from assms(1) u(2) have "if year_text (st_year u) = decimals 4 (st_year u)
     then parse_timestamp c = Some u \<and> is_ok (validate_canonical_timestamp c) \<and> canonical_timestamp year_text c = Some c
     else st_year u < 1000 \<and> \<not> is_ok (validate_canonical_timestamp c) \<and> canonical_timestamp year_text c = None"
  proof (cases rule: strftime_cases)
    case padded
    note reads = stamp_text_reads[where year_text = year_text, OF u(2,3) padded]
    then show ?thesis using padded canonical_timestamp_again[OF u(2,3) reads(1)] unfolding u(5) by simp
  next
    case short
    have "length (year_text (st_year u)) < 4" using short(2) length_short_year[OF short(3)] by simp
    from short_stamp_text[where year_text = year_text, OF this] short(1,3) show ?thesis
      unfolding u(5) by (simp add: canonical_timestamp_def)
  qed
  with u show ?thesis by blast
qed

text \<open>The demonstration years: a platform that pads and one that does not.\<close>

lemma demo_years: "strftime_years (decimals 4)" "strftime_years nat_repr"
  by (simp_all add: strftime_years_def)

lemma demo_zoned:
  assumes "\<forall>c \<in> {y1, y2, y3, y4, m1, m2, d1, d2, h1, h2, i1, i2}. is_digit c"
    "t = \<lparr>st_year = digits_value [y1, y2, y3, y4], st_month = digits_value [m1, m2], st_day = digits_value [d1, d2],
       st_hour = digits_value [h1, h2], st_minute = digits_value [i1, i2], st_second = 0, st_micro = 0, st_offset = 60\<rparr>"
    "stamp_valid t"
  shows "parse_timestamp (y1 # y2 # y3 # y4 # 45 # m1 # m2 # 45 # d1 # d2 # 84 # h1 # h2 # 58 # i1 # i2 # 58 # 48 # 48 # [43, 48, 49, 58, 48, 48]) = Some t"
    (is "parse_timestamp ?s = _")
proof -
  have "[43, 48, 49, 58, 48, 48] \<in> lang (Alt (Chr 90) (Cats [Cls (\<lambda>c. c = 43 \<or> c = 45), Times 2 (Cls unicode_digit), Chr 58, Times 2 (Cls unicode_digit)]))"
    unfolding fullmatch_iff[symmetric] by (simp add: Times_2_4 Chr_def digit_unicode is_digit_def)
  then have "fullmatch TIMESTAMP_PATTERN ?s"
    unfolding TIMESTAMP_PATTERN_def Let_def using assms(1)
    by (subst common_shape) (simp add: is_digit_def, erule opt_none)
  moreover have "list_all (\<lambda>c. c < 128) ?s" using assms(1) by (auto simp: is_digit_def)
  ultimately show ?thesis using assms(3) unfolding assms(2)
    by (simp add: parse_timestamp_def zone_offset_def field_at_def fraction_micro_def Let_def) (simp add: digits_value_def)
qed

lemma demo_timestamp:
  assumes "year_text 2024 = [50, 48, 50, 52]"
  shows "canonical_timestamp year_text (lit ''2024-03-01T00:30:00+01:00'') = Some (lit ''2024-02-29T23:30:00Z'')"
proof -
  let ?t = "\<lparr>st_year = 2024, st_month = 3, st_day = 1, st_hour = 0, st_minute = 30, st_second = 0, st_micro = 0, st_offset = 60\<rparr>"
  have "stamp_valid ?t" by (simp add: stamp_valid_def date_valid_def days_in_month_def)
  then have "parse_timestamp (lit ''2024-03-01T00:30:00+01:00'') = Some ?t"
    using demo_zoned[of 50 48 50 52 48 51 48 49 48 48 51 48 ?t] by (simp add: lit_def is_digit_def digits_value_def)
  moreover have "decimals 2 2 = [48, 50]" "decimals 2 29 = [50, 57]" "decimals 2 23 = [50, 51]" "decimals 2 30 = [51, 48]" "decimals 2 0 = [48, 48]"
    by (simp_all add: numeral_2_eq_2)
  ultimately show ?thesis using assms
    by (simp add: canonical_timestamp_def to_utc_def previous_day_def days_in_month_def stamp_text_def lit_def)
qed

lemma demo_short_timestamp: "canonical_timestamp nat_repr (lit ''0999-03-01T10:30:00+01:00'') = Some (lit ''999-03-01T09:30:00Z'')"
proof -
  let ?t = "\<lparr>st_year = 999, st_month = 3, st_day = 1, st_hour = 10, st_minute = 30, st_second = 0, st_micro = 0, st_offset = 60\<rparr>"
  have "stamp_valid ?t" by (simp add: stamp_valid_def date_valid_def days_in_month_def)
  then have "parse_timestamp (lit ''0999-03-01T10:30:00+01:00'') = Some ?t"
    using demo_zoned[of 48 57 57 57 48 51 48 49 49 48 51 48 ?t] by (simp add: lit_def is_digit_def digits_value_def)
  moreover have "decimals 2 3 = [48, 51]" "decimals 2 1 = [48, 49]" "decimals 2 9 = [48, 57]" "decimals 2 30 = [51, 48]" "decimals 2 0 = [48, 48]"
    by (simp_all add: numeral_2_eq_2)
  moreover have "nat_repr 999 = [57, 57, 57]" by (simp add: nat_repr.simps)
  ultimately show ?thesis by (simp add: canonical_timestamp_def to_utc_def stamp_text_def lit_def)
qed

lemma demo_year_text: "decimals 4 2024 = [50, 48, 50, 52]" "nat_repr 2024 = [50, 48, 50, 52]"
  by (simp_all add: decimals_4 nat_repr.simps)

lemma demo_short_refused: "\<not> is_ok (validate_canonical_timestamp (lit ''999-03-01T09:30:00Z''))"
proof -
  have "lit ''999-03-01T09:30:00Z'' \<notin> lang (Cats (Times 4 (Cls unicode_digit) # r # rs))" for r rs
    using short_year_refused[of "[57, 57, 57]"] by (simp add: lit_def)
  then have "\<not> fullmatch CANONICAL_TIMESTAMP_PATTERN (lit ''999-03-01T09:30:00Z'')"
    unfolding CANONICAL_TIMESTAMP_PATTERN_def Let_def fullmatch_iff by blast
  then show ?thesis by (simp add: validate_canonical_timestamp_def)
qed

theorem timestamps_canonical_witness:
  "canonical_timestamp nat_repr (lit ''2024-03-01T00:30:00+01:00'') = Some (lit ''2024-02-29T23:30:00Z'') \<and>
   canonical_timestamp nat_repr (lit ''0999-03-01T10:30:00+01:00'') = Some (lit ''999-03-01T09:30:00Z'') \<and>
   canonical_timestamp nat_repr (lit ''999-03-01T09:30:00Z'') = None"
  using timestamps_canonical[OF demo_years(2) demo_short_timestamp] demo_short_timestamp demo_short_refused
    demo_timestamp[where year_text = nat_repr, OF demo_year_text(2)] by (metis (no_types))

end
