(* ===== verification/Csv.thy ===== *)
theory Csv
  imports Prelude
begin

text \<open>
  \<^verbatim>\<open>csv.reader\<close> as \<^verbatim>\<open>shared/dataset_registry.py\<close> uses it: the lines of \<^verbatim>\<open>io.StringIO(text, newline="")\<close>, a delimiter, double
  quotes that are doubled to escape them, and \<^verbatim>\<open>strict=True\<close>. The states are those of the parser in \<^verbatim>\<open>_csv.c\<close>; \<open>None\<close> for a
  character is the end of a line. The limit on the length of a field is set to the size of the largest file that is read, so no
  field reaches it.
\<close>

section \<open>Lines\<close>

fun lines_of :: "pystr \<Rightarrow> pystr \<Rightarrow> pystr list" where
  "lines_of acc [] = (if acc = [] then [] else [acc])"
| "lines_of acc (c # cs) =
     (if c = 10 then (acc @ [10]) # lines_of [] cs
      else if c = 13 then
        (case cs of
           d # ds \<Rightarrow> if d = 10 then (acc @ [13, 10]) # lines_of [] ds else (acc @ [13]) # lines_of [] cs
         | [] \<Rightarrow> [acc @ [13]])
      else lines_of (acc @ [c]) cs)"

section \<open>The parser\<close>

datatype csv_state = START_RECORD | START_FIELD | IN_FIELD | IN_QUOTED_FIELD | QUOTE_IN_QUOTED_FIELD | EAT_CRNL

record csv_parse =
  cp_state :: csv_state
  cp_field :: pystr
  cp_fields :: "pystr list"

definition csv_reset :: csv_parse where
  "csv_reset = \<lparr>cp_state = START_RECORD, cp_field = [], cp_fields = []\<rparr>"

definition save_field :: "csv_state \<Rightarrow> csv_parse \<Rightarrow> csv_parse" where
  "save_field next_state p = \<lparr>cp_state = next_state, cp_field = [], cp_fields = cp_fields p @ [cp_field p]\<rparr>"

definition add_char :: "csv_state \<Rightarrow> nat \<Rightarrow> csv_parse \<Rightarrow> csv_parse" where
  "add_char next_state c p = p\<lparr>cp_state := next_state, cp_field := cp_field p @ [c]\<rparr>"

definition newline :: "nat option \<Rightarrow> bool" where
  "newline c \<longleftrightarrow> c = Some 10 \<or> c = Some 13"

definition after_line :: "nat option \<Rightarrow> csv_state" where
  "after_line c = (if c = None then START_RECORD else EAT_CRNL)"

definition start_field :: "nat \<Rightarrow> csv_parse \<Rightarrow> nat option \<Rightarrow> csv_parse" where
  "start_field delimiter p c =
     (if newline c \<or> c = None then save_field (after_line c) p
      else if c = Some 34 then p\<lparr>cp_state := IN_QUOTED_FIELD\<rparr>
      else if c = Some delimiter then save_field START_FIELD p
      else add_char IN_FIELD (the c) p)"

text \<open>One character; \<open>None\<close> is \<^verbatim>\<open>csv.Error\<close>.\<close>

fun process_char :: "nat \<Rightarrow> csv_parse \<Rightarrow> nat option \<Rightarrow> csv_parse option" where
  "process_char delimiter p c =
     (case cp_state p of
        START_RECORD \<Rightarrow>
          if c = None then Some p
          else if newline c then Some (p\<lparr>cp_state := EAT_CRNL\<rparr>)
          else Some (start_field delimiter p c)
      | START_FIELD \<Rightarrow> Some (start_field delimiter p c)
      | IN_FIELD \<Rightarrow>
          if newline c \<or> c = None then Some (save_field (after_line c) p)
          else if c = Some delimiter then Some (save_field START_FIELD p)
          else Some (add_char IN_FIELD (the c) p)
      | IN_QUOTED_FIELD \<Rightarrow>
          if c = None then Some p
          else if c = Some 34 then Some (p\<lparr>cp_state := QUOTE_IN_QUOTED_FIELD\<rparr>)
          else Some (add_char IN_QUOTED_FIELD (the c) p)
      | QUOTE_IN_QUOTED_FIELD \<Rightarrow>
          if c = Some 34 then Some (add_char IN_QUOTED_FIELD 34 p)
          else if c = Some delimiter then Some (save_field START_FIELD p)
          else if newline c \<or> c = None then Some (save_field (after_line c) p)
          else None
      | EAT_CRNL \<Rightarrow>
          if newline c then Some p
          else if c = None then Some (p\<lparr>cp_state := START_RECORD\<rparr>)
          else None)"

declare process_char.simps [simp del]

fun process_chars :: "nat \<Rightarrow> csv_parse \<Rightarrow> nat option list \<Rightarrow> csv_parse option" where
  "process_chars delimiter p [] = Some p"
| "process_chars delimiter p (c # cs) =
     (case process_char delimiter p c of None \<Rightarrow> None | Some q \<Rightarrow> process_chars delimiter q cs)"

definition process_line :: "nat \<Rightarrow> csv_parse \<Rightarrow> pystr \<Rightarrow> csv_parse option" where
  "process_line delimiter p text_line = process_chars delimiter p (map Some text_line @ [None])"

text \<open>\<^verbatim>\<open>next(reader)\<close>: a record with the lines after it, the end of the input, or an error.\<close>

datatype csv_step = CsvError | CsvEnd | CsvRow "pystr list" "pystr list"

fun read_record :: "nat \<Rightarrow> csv_parse \<Rightarrow> pystr list \<Rightarrow> csv_step" where
  "read_record delimiter p [] =
     (if cp_field p \<noteq> [] \<or> cp_state p = IN_QUOTED_FIELD then CsvError else CsvEnd)"
| "read_record delimiter p (l # ls) =
     (case process_line delimiter p l of
        None \<Rightarrow> CsvError
      | Some q \<Rightarrow> if cp_state q = START_RECORD then CsvRow (cp_fields q) ls else read_record delimiter q ls)"

lemma read_record_shorter: "read_record delimiter p ls = CsvRow row rest \<Longrightarrow> length rest < length ls"
  by (induction ls arbitrary: p) (auto split: option.splits if_splits, force)

text \<open>The rows after the header, with a limit on their number.\<close>

datatype csv_outcome = CsvBad | CsvTooLong nat | CsvRows "pystr list list"

function read_rows :: "nat \<Rightarrow> nat \<Rightarrow> nat \<Rightarrow> pystr list list \<Rightarrow> pystr list \<Rightarrow> csv_outcome" where
  "read_rows delimiter maximum n acc ls =
     (case read_record delimiter csv_reset ls of
        CsvError \<Rightarrow> CsvBad
      | CsvEnd \<Rightarrow> CsvRows acc
      | CsvRow row rest \<Rightarrow>
          if n + 1 > maximum then CsvTooLong (n + 1) else read_rows delimiter maximum (n + 1) (acc @ [row]) rest)"
  by pat_completeness auto
termination
  by (relation "measure (\<lambda>(_, _, _, _, ls). length ls)") (auto dest: read_record_shorter)

declare read_rows.simps [simp del]

end
