(* ===== verification/Normalization.thy ===== *)
theory Normalization
  imports Timestamps Csv Record_Documents Reconcile
begin

text \<open>
  \<^verbatim>\<open>shared/dataset_registry.py\<close>, from the rows of an accepted source to the normalized table and the record that binds it: the
  closed errors, the cells of JSON and CSV sources, the ledger of normalization events, and the two records. Exceptions that
  the module lets through are values of their own.
\<close>

section \<open>Errors and limits\<close>

datatype registry_exc =
    RegistryX host_failure_code details
  | ValidationX
  | OverflowX
  | ValueX pystr

definition MAX_INLINE_JSON_BYTES :: nat where "MAX_INLINE_JSON_BYTES = 512 * 1024"
definition MAX_NORMALIZED_PAYLOAD_BYTES :: nat where "MAX_NORMALIZED_PAYLOAD_BYTES = 512 * 1024"
definition MAX_DECODED_CELL_BYTES :: nat where "MAX_DECODED_CELL_BYTES = 64 * 1024"

definition limit_error :: "string \<Rightarrow> nat \<Rightarrow> nat \<Rightarrow> registry_exc" where
  "limit_error name maximum actual = RegistryX HF_INPUT_LIMIT_EXCEEDED (limit_detail name maximum actual)"

definition invalid_dataset :: "string \<Rightarrow> registry_exc" where
  "invalid_dataset code = RegistryX HF_INVALID_DATASET [(KStr (lit ''finding_codes''), PList [jstr code])]"

definition registry_utf8_size :: "pystr \<Rightarrow> registry_exc + nat" where
  "registry_utf8_size s = (case utf8_encode s of None \<Rightarrow> Inl (invalid_dataset ''invalid_unicode'') | Some b \<Rightarrow> Inr (length b))"

section \<open>Requests\<close>

datatype dataset_source =
    InlineRowsSource "details list"
  | InlineJsonSource pystr
  | LocalCsvSource pystr csv_delimiter
  | LocalJsonSource pystr

record registration =
  rg_source :: dataset_source
  rg_columns :: "record_column list"
  rg_semantics :: dataset_semantics
  rg_provenance :: caller_provenance
  rg_external_preprocessing :: external_preprocessing

fun dataset_source_valid :: "dataset_source \<Rightarrow> bool" where
  "dataset_source_valid (InlineRowsSource rows) =
     (rows \<noteq> [] \<and> length rows \<le> MAX_DATASET_ROWS \<and>
      list_all (\<lambda>row. json_value (PDict row) \<and> distinct (map fst row) \<and>
         list_all (\<lambda>kv. pred_option (utf8_within 1 240) (key_str (fst kv))) row \<and> is_ok (canonical_json_bytes (PDict row))) rows)"
| "dataset_source_valid (InlineJsonSource s) = utf8_within 1 MAX_INLINE_JSON_BYTES s"
| "dataset_source_valid (LocalCsvSource path delimiter) = utf8_within 1 4096 path"
| "dataset_source_valid (LocalJsonSource path) = utf8_within 1 4096 path"

definition registration_valid :: "registration \<Rightarrow> bool" where
  "registration_valid r \<longleftrightarrow>
     dataset_source_valid (rg_source r) \<and> rg_columns r \<noteq> [] \<and> length (rg_columns r) \<le> MAX_DATASET_COLUMNS \<and>
     list_all record_column_valid (rg_columns r) \<and> dataset_semantics_valid (rg_semantics r) \<and>
     dataset_provenance_valid (rg_provenance r) \<and> external_preprocessing_valid (rg_external_preprocessing r) \<and>
     distinct (map rc_field_id (rg_columns r)) \<and> distinct (map rc_source_name (rg_columns r)) \<and>
     length (filter (\<lambda>c. rc_role c = R_TIMESTAMP) (rg_columns r)) \<le> 1"

definition validate_caller_text :: "registration \<Rightarrow> registry_exc + unit" where
  "validate_caller_text r =
     (let p = rg_provenance r in
      bindE (registry_utf8_size (p_label p)) (\<lambda>n.
      if n > 240 then Inl (invalid_dataset ''provenance_text_too_large'')
      else bindE (mapE (\<lambda>s. bindE (registry_utf8_size s) (\<lambda>n.
             if n > 500 then Inl (invalid_dataset ''provenance_text_too_large'') else Inr ())) (p_references p @ assumptions p)) (\<lambda>_.
           Inr ())))"

section \<open>Cells\<close>

definition validate_cell_size :: "pystr \<Rightarrow> registry_exc + unit" where
  "validate_cell_size s =
     bindE (registry_utf8_size s) (\<lambda>n.
     if n > MAX_DECODED_CELL_BYTES then Inl (limit_error ''decoded_cell_bytes'' MAX_DECODED_CELL_BYTES n) else Inr ())"

definition timestamp_cell :: "(nat \<Rightarrow> pystr) \<Rightarrow> pystr \<Rightarrow> registry_exc + pystr" where
  "timestamp_cell year_text s =
     (case canonical_timestamp year_text s of None \<Rightarrow> Inl (invalid_dataset ''invalid_timestamp'') | Some c \<Rightarrow> Inr c)"

text \<open>\<^verbatim>\<open>math.isfinite\<close> converts an integer to a float first.\<close>

definition number_value :: "pyval \<Rightarrow> registry_exc + unit" where
  "number_value v =
     (let bad = Inl (invalid_dataset ''invalid_number_cell'') in
      case v of
        PInt i \<Rightarrow>
          if f64_round_int i = None then Inl OverflowX
          else if \<bar>i\<bar> > MAX_SAFE_INTEGER then bad
          else (case canonical_json_bytes v of Inl _ \<Rightarrow> bad | Inr _ \<Rightarrow> Inr ())
      | PFloat x \<Rightarrow>
          if \<not> f64_finite x then bad
          else (case canonical_json_bytes v of Inl _ \<Rightarrow> bad | Inr _ \<Rightarrow> Inr ())
      | _ \<Rightarrow> bad)"

definition json_cell :: "(nat \<Rightarrow> pystr) \<Rightarrow> data_type \<Rightarrow> pyval \<Rightarrow> registry_exc + pyval \<times> bool" where
  "json_cell year_text t v =
     (if v = PNone then Inr (PNone, False)
      else case t of
        T_BOOLEAN \<Rightarrow> (case v of PBool _ \<Rightarrow> Inr (v, False) | _ \<Rightarrow> Inl (invalid_dataset ''invalid_boolean_cell''))
      | T_INTEGER \<Rightarrow>
          (case v of
             PInt i \<Rightarrow> if \<bar>i\<bar> > MAX_SAFE_INTEGER then Inl (invalid_dataset ''invalid_integer_cell'') else Inr (v, False)
           | _ \<Rightarrow> Inl (invalid_dataset ''invalid_integer_cell''))
      | T_NUMBER \<Rightarrow> bindE (number_value v) (\<lambda>_. Inr (v, False))
      | T_STRING \<Rightarrow>
          (case v of
             PStr s \<Rightarrow> bindE (validate_cell_size s) (\<lambda>_. Inr (v, False))
           | _ \<Rightarrow> Inl (invalid_dataset ''invalid_string_cell''))
      | T_TIMESTAMP \<Rightarrow>
          (case v of
             PStr s \<Rightarrow>
               bindE (validate_cell_size s) (\<lambda>_.
               bindE (timestamp_cell year_text s) (\<lambda>c. Inr (PStr c, c \<noteq> s)))
           | _ \<Rightarrow> Inl (invalid_dataset ''invalid_timestamp'')))"

definition JSON_INTEGER :: rx where
  "JSON_INTEGER = Cats [Opt (Chr 45), Alt (Chr 48) (Cat (Cls (\<lambda>c. 49 \<le> c \<and> c \<le> 57)) (Star (Cls unicode_digit)))]"

definition JSON_NUMBER :: rx where
  "JSON_NUMBER =
     Cats [Opt (Chr 45), Alt (Chr 48) (Cat (Cls (\<lambda>c. 49 \<le> c \<and> c \<le> 57)) (Star (Cls unicode_digit))),
           Opt (Cat (Chr 46) (Plus (Cls unicode_digit))),
           Opt (Cats [Cls (\<lambda>c. c = 101 \<or> c = 69), Opt (Cls (\<lambda>c. c = 43 \<or> c = 45)), Plus (Cls unicode_digit)])]"

text \<open>\<^verbatim>\<open>int(text)\<close>: a digit of any script has its decimal value; more than 4300 digits are refused.\<close>

definition digit_of :: "nat \<Rightarrow> nat" where
  "digit_of c = (case List.find (\<lambda>z. z \<le> c \<and> c < z + 10) unicode_digit_zeros of None \<Rightarrow> 0 | Some z \<Rightarrow> c - z)"

definition int_of_csv :: "pystr \<Rightarrow> registry_exc + int" where
  "int_of_csv s =
     (let negative = (s \<noteq> [] \<and> hd s = 45); ds = (if negative then tl s else s);
          n = foldl (\<lambda>n c. 10 * n + digit_of c) 0 ds in
      if length ds > MAX_INT_DIGITS then Inl (ValueX (lit ''Exceeds the limit for integer string conversion''))
      else Inr (if negative then - int n else int n))"

definition csv_number :: "(pystr \<Rightarrow> float64) \<Rightarrow> pystr \<Rightarrow> registry_exc + pyval" where
  "csv_number pf s = (if fullmatch JSON_INTEGER s then bindE (int_of_csv s) (\<lambda>i. Inr (PInt i)) else Inr (PFloat (pf s)))"

definition csv_cell ::
  "(pystr \<Rightarrow> float64) \<Rightarrow> (nat \<Rightarrow> pystr) \<Rightarrow> data_type \<Rightarrow> pystr \<Rightarrow> registry_exc + pyval \<times> normalization_event_code option \<times> bool" where
  "csv_cell pf year_text t s =
     bindE (validate_cell_size s) (\<lambda>_.
     if s = [] \<and> t \<noteq> T_STRING then Inr (PNone, Some CSV_EMPTY_FIELD_TO_NULL, False)
     else case t of
       T_STRING \<Rightarrow> Inr (PStr s, None, False)
     | T_BOOLEAN \<Rightarrow>
         if s \<notin> {lit ''true'', lit ''false''} then Inl (invalid_dataset ''invalid_boolean_cell'')
         else Inr (PBool (s = lit ''true''), Some CSV_BOOLEAN_PARSED, False)
     | T_INTEGER \<Rightarrow>
         if \<not> fullmatch JSON_INTEGER s then Inl (invalid_dataset ''invalid_integer_cell'')
         else bindE (int_of_csv s) (\<lambda>i.
              if \<bar>i\<bar> > MAX_SAFE_INTEGER then Inl (invalid_dataset ''invalid_integer_cell'')
              else Inr (PInt i, Some CSV_INTEGER_PARSED, False))
     | T_NUMBER \<Rightarrow>
         if \<not> fullmatch JSON_NUMBER s then Inl (invalid_dataset ''invalid_number_cell'')
         else bindE (csv_number pf s) (\<lambda>v. bindE (number_value v) (\<lambda>_. Inr (v, Some CSV_NUMBER_PARSED, False)))
     | T_TIMESTAMP \<Rightarrow> bindE (timestamp_cell year_text s) (\<lambda>c. Inr (PStr c, None, c \<noteq> s)))"

section \<open>Rows\<close>

datatype source_rows = JsonRows pyval | CsvTable "pystr list" "pystr list list"

type_synonym occurrence = "normalization_event_code \<times> pystr"

text \<open>A cell with the events it adds to the counter.\<close>

definition csv_column ::
  "(pystr \<Rightarrow> float64) \<Rightarrow> (nat \<Rightarrow> pystr) \<Rightarrow> pystr list \<Rightarrow> pystr list \<Rightarrow> record_column \<Rightarrow> registry_exc + pyval \<times> occurrence list" where
  "csv_column pf year_text header raw c =
     bindE (csv_cell pf year_text (rc_data_type c) (the (map_of (zip header raw) (rc_source_name c)))) (\<lambda>(v, event, changed).
     Inr (v, (case event of None \<Rightarrow> [] | Some e \<Rightarrow> [(e, rc_field_id c)]) @
             (if changed then [(TIMESTAMP_TO_CANONICAL_UTC, rc_field_id c)] else [])))"

definition csv_row ::
  "(pystr \<Rightarrow> float64) \<Rightarrow> (nat \<Rightarrow> pystr) \<Rightarrow> pystr list \<Rightarrow> record_column list \<Rightarrow> pystr list \<Rightarrow> registry_exc + pyval list \<times> occurrence list" where
  "csv_row pf year_text header columns raw =
     (if length raw \<noteq> length header then Inl (invalid_dataset ''invalid_csv_row_width'')
      else bindE (mapE (csv_column pf year_text header raw) columns) (\<lambda>cells. Inr (map fst cells, concat (map snd cells))))"

definition json_column :: "(nat \<Rightarrow> pystr) \<Rightarrow> details \<Rightarrow> record_column \<Rightarrow> registry_exc + pyval \<times> occurrence list" where
  "json_column year_text row c =
     (case map_of row (KStr (rc_source_name c)) of
        None \<Rightarrow> Inr (PNone, [(JSON_MISSING_FIELD_TO_NULL, rc_field_id c)])
      | Some v \<Rightarrow>
          bindE (json_cell year_text (rc_data_type c) v) (\<lambda>(cell, changed).
          Inr (cell, if changed then [(TIMESTAMP_TO_CANONICAL_UTC, rc_field_id c)] else [])))"

fun json_row :: "(nat \<Rightarrow> pystr) \<Rightarrow> record_column list \<Rightarrow> pyval \<Rightarrow> registry_exc + pyval list \<times> occurrence list" where
  "json_row year_text columns (PDict row) =
     (if list_ex (\<lambda>kv. key_str (fst kv) = None) row then Inl (invalid_dataset ''json_row_not_object'')
      else if \<not> list_all (\<lambda>kv. the (key_str (fst kv)) \<in> set (map rc_source_name columns)) row
      then Inl (invalid_dataset ''undeclared_source_field'')
      else bindE (mapE (json_column year_text row) columns) (\<lambda>cells. Inr (map fst cells, concat (map snd cells))))"
| "json_row year_text columns _ = Inl (invalid_dataset ''json_row_not_object'')"

text \<open>\<^verbatim>\<open>sorted(events.items(), key=...)\<close> of the counter.\<close>

definition occurrence_key :: "occurrence \<Rightarrow> pystr list" where
  "occurrence_key o1 = [lit (event_code_value (fst o1)), snd o1]"

definition ledger :: "occurrence list \<Rightarrow> normalization_event list" where
  "ledger events =
     map (\<lambda>k. \<lparr>ne_code = fst k, ne_field_id = snd k, ne_count = int (count_list events k)\<rparr>)
       (sort_key occurrence_key (remdups events))"

definition raw_rows ::
  "(pystr \<Rightarrow> float64) \<Rightarrow> (nat \<Rightarrow> pystr) \<Rightarrow> record_column list \<Rightarrow> source_rows \<Rightarrow> registry_exc + (pyval list \<times> occurrence list) list" where
  "raw_rows pf year_text columns rows =
     (let names = map rc_source_name columns in
      case rows of
        CsvTable header data \<Rightarrow>
          if length header \<noteq> length names \<or> set header \<noteq> set names then Inl (invalid_dataset ''invalid_csv_header'')
          else mapE (csv_row pf year_text header columns) data
      | JsonRows (PList vs) \<Rightarrow> mapE (json_row year_text columns) vs
      | JsonRows _ \<Rightarrow> Inl (invalid_dataset ''invalid_json_source''))"

definition normalized_rows ::
  "(pystr \<Rightarrow> float64) \<Rightarrow> (nat \<Rightarrow> pystr) \<Rightarrow> record_column list \<Rightarrow> source_rows \<Rightarrow> registry_exc + pyval list list \<times> normalization_event list" where
  "normalized_rows pf year_text columns rows =
     (if \<not> distinct (map rc_source_name columns) \<or> \<not> distinct (map rc_field_id columns)
      then Inl (invalid_dataset ''duplicate_column'')
      else bindE (raw_rows pf year_text columns rows) (\<lambda>out.
        if out = [] then Inl (invalid_dataset ''empty_dataset'')
        else if length out > MAX_DATASET_ROWS then Inl (limit_error ''dataset_rows'' MAX_DATASET_ROWS (length out))
        else Inr (map fst out, ledger (concat (map snd out)))))"

section \<open>The two records\<close>

record normalized_dataset =
  nd_payload :: dataset_payload
  nd_record :: dataset_record

definition NORMALIZER :: runner_identity where
  "NORMALIZER = \<lparr>ri_name = lit ''defined_quant_mcp_dataset_normalizer'', ri_version = lit ''1.0.0''\<rparr>"

definition observation_bounds :: "record_column list \<Rightarrow> pyval list list \<Rightarrow> registry_exc + (pystr \<times> pystr) option" where
  "observation_bounds columns rows =
     (case filter (\<lambda>(i, c). rc_role c = R_TIMESTAMP) (enumerate 0 columns) of
        [] \<Rightarrow> Inr None
      | [(i, c)] \<Rightarrow>
          if rc_data_type c \<noteq> T_TIMESTAMP then Inl (invalid_dataset ''invalid_timestamp_role'')
          else let vals = filter (\<lambda>v. v \<noteq> PNone) (map (\<lambda>row. row ! i) rows);
                   strings = List.map_filter (\<lambda>v. case v of PStr s \<Rightarrow> Some s | _ \<Rightarrow> None) vals in
            if vals = [] \<or> length strings \<noteq> length vals then Inl (invalid_dataset ''missing_timestamp_observation'')
            else Inr (Some (hd strings, last strings))
      | _ \<Rightarrow> Inl (invalid_dataset ''multiple_timestamp_columns''))"

definition record_source_of :: "dataset_source \<Rightarrow> caller_provenance \<Rightarrow> record_source" where
  "record_source_of source p =
     (case source of
        InlineRowsSource _ \<Rightarrow> InlineRows p
      | InlineJsonSource _ \<Rightarrow> InlineJson p
      | LocalCsvSource _ d \<Rightarrow> LocalCsv d p
      | LocalJsonSource _ \<Rightarrow> LocalJson p)"

definition table_of :: "record_column list \<Rightarrow> pyval list list \<Rightarrow> dataset_payload" where
  "table_of columns rows =
     \<lparr>dp_columns = map (\<lambda>c. \<lparr>py_field_id = rc_field_id c, py_data_type = rc_data_type c\<rparr>) columns, dp_rows = rows\<rparr>"

definition record_of ::
  "registration \<Rightarrow> pystr \<Rightarrow> pystr \<Rightarrow> pyval list list \<Rightarrow> normalization_event list \<Rightarrow> (pystr \<times> pystr) option \<Rightarrow> dataset_record" where
  "record_of r payload_sha raw_digest rows events bounds =
     \<lparr>dr_payload_sha256 = payload_sha, dr_raw_source_sha256 = raw_digest,
      dr_source = record_source_of (rg_source r) (rg_provenance r),
      dr_external_preprocessing = rg_external_preprocessing r, dr_columns = rg_columns r, dr_semantics = rg_semantics r,
      dr_row_count = int (length rows), dr_column_count = int (length (rg_columns r)), dr_observation_bounds = bounds,
      dr_normalization_events = events, dr_findings = [], dr_normalizer = NORMALIZER\<rparr>"

definition bind_record ::
  "registration \<Rightarrow> pystr \<Rightarrow> dataset_payload \<Rightarrow> normalization_event list \<Rightarrow> (pystr \<times> pystr) option \<Rightarrow> registry_exc + dataset_record" where
  "bind_record r raw_digest payload events bounds =
     (let bad = Inl (invalid_dataset ''invalid_normalized_dataset'') in
      case payload_digest payload of
        Inl (TypeError m) \<Rightarrow> Inl (ValueX m)
      | Inl (ValueError m) \<Rightarrow> bad
      | Inr sha \<Rightarrow>
          (let rec = record_of r sha raw_digest (dp_rows payload) events bounds in
           if \<not> dataset_record_valid rec then bad
           else case validate_payload rec payload of Inl _ \<Rightarrow> bad | Inr _ \<Rightarrow> Inr rec))"

text \<open>What happens to the rows of an accepted source.\<close>

definition normalize_rows ::
  "codec \<Rightarrow> (nat \<Rightarrow> pystr) \<Rightarrow> registration \<Rightarrow> source_rows \<Rightarrow> pystr \<Rightarrow> registry_exc + normalized_dataset" where
  "normalize_rows c year_text r rows raw_digest =
     (if content_sha256 (rg_provenance r) \<noteq> None \<and> content_sha256 (rg_provenance r) \<noteq> Some raw_digest
      then Inl (invalid_dataset ''source_digest_mismatch'')
      else bindE (normalized_rows (co_parse_float c) year_text (rg_columns r) rows) (\<lambda>(table_rows, events).
        let payload = table_of (rg_columns r) table_rows in
        if \<not> dataset_payload_valid payload then Inl ValidationX
        else bindE (case cas_json_bytes (co_float_repr c) (payload_projection payload) of
                      Inl (ValueError m) \<Rightarrow> Inl (ValueX m) | Inl (TypeError m) \<Rightarrow> Inl (ValueX m) | Inr b \<Rightarrow> Inr (length b)) (\<lambda>sz.
        if sz > MAX_NORMALIZED_PAYLOAD_BYTES
        then Inl (limit_error ''normalized_dataset_payload_bytes'' MAX_NORMALIZED_PAYLOAD_BYTES sz)
        else bindE (observation_bounds (rg_columns r) table_rows) (\<lambda>bounds.
             bindE (bind_record r raw_digest payload events bounds) (\<lambda>rec.
             Inr \<lparr>nd_payload = payload, nd_record = rec\<rparr>)))))"

section \<open>Cells have their type\<close>

lemma utf8_ascii: "\<forall>x \<in> set c. x < 128 \<Longrightarrow> utf8_encode c = Some (map byte_of c)"
  by (induction c) (simp_all add: utf8_char_def)

lemma canonical_ascii: "is_ok (validate_canonical_timestamp c) \<Longrightarrow> \<forall>x \<in> set c. x < 128"
  by (auto simp: validate_canonical_timestamp_def iso_instant_def list_all_iff split: if_splits)

lemma cell_size_within: "validate_cell_size s = Inr () \<Longrightarrow> utf8_within 0 MAX_CELL_BYTES s"
  by (auto simp: validate_cell_size_def registry_utf8_size_def utf8_within_iff MAX_CELL_BYTES_def MAX_DECODED_CELL_BYTES_def bindE_Inr_iff
      split: option.splits if_splits)

lemma number_value_typed: "number_value v = Inr () \<Longrightarrow> cell_typed T_NUMBER v"
proof -
  assume n: "number_value v = Inr ()"
  then have "is_ok (canonical_json_bytes v)" "(\<exists>i. v = PInt i) \<or> (\<exists>x. v = PFloat x)"
    by (auto simp: number_value_def Let_def is_ok_iff split: pyval.splits sum.splits if_splits)
  then show ?thesis by (auto simp: is_ok_canonical_json_bytes)
qed

text \<open>
  The text of a stamp whose year the platform does not write in four digits: the checks of the records refuse it. It is what
  normalization leaves of a timestamp before the year 1000 on a platform that does not pad.
\<close>

definition unpadded_stamp :: "(nat \<Rightarrow> pystr) \<Rightarrow> pystr \<Rightarrow> bool" where
  "unpadded_stamp year_text s \<longleftrightarrow>
     (\<exists>u. stamp_valid u \<and> st_year u < 1000 \<and> year_text (st_year u) \<noteq> decimals 4 (st_year u) \<and> s = stamp_text year_text u)"

lemma unpadded_refused:
  assumes "strftime_years year_text" "unpadded_stamp year_text s"
  shows "\<not> is_ok (validate_canonical_timestamp s)"
proof -
  obtain u where u: "stamp_valid u" "year_text (st_year u) \<noteq> decimals 4 (st_year u)" "s = stamp_text year_text u"
    using assms(2) by (auto simp: unpadded_stamp_def)
  from assms(1) u(1) show ?thesis
  proof (cases rule: strftime_cases)
    case short
    have "length (year_text (st_year u)) < 4" using short(2) length_short_year[OF short(3)] by simp
    from short_stamp_text(2)[where year_text = year_text, OF this] show ?thesis unfolding u(3) .
  qed (use u(2) in simp)
qed

lemma stamp_text_length: "length (year_text (st_year u)) = 4 \<Longrightarrow> length (stamp_text year_text u) \<le> 30"
proof -
  assume y: "length (year_text (st_year u)) = 4"
  have "length (rstrip_zeros z) \<le> length z" for z
    using length_dropWhile_le[of "\<lambda>c. c = 48" "rev z"] by (simp add: rstrip_zeros_def)
  then have "length (rstrip_zeros (decimals 6 (st_micro u))) \<le> 6" using decimals_facts(1)[of 6 "st_micro u"] by metis
  then show ?thesis using y decimals_facts(1) by (simp add: stamp_text_def)
qed

definition cell_shaped :: "(nat \<Rightarrow> pystr) \<Rightarrow> data_type \<Rightarrow> pyval \<Rightarrow> bool" where
  "cell_shaped year_text t v \<longleftrightarrow> v = PNone \<or> cell_typed t v \<or> t = T_TIMESTAMP \<and> (\<exists>s. v = PStr s \<and> unpadded_stamp year_text s)"

lemma cell_shaped_intros:
  "cell_shaped year_text t PNone" "cell_shaped year_text T_BOOLEAN (PBool b)"
  "\<bar>i\<bar> \<le> MAX_SAFE_INTEGER \<Longrightarrow> cell_shaped year_text T_INTEGER (PInt i)"
  "utf8_within 0 MAX_CELL_BYTES s \<Longrightarrow> cell_shaped year_text T_STRING (PStr s)"
  "number_value v = Inr () \<Longrightarrow> cell_shaped year_text T_NUMBER v"
  by (simp_all add: cell_shaped_def number_value_typed del: cell_typed.simps(3))

lemma timestamp_cell_shaped:
  assumes "strftime_years year_text" "timestamp_cell year_text s = Inr c"
  shows "cell_shaped year_text T_TIMESTAMP (PStr c)"
proof -
  have c: "canonical_timestamp year_text s = Some c" using assms(2) by (simp add: timestamp_cell_def split: option.splits)
  obtain t u where u: "parse_timestamp s = Some t" "stamp_valid u" "st_offset u = 0" "instant u = instant t" "c = stamp_text year_text u"
    by (rule canonical_timestamp_stamp[OF c])
  from assms(1) u(2) show ?thesis
  proof (cases rule: strftime_cases)
    case padded
    have ok: "is_ok (validate_canonical_timestamp c)"
      unfolding u(5) by (rule stamp_text_reads(2)[where year_text = year_text, OF u(2,3) padded])
    moreover have "length (year_text (st_year u)) = 4" unfolding padded by (rule decimals_facts(1))
    from stamp_text_length[where year_text = year_text, OF this] have "length c \<le> 30" unfolding u(5) .
    ultimately have "utf8_within 0 MAX_CELL_BYTES c" using utf8_ascii[OF canonical_ascii[OF ok]] by (simp add: utf8_within_iff MAX_CELL_BYTES_def)
    then show ?thesis using ok by (simp add: cell_shaped_def)
  next
    case short
    then show ?thesis using u(2,5) by (auto simp: cell_shaped_def unpadded_stamp_def)
  qed
qed

lemma json_cell_shaped:
  assumes "json_cell year_text t v = Inr (cell, changed)" "strftime_years year_text"
  shows "cell_shaped year_text t cell" "changed \<Longrightarrow> t = T_TIMESTAMP"
  using assms(1) timestamp_cell_shaped[OF assms(2)]
  by (auto simp: json_cell_def bindE_Inr_iff cell_size_within cell_shaped_intros split: if_splits data_type.splits pyval.splits)

text \<open>Which events a column of a type may have.\<close>

definition event_fits :: "bool \<Rightarrow> normalization_event_code \<Rightarrow> data_type \<Rightarrow> bool" where
  "event_fits csv e t \<longleftrightarrow>
     (e = JSON_MISSING_FIELD_TO_NULL \<longrightarrow> \<not> csv) \<and> (csv_event e \<longrightarrow> csv) \<and> (event_type e \<noteq> None \<longrightarrow> event_type e = Some t) \<and>
     (e = CSV_EMPTY_FIELD_TO_NULL \<longrightarrow> t \<noteq> T_STRING) \<and> (e = TIMESTAMP_TO_CANONICAL_UTC \<longrightarrow> t = T_TIMESTAMP)"

lemma csv_event_iff: "csv_event e \<longleftrightarrow> e \<noteq> JSON_MISSING_FIELD_TO_NULL \<and> e \<noteq> TIMESTAMP_TO_CANONICAL_UTC"
  by (cases e) (simp_all add: starts_with_def lit_def)

declare csv_event.simps [simp del]

lemma csv_cell_shaped:
  assumes "csv_cell pf year_text t s = Inr (cell, event, changed)" "strftime_years year_text"
  shows "cell_shaped year_text t cell" "changed \<Longrightarrow> t = T_TIMESTAMP"
    "event = Some e \<Longrightarrow> event_fits True e t \<and> e \<noteq> TIMESTAMP_TO_CANONICAL_UTC"
  using assms(1) timestamp_cell_shaped[OF assms(2)]
  by (auto simp: csv_cell_def cell_shaped_intros bindE_Inr_iff cell_size_within event_fits_def split: if_splits data_type.splits)

section \<open>Rows have their columns\<close>

definition columns_of :: "record_column list \<Rightarrow> payload_column list" where
  "columns_of columns = map (\<lambda>c. \<lparr>py_field_id = rc_field_id c, py_data_type = rc_data_type c\<rparr>) columns"

definition cell_ok :: "(nat \<Rightarrow> pystr) \<Rightarrow> bool \<Rightarrow> record_column \<Rightarrow> pyval \<times> occurrence list \<Rightarrow> bool" where
  "cell_ok year_text csv c x \<longleftrightarrow> cell_shaped year_text (rc_data_type c) (fst x) \<and> distinct (snd x) \<and>
     (\<forall>(e, f) \<in> set (snd x). f = rc_field_id c \<and> event_fits csv e (rc_data_type c))"

lemma json_column_ok: "json_column year_text row c = Inr x \<Longrightarrow> strftime_years year_text \<Longrightarrow> cell_ok year_text False c x"
proof -
  assume a: "json_column year_text row c = Inr x" "strftime_years year_text"
  show ?thesis
  proof (cases "map_of row (KStr (rc_source_name c))")
    case None
    then show ?thesis using a(1) by (auto simp: json_column_def cell_ok_def cell_shaped_def event_fits_def csv_event_iff)
  next
    case (Some v)
    then obtain cell changed where j: "json_cell year_text (rc_data_type c) v = Inr (cell, changed)"
      "x = (cell, if changed then [(TIMESTAMP_TO_CANONICAL_UTC, rc_field_id c)] else [])"
      using a(1) by (auto simp: json_column_def bindE_Inr_iff)
    show ?thesis using json_cell_shaped[OF j(1) a(2)] unfolding j(2) by (auto simp: cell_ok_def event_fits_def csv_event_iff)
  qed
qed

lemma csv_column_ok: "csv_column pf year_text header raw c = Inr x \<Longrightarrow> strftime_years year_text \<Longrightarrow> cell_ok year_text True c x"
proof -
  assume a: "csv_column pf year_text header raw c = Inr x" "strftime_years year_text"
  then obtain v event changed where cell: "csv_cell pf year_text (rc_data_type c) (the (map_of (zip header raw) (rc_source_name c))) = Inr (v, event, changed)"
    "x = (v, (case event of None \<Rightarrow> [] | Some e \<Rightarrow> [(e, rc_field_id c)]) @ (if changed then [(TIMESTAMP_TO_CANONICAL_UTC, rc_field_id c)] else []))"
    by (auto simp: csv_column_def bindE_Inr_iff)
  note t = csv_cell_shaped[OF cell(1) a(2)]
  have "event_fits True TIMESTAMP_TO_CANONICAL_UTC T_TIMESTAMP" by (simp add: event_fits_def)
  then show ?thesis using t unfolding cell(2) cell_ok_def by (cases event) auto
qed

definition row_shaped :: "(nat \<Rightarrow> pystr) \<Rightarrow> record_column list \<Rightarrow> pyval list \<Rightarrow> bool" where
  "row_shaped year_text columns row \<longleftrightarrow> list_all2 (\<lambda>v c. cell_shaped year_text (rc_data_type c) v) row columns"

definition row_ok :: "(nat \<Rightarrow> pystr) \<Rightarrow> bool \<Rightarrow> record_column list \<Rightarrow> pyval list \<times> occurrence list \<Rightarrow> bool" where
  "row_ok year_text csv columns x \<longleftrightarrow> row_shaped year_text columns (fst x) \<and> distinct (snd x) \<and>
     (\<forall>(e, f) \<in> set (snd x). \<exists>c \<in> set columns. f = rc_field_id c \<and> event_fits csv e (rc_data_type c))"

lemma cells_row_ok:
  assumes "list_all2 (cell_ok year_text csv) columns cells" "distinct (map rc_field_id columns)"
  shows "row_ok year_text csv columns (map fst cells, concat (map snd cells))"
  using assms
proof (induction rule: list_all2_induct)
  case Nil
  then show ?case by (simp add: row_ok_def row_shaped_def)
next
  case (Cons c columns x cells)
  then have ih: "row_ok year_text csv columns (map fst cells, concat (map snd cells))" by simp
  have "f \<in> rc_field_id ` set columns" if "(e, f) \<in> set (concat (map snd cells))" for e f
    using ih that unfolding row_ok_def by fastforce
  moreover have "f = rc_field_id c" if "(e, f) \<in> set (snd x)" for e f using Cons(1) that by (auto simp: cell_ok_def)
  ultimately have "set (snd x) \<inter> set (concat (map snd cells)) = {}" using Cons(4) by fastforce
  then show ?case using ih Cons(1) by (auto simp: row_ok_def cell_ok_def row_shaped_def)
qed

lemma json_row_ok: "json_row year_text columns v = Inr x \<Longrightarrow> strftime_years year_text \<Longrightarrow> distinct (map rc_field_id columns) \<Longrightarrow> row_ok year_text False columns x"
  by (cases v) (auto simp: bindE_Inr_iff mapE_Inr_iff split: if_splits intro!: cells_row_ok elim!: list_all2_mono dest: json_column_ok)

lemma csv_row_ok: "csv_row pf year_text header columns raw = Inr x \<Longrightarrow> strftime_years year_text \<Longrightarrow> distinct (map rc_field_id columns) \<Longrightarrow> row_ok year_text True columns x"
  by (auto simp: csv_row_def bindE_Inr_iff mapE_Inr_iff split: if_splits intro!: cells_row_ok elim!: list_all2_mono dest: csv_column_ok)

definition is_csv :: "source_rows \<Rightarrow> bool" where
  "is_csv rows = (case rows of CsvTable _ _ \<Rightarrow> True | _ \<Rightarrow> False)"

lemma raw_rows_ok:
  assumes "raw_rows pf year_text columns rows = Inr out" "strftime_years year_text" "distinct (map rc_field_id columns)"
  shows "\<forall>x \<in> set out. row_ok year_text (is_csv rows) columns x"
  using assms json_row_ok csv_row_ok
  by (fastforce simp: raw_rows_def Let_def is_csv_def split: source_rows.splits pyval.splits if_splits dest: mapE_Inr_mem)

section \<open>The ledger is canonical\<close>

lemma count_distinct: "distinct xs \<Longrightarrow> count_list xs k \<le> 1"
  by (induction xs) (auto simp: count_list_0_iff)

lemma count_concat: "\<forall>xs \<in> set xss. distinct xs \<Longrightarrow> count_list (concat xss) k \<le> length xss"
proof (induction xss)
  case (Cons xs xss)
  then have "count_list xs k \<le> 1" using count_distinct[of xs k] Cons.prems by simp
  then show ?case using Cons by simp
qed simp

lemma event_code_inj: "lit (event_code_value a) = lit (event_code_value b) \<longleftrightarrow> a = b"
  by (cases a; cases b) (simp_all add: lit_def)

lemma event_order_key: "occurrence_key a \<le> occurrence_key b \<longleftrightarrow>
    event_order (lit (event_code_value (fst a)), snd a) (lit (event_code_value (fst b)), snd b)"
  by (auto simp: occurrence_key_def event_order_def)

definition events_of :: "(pyval list \<times> occurrence list) list \<Rightarrow> occurrence list" where
  "events_of out = concat (map snd out)"

lemma event_keys_ledger:
  "map event_key (ledger events) = map (\<lambda>k. (lit (event_code_value (fst k)), snd k)) (sort_key occurrence_key (remdups events))"
  by (simp add: ledger_def event_key_def comp_def)

lemma ledger_distinct: "distinct (map event_key (ledger events))"
proof -
  have "inj (\<lambda>k :: occurrence. (lit (event_code_value (fst k)), snd k))" by (auto simp: inj_def event_code_inj)
  then show ?thesis unfolding event_keys_ledger by (simp add: distinct_map) (auto intro: inj_on_subset)
qed

lemma ledger_sorted: "sorted_wrt event_order (map event_key (ledger events))"
proof -
  have "sorted (map occurrence_key (sort_key occurrence_key (remdups events)))" by (rule sorted_sort_key)
  then show ?thesis unfolding event_keys_ledger by (simp add: sorted_wrt_map event_order_key)
qed

lemma ledger_mem:
  assumes "x \<in> set (ledger (events_of out))" "\<forall>r \<in> set out. row_ok year_text csv columns r"
  shows "1 \<le> ne_count x" "ne_count x \<le> int (length out)"
    "\<exists>c \<in> set columns. ne_field_id x = rc_field_id c \<and> event_fits csv (ne_code x) (rc_data_type c)"
proof -
  obtain e f where x: "x = \<lparr>ne_code = e, ne_field_id = f, ne_count = int (count_list (events_of out) (e, f))\<rparr>" "(e, f) \<in> set (events_of out)"
    using assms(1) by (auto simp: ledger_def)
  have "0 < count_list (events_of out) (e, f)" using x(2) count_list_0_iff[of "events_of out" "(e, f)"] by simp
  then show "1 \<le> ne_count x" by (simp add: x(1))
  have "\<forall>xs \<in> set (map snd out). distinct xs" using assms(2) by (auto simp: row_ok_def)
  from count_concat[OF this, of "(e, f)"] show "ne_count x \<le> int (length out)" by (simp add: x(1) events_of_def)
  show "\<exists>c \<in> set columns. ne_field_id x = rc_field_id c \<and> event_fits csv (ne_code x) (rc_data_type c)"
    using x assms(2) by (fastforce simp: events_of_def row_ok_def)
qed

lemma ledger_length:
  assumes "\<forall>r \<in> set out. row_ok year_text csv columns r" "length columns \<le> MAX_DATASET_COLUMNS"
  shows "length (ledger (events_of out)) \<le> 768"
proof -
  let ?codes = "{JSON_MISSING_FIELD_TO_NULL, CSV_EMPTY_FIELD_TO_NULL, CSV_NUMBER_PARSED, CSV_INTEGER_PARSED, CSV_BOOLEAN_PARSED, TIMESTAMP_TO_CANONICAL_UTC}"
  have codes: "e \<in> ?codes" for e by (cases e) simp_all
  have "set (events_of out) \<subseteq> ?codes \<times> rc_field_id ` set columns"
    using assms(1) codes by (fastforce simp: events_of_def row_ok_def)
  then have "card (set (events_of out)) \<le> card (?codes \<times> rc_field_id ` set columns)" by (intro card_mono) auto
  also have "\<dots> \<le> 6 * length columns"
    using card_length[of columns] card_image_le[of "set columns" rc_field_id] by (simp add: card_cartesian_product)
  finally show ?thesis using assms(2) by (simp add: ledger_def length_remdups_card_conv MAX_DATASET_COLUMNS_def)
qed

lemma column_lookup: "distinct (map g xs) \<Longrightarrow> c \<in> set xs \<Longrightarrow> map_of (rev (map (\<lambda>c. (g c, c)) xs)) (g c) = Some c"
  by (rule map_of_is_SomeI) (auto simp: rev_map[symmetric] comp_def simp flip: rev_map)

section \<open>What is normalized is valid\<close>

lemma normalized_rows_Inr:
  assumes "normalized_rows pf year_text columns rows = Inr (table_rows, events)" "strftime_years year_text"
  obtains out where "table_rows = map fst out" "events = ledger (events_of out)" "\<forall>x \<in> set out. row_ok year_text (is_csv rows) columns x"
    "out \<noteq> []" "length out \<le> MAX_DATASET_ROWS" "distinct (map rc_source_name columns)" "distinct (map rc_field_id columns)"
proof -
  obtain out where out: "raw_rows pf year_text columns rows = Inr out" "table_rows = map fst out" "events = ledger (events_of out)" "out \<noteq> []"
    "length out \<le> MAX_DATASET_ROWS" "distinct (map rc_source_name columns)" "distinct (map rc_field_id columns)"
    using assms(1) by (auto simp: normalized_rows_def bindE_Inr_iff events_of_def split: if_splits)
  from raw_rows_ok[OF out(1) assms(2) out(7)] show ?thesis using that out by blast
qed

lemma typed_json: "v = PNone \<or> cell_typed t v \<Longrightarrow> json_value v"
  by (cases t) (auto simp: utf8_within_scalar)

text \<open>Tables with a timestamp that the platform writes with a year of fewer than four digits.\<close>

definition unpadded_row :: "(nat \<Rightarrow> pystr) \<Rightarrow> record_column list \<Rightarrow> pyval list \<Rightarrow> bool" where
  "unpadded_row year_text columns row \<longleftrightarrow>
     (\<exists>(v, c) \<in> set (zip row columns). rc_data_type c = T_TIMESTAMP \<and> (\<exists>s. v = PStr s \<and> unpadded_stamp year_text s))"

definition unpadded_rows :: "(nat \<Rightarrow> pystr) \<Rightarrow> record_column list \<Rightarrow> pyval list list \<Rightarrow> bool" where
  "unpadded_rows year_text columns rows \<longleftrightarrow> (\<exists>row \<in> set rows. unpadded_row year_text columns row)"

lemma row_shaped_typed:
  assumes "row_shaped year_text columns row" "strftime_years year_text"
  shows "row_typed (columns_of columns) row \<longleftrightarrow> \<not> unpadded_row year_text columns row"
  using assms(1) unfolding row_shaped_def
proof (induction rule: list_all2_induct)
  case (Cons v row c columns)
  then show ?case using unpadded_refused[OF assms(2)]
    by (auto simp: row_typed_def columns_of_def unpadded_row_def cell_shaped_def)
qed (simp add: row_typed_def columns_of_def unpadded_row_def)

lemma normalized_typed:
  assumes "normalized_rows pf year_text columns rows = Inr (table_rows, events)" "strftime_years year_text"
  shows "(\<forall>row \<in> set table_rows. row_typed (columns_of columns) row) \<longleftrightarrow> \<not> unpadded_rows year_text columns table_rows"
proof -
  obtain out where out: "table_rows = map fst out" "events = ledger (events_of out)" "\<forall>x \<in> set out. row_ok year_text (is_csv rows) columns x"
    "out \<noteq> []" "length out \<le> MAX_DATASET_ROWS" "distinct (map rc_source_name columns)" "distinct (map rc_field_id columns)"
    by (rule normalized_rows_Inr[OF assms])
  then have "\<forall>row \<in> set table_rows. row_shaped year_text columns row" by (auto simp: row_ok_def)
  then show ?thesis using row_shaped_typed[OF _ assms(2)] by (simp add: unpadded_rows_def)
qed

text \<open>The table is valid exactly if it has no such timestamp.\<close>

lemma table_valid:
  assumes "normalized_rows pf year_text columns rows = Inr (table_rows, events)" "strftime_years year_text"
    "columns \<noteq> []" "length columns \<le> MAX_DATASET_COLUMNS" "list_all record_column_valid columns"
  shows "dataset_payload_valid (table_of columns table_rows) \<longleftrightarrow> \<not> unpadded_rows year_text columns table_rows"
proof -
  obtain out where out: "table_rows = map fst out" "events = ledger (events_of out)" "\<forall>x \<in> set out. row_ok year_text (is_csv rows) columns x"
    "out \<noteq> []" "length out \<le> MAX_DATASET_ROWS" "distinct (map rc_source_name columns)" "distinct (map rc_field_id columns)"
    by (rule normalized_rows_Inr[OF assms(1,2)])
  have ids: "list_all (\<lambda>c. pattern_ok SAFE_ID_PATTERN (py_field_id c)) (columns_of columns)"
    using assms(5) by (auto simp: columns_of_def list_all_iff record_column_valid_def)
  have "json_value v" if typed: "\<forall>row \<in> set table_rows. row_typed (columns_of columns) row" and mem: "row \<in> set table_rows" "v \<in> set row" for row v
  proof -
    obtain i where i: "i < length row" "v = row ! i" using mem(2) by (metis in_set_conv_nth)
    then have "v = PNone \<or> cell_typed (py_data_type (columns_of columns ! i)) v"
      using typed mem(1) by (auto simp: row_typed_def list_all2_conv_all_nth)
    then show ?thesis by (rule typed_json)
  qed
  moreover have "is_ok (validate_table (table_of columns table_rows)) \<longleftrightarrow> (\<forall>row \<in> set table_rows. row_typed (columns_of columns) row)"
    using validate_table_iff[of "table_of columns table_rows"] ids out(7) by (auto simp: is_ok_iff table_of_def columns_of_def comp_def)
  ultimately have "dataset_payload_valid (table_of columns table_rows) \<longleftrightarrow> (\<forall>row \<in> set table_rows. row_typed (columns_of columns) row)"
    using ids assms(3,4) out(1,4,5) by (auto simp: dataset_payload_valid_def table_of_def columns_of_def list_all_iff)
  then show ?thesis using normalized_typed[OF assms(1,2)] by blast
qed

lemma filter_enumerate: "map snd (filter (\<lambda>(i, c). P c) (enumerate n xs)) = filter P xs"
  by (induction xs arbitrary: n) auto

text \<open>The bounds the normalizer takes are those the record is checked against.\<close>

lemma bounds_accepted:
  assumes "observation_bounds columns rows = Inr bounds" "\<forall>row \<in> set rows. row_typed (columns_of columns) row"
    "dr_columns rec = columns" "dr_observation_bounds rec = bounds" "dp_rows p = rows"
  shows "validate_bounds rec p = Inr rec"
    "pred_option (\<lambda>(a, b). is_ok (validate_canonical_timestamp a) \<and> is_ok (validate_canonical_timestamp b)) bounds"
    "filter (\<lambda>c. rc_role c = R_TIMESTAMP) columns = [] \<Longrightarrow> bounds = None"
proof -
  let ?F = "filter (\<lambda>(i, c). rc_role c = R_TIMESTAMP) (enumerate 0 columns)"
  have "validate_bounds rec p = Inr rec \<and>
    pred_option (\<lambda>(a, b). is_ok (validate_canonical_timestamp a) \<and> is_ok (validate_canonical_timestamp b)) bounds \<and>
    (filter (\<lambda>c. rc_role c = R_TIMESTAMP) columns = [] \<longrightarrow> bounds = None)"
  proof (cases "?F = []")
    case True
    then have "bounds = None" using assms(1) by (simp add: observation_bounds_def)
    then show ?thesis using True assms(3,4) by (simp add: validate_bounds_def)
  next
    case False
    then obtain i c where F: "?F = [(i, c)]" "rc_data_type c = T_TIMESTAMP"
      using assms(1) by (auto simp: observation_bounds_def Let_def split: list.splits if_splits)
    define strings where "strings = List.map_filter (\<lambda>v. case v of PStr s \<Rightarrow> Some s | _ \<Rightarrow> None) (observations i p)"
    have b: "observations i p \<noteq> []" "length strings = length (observations i p)" "bounds = Some (hd strings, last strings)"
      using assms(1,5) F by (auto simp: observation_bounds_def strings_def observations_def Let_def split: if_splits)
    have "(i, c) \<in> set (enumerate 0 columns)" using F(1) filter_set[of "\<lambda>(i, c). rc_role c = R_TIMESTAMP" "enumerate 0 columns"] by auto
    then have i: "i < length columns" "columns ! i = c" by (auto simp: in_set_enumerate_eq)
    have ok: "is_ok (validate_canonical_timestamp s)" if "s \<in> set strings" for s
    proof -
      from that obtain v where "v \<in> set (observations i p)" "v = PStr s"
        unfolding strings_def by (auto simp: List.map_filter_def split: pyval.splits)
      then obtain row where row: "row \<in> set rows" "row ! i = PStr s" using assms(5) by (auto simp: observations_def)
      then have "row_typed (columns_of columns) row" using assms(2) by blast
      then have "length row = length columns" "i < length row \<longrightarrow> row ! i = PNone \<or> cell_typed (py_data_type (columns_of columns ! i)) (row ! i)"
        unfolding row_typed_def list_all2_conv_all_nth by (simp add: columns_of_def, blast)
      then have "row ! i = PNone \<or> cell_typed (rc_data_type c) (row ! i)" using i by (auto simp: columns_of_def)
      then show ?thesis using row(2) F(2) by simp
    qed
    have "strings \<noteq> []" using b(1,2) by auto
    then have oks: "is_ok (validate_canonical_timestamp (hd strings))" "is_ok (validate_canonical_timestamp (last strings))"
      using ok by simp_all
    have "filter (\<lambda>c. rc_role c = R_TIMESTAMP) columns = [c]" using F(1) filter_enumerate[of "\<lambda>c. rc_role c = R_TIMESTAMP" 0 columns] by simp
    moreover have "validate_bounds rec p = Inr rec"
      using F(1) b oks assms(3,4) by (auto simp: validate_bounds_def Let_def strings_def[symmetric] is_ok_iff)
    ultimately show ?thesis using b(3) oks by simp
  qed
  then show "validate_bounds rec p = Inr rec"
    "pred_option (\<lambda>(a, b). is_ok (validate_canonical_timestamp a) \<and> is_ok (validate_canonical_timestamp b)) bounds"
    "filter (\<lambda>c. rc_role c = R_TIMESTAMP) columns = [] \<Longrightarrow> bounds = None" by blast+
qed

lemma record_source_facts: "csv_source (record_source_of source p) \<longleftrightarrow> (\<exists>f d. source = LocalCsvSource f d)" "source_provenance (record_source_of source p) = p"
  by (cases source; simp add: record_source_of_def csv_source_def)+

lemma normalizer_valid: "runner_identity_valid NORMALIZER" "validate_semver (ri_version NORMALIZER) = Inr (ri_version NORMALIZER)"
  using demo_semver by (simp_all add: runner_identity_valid_def NORMALIZER_def safe_id_ok_iff lit_def is_lower_def id_tail_char_def is_digit_def)

lemma record_valid:
  assumes "normalized_rows pf year_text (rg_columns r) rows = Inr (table_rows, events)" "strftime_years year_text" "registration_valid r"
    "is_csv rows \<longleftrightarrow> (\<exists>f d. rg_source r = LocalCsvSource f d)" "pattern_ok SHA256_PATTERN raw_digest" "pattern_ok SHA256_PATTERN sha"
    "content_sha256 (rg_provenance r) = None \<or> content_sha256 (rg_provenance r) = Some raw_digest"
    "observation_bounds (rg_columns r) table_rows = Inr bounds" "\<not> unpadded_rows year_text (rg_columns r) table_rows"
  shows "dataset_record_valid (record_of r sha raw_digest table_rows events bounds)" (is "dataset_record_valid ?rec")
proof -
  obtain out where out: "table_rows = map fst out" "events = ledger (events_of out)" "\<forall>x \<in> set out. row_ok year_text (is_csv rows) (rg_columns r) x"
    "out \<noteq> []" "length out \<le> MAX_DATASET_ROWS" "distinct (map rc_source_name (rg_columns r))" "distinct (map rc_field_id (rg_columns r))"
    by (rule normalized_rows_Inr[OF assms(1,2)])
  have cols: "rg_columns r \<noteq> []" "length (rg_columns r) \<le> MAX_DATASET_COLUMNS" "list_all record_column_valid (rg_columns r)"
    "length (filter (\<lambda>c. rc_role c = R_TIMESTAMP) (rg_columns r)) \<le> 1"
    using assms(3) by (simp_all add: registration_valid_def)
  have mem: "1 \<le> ne_count x" "ne_count x \<le> int (length out)"
    "\<exists>c \<in> set (rg_columns r). ne_field_id x = rc_field_id c \<and> event_fits (is_csv rows) (ne_code x) (rc_data_type c)"
    if "x \<in> set events" for x using ledger_mem[OF that[unfolded out(2)] out(3)] .
  have fits: "is_ok (validate_event ?rec x)" if x: "x \<in> set events" for x
  proof -
    obtain c where c: "c \<in> set (rg_columns r)" "ne_field_id x = rc_field_id c" "event_fits (is_csv rows) (ne_code x) (rc_data_type c)"
      using mem(3)[OF x] by blast
    then show ?thesis using mem(2)[OF x] column_lookup[OF out(7) c(1)] assms(4)
      by (auto simp: validate_event_def record_of_def out(1) record_source_facts event_fits_def)
  qed
  then have events: "mapE (validate_event ?rec) events = Inr (map (\<lambda>_. ()) events)" by (intro mapE_Inr_map) (auto simp: is_ok_iff)
  have typed: "\<forall>row \<in> set table_rows. row_typed (columns_of (rg_columns r)) row" using normalized_typed[OF assms(1,2)] assms(9) by blast
  have bounds: "pred_option (\<lambda>(a, b). is_ok (validate_canonical_timestamp a) \<and> is_ok (validate_canonical_timestamp b)) bounds"
    and none: "filter (\<lambda>c. rc_role c = R_TIMESTAMP) (rg_columns r) = [] \<Longrightarrow> bounds = None"
    using bounds_accepted(2,3)[OF assms(8) typed, of ?rec "table_of (rg_columns r) table_rows"] by (simp_all add: record_of_def table_of_def)
  have "card (event_key ` set events) = length events" using distinct_card[OF ledger_distinct[of "events_of out"]] by (simp add: out(2))
  then have "is_ok (validate_record ?rec)"
    using out(6,7) cols(4) none ledger_sorted[of "events_of out"] events assms(7) normalizer_valid(2)
    by (auto simp: validate_record_def record_of_def Let_def card_set_eq_length out(2) record_source_facts(2))
  moreover have "list_all normalization_event_valid events"
    using mem out(5) cols(3) by (fastforce simp: list_all_iff normalization_event_valid_def record_column_valid_def)
  moreover have "length events \<le> 768" using ledger_length[OF out(3) cols(2)] by (simp add: out(2))
  ultimately show ?thesis
    using assms(3,5,6) cols bounds out(1,4,5) normalizer_valid(1)
    by (simp add: dataset_record_valid_def record_of_def registration_valid_def record_source_facts(2) Suc_le_eq)
qed

text \<open>The one refusal of the bounds: a timestamp column that is null in every row.\<close>

definition no_observation :: "record_column list \<Rightarrow> pyval list list \<Rightarrow> bool" where
  "no_observation columns rows \<longleftrightarrow>
     (\<exists>i < length columns. rc_role (columns ! i) = R_TIMESTAMP \<and> (\<forall>row \<in> set rows. row ! i = PNone))"

lemma observation_bounds_outcome:
  assumes "list_all record_column_valid columns" "length (filter (\<lambda>c. rc_role c = R_TIMESTAMP) columns) \<le> 1"
    "\<forall>row \<in> set rows. row_typed (columns_of columns) row" "observation_bounds columns rows = Inl e"
  shows "e = invalid_dataset ''missing_timestamp_observation'' \<and> no_observation columns rows"
proof -
  let ?F = "filter (\<lambda>(i, c). rc_role c = R_TIMESTAMP) (enumerate 0 columns)"
  have "length ?F \<le> 1" using assms(2) filter_enumerate[of "\<lambda>c. rc_role c = R_TIMESTAMP" 0 columns] by (metis length_map)
  then consider "?F = []" | i c where "?F = [(i, c)]" by (cases ?F) auto
  then show ?thesis
  proof cases
    case 2
    then have "(i, c) \<in> set ?F" by simp
    then have c: "rc_role c = R_TIMESTAMP" "c \<in> set columns" "i < length columns" "columns ! i = c" by (auto simp: in_set_enumerate_eq)
    then have type: "rc_data_type c = T_TIMESTAMP"
      using assms(1) by (auto simp: list_all_iff record_column_valid_def validate_column_def split: if_splits)
    let ?string = "\<lambda>v. case v of PStr s \<Rightarrow> Some s | _ \<Rightarrow> None"
    let ?vals = "filter (\<lambda>v. v \<noteq> PNone) (map (\<lambda>row. row ! i) rows)"
    have "\<exists>s. row ! i = PStr s" if row: "row \<in> set rows" "row ! i \<noteq> PNone" for row
    proof -
      have "list_all2 (\<lambda>v c. v = PNone \<or> cell_typed (py_data_type c) v) row (columns_of columns)"
        using assms(3) row(1) by (simp add: row_typed_def)
      then have "row ! i = PNone \<or> cell_typed (py_data_type (columns_of columns ! i)) (row ! i)"
        using c(3) by (auto simp: list_all2_conv_all_nth columns_of_def)
      then show ?thesis using row(2) c(3,4) type by (auto simp: columns_of_def)
    qed
    then have "\<forall>v \<in> set ?vals. ?string v \<noteq> None" by fastforce
    then have "length (List.map_filter ?string ?vals) = length ?vals" by (simp add: List.map_filter_def filter_id_conv del: filter_filter)
    then have "?vals = []" "e = invalid_dataset ''missing_timestamp_observation''"
      using assms(4) 2 type by (auto simp: observation_bounds_def Let_def split: if_splits)
    then show ?thesis using c by (auto simp: no_observation_def filter_empty_conv)
  qed (use assms(4) in \<open>simp add: observation_bounds_def\<close>)
qed

lemma observation_bounds_present:
  assumes "observation_bounds columns rows = Inr bounds"
  shows "\<not> no_observation columns rows"
proof
  assume "no_observation columns rows"
  then obtain i where i: "i < length columns" "rc_role (columns ! i) = R_TIMESTAMP" "\<forall>row \<in> set rows. row ! i = PNone"
    by (auto simp: no_observation_def)
  let ?F = "filter (\<lambda>(i, c). rc_role c = R_TIMESTAMP) (enumerate 0 columns)"
  have mem: "(i, columns ! i) \<in> set ?F" using i(1,2) by (simp add: in_set_enumerate_eq)
  then have "?F \<noteq> []" by (metis empty_iff empty_set)
  then obtain z where z: "?F = [z]" using assms by (auto simp: observation_bounds_def split: list.splits simp del: filter_empty_conv)
  then have "?F = [(i, columns ! i)]" using mem by simp
  moreover have "filter (\<lambda>v. v \<noteq> PNone) (map (\<lambda>row. row ! i) rows) = []" using i(3) by simp
  ultimately show False using assms by (simp add: observation_bounds_def Let_def split: if_splits)
qed

lemma bind_record_total:
  assumes "normalized_rows pf year_text (rg_columns r) rows = Inr (table_rows, events)" "strftime_years year_text" "registration_valid r"
    "is_csv rows \<longleftrightarrow> (\<exists>f d. rg_source r = LocalCsvSource f d)" "pattern_ok SHA256_PATTERN raw_digest"
    "content_sha256 (rg_provenance r) = None \<or> content_sha256 (rg_provenance r) = Some raw_digest"
    "observation_bounds (rg_columns r) table_rows = Inr bounds" "\<not> unpadded_rows year_text (rg_columns r) table_rows"
  defines "p \<equiv> table_of (rg_columns r) table_rows"
  shows "\<exists>rec. bind_record r raw_digest p events bounds = Inr rec \<and> dataset_record_valid rec \<and> validate_payload rec p = Inr rec \<and>
    dataset_payload_valid p"
proof -
  have cols: "rg_columns r \<noteq> []" "length (rg_columns r) \<le> MAX_DATASET_COLUMNS" "list_all record_column_valid (rg_columns r)"
    using assms(3) by (simp_all add: registration_valid_def)
  have pv: "dataset_payload_valid p" using table_valid[OF assms(1,2) cols] assms(8) by (simp add: p_def)
  obtain sha where sha: "payload_digest p = Inr sha" "pattern_ok SHA256_PATTERN sha"
    using payload.hash_total[OF pv] payload.hash_hex unfolding payload_digest_def sha256_ok_iff by blast
  let ?rec = "record_of r sha raw_digest (dp_rows p) events bounds"
  have rows: "dp_rows p = table_rows" by (simp add: p_def table_of_def)
  have v: "dataset_record_valid ?rec" unfolding rows by (rule record_valid[OF assms(1-5) sha(2) assms(6,7,8)])
  have typed: "\<forall>row \<in> set table_rows. row_typed (columns_of (rg_columns r)) row" using normalized_typed[OF assms(1,2)] assms(8) by blast
  have "validate_bounds ?rec p = Inr ?rec"
    by (rule bounds_accepted(1)[OF assms(7) typed]) (simp_all add: record_of_def rows)
  then have vp: "validate_payload ?rec p = Inr ?rec"
    using sha(1) by (simp add: validate_payload_def record_of_def p_def table_of_def comp_def)
  then show ?thesis using sha(1) v pv by (simp add: bind_record_def Let_def)
qed

section \<open>Properties\<close>

text \<open>
  C34 (normalization_total). What follows once the cells of an accepted source are normalized, on every platform, with the order of
  the checks: a declared digest other than the source's is refused; a timestamp before the year 1000 that the platform does not pad
  raises a plain validation error out of the module; a table that is too large is refused; a timestamp column without an observation
  is refused. In every other situation the two records are built and pass every check of their models: the table is valid, the
  record is valid and binds the table.
\<close>

theorem normalization_total:
  assumes "normalized_rows (co_parse_float c) year_text (rg_columns r) rows = Inr (table_rows, events)" "strftime_years year_text"
    "registration_valid r" "is_csv rows \<longleftrightarrow> (\<exists>f d. rg_source r = LocalCsvSource f d)" "pattern_ok SHA256_PATTERN raw_digest"
    "float_codec (co_float_repr c) (co_parse_float c)"
  shows "if \<exists>d. content_sha256 (rg_provenance r) = Some d \<and> d \<noteq> raw_digest
    then normalize_rows c year_text r rows raw_digest = Inl (invalid_dataset ''source_digest_mismatch'')
    else if unpadded_rows year_text (rg_columns r) table_rows
    then normalize_rows c year_text r rows raw_digest = Inl ValidationX
    else \<exists>b. cas_json_bytes (co_float_repr c) (payload_projection (table_of (rg_columns r) table_rows)) = Inr b \<and>
      (if length b > MAX_NORMALIZED_PAYLOAD_BYTES
       then normalize_rows c year_text r rows raw_digest =
         Inl (limit_error ''normalized_dataset_payload_bytes'' MAX_NORMALIZED_PAYLOAD_BYTES (length b))
       else if no_observation (rg_columns r) table_rows
       then normalize_rows c year_text r rows raw_digest = Inl (invalid_dataset ''missing_timestamp_observation'')
       else \<exists>n. normalize_rows c year_text r rows raw_digest = Inr n \<and> nd_payload n = table_of (rg_columns r) table_rows \<and>
         dataset_payload_valid (nd_payload n) \<and> dataset_record_valid (nd_record n) \<and>
         validate_payload (nd_record n) (nd_payload n) = Inr (nd_record n))"
proof (cases "\<exists>d. content_sha256 (rg_provenance r) = Some d \<and> d \<noteq> raw_digest")
  case True
  then show ?thesis by (auto simp: normalize_rows_def)
next
  case False
  then have match: "content_sha256 (rg_provenance r) = None \<or> content_sha256 (rg_provenance r) = Some raw_digest"
    by (cases "content_sha256 (rg_provenance r)") auto
  let ?p = "table_of (rg_columns r) table_rows"
  have cols: "rg_columns r \<noteq> []" "length (rg_columns r) \<le> MAX_DATASET_COLUMNS" "list_all record_column_valid (rg_columns r)"
    "length (filter (\<lambda>c. rc_role c = R_TIMESTAMP) (rg_columns r)) \<le> 1"
    using assms(3) by (simp_all add: registration_valid_def)
  note valid = table_valid[OF assms(1,2) cols(1-3)]
  show ?thesis
  proof (cases "unpadded_rows year_text (rg_columns r) table_rows")
    case early: True
    then show ?thesis using False match assms(1) valid by (auto simp: normalize_rows_def Let_def)
  next
    case late: False
    obtain b where b: "cas_json_bytes (co_float_repr c) (payload_projection ?p) = Inr b"
      using payload_document.cas_document_total[OF assms(6)] valid late by blast
    have run: "normalize_rows c year_text r rows raw_digest =
        (if length b > MAX_NORMALIZED_PAYLOAD_BYTES
         then Inl (limit_error ''normalized_dataset_payload_bytes'' MAX_NORMALIZED_PAYLOAD_BYTES (length b))
         else bindE (observation_bounds (rg_columns r) table_rows) (\<lambda>bounds.
           bindE (bind_record r raw_digest ?p events bounds) (\<lambda>rec. Inr \<lparr>nd_payload = ?p, nd_record = rec\<rparr>)))"
      using match assms(1) valid late b by (auto simp: normalize_rows_def Let_def)
    show ?thesis
    proof (cases "observation_bounds (rg_columns r) table_rows")
      case (Inl e)
      have "\<forall>row \<in> set table_rows. row_typed (columns_of (rg_columns r)) row" using normalized_typed[OF assms(1,2)] late by blast
      from observation_bounds_outcome[OF cols(3,4) this Inl] show ?thesis unfolding run using False late Inl b by auto
    next
      case (Inr bounds)
      from bind_record_total[OF assms(1-5) match Inr late] observation_bounds_present[OF Inr] show ?thesis
        unfolding run using False Inr b late by auto
    qed
  qed
qed

text \<open>
  The cell of a column in a row of a JSON source: null if the field is missing or null, the canonical text in a timestamp column,
  the value itself in any other.
\<close>

definition cell_faithful :: "(nat \<Rightarrow> pystr) \<Rightarrow> record_column \<Rightarrow> details \<Rightarrow> pyval \<Rightarrow> bool" where
  "cell_faithful year_text c row cell \<longleftrightarrow>
     (case map_of row (KStr (rc_source_name c)) of
        None \<Rightarrow> cell = PNone
      | Some v \<Rightarrow>
          if rc_data_type c = T_TIMESTAMP \<and> v \<noteq> PNone
          then \<exists>s t. v = PStr s \<and> cell = PStr t \<and> canonical_timestamp year_text s = Some t
          else cell = v)"

lemma json_cell_faithful:
  assumes "json_cell year_text t v = Inr (cell, changed)"
  shows "if t = T_TIMESTAMP \<and> v \<noteq> PNone
    then \<exists>s x. v = PStr s \<and> cell = PStr x \<and> canonical_timestamp year_text s = Some x
    else cell = v"
  using assms by (auto simp: json_cell_def timestamp_cell_def bindE_Inr_iff split: if_splits data_type.splits pyval.splits option.splits)

lemma json_column_faithful: "json_column year_text row c = Inr x \<Longrightarrow> cell_faithful year_text c row (fst x)"
  by (auto simp: json_column_def cell_faithful_def bindE_Inr_iff split: option.splits dest!: json_cell_faithful)

lemma json_row_faithful:
  assumes "json_row year_text columns v = Inr x"
  obtains row where "v = PDict row" "\<forall>kv \<in> set row. \<exists>c \<in> set columns. fst kv = KStr (rc_source_name c)" "length (fst x) = length columns"
    "\<forall>j < length columns. cell_faithful year_text (columns ! j) row (fst x ! j)"
proof -
  obtain row cells where r: "v = PDict row" "mapE (json_column year_text row) columns = Inr cells" "fst x = map fst cells"
    and keys: "\<forall>kv \<in> set row. key_str (fst kv) \<noteq> None \<and> the (key_str (fst kv)) \<in> set (map rc_source_name columns)"
    using assms by (cases v) (auto simp: bindE_Inr_iff list_ex_iff list_all_iff split: if_splits)
  have "\<exists>c \<in> set columns. fst kv = KStr (rc_source_name c)" if "kv \<in> set row" for kv
    using keys[rule_format, OF that] by (cases "fst kv") auto
  moreover have "cell_faithful year_text (columns ! j) row (fst x ! j)" if j: "j < length columns" for j
    using json_column_faithful[OF mapE_Inr_nth[OF r(2) j]] mapE_Inr_length[OF r(2)] j by (simp add: r(3))
  ultimately show ?thesis using that[OF r(1)] r(3) mapE_Inr_length[OF r(2)] by simp
qed

text \<open>
  C35 (rows_faithful). A JSON source that is accepted gives one row per object, in order, with one cell per column: null where the
  field is missing or null, in a timestamp column the canonical text of the field (C40), and in every other column the
  field's value itself. No field of an object is dropped: each one belongs to a column.
\<close>

theorem rows_faithful:
  assumes "normalized_rows pf year_text columns (JsonRows (PList vs)) = Inr (table_rows, events)"
  shows "length table_rows = length vs \<and>
    (\<forall>i < length vs. \<exists>row. vs ! i = PDict row \<and> (\<forall>kv \<in> set row. \<exists>c \<in> set columns. fst kv = KStr (rc_source_name c)) \<and>
       length (table_rows ! i) = length columns \<and>
       (\<forall>j < length columns. cell_faithful year_text (columns ! j) row (table_rows ! i ! j)))"
proof -
  obtain out where out: "mapE (json_row year_text columns) vs = Inr out" "table_rows = map fst out"
    using assms by (auto simp: normalized_rows_def raw_rows_def Let_def bindE_Inr_iff split: if_splits)
  have len: "length out = length vs" using mapE_Inr_length[OF out(1)] .
  have "json_row year_text columns (vs ! i) = Inr (out ! i) \<and> table_rows ! i = fst (out ! i)" if "i < length vs" for i
    using mapE_Inr_nth[OF out(1) that] len that by (simp add: out(2))
  then have "\<exists>row. vs ! i = PDict row \<and> (\<forall>kv \<in> set row. \<exists>c \<in> set columns. fst kv = KStr (rc_source_name c)) \<and>
       length (table_rows ! i) = length columns \<and>
       (\<forall>j < length columns. cell_faithful year_text (columns ! j) row (table_rows ! i ! j))" if "i < length vs" for i
    using that json_row_faithful by metis
  then show ?thesis using len by (simp add: out(2))
qed

definition demo_column :: record_column where
  "demo_column = \<lparr>rc_source_name = lit ''X'', rc_field_id = lit ''x'', rc_data_type = T_INTEGER, rc_role = R_VALUE, rc_semantic_port = None\<rparr>"

definition demo_rows :: "details list" where
  "demo_rows = [[(KStr (lit ''X''), PInt 7)], []]"

lemma demo_normalized:
  "normalized_rows pf year_text [demo_column] (JsonRows (PList (map PDict demo_rows))) =
     Inr ([[PInt 7], [PNone]], [\<lparr>ne_code = JSON_MISSING_FIELD_TO_NULL, ne_field_id = lit ''x'', ne_count = 1\<rparr>])"
  by (simp add: normalized_rows_def raw_rows_def demo_column_def demo_rows_def json_column_def json_cell_def MAX_SAFE_INTEGER_def
      MAX_DATASET_ROWS_def ledger_def)

text \<open>Two columns, one of them a timestamp; the second row has neither field.\<close>

definition demo_time_column :: record_column where
  "demo_time_column =
     \<lparr>rc_source_name = lit ''T'', rc_field_id = lit ''t'', rc_data_type = T_TIMESTAMP, rc_role = R_TIMESTAMP, rc_semantic_port = None\<rparr>"

definition demo_time_row :: details where
  "demo_time_row = [(KStr (lit ''X''), PInt 7), (KStr (lit ''T''), PStr (lit ''2024-03-01T00:30:00+01:00''))]"

lemma demo_time_normalized:
  "normalized_rows pf nat_repr [demo_column, demo_time_column] (JsonRows (PList [PDict demo_time_row, PDict []])) =
     Inr ([[PInt 7, PStr (lit ''2024-02-29T23:30:00Z'')], [PNone, PNone]],
       ledger [(TIMESTAMP_TO_CANONICAL_UTC, lit ''t''), (JSON_MISSING_FIELD_TO_NULL, lit ''x''), (JSON_MISSING_FIELD_TO_NULL, lit ''t'')])"
proof -
  have "length (lit ''2024-03-01T00:30:00+01:00'') = 25" "\<forall>x \<in> set (lit ''2024-03-01T00:30:00+01:00''). x < 128" by (simp_all add: lit_def)
  then have "validate_cell_size (lit ''2024-03-01T00:30:00+01:00'') = Inr ()"
    by (simp add: validate_cell_size_def registry_utf8_size_def utf8_ascii MAX_DECODED_CELL_BYTES_def)
  moreover have "lit ''2024-02-29T23:30:00Z'' \<noteq> lit ''2024-03-01T00:30:00+01:00''" "lit ''X'' \<noteq> lit ''T''" "lit ''x'' \<noteq> lit ''t''"
    by (simp_all add: lit_def)
  ultimately show ?thesis
    by (simp add: normalized_rows_def raw_rows_def demo_column_def demo_time_column_def demo_time_row_def json_column_def json_cell_def
        timestamp_cell_def demo_timestamp[where year_text = nat_repr, OF demo_year_text(2)] MAX_SAFE_INTEGER_def MAX_DATASET_ROWS_def)
qed

theorem rows_faithful_witness:
  "cell_faithful nat_repr demo_column demo_time_row (PInt 7) \<and>
   cell_faithful nat_repr demo_time_column demo_time_row (PStr (lit ''2024-02-29T23:30:00Z'')) \<and>
   cell_faithful nat_repr demo_time_column [] PNone"
  using rows_faithful[OF demo_time_normalized] by (simp add: less_Suc_eq all_conj_distrib numeral_2_eq_2) 

definition demo_registration :: registration where
  "demo_registration =
     \<lparr>rg_source = InlineRowsSource demo_rows, rg_columns = [demo_column],
      rg_semantics = \<lparr>sem_instrument = None, sem_currency = None, sem_frequency = None, sem_timezone = None,
        sem_price_kind = None, sem_adjustment_policy = None, sem_distribution_policy = None, sem_calendar = None,
        sem_partial_period_policy = None\<rparr>,
      rg_provenance = \<lparr>source_kind = SYNTHETIC, interpretation_method = CALLER_STRUCTURED, verification_status = PS_UNVERIFIED,
         p_label = lit ''l'', p_references = [], content_sha256 = None, assumptions = []\<rparr>,
      rg_external_preprocessing = UnknownPreprocessing\<rparr>"

lemma demo_registration_valid: "registration_valid demo_registration"
proof -
  have "utf8_within 1 240 (lit ''l'')" "utf8_within 1 240 (lit ''X'')"
    by (subst utf8_within_lit; simp add: lit_def)+
  moreover have "is_ok (canonical_json_bytes (PDict row))" if "row \<in> set demo_rows" for row
    using that by (auto simp: demo_rows_def is_ok_canonical_json_bytes MAX_SAFE_INTEGER_def)
  ultimately show ?thesis
    using demo_id by (auto simp: registration_valid_def demo_registration_def demo_column_def demo_rows_def record_column_valid_def
        validate_column_def dataset_semantics_valid_def dataset_provenance_valid_def MAX_DATASET_COLUMNS_def MAX_DATASET_ROWS_def)
qed

definition demo_registry_codec :: codec where
  "demo_registry_codec =
     \<lparr>co_float_repr = demo_float_repr, co_parse_float = demo_parse_float, co_parse_dataset = \<lambda>_. None, co_parse_payload = \<lambda>_. None,
      co_parse_operation = \<lambda>_. None, co_parse_manifest = \<lambda>_. None\<rparr>"

abbreviation "demo_json \<equiv> JsonRows (PList (map PDict demo_rows))"

lemma demo_normalize:
  assumes "pattern_ok SHA256_PATTERN d"
  shows "\<exists>n. normalize_rows demo_registry_codec (decimals 4) demo_registration demo_json d = Inr n"
proof -
  let ?p = "table_of [demo_column] [[PInt 7], [PNone]]"
  have f: "rg_columns demo_registration = [demo_column]" "content_sha256 (rg_provenance demo_registration) = None"
    "is_csv demo_json \<longleftrightarrow> (\<exists>f d. rg_source demo_registration = LocalCsvSource f d)"
    by (simp_all add: demo_registration_def is_csv_def)
  have rows: "normalized_rows demo_parse_float (decimals 4) (rg_columns demo_registration) demo_json =
      Inr ([[PInt 7], [PNone]], [\<lparr>ne_code = JSON_MISSING_FIELD_TO_NULL, ne_field_id = lit ''x'', ne_count = 1\<rparr>])"
    using demo_normalized f(1) by simp
  have bounds: "observation_bounds (rg_columns demo_registration) [[PInt 7], [PNone]] = Inr None"
    by (simp add: observation_bounds_def f(1) demo_column_def)
  have late: "\<not> unpadded_rows (decimals 4) (rg_columns demo_registration) [[PInt 7], [PNone]]"
    by (simp add: unpadded_rows_def unpadded_row_def unpadded_stamp_def)
  from bind_record_total[OF rows demo_years(1) demo_registration_valid f(3) assms _ bounds late] f obtain rec where
    b: "bind_record demo_registration d ?p [\<lparr>ne_code = JSON_MISSING_FIELD_TO_NULL, ne_field_id = lit ''x'', ne_count = 1\<rparr>] None = Inr rec"
    "dataset_payload_valid ?p" by auto
  obtain bs where bs: "cas_json_bytes demo_float_repr (payload_projection ?p) = Inr bs"
    using payload_document.cas_document_total[OF demo_float_codec b(2)] by blast
  have "int_repr 1 = [49]" "int_repr 7 = [55]" by (simp_all add: int_repr_def nat_repr.simps)
  then have "text_weight demo_float_repr 0 (payload_projection ?p) \<le> 20000"
    by (simp add: payload_projection_def table_of_def demo_column_def jobj_def jstr_def lit_def payload_column_dump_def)
  then have "length bs \<le> MAX_NORMALIZED_PAYLOAD_BYTES"
    using cas_document_length[OF payload_document.project_json[OF b(2)] bs] by (simp add: MAX_NORMALIZED_PAYLOAD_BYTES_def)
  then show ?thesis using rows b bs bounds f by (simp add: normalize_rows_def demo_registry_codec_def)
qed

text \<open>A timestamp of the year 999, on a platform that does not pad it.\<close>

definition early_rows :: "details list" where
  "early_rows = [[(KStr (lit ''T''), PStr (lit ''0999-03-01T10:30:00+01:00''))]]"

definition early_registration :: registration where
  "early_registration = demo_registration\<lparr>rg_source := InlineRowsSource early_rows, rg_columns := [demo_time_column]\<rparr>"

lemma early_registration_valid: "registration_valid early_registration"
proof -
  have "utf8_within 1 240 (lit ''l'')" "utf8_within 1 240 (lit ''T'')"
    by (subst utf8_within_lit; simp add: lit_def)+
  moreover have "pattern_ok SAFE_ID_PATTERN (lit ''t'')" by (simp add: safe_id_ok_iff lit_def is_lower_def id_tail_char_def)
  moreover have "scalar_str (lit ''0999-03-01T10:30:00+01:00'')" "scalar_str (lit ''T'')" by simp_all
  then have "is_ok (canonical_json_bytes (PDict row))" if "row \<in> set early_rows" for row
    using that by (auto simp: early_rows_def is_ok_canonical_json_bytes)
  ultimately show ?thesis using demo_registration_valid
    by (auto simp: registration_valid_def early_registration_def demo_registration_def demo_time_column_def early_rows_def record_column_valid_def
        validate_column_def MAX_DATASET_COLUMNS_def MAX_DATASET_ROWS_def)
qed

abbreviation "early_json \<equiv> JsonRows (PList (map PDict early_rows))"

lemma early_normalized:
  "normalized_rows pf nat_repr [demo_time_column] early_json =
     Inr ([[PStr (lit ''999-03-01T09:30:00Z'')]], ledger [(TIMESTAMP_TO_CANONICAL_UTC, lit ''t'')])"
proof -
  have "length (lit ''0999-03-01T10:30:00+01:00'') = 25" "\<forall>x \<in> set (lit ''0999-03-01T10:30:00+01:00''). x < 128" by (simp_all add: lit_def)
  then have "validate_cell_size (lit ''0999-03-01T10:30:00+01:00'') = Inr ()"
    by (simp add: validate_cell_size_def registry_utf8_size_def utf8_ascii MAX_DECODED_CELL_BYTES_def)
  moreover have "lit ''999-03-01T09:30:00Z'' \<noteq> lit ''0999-03-01T10:30:00+01:00''" by (simp add: lit_def)
  ultimately show ?thesis
    by (simp add: normalized_rows_def raw_rows_def demo_time_column_def early_rows_def json_column_def json_cell_def
        timestamp_cell_def demo_short_timestamp MAX_DATASET_ROWS_def)
qed

lemma early_unpadded: "unpadded_rows nat_repr [demo_time_column] [[PStr (lit ''999-03-01T09:30:00Z'')]]"
proof -
  have "\<not> cell_typed T_TIMESTAMP (PStr (lit ''999-03-01T09:30:00Z''))" using demo_short_refused by simp
  moreover have "timestamp_cell nat_repr (lit ''0999-03-01T10:30:00+01:00'') = Inr (lit ''999-03-01T09:30:00Z'')"
    by (simp add: timestamp_cell_def demo_short_timestamp)
  ultimately have "unpadded_stamp nat_repr (lit ''999-03-01T09:30:00Z'')"
    using timestamp_cell_shaped[OF demo_years(2)] by (fastforce simp: cell_shaped_def)
  then show ?thesis by (simp add: unpadded_rows_def unpadded_row_def demo_time_column_def)
qed

theorem normalization_total_witness:
  "(\<exists>n. normalize_rows demo_registry_codec (decimals 4) demo_registration demo_json (replicate 64 97) = Inr n \<and>
     dp_rows (nd_payload n) = [[PInt 7], [PNone]] \<and> dataset_record_valid (nd_record n)) \<and>
   normalize_rows demo_registry_codec nat_repr early_registration early_json (replicate 64 97) = Inl ValidationX"
proof -
  have d: "pattern_ok SHA256_PATTERN (replicate 64 97)" by (simp add: sha256_ok_iff is_hex_def)
  have columns: "rg_columns demo_registration = [demo_column]" "rg_columns early_registration = [demo_time_column]"
    "content_sha256 (rg_provenance demo_registration) = None" "content_sha256 (rg_provenance early_registration) = None"
    by (simp_all add: demo_registration_def early_registration_def)
  have csv: "is_csv demo_json \<longleftrightarrow> (\<exists>f d. rg_source demo_registration = LocalCsvSource f d)"
    "is_csv early_json \<longleftrightarrow> (\<exists>f d. rg_source early_registration = LocalCsvSource f d)"
    by (simp_all add: demo_registration_def early_registration_def is_csv_def)
  have fc: "float_codec (co_float_repr demo_registry_codec) (co_parse_float demo_registry_codec)"
    using demo_float_codec by (simp add: demo_registry_codec_def)
  obtain n where n: "normalize_rows demo_registry_codec (decimals 4) demo_registration demo_json (replicate 64 97) = Inr n"
    using demo_normalize[OF d] by blast
  have "\<exists>n. normalize_rows demo_registry_codec (decimals 4) demo_registration demo_json (replicate 64 97) = Inr n \<and>
     dp_rows (nd_payload n) = [[PInt 7], [PNone]] \<and> dataset_record_valid (nd_record n)"
    using normalization_total[OF demo_normalized[folded columns(1)] demo_years(1) demo_registration_valid csv(1) d fc] n columns
    by (auto simp: table_of_def split: if_splits)
  moreover have "normalize_rows demo_registry_codec nat_repr early_registration early_json (replicate 64 97) = Inl ValidationX"
    using normalization_total[OF early_normalized[folded columns(2)] demo_years(2) early_registration_valid csv(2) d fc] early_unpadded columns
    by simp
  ultimately show ?thesis by blast
qed

text \<open>A CSV integer of more than 4300 digits is neither accepted nor refused: the conversion raises out of the module.\<close>

lemma long_integer_escapes:
  "csv_cell pf year_text T_INTEGER (49 # replicate 4300 48) = Inl (ValueX (lit ''Exceeds the limit for integer string conversion''))"
proof -
  have "\<forall>c \<in> set (49 # replicate 4300 48 :: pystr). c < 128" by simp
  then have "utf8_encode (49 # replicate 4300 48) = Some (map byte_of (49 # replicate 4300 48))"
    by (intro utf8_ascii)
  then have "validate_cell_size (49 # replicate 4300 48) = Inr ()"
    by (simp add: validate_cell_size_def registry_utf8_size_def MAX_DECODED_CELL_BYTES_def)
  moreover have "replicate 4300 48 \<in> lang (Star (Cls unicode_digit))" by (simp add: digit_unicode is_digit_def del: lang.simps)
  then have "49 # replicate 4300 48 \<in> lang (Cat (Cls (\<lambda>c. 49 \<le> c \<and> c \<le> 57)) (Star (Cls unicode_digit)))"
    unfolding Cat_Cls_iff by simp
  then have "49 # replicate 4300 48 \<in> lang JSON_INTEGER" unfolding JSON_INTEGER_def by (intro opt_none) simp
  ultimately show ?thesis by (simp add: csv_cell_def fullmatch_iff int_of_csv_def MAX_INT_DIGITS_def)
qed

end
