(* ===== verification/Dataset_Registry.thy ===== *)
theory Dataset_Registry
  imports Normalization Posix_Files
begin

text \<open>
  The rest of \<^verbatim>\<open>shared/dataset_registry.py\<close>: the configured roots and the reads beneath them, with the pinned directories of
  \<^verbatim>\<open>shared/_posix_local_host.py\<close>, the sources of a dataset, the limits on a request, and \<^verbatim>\<open>normalize_dataset\<close>.
\<close>

section \<open>Pinned directories\<close>

text \<open>A handle is a descriptor of a directory: it follows the directory, not its path.\<close>

record pinned =
  ph_inode :: nat
  ph_closed :: bool

definition pin_configured_root :: "os_env \<Rightarrow> path \<Rightarrow> pinned os_op" where
  "pin_configured_root ev p =
     guarded ACCESS_DENIED
       (bindS (os_call ev) (\<lambda>_. bindS (os_call ev) (\<lambda>_. bindS (os_call ev) (\<lambda>_.
        bindS (getsS (\<lambda>s. list_all (\<lambda>k. is_directory s (take k p)) [0..<Suc (length p)])) (\<lambda>resolved.
        if \<not> resolved then raiseS (SfX ACCESS_DENIED None)
        else bindS (os_open_read ev p) (\<lambda>i. bindS (os_lstat ev p) (\<lambda>j.
             if i_content i \<noteq> Directory \<or> i_number i \<noteq> i_number j then raiseS (SfX ACCESS_DENIED None)
             else retS \<lparr>ph_inode = i_number i, ph_closed = False\<rparr>)))))))"

definition close_pinned_root :: "pinned \<Rightarrow> pinned" where
  "close_pinned_root h = h\<lparr>ph_closed := True\<rparr>"

definition directory_path :: "machine \<Rightarrow> nat \<Rightarrow> path option" where
  "directory_path s n =
     map_option fst (List.find (\<lambda>(p, i). i_number i = n \<and> i_content i = Directory) (ma_files s))"

text \<open>\<^verbatim>\<open>os.open(part, flags | os.O_NOFOLLOW, dir_fd=n)\<close>.\<close>

definition os_openat :: "os_env \<Rightarrow> nat \<Rightarrow> pystr \<Rightarrow> bool \<Rightarrow> inode os_op" where
  "os_openat ev n part directory =
     (if 0 \<in> set part then raiseS (PyX (ValueError (lit ''embedded null byte'')))
      else bindS (os_call ev) (\<lambda>_.
           bindS (getsS (\<lambda>s. case directory_path s n of None \<Rightarrow> None | Some p \<Rightarrow> lookup s (p @ [part]))) (\<lambda>i.
           case i of
             None \<Rightarrow> raiseS NotFoundX
           | Some i \<Rightarrow> if i_content i = Symlink \<or> directory \<and> i_content i \<noteq> Directory then raiseS OsX else retS i)))"

fun open_beneath :: "os_env \<Rightarrow> nat \<Rightarrow> pystr list \<Rightarrow> inode os_op" where
  "open_beneath ev n [] = raiseS OsX"
| "open_beneath ev n [part] = os_openat ev n part False"
| "open_beneath ev n (part # parts) = bindS (os_openat ev n part True) (\<lambda>i. open_beneath ev (i_number i) parts)"

definition read_file_beneath :: "os_env \<Rightarrow> pinned \<Rightarrow> pystr list \<Rightarrow> nat \<Rightarrow> bytes os_op" where
  "read_file_beneath ev h parts maximum =
     guarded UNSAFE_PATH
       (if parts = [] \<or> list_ex (\<lambda>p. p \<in> {[], [46], [46, 46]}) parts then raiseS (SfX UNSAFE_PATH None)
        else if ph_closed h then raiseS (SfX ACCESS_DENIED None)
        else bindS (os_call ev) (\<lambda>_. bindS (os_call ev) (\<lambda>_.
             bindS (open_beneath ev (ph_inode h) parts) (\<lambda>i. bindS (os_call ev) (\<lambda>_.
             if \<not> is_regular i then raiseS (SfX NOT_REGULAR_FILE None) else read_descriptor ev i maximum)))))"

section \<open>Paths\<close>

text \<open>\<^verbatim>\<open>pathlib.PurePosixPath\<close>: its root, which may be two slashes, and its parts.\<close>

record posix_path =
  pp_root :: pystr
  pp_parts :: "pystr list"

definition path_of :: "pystr \<Rightarrow> posix_path" where
  "path_of s =
     \<lparr>pp_root = (if starts_with [47, 47] s \<and> \<not> starts_with [47, 47, 47] s then [47, 47]
                 else if starts_with [47] s then [47] else []),
      pp_parts = filter (\<lambda>p. p \<noteq> [] \<and> p \<noteq> [46]) (split_on 47 s)\<rparr>"

definition path_text :: "posix_path \<Rightarrow> pystr" where
  "path_text p = (if pp_root p = [] \<and> pp_parts p = [] then [46] else pp_root p @ str_join [47] (pp_parts p))"

definition path_suffix :: "posix_path \<Rightarrow> pystr" where
  "path_suffix p =
     (let name = (if pp_parts p = [] then [] else last (pp_parts p));
          tail = takeWhile (\<lambda>c. c \<noteq> 46) (rev name) in
      if 46 \<in> set name \<and> tail \<noteq> [] \<and> length tail + 1 < length name then 46 # rev tail else [])"

text \<open>No letter outside ASCII folds to one of the letters of these suffixes.\<close>

definition ARCHIVE_SUFFIXES :: "pystr set" where
  "ARCHIVE_SUFFIXES = {lit ''.7z'', lit ''.bz2'', lit ''.gz'', lit ''.rar'', lit ''.tar'', lit ''.tgz'', lit ''.xz'', lit ''.zip''}"

definition casefold_ascii :: "pystr \<Rightarrow> pystr" where
  "casefold_ascii s = map (\<lambda>c. if 65 \<le> c \<and> c \<le> 90 then c + 32 else c) s"

definition lexical_path :: "posix_path \<Rightarrow> registry_exc + unit" where
  "lexical_path p =
     (if list_ex (\<lambda>c. c \<in> set (lit ''~$*?[]'')) (path_text p) then Inl (RegistryX HF_UNSAFE_INPUT_PATH [])
      else if pp_root p = [] \<or> [46, 46] \<in> set (pp_parts p) then Inl (RegistryX HF_UNSAFE_INPUT_PATH [])
      else if casefold_ascii (path_suffix p) \<in> ARCHIVE_SUFFIXES then Inl (RegistryX HF_UNSUPPORTED_DATA_FORMAT [])
      else Inr ())"

section \<open>Configured roots\<close>

definition MAX_CONFIGURED_ROOTS :: nat where "MAX_CONFIGURED_ROOTS = 8"
definition MAX_LOCAL_FILE_BYTES :: nat where "MAX_LOCAL_FILE_BYTES = 64 * 1024 * 1024"

record file_roots =
  fr_closed :: bool
  fr_roots :: "(posix_path \<times> pinned) list"

type_synonym 'a registry_op = "(machine, registry_exc, 'a) eff"

definition root_denied :: registry_exc where
  "root_denied = RegistryX HF_INPUT_ROOT_DENIED []"

text \<open>Every failure of the platform is the same refusal; handles that were pinned before it are closed and dropped.\<close>

definition pin_root :: "os_env \<Rightarrow> pystr \<Rightarrow> (posix_path \<times> pinned) registry_op" where
  "pin_root ev raw =
     (let root = path_of raw in
      bindS (liftS (lexical_path root)) (\<lambda>_.
      bindS (catchS (pin_configured_root ev (pp_parts root)) (\<lambda>_. raiseS root_denied)) (\<lambda>h. retS (root, h))))"

definition open_roots :: "os_env \<Rightarrow> pystr list \<Rightarrow> file_roots registry_op" where
  "open_roots ev roots =
     (if length roots > MAX_CONFIGURED_ROOTS then raiseS root_denied
      else bindS (mapS (pin_root ev) roots) (\<lambda>pinned_roots. retS \<lparr>fr_closed = False, fr_roots = pinned_roots\<rparr>))"

definition close_roots :: "file_roots \<Rightarrow> file_roots" where
  "close_roots r =
     (if fr_closed r then r
      else \<lparr>fr_closed = True, fr_roots = map (\<lambda>(p, h). (p, close_pinned_root h)) (fr_roots r)\<rparr>)"

text \<open>\<^verbatim>\<open>path.relative_to(root)\<close>; \<open>None\<close> is its \<^verbatim>\<open>ValueError\<close>.\<close>

definition relative_to :: "posix_path \<Rightarrow> posix_path \<Rightarrow> pystr list option" where
  "relative_to p root =
     (if pp_root p = pp_root root \<and> take (length (pp_parts root)) (pp_parts p) = pp_parts root
      then Some (drop (length (pp_parts root)) (pp_parts p)) else None)"

fun find_root :: "posix_path \<Rightarrow> (posix_path \<times> pinned) list \<Rightarrow> registry_exc + pinned \<times> pystr list" where
  "find_root p [] = Inl root_denied"
| "find_root p ((root, h) # roots) =
     (case relative_to p root of
        None \<Rightarrow> find_root p roots
      | Some parts \<Rightarrow>
          if parts = [] \<or> list_ex (\<lambda>x. x \<in> {[], [46], [46, 46]}) parts then Inl (RegistryX HF_UNSAFE_INPUT_PATH [])
          else Inr (h, parts))"

definition matching_root :: "file_roots \<Rightarrow> posix_path \<Rightarrow> registry_exc + pinned \<times> pystr list" where
  "matching_root r p = bindE (lexical_path p) (\<lambda>_. find_root p (fr_roots r))"

fun read_failure :: "exc \<Rightarrow> registry_exc" where
  "read_failure (SfX code actual) =
     (if code = NOT_REGULAR_FILE then RegistryX HF_UNSUPPORTED_DATA_FORMAT []
      else if code = BYTE_LIMIT_EXCEEDED
      then limit_error ''local_file_bytes'' MAX_LOCAL_FILE_BYTES (case actual of Some n \<Rightarrow> n | None \<Rightarrow> MAX_LOCAL_FILE_BYTES + 1)
      else RegistryX HF_UNSAFE_INPUT_PATH [])"
| "read_failure _ = RegistryX HF_UNSAFE_INPUT_PATH []"

definition read_root :: "os_env \<Rightarrow> file_roots \<Rightarrow> pystr \<Rightarrow> bytes registry_op" where
  "read_root ev r path_value =
     bindS (liftS (matching_root r (path_of path_value))) (\<lambda>(h, parts).
     if fr_closed r then raiseS root_denied
     else catchS (read_file_beneath ev h parts MAX_LOCAL_FILE_BYTES) (\<lambda>e. raiseS (read_failure e)))"

section \<open>Sources\<close>

definition UTF8_BOM :: bytes where
  "UTF8_BOM = [0xEF, 0xBB, 0xBF]"

definition decode_json :: "codec \<Rightarrow> bytes \<Rightarrow> registry_exc + pyval" where
  "decode_json c content =
     (if take 3 content = UTF8_BOM then Inl (invalid_dataset ''utf8_bom_not_allowed'')
      else case strict_json_loads (co_parse_float c) None content of
             Inl _ \<Rightarrow> Inl (invalid_dataset ''invalid_json_source'')
           | Inr v \<Rightarrow> Inr v)"

definition csv_table :: "csv_delimiter \<Rightarrow> bytes \<Rightarrow> registry_exc + source_rows" where
  "csv_table delimiter content =
     (let d = hd (csv_delimiter_value delimiter); bad = Inl (invalid_dataset ''invalid_csv_source'') in
      if take 3 content = UTF8_BOM then Inl (invalid_dataset ''utf8_bom_not_allowed'')
      else case utf8_decode content of
        None \<Rightarrow> bad
      | Some s \<Rightarrow>
          (case read_record d csv_reset (lines_of [] s) of
             CsvError \<Rightarrow> bad
           | CsvEnd \<Rightarrow> Inl (invalid_dataset ''empty_dataset'')
           | CsvRow header rest \<Rightarrow>
               (case read_rows d MAX_DATASET_ROWS 0 [] rest of
                  CsvBad \<Rightarrow> bad
                | CsvTooLong n \<Rightarrow> Inl (limit_error ''dataset_rows'' MAX_DATASET_ROWS n)
                | CsvRows rows \<Rightarrow>
                    if header = [] \<or> \<not> distinct header then Inl (invalid_dataset ''invalid_csv_header'')
                    else Inr (CsvTable header rows))))"

definition source_rows_of :: "os_env \<Rightarrow> codec \<Rightarrow> file_roots \<Rightarrow> dataset_source \<Rightarrow> (source_rows \<times> pystr) registry_op" where
  "source_rows_of ev c roots source =
     (case source of
        InlineRowsSource rows \<Rightarrow>
          (let v = PList (map PDict rows) in
           liftS (case canonical_json_bytes v of
                    Inl _ \<Rightarrow> Inl (invalid_dataset ''invalid_inline_rows'')
                  | Inr b \<Rightarrow> Inr (JsonRows v, sha256_hexdigest b)))
      | InlineJsonSource s \<Rightarrow>
          liftS (case utf8_encode s of
                   None \<Rightarrow> Inl (ValueX (lit ''surrogates not allowed''))
                 | Some b \<Rightarrow>
                     if length b > MAX_INLINE_JSON_BYTES
                     then Inl (limit_error ''inline_json_source_bytes'' MAX_INLINE_JSON_BYTES (length b))
                     else bindE (decode_json c b) (\<lambda>v. Inr (JsonRows v, sha256_hexdigest b)))
      | LocalJsonSource p \<Rightarrow>
          bindS (read_root ev roots p) (\<lambda>b. liftS (bindE (decode_json c b) (\<lambda>v. Inr (JsonRows v, sha256_hexdigest b))))
      | LocalCsvSource p d \<Rightarrow>
          bindS (read_root ev roots p) (\<lambda>b. liftS (bindE (csv_table d b) (\<lambda>rows. Inr (rows, sha256_hexdigest b)))))"

section \<open>Requests\<close>

fun request_items :: "pyval \<Rightarrow> nat option" where
  "request_items (PList vs) = Some (length vs)"
| "request_items (PTuple vs) = Some (length vs)"
| "request_items _ = None"

definition schema_version_check :: "details \<Rightarrow> registry_exc + unit" where
  "schema_version_check request =
     (let bad = Inl (RegistryX HF_INVALID_TOOL_REQUEST (fields_detail [lit ''host_schema_version''])) in
      case dict_get request ''host_schema_version'' of
        None \<Rightarrow> Inr ()
      | Some (PInt v) \<Rightarrow>
          if \<bar>v\<bar> > MAX_SAFE_INTEGER then bad
          else if v \<noteq> 1
          then Inl (RegistryX HF_UNSUPPORTED_HOST_SCHEMA [(KStr (lit ''requested_version''), PInt v)]) else Inr ()
      | Some _ \<Rightarrow> bad)"

definition source_limits :: "details \<Rightarrow> registry_exc + unit" where
  "source_limits source =
     (case (dict_get source ''kind'', dict_get source ''text'') of
        (Some (PStr k), Some (PStr s)) \<Rightarrow>
          if k = lit ''inline_json''
          then (case utf8_encode s of
                  None \<Rightarrow> Inr ()
                | Some b \<Rightarrow>
                    if length b > MAX_INLINE_JSON_BYTES
                    then Inl (limit_error ''inline_json_source_bytes'' MAX_INLINE_JSON_BYTES (length b)) else Inr ())
          else Inr ()
      | _ \<Rightarrow> Inr ())"

definition row_limits :: "details \<Rightarrow> registry_exc + unit" where
  "row_limits source =
     (case (dict_get source ''kind'', dict_get source ''rows'') of
        (Some (PStr k), Some v) \<Rightarrow>
          if k = lit ''inline_rows''
          then (case request_items v of
                  Some n \<Rightarrow> if n > MAX_DATASET_ROWS then Inl (limit_error ''dataset_rows'' MAX_DATASET_ROWS n) else Inr ()
                | None \<Rightarrow> Inr ())
          else Inr ()
      | _ \<Rightarrow> Inr ())"

definition preflight_request_limits :: "details \<Rightarrow> registry_exc + unit" where
  "preflight_request_limits request =
     bindE (schema_version_check request) (\<lambda>_.
     bindE (case dict_get request ''columns'' of
              None \<Rightarrow> Inr ()
            | Some v \<Rightarrow>
                (case request_items v of
                   Some n \<Rightarrow> if n > MAX_DATASET_COLUMNS then Inl (limit_error ''dataset_columns'' MAX_DATASET_COLUMNS n) else Inr ()
                 | None \<Rightarrow> Inr ())) (\<lambda>_.
     case dict_get request ''source'' of
       Some (PDict source) \<Rightarrow> bindE (source_limits source) (\<lambda>_. row_limits source)
     | _ \<Rightarrow> Inr ()))"

text \<open>
  A request is a registration, or a mapping that Pydantic parses; \<open>parse\<close> is the parse of the fields, after which every
  validator of the model applies.
\<close>

datatype request = Registration registration | RequestMapping details

definition validated_request :: "(details \<Rightarrow> registration option) \<Rightarrow> request \<Rightarrow> registry_exc + registration" where
  "validated_request parse q =
     bindE (case q of RequestMapping kvs \<Rightarrow> preflight_request_limits kvs | Registration _ \<Rightarrow> Inr ()) (\<lambda>_.
     case (case q of RequestMapping kvs \<Rightarrow> parse kvs | Registration r \<Rightarrow> Some r) of
       Some r \<Rightarrow> if registration_valid r then Inr r else Inl (RegistryX HF_INVALID_TOOL_REQUEST (fields_detail []))
     | None \<Rightarrow> Inl (RegistryX HF_INVALID_TOOL_REQUEST (fields_detail [])))"

datatype roots_argument = OpenRoots file_roots | RootPaths "pystr list"

record registry_env =
  re_os :: os_env
  re_codec :: codec
  re_year_text :: "nat \<Rightarrow> pystr"
  re_parse :: "details \<Rightarrow> registration option"

definition normalize_dataset :: "registry_env \<Rightarrow> request \<Rightarrow> roots_argument \<Rightarrow> normalized_dataset registry_op" where
  "normalize_dataset env q configured_roots =
     bindS (liftS (validated_request (re_parse env) q)) (\<lambda>r.
     bindS (liftS (validate_caller_text r)) (\<lambda>_.
     if length (rg_columns r) > MAX_DATASET_COLUMNS
     then raiseS (limit_error ''dataset_columns'' MAX_DATASET_COLUMNS (length (rg_columns r)))
     else
     bindS (case configured_roots of OpenRoots roots \<Rightarrow> retS roots | RootPaths paths \<Rightarrow> open_roots (re_os env) paths) (\<lambda>roots.
     bindS (source_rows_of (re_os env) (re_codec env) roots (rg_source r)) (\<lambda>(rows, raw_digest).
     liftS (normalize_rows (re_codec env) (re_year_text env) r rows raw_digest)))))"

section \<open>Reads stay beneath their root\<close>

text \<open>A directory has one path: there are no hard links to directories.\<close>

definition unique_directories :: "machine \<Rightarrow> bool" where
  "unique_directories s \<longleftrightarrow>
     (\<forall>(p, i) \<in> set (ma_files s). \<forall>(q, j) \<in> set (ma_files s).
        i_content i = Directory \<longrightarrow> i_content j = Directory \<longrightarrow> i_number i = i_number j \<longrightarrow> p = q)"

lemma os_call_Inr: "os_call ev s = (Inr u, t) \<Longrightarrow> ma_files t = ma_files s"
  by (auto simp: os_call_def split: if_splits)

lemma same_files: "ma_files t = ma_files s \<Longrightarrow> lookup t = lookup s" "ma_files t = ma_files s \<Longrightarrow> is_directory t = is_directory s"
  "ma_files t = ma_files s \<Longrightarrow> directory_path t = directory_path s" "ma_files t = ma_files s \<Longrightarrow> unique_directories t = unique_directories s"
  by (auto simp: lookup_def is_directory_def directory_path_def unique_directories_def fun_eq_iff)

lemma directory_path_lookup:
  assumes "lookup s p = Some i" "i_content i = Directory" "unique_directories s"
  shows "directory_path s (i_number i) = Some p"
proof -
  let ?P = "\<lambda>(q, j). i_number j = i_number i \<and> i_content j = Directory"
  have mem: "(p, i) \<in> set (ma_files s)" using assms(1) by (auto simp: lookup_def dest: map_of_SomeD)
  then obtain x where x: "List.find ?P (ma_files s) = Some x"
    using assms(2) find_None_iff[of ?P "ma_files s"] by (cases "List.find ?P (ma_files s)") auto
  then obtain k where "k < length (ma_files s)" "x = ma_files s ! k" "?P x" by (auto simp: find_Some_iff)
  then have "x \<in> set (ma_files s)" "?P x" by simp_all
  then have "fst x = p" using mem assms(2,3) unfolding unique_directories_def by fastforce
  then show ?thesis using x by (simp add: directory_path_def)
qed

lemma os_openat_Inr:
  assumes "os_openat ev n part directory s = (Inr i, t)"
  obtains p where "ma_files t = ma_files s" "directory_path s n = Some p" "lookup s (p @ [part]) = Some i" "i_content i \<noteq> Symlink"
    "directory \<longrightarrow> i_content i = Directory"
proof -
  obtain u where u: "os_call ev s = (Inr (), u)"
    using assms by (auto simp: os_openat_def eff_simps split: if_splits)
  note f = os_call_Inr[OF u]
  define found where "found = (case directory_path s n of None \<Rightarrow> None | Some p \<Rightarrow> lookup s (p @ [part]))"
  have "(case found of None \<Rightarrow> raiseS NotFoundX
     | Some i \<Rightarrow> if i_content i = Symlink \<or> directory \<and> i_content i \<noteq> Directory then raiseS OsX else retS i) u = (Inr i, t)"
    using assms u unfolding found_def same_files[OF f, symmetric] by (simp add: os_openat_def bindS_def getsS_def raiseS_def split: if_splits)
  then have "found = Some i" "i_content i \<noteq> Symlink" "directory \<longrightarrow> i_content i = Directory" "t = u"
    by (auto simp: eff_simps split: option.splits if_splits)
  then show ?thesis using that f by (auto simp: found_def split: option.splits)
qed

lemma open_beneath_Inr:
  assumes "open_beneath ev n parts s = (Inr i, t)" "unique_directories s"
  shows "ma_files t = ma_files s \<and> (\<exists>p. directory_path s n = Some p \<and> lookup s (p @ parts) = Some i \<and>
    (\<forall>k. 0 < k \<longrightarrow> k < length parts \<longrightarrow> is_directory s (p @ take k parts)))"
  using assms
proof (induction ev n parts arbitrary: s rule: open_beneath.induct)
  case (2 ev n part)
  then show ?case by (auto elim!: os_openat_Inr)
next
  case (3 ev n part q parts)
  then obtain j u where j: "os_openat ev n part True s = (Inr j, u)" "open_beneath ev (i_number j) (q # parts) u = (Inr i, t)"
    by (auto simp: eff_simps)
  from j(1) obtain p where p: "ma_files u = ma_files s" "directory_path s n = Some p" "lookup s (p @ [part]) = Some j" "i_content j = Directory"
    by (auto elim: os_openat_Inr)
  note f = same_files[OF p(1)]
  have "directory_path s (i_number j) = Some (p @ [part])" by (rule directory_path_lookup[OF p(3,4) 3(3)])
  with 3(1)[OF j(2)] 3(3) have ih: "ma_files t = ma_files s" "lookup s ((p @ [part]) @ q # parts) = Some i"
    "\<forall>k. 0 < k \<longrightarrow> k < length (q # parts) \<longrightarrow> is_directory s ((p @ [part]) @ take k (q # parts))"
    unfolding f p(1) by auto
  have "is_directory s (p @ take k (part # q # parts))" if k: "0 < k" "k < length (part # q # parts)" for k
  proof (cases "k = 1")
    case True
    then show ?thesis using p(3,4) by (simp add: is_directory_def)
  next
    case False
    obtain m where m: "k = Suc m" using k(1) by (cases k) auto
    then have "0 < m" "m < length (q # parts)" using k False by simp_all
    then have "is_directory s ((p @ [part]) @ take m (q # parts))" using ih(3) by blast
    then show ?thesis by (simp add: m)
  qed
  then show ?case using ih(1,2) p(2) by simp
qed (simp add: eff_simps)

lemma read_descriptor_Inr:
  "read_descriptor ev i maximum s = (Inr b, t) \<Longrightarrow> i_content i = Regular b \<and> length b \<le> maximum"
  by (auto simp: read_descriptor_def eff_simps split: file_content.splits if_splits)

lemma read_file_beneath_Inr:
  assumes "read_file_beneath ev h parts maximum s = (Inr b, t)" "unique_directories s"
  shows "\<exists>p i. directory_path s (ph_inode h) = Some p \<and> lookup s (p @ parts) = Some i \<and> i_content i = Regular b \<and> length b \<le> maximum \<and>
    (\<forall>k. 0 < k \<longrightarrow> k < length parts \<longrightarrow> is_directory s (p @ take k parts))"
proof -
  obtain s1 s2 s3 s4 i where c: "os_call ev s = (Inr (), s1)" "os_call ev s1 = (Inr (), s2)" "open_beneath ev (ph_inode h) parts s2 = (Inr i, s3)"
    "read_descriptor ev i maximum s4 = (Inr b, t)"
    using assms(1) by (auto simp: read_file_beneath_def guarded_def eff_simps split: if_splits)
  have f: "ma_files s2 = ma_files s" using os_call_Inr[OF c(1)] os_call_Inr[OF c(2)] by simp
  have "unique_directories s2" using same_files(4)[OF f] assms(2) by simp
  from open_beneath_Inr[OF c(3) this] read_descriptor_Inr[OF c(4)] show ?thesis unfolding same_files[OF f] by blast
qed

lemma relative_to_Some: "relative_to p root = Some parts \<Longrightarrow> pp_root p = pp_root root \<and> pp_parts p = pp_parts root @ parts"
  by (auto simp: relative_to_def split: if_splits) (metis append_take_drop_id)

lemma find_root_Inr:
  "find_root p roots = Inr (h, parts) \<Longrightarrow> \<exists>root. (root, h) \<in> set roots \<and> pp_root p = pp_root root \<and> pp_parts p = pp_parts root @ parts \<and> parts \<noteq> []"
  by (induction p roots rule: find_root.induct) (auto split: option.splits if_splits dest: relative_to_Some)

section \<open>What is registered\<close>

lemma validated_request_valid: "validated_request parse q = Inr r \<Longrightarrow> registration_valid r"
  by (auto simp: validated_request_def bindE_Inr_iff split: request.splits option.splits if_splits)

lemma normalize_dataset_Inr:
  assumes "normalize_dataset env q roots s = (Inr n, t)"
  shows "\<exists>r roots' s' rows digest. validated_request (re_parse env) q = Inr r \<and>
    source_rows_of (re_os env) (re_codec env) roots' (rg_source r) s' = (Inr (rows, digest), t) \<and>
    normalize_rows (re_codec env) (re_year_text env) r rows digest = Inr n"
proof -
  obtain r where r: "validated_request (re_parse env) q = Inr r"
    using assms by (cases "validated_request (re_parse env) q") (auto simp: normalize_dataset_def bindS_def liftS_def)
  then obtain roots' s' x where x: "source_rows_of (re_os env) (re_codec env) roots' (rg_source r) s' = (Inr x, t)"
    "normalize_rows (re_codec env) (re_year_text env) r (fst x) (snd x) = Inr n"
    using assms by (auto simp: normalize_dataset_def eff_simps split: if_splits)
  then show ?thesis using r by (cases x) (simp, blast)
qed

lemma normalize_rows_Inr:
  assumes "normalize_rows c year_text r rows digest = Inr n"
  shows "dataset_payload_valid (nd_payload n) \<and> dataset_record_valid (nd_record n) \<and>
    validate_payload (nd_record n) (nd_payload n) = Inr (nd_record n) \<and> dr_columns (nd_record n) = rg_columns r \<and>
    dr_raw_source_sha256 (nd_record n) = digest \<and>
    (content_sha256 (rg_provenance r) = None \<or> content_sha256 (rg_provenance r) = Some digest) \<and>
    normalized_rows (co_parse_float c) year_text (rg_columns r) rows = Inr (dp_rows (nd_payload n), dr_normalization_events (nd_record n))"
proof -
  obtain table_rows events bounds rec where *: "normalized_rows (co_parse_float c) year_text (rg_columns r) rows = Inr (table_rows, events)"
    "dataset_payload_valid (table_of (rg_columns r) table_rows)"
    "bind_record r digest (table_of (rg_columns r) table_rows) events bounds = Inr rec"
    "n = \<lparr>nd_payload = table_of (rg_columns r) table_rows, nd_record = rec\<rparr>"
    "content_sha256 (rg_provenance r) = None \<or> content_sha256 (rg_provenance r) = Some digest"
    using assms by (auto simp: normalize_rows_def Let_def bindE_Inr_iff split: if_splits)
  have "\<exists>sha. rec = record_of r sha digest table_rows events bounds \<and> dataset_record_valid rec \<and>
      (\<exists>x. validate_payload rec (table_of (rg_columns r) table_rows) = Inr x)"
    using *(3) by (auto simp: bind_record_def Let_def table_of_def split: sum.splits py_exc.splits if_splits)
  moreover have "x = rec" if "validate_payload rec p = Inr x" for p x
    using that by (auto simp: validate_payload_def validate_bounds_def bindE_Inr_iff Let_def split: if_splits list.splits)
  ultimately show ?thesis using * by (auto simp: record_of_def table_of_def)
qed

section \<open>Properties\<close>

text \<open>
  C37 (reads_confined). What is read for a path is the content of a regular file beneath the directory that was pinned for the
  configured root the path lies in, reached through directories only: no symbolic link is followed, no parent step leaves the
  root, and the file is within the size limit.
\<close>

theorem reads_confined:
  assumes "read_root ev r path s = (Inr b, t)" "unique_directories s"
  shows "\<exists>root h parts p i. (root, h) \<in> set (fr_roots r) \<and> \<not> fr_closed r \<and> pp_root (path_of path) = pp_root root \<and>
    pp_parts (path_of path) = pp_parts root @ parts \<and> parts \<noteq> [] \<and> [46, 46] \<notin> set (pp_parts (path_of path)) \<and>
    directory_path s (ph_inode h) = Some p \<and> (\<forall>k. 0 < k \<longrightarrow> k < length parts \<longrightarrow> is_directory s (p @ take k parts)) \<and>
    lookup s (p @ parts) = Some i \<and> i_content i = Regular b \<and> length b \<le> MAX_LOCAL_FILE_BYTES"
proof -
  obtain x where x: "matching_root r (path_of path) = Inr x"
    using assms(1) by (cases "matching_root r (path_of path)") (auto simp: read_root_def bindS_def liftS_def)
  obtain h parts where m: "matching_root r (path_of path) = Inr (h, parts)" "\<not> fr_closed r"
    "read_file_beneath ev h parts MAX_LOCAL_FILE_BYTES s = (Inr b, t)"
    using assms(1) x by (cases x) (auto simp: read_root_def eff_simps split: if_splits)
  from m(1) have "[46, 46] \<notin> set (pp_parts (path_of path))" "find_root (path_of path) (fr_roots r) = Inr (h, parts)"
    by (auto simp: matching_root_def lexical_path_def bindE_Inr_iff split: if_splits)
  moreover then obtain root where "(root, h) \<in> set (fr_roots r)" "pp_root (path_of path) = pp_root root"
    "pp_parts (path_of path) = pp_parts root @ parts" "parts \<noteq> []" using find_root_Inr[of "path_of path"] by blast
  moreover obtain p i where "directory_path s (ph_inode h) = Some p" "lookup s (p @ parts) = Some i" "i_content i = Regular b"
    "length b \<le> MAX_LOCAL_FILE_BYTES" "\<forall>k. 0 < k \<longrightarrow> k < length parts \<longrightarrow> is_directory s (p @ take k parts)"
    using read_file_beneath_Inr[OF m(3) assms(2)] by blast
  ultimately show ?thesis using m(2) by (intro exI[of _ root] exI[of _ h] exI[of _ parts] exI[of _ p] exI[of _ i]) simp
qed


definition demo_directory :: "file_content \<Rightarrow> nat \<Rightarrow> inode" where
  "demo_directory content n = \<lparr>i_content = content, i_owned = True, i_private = True, i_mtime = 0, i_number = n\<rparr>"

definition demo_disk :: machine where
  "demo_disk =
     \<lparr>ma_files = [([], demo_directory Directory 0), ([lit ''d''], demo_directory Directory 1),
        ([lit ''d'', lit ''f''], demo_directory (Regular [1, 2]) 2)],
      ma_calls = 0, ma_next = 3, ma_locks = []\<rparr>"

definition demo_os :: os_env where
  "demo_os = \<lparr>ev_fault = \<lambda>_. False, ev_short = \<lambda>_. 0, ev_kept = \<lambda>_ _. False, ev_seen = \<lambda>_ _. True, ev_time = \<lambda>_. 0,
     ev_umask_private = True, ev_home = []\<rparr>"

definition demo_roots :: file_roots where
  "demo_roots = \<lparr>fr_closed = False, fr_roots = [(path_of (lit ''/d''), \<lparr>ph_inode = 1, ph_closed = False\<rparr>)]\<rparr>"

lemma demo_registration_paths:
  "path_of [47, 100, 47, 102] = \<lparr>pp_root = [47], pp_parts = [[100], [102]]\<rparr>" "path_of [47, 100] = \<lparr>pp_root = [47], pp_parts = [[100]]\<rparr>"
  by (simp_all add: path_of_def starts_with_def)

lemma demo_read: "fst (read_root demo_os demo_roots (lit ''/d/f'') demo_disk) = Inr [1, 2]"
proof -
  have "matching_root demo_roots (path_of (lit ''/d/f'')) = Inr (\<lparr>ph_inode = 1, ph_closed = False\<rparr>, [[102]])"
    by (simp add: matching_root_def lexical_path_def demo_registration_paths path_text_def path_suffix_def demo_roots_def relative_to_def
        ARCHIVE_SUFFIXES_def casefold_ascii_def lit_def Let_def)
  then show ?thesis
    by (simp add: read_root_def read_file_beneath_def guarded_def bindS_def liftS_def catchS_def getsS_def retS_def raiseS_def os_call_def
        demo_os_def demo_roots_def os_openat_def directory_path_def lookup_def demo_disk_def demo_directory_def is_regular_def
        read_descriptor_def MAX_LOCAL_FILE_BYTES_def lit_def)
qed

theorem reads_confined_witness:
  "\<exists>i. read_root demo_os demo_roots (lit ''/d/f'') demo_disk = (Inr [1, 2], snd (read_root demo_os demo_roots (lit ''/d/f'') demo_disk)) \<and>
     directory_path demo_disk 1 = Some [lit ''d''] \<and> lookup demo_disk [lit ''d'', lit ''f''] = Some i \<and> i_content i = Regular [1, 2]"
proof -
  have run: "read_root demo_os demo_roots (lit ''/d/f'') demo_disk = (Inr [1, 2], snd (read_root demo_os demo_roots (lit ''/d/f'') demo_disk))"
    using demo_read by (metis prod.collapse)
  have "unique_directories demo_disk" by (simp add: unique_directories_def demo_disk_def demo_directory_def)
  from reads_confined[OF run this] obtain root h parts p i where *: "(root, h) \<in> set (fr_roots demo_roots)"
    "pp_parts (path_of (lit ''/d/f'')) = pp_parts root @ parts" "directory_path demo_disk (ph_inode h) = Some p"
    "lookup demo_disk (p @ parts) = Some i" "i_content i = Regular [1, 2]" by blast
  moreover have "directory_path demo_disk 1 = Some [lit ''d'']" by (simp add: directory_path_def demo_disk_def demo_directory_def)
  ultimately show ?thesis using run by (auto simp: demo_roots_def demo_registration_paths lit_def)
qed

definition demo_registry :: registry_env where
  "demo_registry = \<lparr>re_os = demo_os, re_codec = demo_registry_codec, re_year_text = decimals 4, re_parse = \<lambda>_. None\<rparr>"

lemma demo_registered: "\<exists>n. normalize_dataset demo_registry (Registration demo_registration) (RootPaths []) demo_disk = (Inr n, demo_disk)"
proof -
  have source: "rg_source demo_registration = InlineRowsSource demo_rows" "rg_columns demo_registration = [demo_column]"
    "p_references (rg_provenance demo_registration) = []" "assumptions (rg_provenance demo_registration) = []"
    "p_label (rg_provenance demo_registration) = lit ''l''" by (simp_all add: demo_registration_def)
  have "canonical_ok (PList (map PDict demo_rows))" by (simp add: demo_rows_def MAX_SAFE_INTEGER_def)
  then obtain b where b: "canonical_json_bytes (PList (map PDict demo_rows)) = Inr b"
    using is_ok_canonical_json_bytes[of "PList (map PDict demo_rows)"] by (auto simp: is_ok_iff)
  have "pattern_ok SHA256_PATTERN (sha256_hexdigest b)" using set_sha256_hexdigest by (auto simp: sha256_ok_iff length_sha256_hexdigest)
  then obtain n where n: "normalize_rows demo_registry_codec (decimals 4) demo_registration demo_json (sha256_hexdigest b) = Inr n"
    using demo_normalize by blast
  have "utf8_encode (lit ''l'') = Some (map byte_of (lit ''l''))" by (rule utf8_ascii) (simp add: lit_def)
  then have caller: "validate_caller_text demo_registration = Inr ()"
    by (simp add: validate_caller_text_def registry_utf8_size_def source Let_def lit_def)
  have "validated_request (\<lambda>_. None) (Registration demo_registration) = Inr demo_registration"
    using demo_registration_valid by (simp add: validated_request_def)
  then show ?thesis using n b caller
    by (simp add: normalize_dataset_def demo_registry_def open_roots_def MAX_CONFIGURED_ROOTS_def MAX_DATASET_COLUMNS_def source
        source_rows_of_def bindS_def liftS_def retS_def)
qed


end
