(* ===== verification/Spec2Isabelle.thy ===== *)
theory Spec2Isabelle
  imports Framing Authorization Record_Identity Ports Bundles Record_Views Dataset_Registry
begin

text \<open>
  A verification library for the Defined Quant component catalog.

  \<^bold>\<open>The program.\<close> The repository holds a catalog of financial calculations and the host that runs them for agents. A
  host reads requests as bounded binary frames (\<^verbatim>\<open>shared/stdio_framing.py\<close>), names everything by domain-separated
  SHA-256 hashes of a tagged canonical JSON (\<^verbatim>\<open>protocol/canonical.py\<close>), resolves components in a catalog on disk and
  hashes their closure (\<^verbatim>\<open>shared/catalog.py\<close>), evaluates the constraints of their contracts before a run
  (\<^verbatim>\<open>shared/validation.py\<close>), validates and authorizes managed plans (\<^verbatim>\<open>shared/plan_validation.py\<close> over the records of
  \<^verbatim>\<open>protocol/\<close>), compares semantic ports (\<^verbatim>\<open>protocol/ports.py\<close>), keeps datasets and operations as immutable records
  (\<^verbatim>\<open>shared/data_records.py\<close>, \<^verbatim>\<open>shared/operation_records.py\<close>) in a session store (\<^verbatim>\<open>shared/session_cas.py\<close> on
  \<^verbatim>\<open>shared/_posix_local_host.py\<close>), and reports failures in closed envelopes (\<^verbatim>\<open>shared/host_failures.py\<close>).

  \<^bold>\<open>What models what.\<close>

  \<^item> Foundations. \<open>Prelude\<close>: results \<open>'e + 'a\<close> with \<open>bindE\<close> and \<open>mapE\<close>, list and word lemmas, rewrite collections.
    \<open>Utf8\<close>, \<open>Py_Values\<close> (Python values, IEEE doubles as 64-bit words), \<open>Py_Text\<close>, \<open>Calendar\<close> (dates and datetimes),
    \<open>Py_Compare\<close> (equality and ordering), \<open>Regex\<close> (the patterns, by derivatives), \<open>Sha256\<close> (bit for bit), \<open>Effects\<close> (state, exceptions,
    \<^verbatim>\<open>try\<close>/\<^verbatim>\<open>finally\<close>, with the rule collections \<open>eff_simps\<close>, \<open>keeps_intros\<close>, \<open>raises_intros\<close>).
  \<^item> \<open>Framing\<close>: \<^verbatim>\<open>stdio_framing.py\<close>; a reader record with its buffer, the descriptor as a function of the call number.
  \<^item> \<open>Canonical\<close>: \<^verbatim>\<open>canonical.py\<close>; tagged trees, the encoder and the hash framing. \<open>Hashed\<close>: the interface of every
    record that is hashed through its JSON projection, interpreted once per record type.
  \<^item> \<open>Constraints\<close>: \<^verbatim>\<open>validation.py\<close>; measures, operands, nested expressions, questions, defaults, rules, preflight.
  \<^item> \<open>Operation\<close>, \<open>Managed\<close>, \<open>Ports\<close>: the records of \<^verbatim>\<open>protocol/operation.py\<close>, \<^verbatim>\<open>policy.py\<close>, \<^verbatim>\<open>plan.py\<close>,
    \<^verbatim>\<open>authorization.py\<close> and \<^verbatim>\<open>ports.py\<close> with their validators; the predicates \<open>*_valid\<close> are what Pydantic enforces.
  \<^item> \<open>Catalog\<close>, \<open>Plan_Validation\<close>, \<open>Authorization\<close>: \<^verbatim>\<open>catalog.py\<close> and \<^verbatim>\<open>plan_validation.py\<close>; the file tree is an argument,
    the subject cache is state that is passed on.
  \<^item> \<open>Json_Text\<close>, \<open>Json_Documents\<close>, \<open>Json_Pretty\<close>: the JSON writer and strict reader of \<^verbatim>\<open>data_records.py\<close>;
    \<open>Data_Records\<close>, \<open>Operation_Record\<close>, \<open>Record_Identity\<close>, \<open>Record_Documents\<close>: its references, tables, dataset and
    operation records.
  \<^item> \<open>Host_Failures\<close>: \<^verbatim>\<open>host_failures.py\<close>. \<open>Reconcile\<close>, \<open>Bundles\<close>: \<^verbatim>\<open>operation_records.py\<close>.
  \<^item> \<open>Posix_Files\<close>: the operations of \<^verbatim>\<open>_posix_local_host.py\<close> on a machine of files, locks and a call counter; \<open>Session_Cas\<close>:
    \<^verbatim>\<open>session_cas.py\<close>, whose fields are the record \<open>cas\<close>. \<open>Session_Safety\<close>, \<open>Session_Refinement\<close>, \<open>Session_Liveness\<close> and
    \<open>Session_Properties\<close> hold its invariants, its refinement and its progress.
  \<^item> \<open>Timestamps\<close>, \<open>Csv\<close>, \<open>Normalization\<close>, \<open>Dataset_Registry\<close>: \<^verbatim>\<open>dataset_registry.py\<close>; calendar arithmetic and the states of
    \<^verbatim>\<open>csv.reader\<close>, the cells, rows and events of a source, the configured roots on the machine, and \<^verbatim>\<open>normalize_dataset\<close>.
  \<^item> \<open>Cursors\<close>: the page cursors of \<^verbatim>\<open>session_cas.py\<close> with Base64 and HMAC-SHA-256; \<open>Record_Views\<close>: \<^verbatim>\<open>record_views.py\<close>, whose
    views run in the state of the store.

  \<^bold>\<open>What the lemmas show.\<close> Framing: the frames are the lines of the stream however it is cut up. Hashing: equal hashes mean
  equal values or an explicit SHA-256 collision; nothing assumes that SHA-256 is injective. Constraints: the evaluator
  agrees with a big-step semantics, and every outcome of preflight is characterized, warnings and refusals alike. Plans: a receipt is issued exactly under the
  authorization conditions, an honest chain verifies, one binding serves one plan. Documents: what is written reads back.
  Records: references identify contents; a built record reconciles with its bundle and an exported bundle is what the record
  lists. Failures: no caller-controlled text reaches a host failure. Store: for arbitrary interleavings of sessions, faults
  of the machine and tampering with its files, the books of each session are kept, only verified records load, foreign references
  are refused, and the trace of a session is a trace of an immutable map. Registration: reads stay beneath the pinned roots,
  cells keep their values and timestamps their instants, and what is normalized passes the checks of its records on every platform
  (a year before 1000 that the platform does not pad is the one exception, and it is stated). Views: a cursor is bound to its record, view and
  selector, the pages a client follows show every item once and in order, and every view fits the response budget.

  \<^bold>\<open>Parameters, bounds and fuel.\<close> \<^verbatim>\<open>os.read\<close>, \<^verbatim>\<open>os.write\<close>, the file tree of the catalog, \<^verbatim>\<open>repr\<close> and parsing of floats, the
  Pydantic parsers of stored records (whose results are validated by the modelled rules), random tokens, the clock and the
  faults of the machine, and the text \<^verbatim>\<open>strftime\<close> gives a year are arguments; what a property needs of them is a hypothesis with a witness. The JSON scanner has
  fuel twice the length of its text, which always suffices (\<open>scanner_total\<close>); the constraint evaluator recurses over the depth
  bound of the source, the schema walks over the references they have not visited, and the stage loop of the store tries
  100 names as the source does.

  \<^bold>\<open>Not modelled.\<close> The recursion limit of the interpreter, which very deeply nested documents reach. The Win32 file provider (\<^verbatim>\<open>shared/_windows_local_host.py\<close>), the worker processes
  (\<^verbatim>\<open>shared/worker_*.py\<close>, \<^verbatim>\<open>shared/_*_worker.py\<close>) and the choice of the platform (\<^verbatim>\<open>shared/local_host_platform.py\<close>) are
  system calls; \<^verbatim>\<open>shared/operation_runtime.py\<close> imports and runs component modules; \<^verbatim>\<open>shared/service.py\<close> and \<^verbatim>\<open>mcp_server/\<close>
  dispatch to what is modelled; \<^verbatim>\<open>shared/discovery.py\<close> and \<^verbatim>\<open>shared/charts.py\<close> rank text and draw;
  \<^verbatim>\<open>categories/\<close> are floating-point formulas; \<^verbatim>\<open>authoring/\<close> and \<^verbatim>\<open>.agents/\<close> are tools for developers.
\<close>

end
